(* ===== verification/Prelude.thy ===== *)
theory Prelude
  imports Main "HOL-Library.State_Monad" "HOL-Library.AList" "HOL-Library.Multiset"
begin

text \<open>
  Generic material the components share: Go maps as association lists with a nil value,
  the iteration order of a Go map as an explicit choice, and assertions about stateful code.
  Stateful code is a value of the library type \<open>('s, 'a) state\<close>; an assertion
  \<open>triple abs P m Q\<close> speaks about what an abstraction \<open>abs\<close> of the state satisfies before
  and after \<open>m\<close>, so that a handler can be verified against any provider of the state.
\<close>

named_theorems wp "weakest preconditions of the constructs of stateful code"
named_theorems keeping "what keeps an invariant"

section \<open>Assertions about stateful code\<close>

definition triple ::
  "('s \<Rightarrow> 'c) \<Rightarrow> ('c \<Rightarrow> bool) \<Rightarrow> ('s, 'a) state \<Rightarrow> ('a \<Rightarrow> 'c \<Rightarrow> bool) \<Rightarrow> bool"
where
  "triple ab P m Q \<longleftrightarrow>
     (\<forall>s. P (ab s) \<longrightarrow> Q (fst (run_state m s)) (ab (snd (run_state m s))))"

lemma tripleI:
  assumes "\<And>s r s'. P (ab s) \<Longrightarrow> run_state m s = (r, s') \<Longrightarrow> Q r (ab s')"
  shows "triple ab P m Q"
  using assms by (auto simp: triple_def prod_eq_iff)

lemma tripleD:
  assumes "triple ab P m Q" and "P (ab s)" and "run_state m s = (r, s')"
  shows "Q r (ab s')"
  using assms by (force simp: triple_def)

lemma triple_weaken:
  assumes "triple ab P' m Q'" and "\<And>c. P c \<Longrightarrow> P' c" and "\<And>x c. Q' x c \<Longrightarrow> Q x c"
  shows "triple ab P m Q"
  using assms by (auto simp: triple_def)

lemma triple_pre:
  assumes "triple ab P' m Q" and "\<And>c. P c \<Longrightarrow> P' c"
  shows "triple ab P m Q"
  using assms by (auto simp: triple_def)

lemma triple_post:
  assumes "triple ab P m Q'" and "\<And>x c. Q' x c \<Longrightarrow> Q x c"
  shows "triple ab P m Q"
  using assms by (auto simp: triple_def)

lemma triple_conj:
  assumes "triple ab P m Q" and "triple ab P m Q'"
  shows "triple ab P m (\<lambda>x c. Q x c \<and> Q' x c)"
  using assms by (auto simp: triple_def)

text \<open>A proved triple as a weakest precondition, for the calls of a recursion.\<close>

lemma triple_wp:
  assumes "triple ab P m Q'"
  shows "triple ab (\<lambda>c. P c \<and> (\<forall>x c'. Q' x c' \<longrightarrow> Q x c')) m Q"
  using assms by (auto simp: triple_def)

text \<open>
  The collection \<open>wp\<close> computes the weakest precondition backwards from the last command: a goal
  \<open>triple ab P m Q\<close> is \<open>rule triple_pre\<close>, then \<open>rule wp\<close> as often as it applies, and what is left
  is that \<open>P\<close> implies the computed assertion.
\<close>

lemma triple_bind [wp]:
  assumes "\<And>x. triple ab (R x) (f x) Q" and "triple ab P m R"
  shows "triple ab P (m \<bind> f) Q"
  using assms by (fastforce simp: triple_def split: prod.splits)

lemma triple_return [wp]: "triple ab (\<lambda>c. Q x c) (State_Monad.return x) Q"
  by (simp add: triple_def)

lemma triple_if [wp]:
  assumes "triple ab P m Q" and "triple ab P' n Q"
  shows "triple ab (\<lambda>c. (b \<longrightarrow> P c) \<and> (\<not> b \<longrightarrow> P' c)) (if b then m else n) Q"
  using assms by (simp add: triple_def)

lemma triple_case_sum [wp]:
  assumes "\<And>e. triple ab (P e) (f e) Q" and "\<And>x. triple ab (P' x) (g x) Q"
  shows "triple ab (\<lambda>c. (\<forall>e. r = Inl e \<longrightarrow> P e c) \<and> (\<forall>x. r = Inr x \<longrightarrow> P' x c))
           (case r of Inl e \<Rightarrow> f e | Inr x \<Rightarrow> g x) Q"
  using assms by (auto simp: triple_def split: sum.split)

lemma triple_case_option [wp]:
  assumes "triple ab P m Q" and "\<And>x. triple ab (P' x) (g x) Q"
  shows "triple ab (\<lambda>c. (r = None \<longrightarrow> P c) \<and> (\<forall>x. r = Some x \<longrightarrow> P' x c))
           (case r of None \<Rightarrow> m | Some x \<Rightarrow> g x) Q"
  using assms by (auto simp: triple_def split: option.split)

lemma triple_case_prod [wp]:
  assumes "\<And>x y. triple ab (P x y) (f x y) Q"
  shows "triple ab (\<lambda>c. \<forall>x y. r = (x, y) \<longrightarrow> P x y c) (case r of (x, y) \<Rightarrow> f x y) Q"
  using assms by (auto simp: triple_def split: prod.split)

lemma triple_let [wp]:
  assumes "\<And>x. triple ab (P x) (f x) Q"
  shows "triple ab (P t) (let x = t in f x) Q"
  using assms by (simp add: Let_def)

section \<open>Invariants of stateful code\<close>

text \<open>\<open>keeps ab I m\<close>: running \<open>m\<close> from a state that satisfies \<open>I\<close> ends in one.\<close>

abbreviation keeps :: "('s \<Rightarrow> 'c) \<Rightarrow> ('c \<Rightarrow> bool) \<Rightarrow> ('s, 'a) state \<Rightarrow> bool" where
  "keeps ab I m \<equiv> triple ab I m (\<lambda>_. I)"

lemma keeps_bind [keeping]: "keeps ab I m \<Longrightarrow> (\<And>x. keeps ab I (f x)) \<Longrightarrow> keeps ab I (m \<bind> f)"
  by (rule triple_bind)

lemma keeps_return [keeping]: "keeps ab I (State_Monad.return x)"
  by (rule triple_return)

lemma keeps_if [keeping]:
  "(b \<Longrightarrow> keeps ab I m) \<Longrightarrow> (\<not> b \<Longrightarrow> keeps ab I n) \<Longrightarrow> keeps ab I (if b then m else n)"
  by simp

lemma keeps_case_sum [keeping]:
  "(\<And>e. r = Inl e \<Longrightarrow> keeps ab I (f e)) \<Longrightarrow> (\<And>x. r = Inr x \<Longrightarrow> keeps ab I (g x))
     \<Longrightarrow> keeps ab I (case r of Inl e \<Rightarrow> f e | Inr x \<Rightarrow> g x)"
  by (simp split: sum.split)

lemma keeps_case_option [keeping]:
  "(r = None \<Longrightarrow> keeps ab I m) \<Longrightarrow> (\<And>x. r = Some x \<Longrightarrow> keeps ab I (g x))
     \<Longrightarrow> keeps ab I (case r of None \<Rightarrow> m | Some x \<Rightarrow> g x)"
  by (simp split: option.split)

lemma keeps_case_prod [keeping]:
  "(\<And>x y. r = (x, y) \<Longrightarrow> keeps ab I (f x y)) \<Longrightarrow> keeps ab I (case r of (x, y) \<Rightarrow> f x y)"
  by (simp split: prod.split)

lemma keeps_let [keeping]: "(\<And>x. keeps ab I (f x)) \<Longrightarrow> keeps ab I (let x = t in f x)"
  by (simp add: Let_def)

section \<open>Reads and writes\<close>

text \<open>
  The law of one call: \<open>reads ab m \<Phi>\<close> says that \<open>m\<close> leaves the abstract state alone and that
  its answer satisfies \<open>\<Phi>\<close> there; \<open>writes ab m \<Psi>\<close> relates the abstract state before, the answer
  and the abstract state after.
\<close>

definition reads :: "('s \<Rightarrow> 'c) \<Rightarrow> ('s, 'a) state \<Rightarrow> ('c \<Rightarrow> 'a \<Rightarrow> bool) \<Rightarrow> bool" where
  "reads ab m \<Phi> \<longleftrightarrow>
     (\<forall>s r s'. run_state m s = (r, s') \<longrightarrow> ab s' = ab s \<and> \<Phi> (ab s) r)"

definition writes :: "('s \<Rightarrow> 'c) \<Rightarrow> ('s, 'a) state \<Rightarrow> ('c \<Rightarrow> 'a \<Rightarrow> 'c \<Rightarrow> bool) \<Rightarrow> bool" where
  "writes ab m \<Psi> \<longleftrightarrow> (\<forall>s r s'. run_state m s = (r, s') \<longrightarrow> \<Psi> (ab s) r (ab s'))"

lemma readsI:
  assumes "\<And>s r s'. run_state m s = (r, s') \<Longrightarrow> ab s' = ab s \<and> \<Phi> (ab s) r"
  shows "reads ab m \<Phi>"
  using assms by (auto simp: reads_def)

lemma writesI:
  assumes "\<And>s r s'. run_state m s = (r, s') \<Longrightarrow> \<Psi> (ab s) r (ab s')"
  shows "writes ab m \<Psi>"
  using assms by (auto simp: writes_def)

lemma reads_wp: "reads ab m \<Phi> \<Longrightarrow> triple ab (\<lambda>c. \<forall>r. \<Phi> c r \<longrightarrow> Q r c) m Q"
  by (rule tripleI) (auto simp: reads_def)

lemma writes_wp: "writes ab m \<Psi> \<Longrightarrow> triple ab (\<lambda>c. \<forall>r c'. \<Psi> c r c' \<longrightarrow> Q r c') m Q"
  by (rule tripleI) (auto simp: writes_def)

lemma reads_from_triple:
  assumes "\<And>c0. triple ab (\<lambda>c. c = c0) m (\<lambda>r c. c = c0 \<and> \<Phi> c0 r)"
  shows "reads ab m \<Phi>"
proof (rule readsI)
  fix s r s' assume "run_state m s = (r, s')"
  with tripleD [OF assms [of "ab s"], of s r s'] show "ab s' = ab s \<and> \<Phi> (ab s) r" by simp
qed

lemma writes_from_triple:
  assumes "\<And>c0. triple ab (\<lambda>c. c = c0) m (\<lambda>r c. \<Psi> c0 r c)"
  shows "writes ab m \<Psi>"
proof (rule writesI)
  fix s r s' assume "run_state m s = (r, s')"
  with tripleD [OF assms [of "ab s"], of s r s'] show "\<Psi> (ab s) r (ab s')" by simp
qed

lemma reads_triple: "reads ab m \<Phi> \<Longrightarrow> triple ab P m (\<lambda>r c. P c \<and> \<Phi> c r)"
  by (rule tripleI) (auto simp: reads_def)

lemma reads_keeps: "reads ab m \<Phi> \<Longrightarrow> keeps ab I m"
  by (rule tripleI) (auto simp: reads_def)

lemma reads_conj: "reads ab m \<Phi> \<Longrightarrow> reads ab m \<Phi>' \<Longrightarrow> reads ab m (\<lambda>c r. \<Phi> c r \<and> \<Phi>' c r)"
  by (auto simp: reads_def)

lemma reads_mono: "reads ab m \<Phi> \<Longrightarrow> (\<And>c r. \<Phi> c r \<Longrightarrow> \<Phi>' c r) \<Longrightarrow> reads ab m \<Phi>'"
  by (auto simp: reads_def)

lemma writes_mono: "writes ab m \<Psi> \<Longrightarrow> (\<And>c r c'. \<Psi> c r c' \<Longrightarrow> \<Psi>' c r c') \<Longrightarrow> writes ab m \<Psi>'"
  by (auto simp: writes_def)

text \<open>A write keeps an invariant that its effect keeps.\<close>

lemma writes_keeps:
  assumes "writes ab m \<Psi>" and "\<And>c r c'. I c \<Longrightarrow> \<Psi> c r c' \<Longrightarrow> I c'"
  shows "keeps ab I m"
  using assms unfolding writes_def triple_def by (metis prod.collapse)

section \<open>Go maps\<close>

text \<open>
  A Go map is nil or a finite map. It is held as an association list, whose order the code
  cannot see: an iteration draws its order (\<open>pick_order\<close> below). Reading a nil map or an
  absent key yields the zero value.
\<close>

type_synonym 'v gomap = "(string \<times> 'v) list option"

definition gm_lookup :: "'v gomap \<Rightarrow> string \<Rightarrow> 'v option" where
  "gm_lookup m k = (case m of None \<Rightarrow> None | Some l \<Rightarrow> map_of l k)"

definition gm_get :: "string gomap \<Rightarrow> string \<Rightarrow> string" where
  "gm_get m k = (case gm_lookup m k of None \<Rightarrow> '''' | Some v \<Rightarrow> v)"

definition gm_items :: "'v gomap \<Rightarrow> (string \<times> 'v) list" where
  "gm_items m = (case m of None \<Rightarrow> [] | Some l \<Rightarrow> l)"

definition gm_wf :: "'v gomap \<Rightarrow> bool" where
  "gm_wf m \<longleftrightarrow> distinct (map fst (gm_items m))"

lemma gm_lookup_simps [simp]:
  "gm_lookup None k = None"
  "gm_lookup (Some l) k = map_of l k"
  by (simp_all add: gm_lookup_def)

lemma gm_get_simps [simp]:
  "gm_get None k = ''''"
  "gm_get (Some l) k = (case map_of l k of None \<Rightarrow> '''' | Some v \<Rightarrow> v)"
  by (simp_all add: gm_get_def)

lemma gm_items_simps [simp]: "gm_items None = []" "gm_items (Some l) = l"
  by (simp_all add: gm_items_def)

lemma map_of_update [simp]: "map_of (AList.update k v l) = (map_of l)(k \<mapsto> v)"
  by (rule update_conv')

lemma map_of_SomeI_distinct:
  "distinct (map fst l) \<Longrightarrow> map_of l k = Some v \<longleftrightarrow> (k, v) \<in> set l"
  by (simp add: map_of_eq_Some_iff)

section \<open>Iteration order\<close>

text \<open>
  Go iterates over a map in an unspecified order, a new one for each loop. The model draws a
  number for each loop and uses the permutation it encodes; every permutation is encoded by
  some number (\<open>pick_order_surj\<close>), so a theorem for all draws holds for all orders.
\<close>

definition insert_at :: "nat \<Rightarrow> 'a \<Rightarrow> 'a list \<Rightarrow> 'a list" where
  "insert_at i x xs = take i xs @ x # drop i xs"

fun pick_order :: "nat \<Rightarrow> 'a list \<Rightarrow> 'a list" where
  "pick_order n [] = []"
| "pick_order n (x # xs) =
     insert_at (n mod Suc (length xs)) x (pick_order (n div Suc (length xs)) xs)"

lemma mset_insert_at [simp]: "mset (insert_at i x xs) = add_mset x (mset xs)"
proof -
  have "mset (insert_at i x xs) = add_mset x (mset (take i xs @ drop i xs))"
    by (simp add: insert_at_def del: append_take_drop_id)
  then show ?thesis by simp
qed

lemma mset_pick_order [simp]: "mset (pick_order n xs) = mset xs"
  by (induction n xs rule: pick_order.induct) simp_all

lemma set_pick_order [simp]: "set (pick_order n xs) = set xs"
  by (metis mset_pick_order set_mset_mset)

lemma list_ex_pick_order [simp]: "list_ex P (pick_order n xs) = list_ex P xs"
  by (simp add: list_ex_iff)

lemma length_pick_order [simp]: "length (pick_order n xs) = length xs"
  by (metis mset_pick_order size_mset)

lemma distinct_pick_order [simp]: "distinct (pick_order n xs) = distinct xs"
  by (metis mset_pick_order mset_eq_imp_distinct_iff)

text \<open>A permutation of mapped elements comes from a permutation of the elements.\<close>

lemma permuted_map:
  "mset ys = mset (map f xs) \<Longrightarrow> \<exists>zs. mset zs = mset xs \<and> map f zs = ys"
proof (induction ys arbitrary: xs)
  case Nil
  then show ?case by simp
next
  case (Cons y ys)
  then have "y \<in> set (map f xs)" by (metis list.set_intros(1) mset_eq_setD)
  then obtain x as bs where x: "xs = as @ x # bs" "f x = y" by (auto dest: split_list)
  with Cons.prems have "mset ys = mset (map f (as @ bs))" by simp
  with Cons.IH obtain zs where "mset zs = mset (as @ bs)" "map f zs = ys" by blast
  with x show ?case by (intro exI [of _ "x # zs"]) simp
qed

lemma pick_order_surj:
  assumes "mset ys = mset xs"
  shows "\<exists>n. pick_order n xs = ys"
  using assms
proof (induction xs arbitrary: ys)
  case Nil
  then show ?case by simp
next
  case (Cons x xs)
  from Cons.prems have "x \<in> set ys"
    by (metis list.set_intros(1) mset_eq_setD)
  then obtain as bs where ys: "ys = as @ x # bs" by (meson split_list)
  with Cons.prems have "mset (as @ bs) = mset xs" by simp
  then obtain n where n: "pick_order n xs = as @ bs" using Cons.IH by blast
  let ?m = "Suc (length xs)"
  have len: "length as + length bs = length xs"
    by (metis n length_pick_order length_append)
  then have "(n * ?m + length as) mod ?m = length as"
    by (metis le_add1 less_Suc_eq_le mod_less mod_mult_self3)
  moreover have "(n * ?m + length as) div ?m = n"
  proof -
    have "length as div ?m = 0" using len by simp
    moreover have "(n * ?m + length as) div ?m = n + length as div ?m"
      by (rule div_mult_self3) simp
    ultimately show ?thesis by simp
  qed
  ultimately have "pick_order (n * ?m + length as) (x # xs) = ys"
    using n by (simp add: insert_at_def ys)
  then show ?case by blast
qed

lemma pick_order_filter:
  assumes "mset fs = mset (filter P xs)"
  shows "\<exists>n. filter P (pick_order n xs) = fs"
proof -
  have "mset (fs @ filter (\<lambda>x. \<not> P x) xs) = mset xs"
    using assms by (simp add: mset_filter)
  then obtain n where n: "pick_order n xs = fs @ filter (\<lambda>x. \<not> P x) xs"
    using pick_order_surj by blast
  have "set fs = set (filter P xs)" using assms by (rule mset_eq_setD)
  then have "filter P (pick_order n xs) = fs" by (simp add: n)
  then show ?thesis by blast
qed

end
