(* ===== verification/GoRuntime.thy ===== *)
theory GoRuntime
  imports Prelude "HOL-Library.Char_ord" "HOL-Library.List_Lexorder"
begin

text \<open>
  The parts of Go's standard library the program calls: \<open>strings.EqualFold\<close> against an ASCII
  word, \<open>strings.Join\<close>, and the byte order on strings. A Go string is a list of bytes, which
  is what Isabelle's type \<open>string\<close> is.
\<close>

section \<open>Case folding\<close>

definition lower_byte :: "char \<Rightarrow> char" where
  "lower_byte c =
     (if 65 \<le> (of_char c :: nat) \<and> (of_char c :: nat) \<le> 90 then char_of ((of_char c :: nat) + 32) else c)"

definition below_128 :: "char \<Rightarrow> bool" where
  "below_128 c \<longleftrightarrow> (of_char c :: nat) < 128"

text \<open>Both are bit operations on the byte, which is how they are evaluated.\<close>

lemma lower_byte_code [code]:
  "lower_byte (Char b0 b1 b2 b3 b4 b5 b6 b7) =
     (if \<not> b7 \<and> b6 \<and> \<not> b5 \<and> (b0 \<or> b1 \<or> b2 \<or> b3 \<or> b4) \<and> \<not> (b4 \<and> b3 \<and> (b2 \<or> b1 \<and> b0))
      then Char b0 b1 b2 b3 b4 True b6 b7 else Char b0 b1 b2 b3 b4 b5 b6 b7)"
  by (cases b0; cases b1; cases b2; cases b3; cases b4; cases b5; cases b6; cases b7)
    (simp_all add: lower_byte_def char_of_def bit_0)

lemma below_128_code [code]: "below_128 (Char b0 b1 b2 b3 b4 b5 b6 b7) = (\<not> b7)"
  by (cases b0; cases b1; cases b2; cases b3; cases b4; cases b5; cases b6; cases b7)
    (simp_all add: below_128_def)

text \<open>
  \<open>strings.EqualFold(s, t)\<close> for a \<open>t\<close> that is an ASCII word, the only way the program uses it.
  Bytes below 128 compare with the case of ASCII letters ignored. Two runes outside ASCII have a
  simple folding into it: U+017F (bytes C5 BF) folds with s and U+212A (bytes E2 84 AA) with k;
  every other rune differs from every ASCII letter.
\<close>

fun EqualFold :: "string \<Rightarrow> string \<Rightarrow> bool" where
  "EqualFold [] t = (t = [])"
| "EqualFold (c # s) [] = False"
| "EqualFold (c # s) (d # t) =
     (if below_128 c then lower_byte c = lower_byte d \<and> EqualFold s t
      else if (of_char c :: nat) = 0xC5
      then (case s of c2 # s' \<Rightarrow>
              (of_char c2 :: nat) = 0xBF \<and> lower_byte d = CHR ''s'' \<and> EqualFold s' t
            | [] \<Rightarrow> False)
      else if (of_char c :: nat) = 0xE2
      then (case s of c2 # c3 # s' \<Rightarrow>
              (of_char c2 :: nat) = 0x84 \<and> (of_char c3 :: nat) = 0xAA
                \<and> lower_byte d = CHR ''k'' \<and> EqualFold s' t
            | _ \<Rightarrow> False)
      else False)"

definition is_ascii :: "string \<Rightarrow> bool" where
  "is_ascii s \<longleftrightarrow> list_all below_128 s"

lemma is_ascii_simps [simp]:
  "is_ascii []"
  "is_ascii (c # s) \<longleftrightarrow> below_128 c \<and> is_ascii s"
  by (simp_all add: is_ascii_def)

text \<open>On ASCII strings it is equality of the lower-case forms.\<close>

lemma EqualFold_ascii: "is_ascii s \<Longrightarrow> EqualFold s t \<longleftrightarrow> map lower_byte s = map lower_byte t"
  by (induction s t rule: EqualFold.induct) auto

lemma EqualFold_refl: "is_ascii s \<Longrightarrow> EqualFold s s"
  by (simp add: EqualFold_ascii)

section \<open>Joining strings\<close>

fun Join :: "string list \<Rightarrow> string \<Rightarrow> string" where
  "Join [] sep = ''''"
| "Join [a] sep = a"
| "Join (a # b # as) sep = a @ sep @ Join (b # as) sep"

lemma Join_Cons: "Join (a # as) sep = (if as = [] then a else a @ sep @ Join as sep)"
  by (cases as) simp_all

end
