(* ===== verification/ApiMeta.thy ===== *)
theory ApiMeta
  imports GoRuntime
begin

text \<open>
  The Kubernetes object model the program is written against: names, object metadata, owner
  references, API errors, label selectors, status conditions and the type registry (scheme).
  The sources are the vendored packages apimachinery (\<open>types\<close>, \<open>labels\<close>, \<open>api/errors\<close>,
  \<open>runtime\<close>), knative's \<open>apis\<close> and controller-runtime's \<open>controllerutil\<close>.
\<close>

section \<open>Names\<close>

datatype NamespacedName = NamespacedName (nnNamespace: string) (nnName: string)

text \<open>Keys are ordered by namespace, then by name, each in byte order.\<close>

instantiation NamespacedName :: linorder
begin

definition less_eq_NamespacedName :: "NamespacedName \<Rightarrow> NamespacedName \<Rightarrow> bool" where
  "less_eq_NamespacedName a b \<longleftrightarrow>
     nnNamespace a < nnNamespace b \<or> nnNamespace a = nnNamespace b \<and> nnName a \<le> nnName b"

definition less_NamespacedName :: "NamespacedName \<Rightarrow> NamespacedName \<Rightarrow> bool" where
  "less_NamespacedName a b \<longleftrightarrow>
     nnNamespace a < nnNamespace b \<or> nnNamespace a = nnNamespace b \<and> nnName a < nnName b"

instance
proof
  fix x y z :: NamespacedName
  show "x < y \<longleftrightarrow> x \<le> y \<and> \<not> y \<le> x"
    by (auto simp: less_eq_NamespacedName_def less_NamespacedName_def)
  show "x \<le> x" by (simp add: less_eq_NamespacedName_def)
  show "x \<le> y \<Longrightarrow> y \<le> z \<Longrightarrow> x \<le> z"
    by (auto simp: less_eq_NamespacedName_def)
  show "x \<le> y \<Longrightarrow> y \<le> x \<Longrightarrow> x = y"
    by (cases x; cases y) (auto simp: less_eq_NamespacedName_def)
  show "x \<le> y \<or> y \<le> x"
    by (auto simp: less_eq_NamespacedName_def)
qed

end

section \<open>Groups, versions and kinds\<close>

datatype GroupVersion = GroupVersion (gvGroup: string) (gvVersion: string)
datatype GroupVersionKind = GroupVersionKind (gvkGroup: string) (gvkVersion: string) (gvkKind: string)
datatype GroupVersionResource =
  GroupVersionResource (gvrGroup: string) (gvrVersion: string) (gvrResource: string)
datatype GroupKind = GroupKind (gkGroup: string) (gkKind: string)
datatype GroupResource = GroupResource (grGroup: string) (grResource: string)

definition WithKind :: "GroupVersion \<Rightarrow> string \<Rightarrow> GroupVersionKind" where
  "WithKind gv kind = GroupVersionKind (gvGroup gv) (gvVersion gv) kind"

definition WithResource :: "GroupVersion \<Rightarrow> string \<Rightarrow> GroupVersionResource" where
  "WithResource gv resource = GroupVersionResource (gvGroup gv) (gvVersion gv) resource"

definition GroupVersionString :: "GroupVersion \<Rightarrow> string" where
  "GroupVersionString gv =
     (if length (gvGroup gv) > 0 then gvGroup gv @ ''/'' @ gvVersion gv else gvVersion gv)"

definition ParseGroupVersion :: "string \<Rightarrow> GroupVersion option" where
  "ParseGroupVersion gv =
     (if gv = '''' \<or> gv = ''/'' then Some (GroupVersion '''' '''')
      else if count_list gv (CHR ''/'') = 0 then Some (GroupVersion '''' gv)
      else if count_list gv (CHR ''/'') = 1
      then Some (GroupVersion (takeWhile (\<lambda>c. c \<noteq> CHR ''/'') gv)
                   (tl (dropWhile (\<lambda>c. c \<noteq> CHR ''/'') gv)))
      else None)"

lemma ParseGroupVersion_String:
  assumes "CHR ''/'' \<notin> set (gvGroup gv)" and "CHR ''/'' \<notin> set (gvVersion gv)"
    and "gvVersion gv \<noteq> ''''"
  shows "ParseGroupVersion (GroupVersionString gv) = Some gv"
proof (cases gv)
  case (GroupVersion g v)
  have tw: "takeWhile (\<lambda>c. c \<noteq> CHR ''/'') (g @ CHR ''/'' # v) = g"
    and dw: "dropWhile (\<lambda>c. c \<noteq> CHR ''/'') (g @ CHR ''/'' # v) = CHR ''/'' # v"
    using assms(1) GroupVersion by (simp_all add: takeWhile_append dropWhile_append)
  have "count_list g (CHR ''/'') = 0" and "count_list v (CHR ''/'') = 0"
    using assms(1,2) GroupVersion by (simp_all add: count_list_0_iff)
  then show ?thesis
    using assms(3) tw dw GroupVersion
    by (auto simp: ParseGroupVersion_def GroupVersionString_def Cons_eq_append_conv)
qed

section \<open>API errors\<close>

text \<open>
  An error is a status returned by the server (reason, HTTP code and message) or any other error
  value. \<open>errorString\<close> is its method \<open>Error\<close>.
\<close>

datatype api_error =
  StatusError (errReason: string) (errCode: int) (errMessage: string) | OtherError string

fun errorString :: "api_error \<Rightarrow> string" where
  "errorString (StatusError reason code message) = message"
| "errorString (OtherError message) = message"

definition knownReasons :: "string list" where
  "knownReasons =
     [''Unauthorized'', ''Forbidden'', ''NotFound'', ''AlreadyExists'', ''Conflict'', ''Gone'',
      ''Invalid'', ''ServerTimeout'', ''Timeout'', ''TooManyRequests'', ''BadRequest'',
      ''MethodNotAllowed'', ''NotAcceptable'', ''RequestEntityTooLarge'', ''UnsupportedMediaType'',
      ''InternalError'', ''Expired'', ''ServiceUnavailable'']"

fun reasonAndCodeForError :: "api_error \<Rightarrow> string \<times> int" where
  "reasonAndCodeForError (StatusError reason code message) = (reason, code)"
| "reasonAndCodeForError (OtherError msg) = ('''', 0)"

definition IsNotFound :: "api_error \<Rightarrow> bool" where
  "IsNotFound err =
     (case reasonAndCodeForError err of (reason, code) \<Rightarrow>
        if reason = ''NotFound'' then True
        else if reason \<notin> set knownReasons \<and> code = 404 then True
        else False)"

definition GroupResourceString :: "GroupResource \<Rightarrow> string" where
  "GroupResourceString gr =
     (if length (grGroup gr) = 0 then grResource gr else grResource gr @ ''.'' @ grGroup gr)"

text \<open>
  The constructors, with their messages; the format \<open>%q\<close> of a name is the name in quotes, since
  the names of objects have no character that it escapes. The message of \<open>NewInvalid\<close> lists
  field errors and is left to its caller here.
\<close>

definition quoted :: "string \<Rightarrow> string" where
  "quoted s = ''\"'' @ s @ ''\"''"

definition NewNotFound :: "GroupResource \<Rightarrow> string \<Rightarrow> api_error" where
  "NewNotFound qualifiedResource name =
     StatusError ''NotFound'' 404
       (GroupResourceString qualifiedResource @ '' '' @ quoted name @ '' not found'')"

definition NewAlreadyExists :: "GroupResource \<Rightarrow> string \<Rightarrow> api_error" where
  "NewAlreadyExists qualifiedResource name =
     StatusError ''AlreadyExists'' 409
       (GroupResourceString qualifiedResource @ '' '' @ quoted name @ '' already exists'')"

definition NewConflict :: "GroupResource \<Rightarrow> string \<Rightarrow> api_error \<Rightarrow> api_error" where
  "NewConflict qualifiedResource name err =
     StatusError ''Conflict'' 409
       (''Operation cannot be fulfilled on '' @ GroupResourceString qualifiedResource @ '' ''
        @ quoted name @ '': '' @ errorString err)"

definition NewInvalid :: "string \<Rightarrow> api_error" where
  "NewInvalid message = StatusError ''Invalid'' 422 message"

definition NewBadRequest :: "string \<Rightarrow> api_error" where
  "NewBadRequest reason = StatusError ''BadRequest'' 400 reason"

lemma IsNotFound_simps [simp]:
  "IsNotFound (NewNotFound gr n)"
  "\<not> IsNotFound (NewAlreadyExists gr n)"
  "\<not> IsNotFound (NewConflict gr n err)"
  "\<not> IsNotFound (NewInvalid msg)"
  "\<not> IsNotFound (NewBadRequest msg)"
  "\<not> IsNotFound (OtherError msg)"
  by (simp_all add: IsNotFound_def NewNotFound_def NewAlreadyExists_def NewConflict_def
      NewInvalid_def NewBadRequest_def knownReasons_def)

section \<open>Object metadata\<close>

record OwnerReference =
  APIVersion :: string
  Kind :: string
  OwnerName :: string
  OwnerUID :: string
  Controller :: "bool option"
  BlockOwnerDeletion :: "bool option"

record ObjectMeta =
  Name :: string
  GenerateName :: string
  Namespace :: string
  UID :: string
  ResourceVersion :: string
  Labels :: "string gomap"
  Annotations :: "string gomap"
  OwnerReferences :: "OwnerReference list"
  DeletionTimestamp :: "int option"
  Finalizers :: "string list"

text \<open>Every API object embeds its metadata, so every object record extends \<open>kobject\<close>.\<close>

record kobject =
  metadata :: ObjectMeta

definition empty_meta :: ObjectMeta where
  "empty_meta = \<lparr>Name = '''', GenerateName = '''', Namespace = '''', UID = '''',
     ResourceVersion = '''', Labels = None, Annotations = None, OwnerReferences = [],
     DeletionTimestamp = None, Finalizers = []\<rparr>"

abbreviation obj_name :: "'a kobject_scheme \<Rightarrow> string" where
  "obj_name x \<equiv> Name (metadata x)"

abbreviation obj_ns :: "'a kobject_scheme \<Rightarrow> string" where
  "obj_ns x \<equiv> Namespace (metadata x)"

abbreviation obj_key :: "'a kobject_scheme \<Rightarrow> NamespacedName" where
  "obj_key x \<equiv> NamespacedName (obj_ns x) (obj_name x)"

section \<open>Status conditions\<close>

record Condition =
  ConditionType :: string
  ConditionStatus :: string

definition ConditionSucceeded :: string where
  "ConditionSucceeded = ''Succeeded''"

text \<open>\<open>GetCondition\<close> returns the first condition of a type, or nil.\<close>

fun GetCondition :: "Condition list \<Rightarrow> string \<Rightarrow> Condition option" where
  "GetCondition [] t = None"
| "GetCondition (c # cs) t = (if ConditionType c = t then Some c else GetCondition cs t)"

fun IsTrue :: "Condition option \<Rightarrow> bool" where
  "IsTrue None = False"
| "IsTrue (Some c) = (ConditionStatus c = ''True'')"

fun IsUnknown :: "Condition option \<Rightarrow> bool" where
  "IsUnknown None = True"
| "IsUnknown (Some c) = (ConditionStatus c = ''Unknown'')"

lemma IsTrue_not_IsUnknown: "IsTrue c \<Longrightarrow> \<not> IsUnknown c"
  by (cases c) auto

end
