(* ===== verification/Labels.thy ===== *)
theory Labels
  imports ApiMeta
begin

text \<open>
  Label selectors, from the vendored \<open>k8s.io/apimachinery/pkg/labels/selector.go\<close>: a selector
  is a list of requirements sorted by key, \<open>Add\<close> returns a new selector and leaves its
  receiver alone, \<open>Matches\<close> holds when every requirement does.
\<close>

datatype Operator =
  DoesNotExist | Equals | DoubleEquals | In | NotEquals | NotIn | Exists | GreaterThan | LessThan

record Requirement =
  reqKey :: string
  operator :: Operator
  strValues :: "string list"

type_synonym Selector = "Requirement list"

definition hasValue :: "Requirement \<Rightarrow> string \<Rightarrow> bool" where
  "hasValue r value = list_ex (\<lambda>v. v = value) (strValues r)"

definition has_label :: "string gomap \<Rightarrow> string \<Rightarrow> bool" where
  "has_label ls k = (gm_lookup ls k \<noteq> None)"

text \<open>
  \<open>strconv.ParseInt(s, 10, 64)\<close>, which the two ordering operators use: an optional sign, then
  at least one digit, in the range of a signed 64-bit integer.
\<close>

definition digit_value :: "char \<Rightarrow> int option" where
  "digit_value c =
     (let n = (of_char c :: int) in if 48 \<le> n \<and> n \<le> 57 then Some (n - 48) else None)"

fun parse_digits :: "int \<Rightarrow> string \<Rightarrow> int option" where
  "parse_digits acc [] = Some acc"
| "parse_digits acc (c # cs) =
     (case digit_value c of None \<Rightarrow> None | Some d \<Rightarrow> parse_digits (10 * acc + d) cs)"

definition ParseInt64 :: "string \<Rightarrow> int option" where
  "ParseInt64 s =
     (let (neg, ds) = (case s of c # cs \<Rightarrow>
                         if c = CHR ''-'' then (True, cs) else if c = CHR ''+'' then (False, cs)
                         else (False, s) | [] \<Rightarrow> (False, s))
      in if ds = [] then None
         else case parse_digits 0 ds of None \<Rightarrow> None
              | Some n \<Rightarrow> let v = (if neg then - n else n)
                          in if - (2 ^ 63) \<le> v \<and> v < 2 ^ 63 then Some v else None)"

definition RequirementMatches :: "Requirement \<Rightarrow> string gomap \<Rightarrow> bool" where
  "RequirementMatches r ls =
     (case operator r of
        In \<Rightarrow> has_label ls (reqKey r) \<and> hasValue r (gm_get ls (reqKey r))
      | Equals \<Rightarrow> has_label ls (reqKey r) \<and> hasValue r (gm_get ls (reqKey r))
      | DoubleEquals \<Rightarrow> has_label ls (reqKey r) \<and> hasValue r (gm_get ls (reqKey r))
      | NotIn \<Rightarrow> \<not> has_label ls (reqKey r) \<or> \<not> hasValue r (gm_get ls (reqKey r))
      | NotEquals \<Rightarrow> \<not> has_label ls (reqKey r) \<or> \<not> hasValue r (gm_get ls (reqKey r))
      | Exists \<Rightarrow> has_label ls (reqKey r)
      | DoesNotExist \<Rightarrow> \<not> has_label ls (reqKey r)
      | op \<Rightarrow>
          has_label ls (reqKey r) \<and>
          (case ParseInt64 (gm_get ls (reqKey r)) of None \<Rightarrow> False
           | Some lsValue \<Rightarrow>
               (case strValues r of
                  [v] \<Rightarrow> (case ParseInt64 v of None \<Rightarrow> False
                          | Some rValue \<Rightarrow>
                              op = GreaterThan \<and> lsValue > rValue \<or> op = LessThan \<and> lsValue < rValue)
                | _ \<Rightarrow> False)))"

fun SelectorMatches :: "Selector \<Rightarrow> string gomap \<Rightarrow> bool" where
  "SelectorMatches [] ls = True"
| "SelectorMatches (r # rs) ls = (if RequirementMatches r ls then SelectorMatches rs ls else False)"

definition NewSelector :: Selector where
  "NewSelector = []"

text \<open>
  \<open>sort.Sort(ByKey(...))\<close> is not stable: requirements with equal keys may come out in any order, also
  when the list was sorted before. Which of the sorted orders it is is drawn.
\<close>

definition ByKey_Sort :: "nat \<Rightarrow> Requirement list \<Rightarrow> Requirement list" where
  "ByKey_Sort n rs = sort_key reqKey (pick_order n rs)"

definition Add :: "nat \<Rightarrow> Selector \<Rightarrow> Requirement list \<Rightarrow> Selector" where
  "Add n s reqs = ByKey_Sort n (s @ reqs)"

lemma mset_ByKey_Sort [simp]: "mset (ByKey_Sort n rs) = mset rs"
  by (simp add: ByKey_Sort_def)

lemma set_ByKey_Sort [simp]: "set (ByKey_Sort n rs) = set rs"
  by (simp add: ByKey_Sort_def)

lemma sorted_ByKey_Sort: "sorted (map reqKey (ByKey_Sort n rs))"
  by (simp add: ByKey_Sort_def)

text \<open>The draws give all sorted orders; with distinct keys there is only one.\<close>

lemma ByKey_Sort_all:
  assumes "mset rs' = mset rs" and "sorted (map reqKey rs')"
  shows "\<exists>n. ByKey_Sort n rs = rs'"
proof -
  from pick_order_surj [OF assms(1)] obtain n where "pick_order n rs = rs'" by blast
  then have "ByKey_Sort n rs = rs'" using assms(2) by (simp add: ByKey_Sort_def sort_key_id_if_sorted)
  then show ?thesis ..
qed

lemma ByKey_Sort_distinct:
  assumes "sorted (map reqKey rs)" and "distinct (map reqKey rs)"
  shows "ByKey_Sort n rs = rs"
  using assms unfolding ByKey_Sort_def
  by (intro sort_key_inj_key_eq) (simp_all add: distinct_map)

lemma ByKey_Sort_single [simp]: "ByKey_Sort n [r] = [r]"
  by (rule ByKey_Sort_distinct) simp_all

text \<open>
  \<open>SelectorFromSet\<close>, with the entries of the set in any order. The keys of a set are distinct, so
  there is one order by key.
\<close>

definition SelectorFromSet :: "(string \<times> string) list \<Rightarrow> Selector" where
  "SelectorFromSet ls =
     sort_key reqKey (map (\<lambda>(k, v). \<lparr>reqKey = k, operator = Equals, strValues = [v]\<rparr>) ls)"

lemma SelectorMatches_iff: "SelectorMatches s ls \<longleftrightarrow> (\<forall>r \<in> set s. RequirementMatches r ls)"
  by (induction s) auto

text \<open>A one-entry set selects the objects that carry exactly that label value.\<close>

lemma SelectorFromSet_single [simp]:
  "SelectorMatches (SelectorFromSet [(k, v)]) ls \<longleftrightarrow> gm_lookup ls k = Some v"
  by (auto simp: SelectorFromSet_def RequirementMatches_def has_label_def hasValue_def gm_get_def
      split: option.splits)

text \<open>A set in general selects the objects that carry all its entries, in whatever order.\<close>

lemma SelectorFromSet_matches:
  "SelectorMatches (SelectorFromSet kvs) ls \<longleftrightarrow> (\<forall>(k, v) \<in> set kvs. gm_lookup ls k = Some v)"
  by (auto simp: SelectorMatches_iff SelectorFromSet_def RequirementMatches_def has_label_def
      hasValue_def gm_get_def split: option.splits)

lemma SelectorMatches_Add:
  "SelectorMatches (Add n s reqs) ls \<longleftrightarrow>
     SelectorMatches s ls \<and> (\<forall>r \<in> set reqs. RequirementMatches r ls)"
  by (auto simp: SelectorMatches_iff Add_def)

lemma SelectorMatches_New [simp]: "SelectorMatches NewSelector ls"
  by (simp add: NewSelector_def)

section \<open>Label keys\<close>

text \<open>
  \<open>IsQualifiedName\<close> from \<open>k8s.io/apimachinery/pkg/util/validation/validation.go\<close>, as the
  predicate that it reports nothing. The regular expressions are the ones of the source: a name
  starts and ends with an alphanumeric character, and a prefix is a DNS subdomain of at most 253
  characters.
\<close>

fun split_on :: "char \<Rightarrow> string \<Rightarrow> string list" where
  "split_on c [] = [[]]"
| "split_on c (x # xs) =
     (if x = c then [] # split_on c xs
      else (case split_on c xs of [] \<Rightarrow> [[x]] | p # ps \<Rightarrow> (x # p) # ps))"

definition between :: "char \<Rightarrow> char \<Rightarrow> char \<Rightarrow> bool" where
  "between a b c \<longleftrightarrow> (of_char a :: nat) \<le> of_char c \<and> (of_char c :: nat) \<le> of_char b"

definition is_lower_alnum :: "char \<Rightarrow> bool" where
  "is_lower_alnum c \<longleftrightarrow> between (CHR ''a'') (CHR ''z'') c \<or> between (CHR ''0'') (CHR ''9'') c"

definition is_alnum :: "char \<Rightarrow> bool" where
  "is_alnum c \<longleftrightarrow> is_lower_alnum c \<or> between (CHR ''A'') (CHR ''Z'') c"

definition IsDNS1123Label :: "string \<Rightarrow> bool" where
  "IsDNS1123Label l \<longleftrightarrow>
     l \<noteq> '''' \<and> is_lower_alnum (hd l) \<and> is_lower_alnum (last l)
     \<and> list_all (\<lambda>c. is_lower_alnum c \<or> c = CHR ''-'') l"

definition IsDNS1123Subdomain :: "string \<Rightarrow> bool" where
  "IsDNS1123Subdomain s \<longleftrightarrow> length s \<le> 253 \<and> list_all IsDNS1123Label (split_on (CHR ''.'') s)"

definition qualifiedName :: "string \<Rightarrow> bool" where
  "qualifiedName n \<longleftrightarrow>
     n \<noteq> '''' \<and> length n \<le> 63 \<and> is_alnum (hd n) \<and> is_alnum (last n)
     \<and> list_all (\<lambda>c. is_alnum c \<or> c \<in> {CHR ''-'', CHR ''_'', CHR ''.''}) n"

definition IsQualifiedName :: "string \<Rightarrow> bool" where
  "IsQualifiedName value =
     (case split_on (CHR ''/'') value of
        [name] \<Rightarrow> qualifiedName name
      | [prefix, name] \<Rightarrow> prefix \<noteq> '''' \<and> IsDNS1123Subdomain prefix \<and> qualifiedName name
      | _ \<Rightarrow> False)"

text \<open>
  \<open>IsValidLabelValue\<close> of the same file: empty, or a qualified name without prefix.
\<close>

definition IsValidLabelValue :: "string \<Rightarrow> bool" where
  "IsValidLabelValue v \<longleftrightarrow> v = '''' \<or> qualifiedName v"

text \<open>\<open>NewRequirement\<close>: the requirement, or the fields it complains about.\<close>

definition NewRequirement :: "string \<Rightarrow> Operator \<Rightarrow> string list \<Rightarrow> string list + Requirement" where
  "NewRequirement key op vals =
     (let keyErrs = (if IsQualifiedName key then [] else [''key'']);
          opErrs = (if op \<in> {In, NotIn} then (if length vals = 0 then [''values''] else [])
                    else if op \<in> {Equals, DoubleEquals, NotEquals}
                    then (if length vals \<noteq> 1 then [''values''] else [])
                    else if op \<in> {Exists, DoesNotExist}
                    then (if length vals \<noteq> 0 then [''values''] else [])
                    else (if length vals \<noteq> 1 then [''values''] else [])
                         @ map (\<lambda>_. ''values[i]'') (filter (\<lambda>v. ParseInt64 v = None) vals));
          valErrs = map (\<lambda>_. ''values[i]'') (filter (\<lambda>v. \<not> IsValidLabelValue v) vals);
          allErrs = keyErrs @ opErrs @ valErrs
      in if allErrs \<noteq> [] then Inl allErrs
         else Inr \<lparr>reqKey = key, operator = op, strValues = vals\<rparr>)"

lemma NewRequirement_Exists:
  "IsQualifiedName key \<Longrightarrow>
     NewRequirement key Exists [] = Inr \<lparr>reqKey = key, operator = Exists, strValues = []\<rparr>"
  by (simp add: NewRequirement_def)

lemma NewRequirement_fields:
  "NewRequirement key op vals = Inr r \<Longrightarrow> reqKey r = key \<and> operator r = op \<and> strValues r = vals"
  by (auto simp: NewRequirement_def Let_def split: if_splits)

end
