(* ===== verification/ApiTypes.thy ===== *)
theory ApiTypes
  imports Labels
begin

text \<open>
  The resource types. \<open>ComponentBuild\<close> and its parts are
  \<open>pkg/apis/apheleia/v1alpha1/componentbuild_types.go\<close>; the others are the types of the JVM
  build service, of Tekton and of the core API that the reconciler reads or creates, with the
  fields it uses.
\<close>

section \<open>Component builds\<close>

definition ComponentBuildStateFailed :: string where
  "ComponentBuildStateFailed = ''ComponentBuildFailed''"
definition ComponentBuildStateComplete :: string where
  "ComponentBuildStateComplete = ''ComponentBuildComplete''"
definition ComponentBuildStateInProgress :: string where
  "ComponentBuildStateInProgress = ''ComponentBuildBuildInProgress''"

record ComponentBuildSpec =
  SCMURL :: string
  PRURL :: string
  Tag :: string
  Artifacts :: "string list"

record ArtifactState =
  ArtifactBuildName :: string
  Built :: bool
  Deployed :: bool
  Failed :: bool

definition Done :: "ArtifactState \<Rightarrow> bool" where
  "Done as = (if Built as \<and> Deployed as then True else False)"

record ComponentBuildStatus =
  State :: string
  Outstanding :: int
  ArtifactStates :: "ArtifactState gomap"
  Message :: string
  ResultNotified :: bool

record ComponentBuild = kobject +
  cbSpec :: ComponentBuildSpec
  cbStatus :: ComponentBuildStatus

record ComponentBuildList =
  cbItems :: "ComponentBuild list"

lemma component_build_states_distinct [simp]:
  "ComponentBuildStateFailed \<noteq> ComponentBuildStateComplete"
  "ComponentBuildStateComplete \<noteq> ComponentBuildStateFailed"
  "ComponentBuildStateInProgress \<noteq> ComponentBuildStateComplete"
  "ComponentBuildStateComplete \<noteq> ComponentBuildStateInProgress"
  "ComponentBuildStateInProgress \<noteq> ComponentBuildStateFailed"
  "ComponentBuildStateFailed \<noteq> ComponentBuildStateInProgress"
  by (simp_all add: ComponentBuildStateFailed_def ComponentBuildStateComplete_def
      ComponentBuildStateInProgress_def)

lemma Done_iff: "Done as \<longleftrightarrow> Built as \<and> Deployed as"
  by (simp add: Done_def)

section \<open>JVM build service\<close>

definition ArtifactBuildStateNew :: string where
  "ArtifactBuildStateNew = ''ArtifactBuildNew''"
definition ArtifactBuildStateDiscovering :: string where
  "ArtifactBuildStateDiscovering = ''ArtifactBuildDiscovering''"
definition ArtifactBuildStateMissing :: string where
  "ArtifactBuildStateMissing = ''ArtifactBuildMissing''"
definition ArtifactBuildStateBuilding :: string where
  "ArtifactBuildStateBuilding = ''ArtifactBuildBuilding''"
definition ArtifactBuildStateFailed :: string where
  "ArtifactBuildStateFailed = ''ArtifactBuildFailed''"
definition ArtifactBuildStateComplete :: string where
  "ArtifactBuildStateComplete = ''ArtifactBuildComplete''"

lemma artifact_build_states_distinct [simp]:
  "ArtifactBuildStateComplete \<noteq> ArtifactBuildStateFailed"
  "ArtifactBuildStateFailed \<noteq> ArtifactBuildStateComplete"
  "ArtifactBuildStateComplete \<noteq> ArtifactBuildStateMissing"
  "ArtifactBuildStateMissing \<noteq> ArtifactBuildStateComplete"
  "ArtifactBuildStateFailed \<noteq> ArtifactBuildStateMissing"
  "ArtifactBuildStateMissing \<noteq> ArtifactBuildStateFailed"
  "ArtifactBuildStateComplete \<noteq> ''''"
  by (simp_all add: ArtifactBuildStateFailed_def ArtifactBuildStateComplete_def
      ArtifactBuildStateMissing_def)

record ArtifactBuild = kobject +
  GAV :: string
  abState :: string

record RebuiltArtifact = kobject +
  raGAV :: string
  raImage :: string

record DependencyBuild = kobject +
  dbState :: string

section \<open>Tekton\<close>

datatype ParamType = ParamTypeString | ParamTypeArray

record Param =
  ParamName :: string
  ParamKind :: ParamType
  StringVal :: string

datatype TaskKind = NamespacedTaskKind | ClusterTaskKind

record TaskRef =
  taskName :: string
  taskKind :: TaskKind

record TaskRun = kobject +
  trTaskRef :: "TaskRef option"
  trParams :: "Param list"
  trConditions :: "Condition list"
  trCompletionTime :: "int option"

record VolumeClaim =
  AccessModes :: "string list"
  StorageRequest :: int

record WorkspaceBinding =
  WorkspaceName :: string
  VolumeClaimTemplate :: "VolumeClaim option"

record PipelineRun = kobject +
  prPipelineRef :: "string option"
  prParams :: "Param list"
  prWorkspaces :: "WorkspaceBinding list"
  prConditions :: "Condition list"
  prCompletionTime :: "int option"

section \<open>Core\<close>

record ConfigMap = kobject +
  Data :: "string gomap"

section \<open>Zero values\<close>

text \<open>What the code declares with a composite literal \<open>T{}\<close> before it fills it in.\<close>

definition empty_ArtifactBuild :: ArtifactBuild where
  "empty_ArtifactBuild = \<lparr>metadata = empty_meta, GAV = '''', abState = ''''\<rparr>"

definition empty_TaskRun :: TaskRun where
  "empty_TaskRun = \<lparr>metadata = empty_meta, trTaskRef = None, trParams = [], trConditions = [],
     trCompletionTime = None\<rparr>"

definition empty_PipelineRun :: PipelineRun where
  "empty_PipelineRun = \<lparr>metadata = empty_meta, prPipelineRef = None, prParams = [],
     prWorkspaces = [], prConditions = [], prCompletionTime = None\<rparr>"

abbreviation trSucceeded :: "TaskRun \<Rightarrow> Condition option" where
  "trSucceeded tr \<equiv> GetCondition (trConditions tr) ConditionSucceeded"

abbreviation prSucceeded :: "PipelineRun \<Rightarrow> Condition option" where
  "prSucceeded pr \<equiv> GetCondition (prConditions pr) ConditionSucceeded"

end
