(* ===== verification/Scheme.thy ===== *)
theory Scheme
  imports ApiMeta
begin

text \<open>
  The type registry: \<open>pkg/apis/apheleia/v1alpha1/register.go\<close>, \<open>pkg/apis/apis.go\<close> and
  \<open>pkg/apis/addtoscheme_apheleia_v1alpha1.go\<close>, on top of the vendored \<open>runtime.Scheme\<close>
  (\<open>AddKnownTypes\<close>, \<open>ObjectKinds\<close>) and \<open>apiutil.GVKForObject\<close>. A Go type is named by its
  package and name; the registry keeps both directions of the type-to-kind map and the observed
  versions. A double registration panics in Go: the operations return None there.
\<close>

datatype GoType = GoType (goPkg: string) (goTypeName: string)

record Scheme =
  gvkToType :: "(GroupVersionKind \<times> GoType) list"
  typeToGVK :: "(GoType \<times> GroupVersionKind list) list"
  observedVersions :: "GroupVersion list"
  unversionedTypes :: "GoType list"

definition NewScheme :: Scheme where
  "NewScheme = \<lparr>gvkToType = [], typeToGVK = [], observedVersions = [], unversionedTypes = []\<rparr>"

definition addObservedVersion :: "GroupVersion \<Rightarrow> Scheme \<Rightarrow> Scheme" where
  "addObservedVersion gv s =
     (if gvVersion gv = '''' \<or> gvVersion gv = ''__internal'' \<or> gv \<in> set (observedVersions s) then s
      else s\<lparr>observedVersions := observedVersions s @ [gv]\<rparr>)"

definition AddKnownTypeWithName :: "GroupVersionKind \<Rightarrow> GoType \<Rightarrow> Scheme \<Rightarrow> Scheme option" where
  "AddKnownTypeWithName gvk t s0 =
     (let s = addObservedVersion (GroupVersion (gvkGroup gvk) (gvkVersion gvk)) s0 in
      if gvkVersion gvk = '''' then None
      else case map_of (gvkToType s) gvk of
        Some oldT \<Rightarrow> if oldT \<noteq> t then None else
          (let known = (case map_of (typeToGVK s) t of None \<Rightarrow> [] | Some ks \<Rightarrow> ks) in
           Some (if gvk \<in> set known then s
                 else s\<lparr>typeToGVK := AList.update t (known @ [gvk]) (typeToGVK s)\<rparr>))
      | None \<Rightarrow>
          (let s1 = s\<lparr>gvkToType := AList.update gvk t (gvkToType s)\<rparr>;
               known = (case map_of (typeToGVK s) t of None \<Rightarrow> [] | Some ks \<Rightarrow> ks) in
           Some (if gvk \<in> set known then s1
                 else s1\<lparr>typeToGVK := AList.update t (known @ [gvk]) (typeToGVK s1)\<rparr>)))"

fun AddKnownTypes :: "GroupVersion \<Rightarrow> GoType list \<Rightarrow> Scheme \<Rightarrow> Scheme option" where
  "AddKnownTypes gv [] s = Some s"
| "AddKnownTypes gv (t # ts) s =
     Option.bind (AddKnownTypeWithName (WithKind gv (goTypeName t)) t s) (AddKnownTypes gv ts)"

text \<open>\<open>ObjectKinds\<close> and \<open>GVKForObject\<close> for a typed object.\<close>

definition ObjectKinds :: "Scheme \<Rightarrow> GoType \<Rightarrow> api_error + (GroupVersionKind list \<times> bool)" where
  "ObjectKinds s t =
     (case map_of (typeToGVK s) t of
        None \<Rightarrow> Inl (OtherError ''no kind is registered for the type'')
      | Some gvks \<Rightarrow> Inr (gvks, t \<in> set (unversionedTypes s)))"

definition GVKForObject :: "GoType \<Rightarrow> Scheme \<Rightarrow> api_error + GroupVersionKind" where
  "GVKForObject t s =
     (case ObjectKinds s t of
        Inl err \<Rightarrow> Inl err
      | Inr (gvks, isUnversioned) \<Rightarrow>
          if isUnversioned then Inl (OtherError ''unversioned type'')
          else (case gvks of
                  [] \<Rightarrow> Inl (OtherError ''no group-version-kinds'')
                | [gvk] \<Rightarrow> Inr gvk
                | _ \<Rightarrow> Inl (OtherError ''multiple group-version-kinds'')))"

section \<open>The API group of the program\<close>

definition SchemeGroupVersion :: GroupVersion where
  "SchemeGroupVersion = GroupVersion ''apheleia.io'' ''v1alpha1''"

definition KindOf :: "string \<Rightarrow> GroupKind" where
  "KindOf kind =
     (let gvk = WithKind SchemeGroupVersion kind in GroupKind (gvkGroup gvk) (gvkKind gvk))"

definition Resource :: "string \<Rightarrow> GroupResource" where
  "Resource resource =
     (let gvr = WithResource SchemeGroupVersion resource in
      GroupResource (gvrGroup gvr) (gvrResource gvr))"

definition apheleia_pkg :: string where
  "apheleia_pkg = ''github.com/apheleia-project/apheleia/pkg/apis/apheleia/v1alpha1''"

definition ComponentBuildType :: GoType where
  "ComponentBuildType = GoType apheleia_pkg ''ComponentBuild''"

definition ComponentBuildListType :: GoType where
  "ComponentBuildListType = GoType apheleia_pkg ''ComponentBuildList''"

text \<open>
  \<open>addKnownTypes\<close>; the last call registers the meta types of the group version, whose list
  \<open>metaTypes\<close> belongs to apimachinery.
\<close>

definition addKnownTypes :: "(GroupVersion \<Rightarrow> Scheme \<Rightarrow> Scheme option) \<Rightarrow> Scheme \<Rightarrow> Scheme option" where
  "addKnownTypes addToGroupVersion s =
     Option.bind (AddKnownTypes SchemeGroupVersion [ComponentBuildType, ComponentBuildListType] s)
       (addToGroupVersion SchemeGroupVersion)"

text \<open>A scheme builder is a list of registration functions, applied until one fails.\<close>

type_synonym SchemeBuilder = "(Scheme \<Rightarrow> Scheme option) list"

fun BuilderAddToScheme :: "SchemeBuilder \<Rightarrow> Scheme \<Rightarrow> Scheme option" where
  "BuilderAddToScheme [] s = Some s"
| "BuilderAddToScheme (f # fs) s = Option.bind (f s) (BuilderAddToScheme fs)"

definition AddToScheme :: "(GroupVersion \<Rightarrow> Scheme \<Rightarrow> Scheme option) \<Rightarrow> Scheme \<Rightarrow> Scheme option" where
  "AddToScheme addToGroupVersion = BuilderAddToScheme [addKnownTypes addToGroupVersion]"

text \<open>\<open>apis.AddToSchemes\<close> after the package's \<open>init\<close> has appended the group's builder.\<close>

definition AddToSchemes :: "(GroupVersion \<Rightarrow> Scheme \<Rightarrow> Scheme option) \<Rightarrow> SchemeBuilder" where
  "AddToSchemes addToGroupVersion = [] @ [AddToScheme addToGroupVersion]"

definition apis_AddToScheme ::
  "(GroupVersion \<Rightarrow> Scheme \<Rightarrow> Scheme option) \<Rightarrow> Scheme \<Rightarrow> Scheme option" where
  "apis_AddToScheme addToGroupVersion s = BuilderAddToScheme (AddToSchemes addToGroupVersion) s"

section \<open>What registration does\<close>

text \<open>A registered type: both directions of the map and the observed version are there.\<close>

definition registered_as :: "GroupVersionKind \<Rightarrow> GoType \<Rightarrow> Scheme \<Rightarrow> bool" where
  "registered_as gvk t s \<longleftrightarrow>
     gvkVersion gvk \<noteq> '''' \<and> map_of (gvkToType s) gvk = Some t
     \<and> (\<exists>ks. map_of (typeToGVK s) t = Some ks \<and> gvk \<in> set ks)
     \<and> (gvkVersion gvk = ''__internal''
        \<or> GroupVersion (gvkGroup gvk) (gvkVersion gvk) \<in> set (observedVersions s))"

lemma addObservedVersion_maps [simp]:
  "gvkToType (addObservedVersion gv s) = gvkToType s"
  "typeToGVK (addObservedVersion gv s) = typeToGVK s"
  "unversionedTypes (addObservedVersion gv s) = unversionedTypes s"
  by (simp_all add: addObservedVersion_def)

lemma addObservedVersion_set:
  "set (observedVersions s) \<subseteq> set (observedVersions (addObservedVersion gv s))"
  "gvVersion gv \<noteq> '''' \<Longrightarrow> gvVersion gv \<noteq> ''__internal'' \<Longrightarrow>
     gv \<in> set (observedVersions (addObservedVersion gv s))"
  by (auto simp: addObservedVersion_def)

text \<open>The kinds of a type with one more.\<close>

definition with_kind :: "GroupVersionKind \<Rightarrow> GroupVersionKind list option \<Rightarrow> GroupVersionKind list" where
  "with_kind gvk known =
     (let ks = (case known of None \<Rightarrow> [] | Some ks \<Rightarrow> ks) in if gvk \<in> set ks then ks else ks @ [gvk])"

lemma with_kind_in [simp]: "gvk \<in> set (with_kind gvk known)"
  by (simp add: with_kind_def Let_def)

lemma with_kind_keeps: "known = Some ks \<Longrightarrow> k \<in> set ks \<Longrightarrow> k \<in> set (with_kind gvk known)"
  by (simp add: with_kind_def Let_def)

lemma AddKnownTypeWithName_fields:
  assumes "AddKnownTypeWithName gvk t s = Some s'"
  shows "gvkVersion gvk \<noteq> ''''"
    and "map_of (gvkToType s) gvk = None \<or> map_of (gvkToType s) gvk = Some t"
    and "map_of (gvkToType s') = (map_of (gvkToType s))(gvk \<mapsto> t)"
    and "map_of (typeToGVK s') = (map_of (typeToGVK s))(t \<mapsto> with_kind gvk (map_of (typeToGVK s) t))"
    and "observedVersions s' =
      observedVersions (addObservedVersion (GroupVersion (gvkGroup gvk) (gvkVersion gvk)) s)"
    and "unversionedTypes s' = unversionedTypes s"
  using assms
  by (cases "map_of (gvkToType s) gvk"; cases "map_of (typeToGVK s) t";
      force simp: AddKnownTypeWithName_def with_kind_def Let_def fun_upd_idem split: if_splits)+

lemma AddKnownTypeWithName_registers:
  assumes "AddKnownTypeWithName gvk t s = Some s'"
  shows "registered_as gvk t s'"
  using AddKnownTypeWithName_fields [OF assms]
    addObservedVersion_set(2) [of "GroupVersion (gvkGroup gvk) (gvkVersion gvk)" s]
  by (auto simp: registered_as_def)

text \<open>Registering a registered type changes nothing.\<close>

lemma AddKnownTypeWithName_again:
  assumes "registered_as gvk t s"
  shows "AddKnownTypeWithName gvk t s = Some s"
proof -
  have "addObservedVersion (GroupVersion (gvkGroup gvk) (gvkVersion gvk)) s = s"
    using assms by (auto simp: registered_as_def addObservedVersion_def)
  then show ?thesis
    using assms by (auto simp: registered_as_def AddKnownTypeWithName_def Let_def)
qed

lemma AddKnownTypeWithName_keeps:
  assumes "AddKnownTypeWithName gvk' t' s = Some s'" and "registered_as gvk t s"
  shows "registered_as gvk t s'"
proof -
  note f = AddKnownTypeWithName_fields [OF assms(1)]
  have "gvk = gvk' \<Longrightarrow> t = t'" using f(2) assms(2) by (auto simp: registered_as_def)
  then show ?thesis
    using f assms(2) addObservedVersion_set(1) [of s "GroupVersion (gvkGroup gvk') (gvkVersion gvk')"]
    by (auto simp: registered_as_def intro: with_kind_keeps)
qed

lemma AddKnownTypes_keeps:
  "AddKnownTypes gv ts s = Some s' \<Longrightarrow> registered_as gvk t s \<Longrightarrow> registered_as gvk t s'"
  by (induction gv ts s rule: AddKnownTypes.induct)
    (auto simp: Option.bind_eq_Some_conv intro: AddKnownTypeWithName_keeps)

lemma AddKnownTypes_registers:
  "AddKnownTypes gv ts s = Some s' \<Longrightarrow> t \<in> set ts \<Longrightarrow> registered_as (WithKind gv (goTypeName t)) t s'"
  by (induction gv ts s rule: AddKnownTypes.induct)
    (auto simp: Option.bind_eq_Some_conv
      intro: AddKnownTypes_keeps AddKnownTypeWithName_registers)

lemma AddKnownTypes_again:
  "\<forall>t \<in> set ts. registered_as (WithKind gv (goTypeName t)) t s \<Longrightarrow> AddKnownTypes gv ts s = Some s"
  by (induction ts) (simp_all add: AddKnownTypeWithName_again)

lemma AddKnownTypes_idem: "AddKnownTypes gv ts s = Some s' \<Longrightarrow> AddKnownTypes gv ts s' = Some s'"
  by (rule AddKnownTypes_again) (auto intro: AddKnownTypes_registers)

lemma group_types_distinct [simp]: "ComponentBuildType \<noteq> ComponentBuildListType"
  "ComponentBuildListType \<noteq> ComponentBuildType"
  by (simp_all add: ComponentBuildType_def ComponentBuildListType_def)

lemma AddToScheme_cases:
  assumes "AddToScheme agv s = Some s'"
  obtains s1 s2 where
    "AddKnownTypeWithName (WithKind SchemeGroupVersion ''ComponentBuild'') ComponentBuildType s = Some s1"
    "AddKnownTypeWithName (WithKind SchemeGroupVersion ''ComponentBuildList'') ComponentBuildListType s1 = Some s2"
    "agv SchemeGroupVersion s2 = Some s'"
  using assms
  by (auto simp: AddToScheme_def addKnownTypes_def ComponentBuildType_def ComponentBuildListType_def
      Option.bind_eq_Some_conv)

text \<open>
  After registration a component build is known by its kind, provided the meta types' registration
  leaves the group's own types alone.
\<close>

lemma AddToScheme_kind:
  assumes "AddToScheme agv s = Some s'" and "map_of (typeToGVK s) ComponentBuildType = None"
    and "ComponentBuildType \<notin> set (unversionedTypes s)"
    and agv: "\<And>x y. agv SchemeGroupVersion x = Some y \<Longrightarrow>
      map_of (typeToGVK y) ComponentBuildType = map_of (typeToGVK x) ComponentBuildType
      \<and> (ComponentBuildType \<in> set (unversionedTypes y) \<longrightarrow> ComponentBuildType \<in> set (unversionedTypes x))"
  shows "GVKForObject ComponentBuildType s' = Inr (WithKind SchemeGroupVersion ''ComponentBuild'')"
proof -
  from AddToScheme_cases [OF assms(1)] obtain s1 s2 where
    s1: "AddKnownTypeWithName (WithKind SchemeGroupVersion ''ComponentBuild'') ComponentBuildType s = Some s1" and
    s2: "AddKnownTypeWithName (WithKind SchemeGroupVersion ''ComponentBuildList'') ComponentBuildListType s1 = Some s2" and
    s': "agv SchemeGroupVersion s2 = Some s'" .
  have "map_of (typeToGVK s') ComponentBuildType = Some [WithKind SchemeGroupVersion ''ComponentBuild'']"
    using agv [OF s'] AddKnownTypeWithName_fields(4) [OF s2] AddKnownTypeWithName_fields(4) [OF s1]
      assms(2) by (simp add: with_kind_def)
  moreover have "ComponentBuildType \<notin> set (unversionedTypes s')"
    using agv [OF s'] AddKnownTypeWithName_fields(6) [OF s2] AddKnownTypeWithName_fields(6) [OF s1]
      assms(3) by auto
  ultimately show ?thesis by (simp add: GVKForObject_def ObjectKinds_def)
qed

end
