(* ===== verification/OwnerRefs.thy ===== *)
theory OwnerRefs
  imports Scheme
begin

text \<open>
  Owner references, from the vendored
  \<open>sigs.k8s.io/controller-runtime/pkg/controller/controllerutil/controllerutil.go\<close>. The two
  setters return an error, or the metadata of the owned object with the reference in it. The
  owner is given by its Go type, which the scheme maps to a kind, and its metadata.
\<close>

definition validateOwner :: "ObjectMeta \<Rightarrow> ObjectMeta \<Rightarrow> api_error option" where
  "validateOwner owner object =
     (if Namespace owner \<noteq> '''' then
        (if Namespace object = '''' then
           Some (OtherError ''cluster-scoped resource must not have a namespace-scoped owner'')
         else if Namespace owner \<noteq> Namespace object then
           Some (OtherError ''cross-namespace owner references are disallowed'')
         else None)
      else None)"

definition referSameObject :: "OwnerReference \<Rightarrow> OwnerReference \<Rightarrow> bool" where
  "referSameObject a b =
     (case ParseGroupVersion (APIVersion a) of None \<Rightarrow> False
      | Some aGV \<Rightarrow>
          (case ParseGroupVersion (APIVersion b) of None \<Rightarrow> False
           | Some bGV \<Rightarrow> gvGroup aGV = gvGroup bGV \<and> Kind a = Kind b \<and> OwnerName a = OwnerName b))"

text \<open>\<open>upsertOwnerRef\<close> with \<open>indexOwnerRef\<close>: the first reference to the object is replaced.\<close>

fun upsertRef :: "OwnerReference \<Rightarrow> OwnerReference list \<Rightarrow> OwnerReference list" where
  "upsertRef ref [] = [ref]"
| "upsertRef ref (r # rs) = (if referSameObject r ref then ref # rs else r # upsertRef ref rs)"

definition upsertOwnerRef :: "OwnerReference \<Rightarrow> ObjectMeta \<Rightarrow> ObjectMeta" where
  "upsertOwnerRef ref object =
     object\<lparr>OwnerReferences := upsertRef ref (OwnerReferences object)\<rparr>"

fun GetControllerOf :: "OwnerReference list \<Rightarrow> OwnerReference option" where
  "GetControllerOf [] = None"
| "GetControllerOf (r # rs) = (if Controller r = Some True then Some r else GetControllerOf rs)"

definition SetControllerReference ::
  "GoType \<Rightarrow> ObjectMeta \<Rightarrow> ObjectMeta \<Rightarrow> Scheme \<Rightarrow> api_error + ObjectMeta" where
  "SetControllerReference ownerType owner controlled scheme =
     (case validateOwner owner controlled of
        Some err \<Rightarrow> Inl err
      | None \<Rightarrow>
          (case GVKForObject ownerType scheme of
             Inl err \<Rightarrow> Inl err
           | Inr gvk \<Rightarrow>
               (let ref = \<lparr>APIVersion =
                             GroupVersionString (GroupVersion (gvkGroup gvk) (gvkVersion gvk)),
                           Kind = gvkKind gvk, OwnerName = Name owner, OwnerUID = UID owner,
                           Controller = Some True, BlockOwnerDeletion = Some True\<rparr>
                in case GetControllerOf (OwnerReferences controlled) of
                     Some existing \<Rightarrow>
                       if \<not> referSameObject existing ref
                       then Inl (OtherError ''already owned by another controller'')
                       else Inr (upsertOwnerRef ref controlled)
                   | None \<Rightarrow> Inr (upsertOwnerRef ref controlled))))"

definition SetOwnerReference ::
  "GoType \<Rightarrow> ObjectMeta \<Rightarrow> ObjectMeta \<Rightarrow> Scheme \<Rightarrow> api_error + ObjectMeta" where
  "SetOwnerReference ownerType owner object scheme =
     (case validateOwner owner object of
        Some err \<Rightarrow> Inl err
      | None \<Rightarrow>
          (case GVKForObject ownerType scheme of
             Inl err \<Rightarrow> Inl err
           | Inr gvk \<Rightarrow>
               Inr (upsertOwnerRef
                 \<lparr>APIVersion = GroupVersionString (GroupVersion (gvkGroup gvk) (gvkVersion gvk)),
                  Kind = gvkKind gvk, OwnerName = Name owner, OwnerUID = UID owner,
                  Controller = None, BlockOwnerDeletion = None\<rparr> object)))"

lemma upsertOwnerRef_simps [simp]:
  "Name (upsertOwnerRef r m) = Name m"
  "GenerateName (upsertOwnerRef r m) = GenerateName m"
  "Namespace (upsertOwnerRef r m) = Namespace m"
  "UID (upsertOwnerRef r m) = UID m"
  "ResourceVersion (upsertOwnerRef r m) = ResourceVersion m"
  "Labels (upsertOwnerRef r m) = Labels m"
  "Annotations (upsertOwnerRef r m) = Annotations m"
  "OwnerReferences (upsertOwnerRef r m) = upsertRef r (OwnerReferences m)"
  "DeletionTimestamp (upsertOwnerRef r m) = DeletionTimestamp m"
  "Finalizers (upsertOwnerRef r m) = Finalizers m"
  by (simp_all add: upsertOwnerRef_def)

text \<open>Neither setter touches anything but the owner references.\<close>

lemma SetOwnerReference_meta:
  "SetOwnerReference t own m scheme = Inr m' \<Longrightarrow>
     \<exists>rs. m' = m\<lparr>OwnerReferences := rs\<rparr>"
  by (auto simp: SetOwnerReference_def upsertOwnerRef_def split: option.splits sum.splits)

lemma SetControllerReference_meta:
  "SetControllerReference t own m scheme = Inr m' \<Longrightarrow>
     \<exists>rs. m' = m\<lparr>OwnerReferences := rs\<rparr>"
  by (auto simp: SetControllerReference_def upsertOwnerRef_def Let_def
      split: option.splits sum.splits if_splits)

text \<open>The reference a setter adds is in the result, and older references to others stay.\<close>

lemma upsertRef_in: "ref \<in> set (upsertRef ref rs)"
  by (induction rs) auto

lemma upsertRef_keeps: "r \<in> set rs \<Longrightarrow> \<not> referSameObject r ref \<Longrightarrow> r \<in> set (upsertRef ref rs)"
  by (induction rs) auto

lemma upsertRef_idem: "referSameObject ref ref \<Longrightarrow> upsertRef ref (upsertRef ref rs) = upsertRef ref rs"
  by (induction rs) auto

text \<open>After a successful call the controller of the object is the owner, and a further call changes nothing.\<close>

lemma GetControllerOf_upsert:
  assumes "Controller ref = Some True"
    and "\<And>e. GetControllerOf rs = Some e \<Longrightarrow> referSameObject e ref"
  shows "GetControllerOf (upsertRef ref rs) = Some ref"
  using assms by (induction rs) (auto split: if_splits)

lemma SetControllerReference_again:
  assumes "SetControllerReference t own m scheme = Inr m'" and "GVKForObject t scheme = Inr gvk"
    and "CHR ''/'' \<notin> set (gvkGroup gvk)" and "CHR ''/'' \<notin> set (gvkVersion gvk)" and "gvkVersion gvk \<noteq> ''''"
  shows "SetControllerReference t own m' scheme = Inr m'"
    and "\<exists>ref. GetControllerOf (OwnerReferences m') = Some ref \<and> OwnerName ref = Name own
      \<and> OwnerUID ref = UID own \<and> Kind ref = gvkKind gvk"
proof -
  let ?ref = "\<lparr>APIVersion = GroupVersionString (GroupVersion (gvkGroup gvk) (gvkVersion gvk)),
                Kind = gvkKind gvk, OwnerName = Name own, OwnerUID = UID own,
                Controller = Some True, BlockOwnerDeletion = Some True\<rparr>"
  have self: "referSameObject ?ref ?ref"
    using assms(3-5) by (simp add: referSameObject_def ParseGroupVersion_String)
  have m': "m' = upsertOwnerRef ?ref m" and v: "validateOwner own m = None"
    and c: "\<And>e. GetControllerOf (OwnerReferences m) = Some e \<Longrightarrow> referSameObject e ?ref"
    using assms(1,2) by (auto simp: SetControllerReference_def Let_def split: option.splits if_splits)
  have g: "GetControllerOf (OwnerReferences m') = Some ?ref"
    using GetControllerOf_upsert [OF _ c] by (simp add: m')
  have "upsertOwnerRef ?ref m' = m'"
    by (simp add: m' upsertOwnerRef_def upsertRef_idem [OF self])
  moreover have "validateOwner own m' = validateOwner own m" by (simp add: m' validateOwner_def)
  ultimately show "SetControllerReference t own m' scheme = Inr m'"
    using g self v assms(2) by (simp add: SetControllerReference_def)
  show "\<exists>ref. GetControllerOf (OwnerReferences m') = Some ref \<and> OwnerName ref = Name own
      \<and> OwnerUID ref = UID own \<and> Kind ref = gvkKind gvk"
    using g by simp
qed

end
