(* ===== verification/ClientSpec.thy ===== *)
theory ClientSpec
  imports ApiTypes OwnerRefs
begin

text \<open>
  The interface between the reconciler and the cluster. The API server is not code of the
  repository, so the reconciler takes it as a record of operations (\<open>client\<close>) on a state of
  any type. What the reconciler relies on is stated as the laws of the locale \<open>api_client\<close>
  about the cluster that an abstraction \<open>ab\<close> reads off that state: a call may fail at any
  time, a NotFound answer is honest, a successful call has the documented effect and a failed
  write may or may not have taken effect. \<open>reliable_client\<close> adds that reads do not fail.
\<close>

section \<open>Operations\<close>

record event =
  evKind :: string
  evObject :: NamespacedName
  evType :: string
  evReason :: string
  evMessageFmt :: string
  evArgs :: "string list"

record 's client =
  get_ArtifactBuild :: "NamespacedName \<Rightarrow> ('s, api_error + ArtifactBuild) state"
  get_ComponentBuild :: "NamespacedName \<Rightarrow> ('s, api_error + ComponentBuild) state"
  get_TaskRun :: "NamespacedName \<Rightarrow> ('s, api_error + TaskRun) state"
  get_PipelineRun :: "NamespacedName \<Rightarrow> ('s, api_error + PipelineRun) state"
  get_ConfigMap :: "NamespacedName \<Rightarrow> ('s, api_error + ConfigMap) state"
  get_RebuiltArtifact :: "NamespacedName \<Rightarrow> ('s, api_error + RebuiltArtifact) state"
  get_DependencyBuild :: "NamespacedName \<Rightarrow> ('s, api_error + DependencyBuild) state"
  list_ComponentBuild :: "string \<Rightarrow> ('s, api_error + ComponentBuild list) state"
  list_TaskRun :: "string \<Rightarrow> Selector \<Rightarrow> ('s, api_error + TaskRun list) state"
  list_PipelineRun :: "string \<Rightarrow> Selector \<Rightarrow> ('s, api_error + PipelineRun list) state"
  create_ArtifactBuild :: "ArtifactBuild \<Rightarrow> ('s, api_error + ArtifactBuild) state"
  create_TaskRun :: "TaskRun \<Rightarrow> ('s, api_error + TaskRun) state"
  create_PipelineRun :: "PipelineRun \<Rightarrow> ('s, api_error + PipelineRun) state"
  update_DependencyBuild :: "DependencyBuild \<Rightarrow> ('s, api_error + DependencyBuild) state"
  update_status_ComponentBuild :: "ComponentBuild \<Rightarrow> ('s, api_error + ComponentBuild) state"
  Eventf :: "event \<Rightarrow> ('s, unit) state"
  range_choice :: "('s, nat) state"

text \<open>
  The field \<open>Eventf\<close> is the event recorder of the reconciler; \<open>range_choice\<close> is the Go runtime's
  choice of an iteration order. The rest of the reconciler's environment: its scheme and the two
  library functions of other repositories it calls with a value only.
\<close>

record env =
  scheme :: Scheme
  CreateABRName :: "string \<Rightarrow> string"
  ParseQuantity :: "string \<Rightarrow> api_error + int"

section \<open>The cluster\<close>

record cluster =
  artifactBuilds :: "NamespacedName \<rightharpoonup> ArtifactBuild"
  componentBuilds :: "NamespacedName \<rightharpoonup> ComponentBuild"
  taskRuns :: "NamespacedName \<rightharpoonup> TaskRun"
  pipelineRuns :: "NamespacedName \<rightharpoonup> PipelineRun"
  configMaps :: "NamespacedName \<rightharpoonup> ConfigMap"
  rebuiltArtifacts :: "NamespacedName \<rightharpoonup> RebuiltArtifact"
  dependencyBuilds :: "NamespacedName \<rightharpoonup> DependencyBuild"

definition get_ok :: "(NamespacedName \<rightharpoonup> 'o) \<Rightarrow> NamespacedName \<Rightarrow> api_error + 'o \<Rightarrow> bool" where
  "get_ok m k r = (case r of Inr x \<Rightarrow> m k = Some x | Inl e \<Rightarrow> IsNotFound e \<longrightarrow> m k = None)"

definition selected :: "('a kobject_scheme \<Rightarrow> bool) \<Rightarrow> string \<Rightarrow> (NamespacedName \<rightharpoonup> 'a kobject_scheme) \<Rightarrow> NamespacedName set" where
  "selected p ns m = {k. \<exists>x. m k = Some x \<and> (ns = '''' \<or> obj_ns x = ns) \<and> p x}"

definition list_ok ::
  "('a kobject_scheme \<Rightarrow> bool) \<Rightarrow> string \<Rightarrow> (NamespacedName \<rightharpoonup> 'a kobject_scheme)
     \<Rightarrow> api_error + 'a kobject_scheme list \<Rightarrow> bool" where
  "list_ok p ns m r =
     (case r of
        Inl e \<Rightarrow> True
      | Inr xs \<Rightarrow> \<exists>ks. distinct ks \<and> set ks = selected p ns m \<and> xs = map (\<lambda>k. the (m k)) ks)"

text \<open>
  What the server may add to a created object: a name where the request leaves it to the server
  (which it may only with a prefix), a UID, a version, further labels and annotations; the payload
  and the labels of the request stay.
\<close>

definition accepted :: "'a kobject_scheme \<Rightarrow> 'a kobject_scheme \<Rightarrow> bool" where
  "accepted x x' \<longleftrightarrow>
     (\<exists>md. x' = x\<lparr>metadata := md\<rparr> \<and> Namespace md = obj_ns x
        \<and> (obj_name x \<noteq> '''' \<longrightarrow> Name md = obj_name x)
        \<and> (obj_name x = '''' \<longrightarrow> GenerateName (metadata x) \<noteq> '''')
        \<and> OwnerReferences md = OwnerReferences (metadata x)
        \<and> (\<forall>l v. gm_lookup (Labels (metadata x)) l = Some v \<longrightarrow> gm_lookup (Labels md) l = Some v))"

definition created ::
  "(NamespacedName \<rightharpoonup> 'a kobject_scheme) \<Rightarrow> 'a kobject_scheme \<Rightarrow> 'a kobject_scheme
     \<Rightarrow> (NamespacedName \<rightharpoonup> 'a kobject_scheme) \<Rightarrow> bool" where
  "created m x x' m' \<longleftrightarrow> accepted x x' \<and> m (obj_key x') = None \<and> m' = m(obj_key x' \<mapsto> x')"

definition create_ok ::
  "(NamespacedName \<rightharpoonup> 'a kobject_scheme) \<Rightarrow> 'a kobject_scheme \<Rightarrow> api_error + 'a kobject_scheme
     \<Rightarrow> (NamespacedName \<rightharpoonup> 'a kobject_scheme) \<Rightarrow> bool" where
  "create_ok m x r m' =
     (case r of Inr x' \<Rightarrow> created m x x' m' | Inl e \<Rightarrow> m' = m \<or> (\<exists>x'. created m x x' m'))"

lemma create_ok_cases: "create_ok m x r m' \<Longrightarrow> m' = m \<or> (\<exists>x'. created m x x' m')"
  by (auto simp: create_ok_def split: sum.splits)

text \<open>
  A full update replaces the object up to its version; a status update keeps the specification
  of one of the two. Either may complete the deletion of an object that was being deleted.
\<close>

definition updated ::
  "(NamespacedName \<rightharpoonup> 'a kobject_scheme) \<Rightarrow> 'a kobject_scheme \<Rightarrow> (NamespacedName \<rightharpoonup> 'a kobject_scheme) \<Rightarrow> bool"
where
  "updated m x m' \<longleftrightarrow> m (obj_key x) \<noteq> None \<and>
     ((\<exists>rv. m' = m(obj_key x \<mapsto> x\<lparr>metadata := (metadata x)\<lparr>ResourceVersion := rv\<rparr>\<rparr>))
      \<or> DeletionTimestamp (metadata x) \<noteq> None \<and> m' = m(obj_key x := None))"

definition status_updated ::
  "(NamespacedName \<rightharpoonup> ComponentBuild) \<Rightarrow> ComponentBuild \<Rightarrow> (NamespacedName \<rightharpoonup> ComponentBuild) \<Rightarrow> bool"
where
  "status_updated m x m' \<longleftrightarrow>
     (\<exists>old. m (obj_key x) = Some old \<and>
        ((\<exists>x'. m' = m(obj_key x \<mapsto> x') \<and> obj_key x' = obj_key x \<and> cbStatus x' = cbStatus x
               \<and> (cbSpec x' = cbSpec old \<or> cbSpec x' = cbSpec x))
         \<or> DeletionTimestamp (metadata x) \<noteq> None \<and> m' = m(obj_key x := None)))"

section \<open>Laws\<close>

locale api_client =
  fixes cl :: "'s client"
    and ab :: "'s \<Rightarrow> cluster"
  assumes get_ArtifactBuild_law: "reads ab (get_ArtifactBuild cl k) (\<lambda>c. get_ok (artifactBuilds c) k)"
    and get_ComponentBuild_law: "reads ab (get_ComponentBuild cl k) (\<lambda>c. get_ok (componentBuilds c) k)"
    and get_TaskRun_law: "reads ab (get_TaskRun cl k) (\<lambda>c. get_ok (taskRuns c) k)"
    and get_PipelineRun_law: "reads ab (get_PipelineRun cl k) (\<lambda>c. get_ok (pipelineRuns c) k)"
    and get_ConfigMap_law: "reads ab (get_ConfigMap cl k) (\<lambda>c. get_ok (configMaps c) k)"
    and get_RebuiltArtifact_law: "reads ab (get_RebuiltArtifact cl k) (\<lambda>c. get_ok (rebuiltArtifacts c) k)"
    and get_DependencyBuild_law: "reads ab (get_DependencyBuild cl k) (\<lambda>c. get_ok (dependencyBuilds c) k)"
    and list_ComponentBuild_law:
      "reads ab (list_ComponentBuild cl ns) (\<lambda>c. list_ok (\<lambda>_. True) ns (componentBuilds c))"
    and list_TaskRun_law:
      "reads ab (list_TaskRun cl ns sel)
         (\<lambda>c. list_ok (\<lambda>x. SelectorMatches sel (Labels (metadata x))) ns (taskRuns c))"
    and list_PipelineRun_law:
      "reads ab (list_PipelineRun cl ns sel)
         (\<lambda>c. list_ok (\<lambda>x. SelectorMatches sel (Labels (metadata x))) ns (pipelineRuns c))"
    and create_ArtifactBuild_law:
      "writes ab (create_ArtifactBuild cl abr)
         (\<lambda>c r c'. \<exists>m. c' = c\<lparr>artifactBuilds := m\<rparr> \<and> create_ok (artifactBuilds c) abr r m)"
    and create_TaskRun_law:
      "writes ab (create_TaskRun cl tr)
         (\<lambda>c r c'. \<exists>m. c' = c\<lparr>taskRuns := m\<rparr> \<and> create_ok (taskRuns c) tr r m)"
    and create_PipelineRun_law:
      "writes ab (create_PipelineRun cl pr)
         (\<lambda>c r c'. \<exists>m. c' = c\<lparr>pipelineRuns := m\<rparr> \<and> create_ok (pipelineRuns c) pr r m)"
    and update_DependencyBuild_law:
      "writes ab (update_DependencyBuild cl db)
         (\<lambda>c r c'. \<exists>m. c' = c\<lparr>dependencyBuilds := m\<rparr>
            \<and> (isl r \<and> m = dependencyBuilds c \<or> updated (dependencyBuilds c) db m))"
    and update_status_law:
      "writes ab (update_status_ComponentBuild cl cb)
         (\<lambda>c r c'. \<exists>m. c' = c\<lparr>componentBuilds := m\<rparr>
            \<and> (isl r \<and> m = componentBuilds c \<or> status_updated (componentBuilds c) cb m))"
    and Eventf_law: "reads ab (Eventf cl ev) (\<lambda>_ _. True)"
    and range_choice_law: "reads ab (range_choice cl) (\<lambda>_ _. True)"

text \<open>A read fails only because the object does not exist; a list does not fail.\<close>

abbreviation honest :: "'c \<Rightarrow> api_error + 'a \<Rightarrow> bool" where
  "honest c r \<equiv> \<forall>e. r = Inl e \<longrightarrow> IsNotFound e"

locale reliable_client = api_client +
  assumes get_ArtifactBuild_honest: "reads ab (get_ArtifactBuild cl k) honest"
    and get_ComponentBuild_honest: "reads ab (get_ComponentBuild cl k) honest"
    and get_TaskRun_honest: "reads ab (get_TaskRun cl k) honest"
    and get_PipelineRun_honest: "reads ab (get_PipelineRun cl k) honest"
    and get_ConfigMap_honest: "reads ab (get_ConfigMap cl k) honest"
    and get_RebuiltArtifact_honest: "reads ab (get_RebuiltArtifact cl k) honest"
    and get_DependencyBuild_honest: "reads ab (get_DependencyBuild cl k) honest"
    and list_ComponentBuild_honest: "reads ab (list_ComponentBuild cl ns) (\<lambda>_ r. \<not> isl r)"
    and list_TaskRun_honest: "reads ab (list_TaskRun cl ns sel) (\<lambda>_ r. \<not> isl r)"
    and list_PipelineRun_honest: "reads ab (list_PipelineRun cl ns sel) (\<lambda>_ r. \<not> isl r)"

section \<open>The laws as assertions\<close>

context api_client
begin

text \<open>What a call keeps whatever it answers; the collection drives the invariant proofs.\<close>

lemmas read_keeps =
  get_ArtifactBuild_law [THEN reads_keeps]
  get_ComponentBuild_law [THEN reads_keeps]
  get_TaskRun_law [THEN reads_keeps]
  get_PipelineRun_law [THEN reads_keeps]
  get_ConfigMap_law [THEN reads_keeps]
  get_RebuiltArtifact_law [THEN reads_keeps]
  get_DependencyBuild_law [THEN reads_keeps]
  list_ComponentBuild_law [THEN reads_keeps]
  list_TaskRun_law [THEN reads_keeps]
  list_PipelineRun_law [THEN reads_keeps]
  Eventf_law [THEN reads_keeps]
  range_choice_law [THEN reads_keeps]

text \<open>Weakest preconditions of the calls.\<close>

lemmas call_wp =
  get_ArtifactBuild_law [THEN reads_wp]
  get_ComponentBuild_law [THEN reads_wp]
  get_TaskRun_law [THEN reads_wp]
  get_PipelineRun_law [THEN reads_wp]
  get_ConfigMap_law [THEN reads_wp]
  get_RebuiltArtifact_law [THEN reads_wp]
  get_DependencyBuild_law [THEN reads_wp]
  list_ComponentBuild_law [THEN reads_wp]
  list_TaskRun_law [THEN reads_wp]
  list_PipelineRun_law [THEN reads_wp]
  Eventf_law [THEN reads_wp]
  range_choice_law [THEN reads_wp]
  create_ArtifactBuild_law [THEN writes_wp]
  create_TaskRun_law [THEN writes_wp]
  create_PipelineRun_law [THEN writes_wp]
  update_DependencyBuild_law [THEN writes_wp]
  update_status_law [THEN writes_wp]

end

text \<open>With reliable reads an answer is the stored object, or its absence.\<close>

definition exact :: "(NamespacedName \<rightharpoonup> 'o) \<Rightarrow> NamespacedName \<Rightarrow> api_error + 'o \<Rightarrow> bool" where
  "exact m k r =
     (case r of Inr x \<Rightarrow> m k = Some x | Inl e \<Rightarrow> IsNotFound e \<and> m k = None)"

lemma exact_of_get_ok: "get_ok m k r \<Longrightarrow> \<forall>e. r = Inl e \<longrightarrow> IsNotFound e \<Longrightarrow> exact m k r"
  by (auto simp: get_ok_def exact_def split: sum.splits)

context reliable_client
begin

lemma get_ArtifactBuild_exact: "reads ab (get_ArtifactBuild cl k) (\<lambda>c. exact (artifactBuilds c) k)"
  by (rule reads_mono [OF reads_conj [OF get_ArtifactBuild_law get_ArtifactBuild_honest]])
    (simp add: exact_of_get_ok)

lemma get_ComponentBuild_exact: "reads ab (get_ComponentBuild cl k) (\<lambda>c. exact (componentBuilds c) k)"
  by (rule reads_mono [OF reads_conj [OF get_ComponentBuild_law get_ComponentBuild_honest]])
    (simp add: exact_of_get_ok)

lemma get_TaskRun_exact: "reads ab (get_TaskRun cl k) (\<lambda>c. exact (taskRuns c) k)"
  by (rule reads_mono [OF reads_conj [OF get_TaskRun_law get_TaskRun_honest]])
    (simp add: exact_of_get_ok)

lemma get_PipelineRun_exact: "reads ab (get_PipelineRun cl k) (\<lambda>c. exact (pipelineRuns c) k)"
  by (rule reads_mono [OF reads_conj [OF get_PipelineRun_law get_PipelineRun_honest]])
    (simp add: exact_of_get_ok)

lemma get_ConfigMap_exact: "reads ab (get_ConfigMap cl k) (\<lambda>c. exact (configMaps c) k)"
  by (rule reads_mono [OF reads_conj [OF get_ConfigMap_law get_ConfigMap_honest]])
    (simp add: exact_of_get_ok)

lemma get_RebuiltArtifact_exact: "reads ab (get_RebuiltArtifact cl k) (\<lambda>c. exact (rebuiltArtifacts c) k)"
  by (rule reads_mono [OF reads_conj [OF get_RebuiltArtifact_law get_RebuiltArtifact_honest]])
    (simp add: exact_of_get_ok)

lemma get_DependencyBuild_exact: "reads ab (get_DependencyBuild cl k) (\<lambda>c. exact (dependencyBuilds c) k)"
  by (rule reads_mono [OF reads_conj [OF get_DependencyBuild_law get_DependencyBuild_honest]])
    (simp add: exact_of_get_ok)

lemmas exact_wp =
  get_ArtifactBuild_exact [THEN reads_wp]
  get_ComponentBuild_exact [THEN reads_wp]
  get_TaskRun_exact [THEN reads_wp]
  get_PipelineRun_exact [THEN reads_wp]
  get_ConfigMap_exact [THEN reads_wp]
  get_RebuiltArtifact_exact [THEN reads_wp]
  get_DependencyBuild_exact [THEN reads_wp]

end

end
