(* ===== verification/InFlight.thy ===== *)
theory InFlight
  imports ClientSpec
begin

text \<open>
  Runs in flight. The reconciler starts at most one run for a subject at a time: it labels the run
  with the subject's name, lists the runs with that label and starts one only when none of them is
  unfinished. The argument is the same for task runs and pipeline runs, so it is made here for any
  resource, any label and any notion of unfinished run.
\<close>

definition in_flight ::
  "string \<Rightarrow> ('a kobject_scheme \<Rightarrow> bool) \<Rightarrow> (NamespacedName \<rightharpoonup> 'a kobject_scheme)
     \<Rightarrow> string \<Rightarrow> string \<Rightarrow> NamespacedName set" where
  "in_flight lbl unfinished m ns subject =
     {k. \<exists>x. m k = Some x \<and> obj_ns x = ns
           \<and> gm_lookup (Labels (metadata x)) lbl = Some subject \<and> unfinished x}"

definition at_most_one :: "'a set \<Rightarrow> bool" where
  "at_most_one A \<longleftrightarrow> (\<forall>x y. x \<in> A \<longrightarrow> y \<in> A \<longrightarrow> x = y)"

definition single_flight ::
  "string \<Rightarrow> ('a kobject_scheme \<Rightarrow> bool) \<Rightarrow> (NamespacedName \<rightharpoonup> 'a kobject_scheme) \<Rightarrow> bool" where
  "single_flight lbl unfinished m \<longleftrightarrow>
     (\<forall>ns subject. at_most_one (in_flight lbl unfinished m ns subject))"

lemma at_most_one_subset: "at_most_one A \<Longrightarrow> B \<subseteq> A \<Longrightarrow> at_most_one B"
  by (auto simp: at_most_one_def)

lemma at_most_one_single [simp]: "at_most_one {x}" "at_most_one {}"
  by (auto simp: at_most_one_def)

lemma single_flight_empty [simp]: "single_flight lbl unfinished Map.empty"
  by (simp add: single_flight_def in_flight_def)

text \<open>A query by label decides whether a run is in flight.\<close>

lemma list_unfinished_iff:
  assumes "list_ok p ns m (Inr items)"
  shows "list_ex unfinished items \<longleftrightarrow> selected (\<lambda>x. p x \<and> unfinished x) ns m \<noteq> {}"
proof -
  from assms obtain ks where "set ks = selected p ns m" and "items = map (\<lambda>k. the (m k)) ks"
    by (auto simp: list_ok_def)
  then show ?thesis by (force simp: list_ex_iff selected_def)
qed

lemma in_flight_selected:
  "in_flight lbl unfinished m ns subject \<subseteq>
     selected (\<lambda>x. gm_lookup (Labels (metadata x)) lbl = Some subject \<and> unfinished x) ns m"
  by (auto simp: in_flight_def selected_def)

lemma list_shows_none:
  assumes "list_ok (\<lambda>x. gm_lookup (Labels (metadata x)) lbl = Some subject) ns m (Inr items)"
    and "\<not> list_ex unfinished items"
  shows "in_flight lbl unfinished m ns subject = {}"
  using assms in_flight_selected [of lbl unfinished m ns subject]
  by (auto simp: list_unfinished_iff)

text \<open>Starting a run for a subject that has none keeps the invariant.\<close>

lemma created_single_flight:
  assumes "single_flight lbl unfinished m" and "created m x x' m'"
    and "gm_lookup (Labels (metadata x)) lbl = Some subject"
    and "in_flight lbl unfinished m (obj_ns x) subject = {}"
  shows "single_flight lbl unfinished m'"
proof -
  from assms(2,3) have x': "m' = m(obj_key x' \<mapsto> x')" "obj_ns x' = obj_ns x"
    "gm_lookup (Labels (metadata x')) lbl = Some subject"
    by (auto simp: created_def accepted_def)
  have "at_most_one (in_flight lbl unfinished m' ns sb)" for ns sb
  proof (cases "ns = obj_ns x \<and> sb = subject")
    case True
    then have "in_flight lbl unfinished m' ns sb
        \<subseteq> insert (obj_key x') (in_flight lbl unfinished m (obj_ns x) subject)"
      by (auto simp: in_flight_def x'(1) split: if_splits)
    with assms(4) have "in_flight lbl unfinished m' ns sb \<subseteq> {obj_key x'}" by simp
    with at_most_one_single(1) show ?thesis by (rule at_most_one_subset)
  next
    case False
    then have "in_flight lbl unfinished m' ns sb \<subseteq> in_flight lbl unfinished m ns sb"
      using x' by (auto simp: in_flight_def split: if_splits)
    moreover have "at_most_one (in_flight lbl unfinished m ns sb)"
      using assms(1) by (simp add: single_flight_def)
    ultimately show ?thesis using at_most_one_subset by blast
  qed
  then show ?thesis by (simp add: single_flight_def)
qed

text \<open>
  Others may change runs and remove them, and may add runs that are finished or carry another
  label, without breaking the invariant.
\<close>

lemma single_flight_others:
  assumes "single_flight lbl unfinished m"
    and "\<And>k x. m' k = Some x \<Longrightarrow> unfinished x \<Longrightarrow> gm_lookup (Labels (metadata x)) lbl \<noteq> None \<Longrightarrow>
           \<exists>y. m k = Some y \<and> unfinished y \<and> obj_ns y = obj_ns x
               \<and> gm_lookup (Labels (metadata y)) lbl = gm_lookup (Labels (metadata x)) lbl"
  shows "single_flight lbl unfinished m'"
proof -
  have "in_flight lbl unfinished m' ns sb \<subseteq> in_flight lbl unfinished m ns sb" for ns sb
    using assms(2) by (fastforce simp: in_flight_def)
  moreover have "at_most_one (in_flight lbl unfinished m ns sb)" for ns sb
    using assms(1) by (simp add: single_flight_def)
  ultimately have "at_most_one (in_flight lbl unfinished m' ns sb)" for ns sb
    by (rule at_most_one_subset [rotated])
  then show ?thesis by (simp add: single_flight_def)
qed

end
