(* ===== verification/ArtifactSteps.thy ===== *)
theory ArtifactSteps
  imports InFlight
begin

text \<open>
  What the reconciler does for one artifact
  (\<open>pkg/reconciler/componentbuild/componentbuild.go\<close>): it finds the dependency build an artifact
  came from (\<open>getDependencyBuild\<close>), reads off the artifact's state (\<open>artifactState\<close>) and creates
  a task run that deploys it (\<open>deployArtifact\<close>). The second half specifies what they compute on
  the cluster and shows that they do, and that there is never more than one deploy task in flight
  for a dependency build.
\<close>

section \<open>Constants\<close>

definition DeployTaskLabel :: string where
  "DeployTaskLabel = ''apheleia.io/deploy-task''"
definition NotifyPipelineLabel :: string where
  "NotifyPipelineLabel = ''apheleia.io/notify-pipeline''"
definition ApheleiaConfig :: string where
  "ApheleiaConfig = ''apheleia-config''"
definition MavenRepo :: string where
  "MavenRepo = ''maven-repo''"
definition AWSDomain :: string where
  "AWSDomain = ''aws-domain''"
definition AWSOwner :: string where
  "AWSOwner = ''aws-owner''"
definition DeployedAnnotation :: string where
  "DeployedAnnotation = ''io.aphelia/deployed''"

definition ArtifactBuildType :: GoType where
  "ArtifactBuildType =
     GoType ''github.com/redhat-appstudio/jvm-build-service/pkg/apis/jvmbuildservice/v1alpha1''
       ''ArtifactBuild''"

section \<open>Operations\<close>

text \<open>The loop over the owner references keeps the last \<open>DependencyBuild\<close>.\<close>

fun dependencyOwner :: "string \<Rightarrow> OwnerReference list \<Rightarrow> string" where
  "dependencyOwner acc [] = acc"
| "dependencyOwner acc (r # rs) =
     dependencyOwner (if Kind r = ''DependencyBuild'' then OwnerName r else acc) rs"

definition getDependencyBuild ::
  "'s client \<Rightarrow> ArtifactBuild \<Rightarrow> ('s, DependencyBuild option) state" where
  "getDependencyBuild cl abr = do {
     ra \<leftarrow> get_RebuiltArtifact cl (NamespacedName (obj_ns abr) (obj_name abr));
     case ra of
       Inl err \<Rightarrow> State_Monad.return None
     | Inr ra \<Rightarrow>
         (let dependencyBuildName = dependencyOwner '''' (OwnerReferences (metadata ra)) in
          if dependencyBuildName \<noteq> '''' then do {
            da \<leftarrow> get_DependencyBuild cl (NamespacedName (obj_ns abr) dependencyBuildName);
            case da of
              Inr da \<Rightarrow> State_Monad.return (Some da)
            | Inl err \<Rightarrow> State_Monad.return None
          }
          else State_Monad.return None)
   }"

definition artifactState :: "'s client \<Rightarrow> ArtifactBuild \<Rightarrow> ('s, ArtifactState) state" where
  "artifactState cl abr =
     (let failed = (abState abr = ArtifactBuildStateFailed \<or> abState abr = ArtifactBuildStateMissing);
          built = (abState abr = ArtifactBuildStateComplete)
      in do {
        deployed \<leftarrow>
          (if built then do {
             db \<leftarrow> getDependencyBuild cl abr;
             State_Monad.return (case db of None \<Rightarrow> False
               | Some db \<Rightarrow> gm_get (Annotations (metadata db)) DeployedAnnotation = ''true'')
           }
           else State_Monad.return False);
        State_Monad.return \<lparr>ArtifactBuildName = obj_name abr, Built = built, Deployed = deployed,
          Failed = failed\<rparr>
      })"

definition stringParam :: "string \<Rightarrow> string \<Rightarrow> Param" where
  "stringParam name val = \<lparr>ParamName = name, ParamKind = ParamTypeString, StringVal = val\<rparr>"

text \<open>
  The task run \<open>deployArtifact\<close> creates. A failed \<open>SetOwnerReference\<close> is logged only, so the
  object is then created without owner.
\<close>

definition deployTaskRun ::
  "env \<Rightarrow> ArtifactBuild \<Rightarrow> DependencyBuild \<Rightarrow> string \<Rightarrow> string \<Rightarrow> string \<Rightarrow> TaskRun" where
  "deployTaskRun env abr db deployUrl owner domain =
     (let meta0 = empty_meta\<lparr>GenerateName := obj_name abr @ ''-deploy-task'', Namespace := obj_ns abr\<rparr>;
          meta1 = (case SetOwnerReference ArtifactBuildType (metadata abr) meta0 (scheme env) of
                     Inl orerr \<Rightarrow> meta0 | Inr m \<Rightarrow> m);
          meta2 = meta1\<lparr>Labels := Some [(DeployTaskLabel, obj_name db)]\<rparr>
      in empty_TaskRun\<lparr>metadata := meta2,
           trTaskRef := Some \<lparr>taskName = ''apheleia-deploy'', taskKind = ClusterTaskKind\<rparr>,
           trParams :=
             [stringParam ''DOMAIN'' domain, stringParam ''OWNER'' owner,
              stringParam ''REPO'' deployUrl, stringParam ''FORCE'' ''false'',
              stringParam ''ARTIFACT'' (obj_name abr)]\<rparr>)"

definition deployArtifact ::
  "env \<Rightarrow> 's client \<Rightarrow> ArtifactBuild \<Rightarrow> string \<Rightarrow> string \<Rightarrow> string \<Rightarrow> ('s, api_error option) state"
where
  "deployArtifact env cl abr deployUrl owner domain = do {
     db \<leftarrow> getDependencyBuild cl abr;
     case db of
       None \<Rightarrow> State_Monad.return None
     | Some db \<Rightarrow>
         (if gm_get (Annotations (metadata db)) DeployedAnnotation = '''' then do {
            existing \<leftarrow>
              list_TaskRun cl (obj_ns abr) (SelectorFromSet [(DeployTaskLabel, obj_name db)]);
            case existing of
              Inl err \<Rightarrow> State_Monad.return (Some err)
            | Inr items \<Rightarrow>
                (if list_ex (\<lambda>i. IsUnknown (trSucceeded i)) items then State_Monad.return None
                 else do {
                   r \<leftarrow> create_TaskRun cl (deployTaskRun env abr db deployUrl owner domain);
                   State_Monad.return (case r of Inl err \<Rightarrow> Some err | Inr tr \<Rightarrow> None)
                 })
          }
          else State_Monad.return None)
   }"

section \<open>What they compute\<close>

definition dependency_of :: "cluster \<Rightarrow> ArtifactBuild \<Rightarrow> DependencyBuild option" where
  "dependency_of c abr =
     (case rebuiltArtifacts c (obj_key abr) of
        None \<Rightarrow> None
      | Some ra \<Rightarrow>
          (let n = dependencyOwner '''' (OwnerReferences (metadata ra)) in
           if n = '''' then None else dependencyBuilds c (NamespacedName (obj_ns abr) n)))"

definition is_deployed :: "DependencyBuild option \<Rightarrow> bool" where
  "is_deployed db =
     (case db of None \<Rightarrow> False
      | Some db \<Rightarrow> gm_get (Annotations (metadata db)) DeployedAnnotation = ''true'')"

definition state_of :: "cluster \<Rightarrow> ArtifactBuild \<Rightarrow> ArtifactState" where
  "state_of c abr =
     \<lparr>ArtifactBuildName = obj_name abr,
      Built = (abState abr = ArtifactBuildStateComplete),
      Deployed = (abState abr = ArtifactBuildStateComplete \<and> is_deployed (dependency_of c abr)),
      Failed = (abState abr = ArtifactBuildStateFailed \<or> abState abr = ArtifactBuildStateMissing)\<rparr>"

text \<open>The loop finds the last reference of kind \<open>DependencyBuild\<close>.\<close>

lemma dependencyOwner_eq:
  "dependencyOwner acc rs =
     last (acc # map OwnerName (filter (\<lambda>r. Kind r = ''DependencyBuild'') rs))"
  by (induction acc rs rule: dependencyOwner.induct) auto

lemma state_of_fields [simp]:
  "ArtifactBuildName (state_of c abr) = obj_name abr"
  "Built (state_of c abr) \<longleftrightarrow> abState abr = ArtifactBuildStateComplete"
  "Deployed (state_of c abr) \<longleftrightarrow>
     abState abr = ArtifactBuildStateComplete \<and> is_deployed (dependency_of c abr)"
  "Failed (state_of c abr) \<longleftrightarrow>
     abState abr = ArtifactBuildStateFailed \<or> abState abr = ArtifactBuildStateMissing"
  by (simp_all add: state_of_def)

lemma state_of_exclusive:
  "Done (state_of c abr) \<Longrightarrow> \<not> Failed (state_of c abr)"
  by (auto simp: Done_iff ArtifactBuildStateComplete_def ArtifactBuildStateFailed_def
      ArtifactBuildStateMissing_def)

section \<open>Deploy tasks in flight\<close>

text \<open>A deploy task is in flight while its condition \<open>Succeeded\<close> is missing or unknown.\<close>

definition deploys_in_flight :: "cluster \<Rightarrow> string \<Rightarrow> string \<Rightarrow> NamespacedName set" where
  "deploys_in_flight c = in_flight DeployTaskLabel (\<lambda>tr. IsUnknown (trSucceeded tr)) (taskRuns c)"

definition single_deploys :: "cluster \<Rightarrow> bool" where
  "single_deploys c \<longleftrightarrow> single_flight DeployTaskLabel (\<lambda>tr. IsUnknown (trSucceeded tr)) (taskRuns c)"

lemma deployTaskRun_meta [simp]:
  "obj_ns (deployTaskRun env abr db u ow d) = obj_ns abr"
  "Labels (metadata (deployTaskRun env abr db u ow d)) = Some [(DeployTaskLabel, obj_name db)]"
  "GenerateName (metadata (deployTaskRun env abr db u ow d)) = obj_name abr @ ''-deploy-task''"
  "obj_name (deployTaskRun env abr db u ow d) = ''''"
  "trConditions (deployTaskRun env abr db u ow d) = []"
  "trCompletionTime (deployTaskRun env abr db u ow d) = None"
  by (auto simp: deployTaskRun_def Let_def empty_TaskRun_def empty_meta_def
      dest!: SetOwnerReference_meta split: sum.split)

section \<open>Correctness against any client\<close>

context api_client
begin

text \<open>Whatever calls fail, a dependency build that is found is the right one.\<close>

lemma getDependencyBuild_reads:
  "reads ab (getDependencyBuild cl abr) (\<lambda>c r. \<forall>db. r = Some db \<longrightarrow> dependency_of c abr = Some db)"
  unfolding getDependencyBuild_def
  by (rule reads_from_triple, rule triple_pre, (rule wp call_wp)+)
    (auto simp: dependency_of_def get_ok_def Let_def)

lemma artifactState_reads:
  "reads ab (artifactState cl abr)
     (\<lambda>c r. Built r = Built (state_of c abr) \<and> Failed r = Failed (state_of c abr)
        \<and> ArtifactBuildName r = obj_name abr \<and> (Deployed r \<longrightarrow> Deployed (state_of c abr)))"
  unfolding artifactState_def
  by (rule reads_from_triple, rule triple_pre,
      (rule wp getDependencyBuild_reads [THEN reads_wp])+)
    (auto simp: is_deployed_def split: option.splits)

text \<open>
  \<open>deployArtifact\<close> does nothing, or creates one task run, for a dependency build that is not
  marked and has no deploy task in flight.
\<close>

lemma deployArtifact_writes:
  "writes ab (deployArtifact env cl abr u ow d)
     (\<lambda>c r c'. c' = c \<or>
        (\<exists>db x' m. dependency_of c abr = Some db
           \<and> gm_get (Annotations (metadata db)) DeployedAnnotation = ''''
           \<and> deploys_in_flight c (obj_ns abr) (obj_name db) = {}
           \<and> created (taskRuns c) (deployTaskRun env abr db u ow d) x' m
           \<and> c' = c\<lparr>taskRuns := m\<rparr>))"
  unfolding deployArtifact_def
  by (rule writes_from_triple, rule triple_pre,
      (rule wp call_wp getDependencyBuild_reads [THEN reads_wp])+)
    (auto simp: deploys_in_flight_def dest!: list_shows_none create_ok_cases)

end

text \<open>With reliable reads the answers are exact, and a task run is created whenever one is due.\<close>

definition deploy_due :: "cluster \<Rightarrow> ArtifactBuild \<Rightarrow> DependencyBuild \<Rightarrow> bool" where
  "deploy_due c abr db \<longleftrightarrow> dependency_of c abr = Some db
     \<and> gm_get (Annotations (metadata db)) DeployedAnnotation = ''''
     \<and> selected (\<lambda>x. gm_lookup (Labels (metadata x)) DeployTaskLabel = Some (obj_name db)
                     \<and> IsUnknown (trSucceeded x)) (obj_ns abr) (taskRuns c) = {}"

context reliable_client
begin

lemma getDependencyBuild_exact:
  "reads ab (getDependencyBuild cl abr) (\<lambda>c r. r = dependency_of c abr)"
  unfolding getDependencyBuild_def
  by (rule reads_from_triple, rule triple_pre, (rule wp exact_wp)+)
    (auto simp: dependency_of_def exact_def Let_def)

lemma artifactState_exact: "reads ab (artifactState cl abr) (\<lambda>c r. r = state_of c abr)"
  unfolding artifactState_def
  by (rule reads_from_triple, rule triple_pre,
      (rule wp getDependencyBuild_exact [THEN reads_wp])+)
    (auto simp: state_of_def is_deployed_def split: option.splits)

lemma deployArtifact_exact:
  "writes ab (deployArtifact env cl abr u ow d)
     (\<lambda>c r c'. if \<exists>db. deploy_due c abr db
        then \<exists>db m r'. deploy_due c abr db \<and> c' = c\<lparr>taskRuns := m\<rparr>
               \<and> create_ok (taskRuns c) (deployTaskRun env abr db u ow d) r' m
               \<and> r = (case r' of Inl e \<Rightarrow> Some e | Inr _ \<Rightarrow> None)
        else c' = c \<and> r = None)"
  unfolding deployArtifact_def
  by (rule writes_from_triple, rule triple_pre,
      (rule wp getDependencyBuild_exact [THEN reads_wp] create_TaskRun_law [THEN writes_wp]
          reads_conj [OF list_TaskRun_law list_TaskRun_honest, THEN reads_wp])+)
    (auto simp: deploy_due_def list_unfinished_iff)

end

end
