(* ===== verification/NotifySteps.thy ===== *)
theory NotifySteps
  imports ArtifactSteps
begin

text \<open>
  The notification of a result (\<open>notifyResult\<close> in
  \<open>pkg/reconciler/componentbuild/componentbuild.go\<close>): when the component build names a pull
  request, and no notification pipeline for it is running, a pipeline run is created that posts a
  message there. The order in which the message lists the failed artifacts is the iteration order
  of a Go map, so it is drawn.
\<close>

section \<open>Operations\<close>

text \<open>The loop that collects the failed artifacts, over the entries in the order drawn.\<close>

fun collectFailed :: "string list \<Rightarrow> (string \<times> ArtifactState) list \<Rightarrow> string list" where
  "collectFailed failedGavs [] = failedGavs"
| "collectFailed failedGavs ((gav, v) # es) =
     collectFailed (if Failed v then failedGavs @ [gav] else failedGavs) es"

definition failureMessage :: "string list \<Rightarrow> string" where
  "failureMessage gavs = ''The following dependency builds have failed: '' @ Join gavs '', '' @ ''.''"

definition successMessage :: string where
  "successMessage = ''/retest Success all dependency builds have completed.''"

definition notifierMessage :: "'s client \<Rightarrow> ComponentBuild \<Rightarrow> ('s, string) state" where
  "notifierMessage cl cb =
     (if State (cbStatus cb) = ComponentBuildStateFailed then do {
        n \<leftarrow> range_choice cl;
        State_Monad.return (failureMessage
          (collectFailed [] (pick_order n (gm_items (ArtifactStates (cbStatus cb))))))
      }
      else if State (cbStatus cb) = ComponentBuildStateComplete
      then State_Monad.return successMessage
      else State_Monad.return '''')"

definition notifyWorkspace :: "int \<Rightarrow> WorkspaceBinding" where
  "notifyWorkspace qty =
     \<lparr>WorkspaceName = ''pr'',
      VolumeClaimTemplate = Some \<lparr>AccessModes = [''ReadWriteOnce''], StorageRequest = qty\<rparr>\<rparr>"

text \<open>
  The pipeline run; a failed \<open>SetControllerReference\<close> is logged only.
\<close>

definition notifyPipelineRun :: "env \<Rightarrow> ComponentBuild \<Rightarrow> string \<Rightarrow> int \<Rightarrow> PipelineRun" where
  "notifyPipelineRun env cb message qty =
     (let meta0 = empty_meta\<lparr>GenerateName := obj_name cb @ ''-notify-pipeline'', Namespace := obj_ns cb\<rparr>;
          meta1 = (case SetControllerReference ComponentBuildType (metadata cb) meta0 (scheme env) of
                     Inl cerr \<Rightarrow> meta0 | Inr m \<Rightarrow> m);
          meta2 = meta1\<lparr>Labels := Some [(NotifyPipelineLabel, obj_name cb)]\<rparr>
      in empty_PipelineRun\<lparr>metadata := meta2,
           prPipelineRef := Some ''component-build-notifier'',
           prParams :=
             [stringParam ''url'' (PRURL (cbSpec cb)),
              stringParam ''secret-key-ref'' ''jvm-build-git-secrets'',
              stringParam ''message'' message],
           prWorkspaces := [notifyWorkspace qty]\<rparr>)"

definition notifyResult :: "env \<Rightarrow> 's client \<Rightarrow> ComponentBuild \<Rightarrow> ('s, api_error option) state" where
  "notifyResult env cl cb =
     (if PRURL (cbSpec cb) = '''' then State_Monad.return None
      else do {
        existing \<leftarrow>
          list_PipelineRun cl (obj_ns cb) (SelectorFromSet [(NotifyPipelineLabel, obj_name cb)]);
        case existing of
          Inl err \<Rightarrow> State_Monad.return (Some err)
        | Inr items \<Rightarrow>
            (if list_ex (\<lambda>i. IsUnknown (prSucceeded i)) items then State_Monad.return None
             else do {
               message \<leftarrow> notifierMessage cl cb;
               case ParseQuantity env ''1Gi'' of
                 Inl err \<Rightarrow> State_Monad.return (Some err)
               | Inr qty \<Rightarrow> do {
                   r \<leftarrow> create_PipelineRun cl (notifyPipelineRun env cb message qty);
                   State_Monad.return (case r of Inl err \<Rightarrow> Some err | Inr tr \<Rightarrow> None)
                 }
             })
      })"

section \<open>What they compute\<close>

lemma collectFailed_eq: "collectFailed acc es = acc @ map fst (filter (\<lambda>e. Failed (snd e)) es)"
  by (induction acc es rule: collectFailed.induct) auto

text \<open>
  The messages a component build may be notified with: for a failed one, the failed artifacts, each
  once, in some order.
\<close>

definition failed_artifacts :: "ComponentBuildStatus \<Rightarrow> string list" where
  "failed_artifacts st = map fst (filter (\<lambda>e. Failed (snd e)) (gm_items (ArtifactStates st)))"

definition message_for :: "ComponentBuildStatus \<Rightarrow> string \<Rightarrow> bool" where
  "message_for st msg \<longleftrightarrow>
     (if State st = ComponentBuildStateFailed
      then \<exists>gavs. mset gavs = mset (failed_artifacts st) \<and> msg = failureMessage gavs
      else if State st = ComponentBuildStateComplete then msg = successMessage
      else msg = '''')"

lemma collectFailed_picked:
  "mset (collectFailed [] (pick_order n (gm_items (ArtifactStates st)))) = mset (failed_artifacts st)"
  by (simp add: collectFailed_eq failed_artifacts_def mset_map mset_filter)

text \<open>Each order of the failed artifacts is the order of some iteration, and no other list is.\<close>

lemma collectFailed_orders:
  "(\<exists>n. collectFailed [] (pick_order n es) = gavs)
     \<longleftrightarrow> mset gavs = mset (map fst (filter (\<lambda>e. Failed (snd e)) es))"
proof
  assume "\<exists>n. collectFailed [] (pick_order n es) = gavs"
  then show "mset gavs = mset (map fst (filter (\<lambda>e. Failed (snd e)) es))"
    by (auto simp: collectFailed_eq mset_filter)
next
  assume "mset gavs = mset (map fst (filter (\<lambda>e. Failed (snd e)) es))"
  then obtain fs where "mset fs = mset (filter (\<lambda>e. Failed (snd e)) es)" "map fst fs = gavs"
    using permuted_map by blast
  with pick_order_filter show "\<exists>n. collectFailed [] (pick_order n es) = gavs"
    by (force simp: collectFailed_eq)
qed

definition notifies_in_flight :: "cluster \<Rightarrow> string \<Rightarrow> string \<Rightarrow> NamespacedName set" where
  "notifies_in_flight c =
     in_flight NotifyPipelineLabel (\<lambda>pr. IsUnknown (prSucceeded pr)) (pipelineRuns c)"

definition single_notifies :: "cluster \<Rightarrow> bool" where
  "single_notifies c \<longleftrightarrow>
     single_flight NotifyPipelineLabel (\<lambda>pr. IsUnknown (prSucceeded pr)) (pipelineRuns c)"

lemma notifyPipelineRun_meta [simp]:
  "obj_ns (notifyPipelineRun env cb msg qty) = obj_ns cb"
  "Labels (metadata (notifyPipelineRun env cb msg qty)) = Some [(NotifyPipelineLabel, obj_name cb)]"
  "obj_name (notifyPipelineRun env cb msg qty) = ''''"
  "prConditions (notifyPipelineRun env cb msg qty) = []"
  "prCompletionTime (notifyPipelineRun env cb msg qty) = None"
  by (auto simp: notifyPipelineRun_def Let_def empty_PipelineRun_def empty_meta_def
      dest!: SetControllerReference_meta split: sum.split)

context api_client
begin

lemma notifierMessage_reads: "reads ab (notifierMessage cl cb) (\<lambda>_ r. message_for (cbStatus cb) r)"
  unfolding notifierMessage_def
  by (rule reads_from_triple, rule triple_pre, (rule wp call_wp)+)
    (auto simp: message_for_def intro: collectFailed_picked)

text \<open>
  \<open>notifyResult\<close> does nothing, or creates one pipeline run with a right message, for a component
  build with a pull request and no notification in flight.
\<close>

lemma notifyResult_writes:
  "writes ab (notifyResult env cl cb)
     (\<lambda>c r c'. c' = c \<or>
        (PRURL (cbSpec cb) \<noteq> '''' \<and> notifies_in_flight c (obj_ns cb) (obj_name cb) = {} \<and>
         (\<exists>msg qty x' m. message_for (cbStatus cb) msg
            \<and> created (pipelineRuns c) (notifyPipelineRun env cb msg qty) x' m
            \<and> c' = c\<lparr>pipelineRuns := m\<rparr>)))"
  unfolding notifyResult_def
  by (rule writes_from_triple, rule triple_pre,
      (rule wp call_wp notifierMessage_reads [THEN reads_wp])+)
    (auto simp: notifies_in_flight_def dest!: list_shows_none create_ok_cases)

end

text \<open>With reliable reads the answer and the effect are determined up to the message's order.\<close>

definition notify_due :: "cluster \<Rightarrow> ComponentBuild \<Rightarrow> bool" where
  "notify_due c cb \<longleftrightarrow> PRURL (cbSpec cb) \<noteq> ''''
     \<and> selected (\<lambda>x. gm_lookup (Labels (metadata x)) NotifyPipelineLabel = Some (obj_name cb)
                     \<and> IsUnknown (prSucceeded x)) (obj_ns cb) (pipelineRuns c) = {}"

context reliable_client
begin

lemma notifyResult_exact:
  "writes ab (notifyResult env cl cb)
     (\<lambda>c r c'. if notify_due c cb
        then (case ParseQuantity env ''1Gi'' of
                Inl e \<Rightarrow> c' = c \<and> r = Some e
              | Inr qty \<Rightarrow> \<exists>msg m r'. message_for (cbStatus cb) msg \<and> c' = c\<lparr>pipelineRuns := m\<rparr>
                  \<and> create_ok (pipelineRuns c) (notifyPipelineRun env cb msg qty) r' m
                  \<and> r = (case r' of Inl e \<Rightarrow> Some e | Inr _ \<Rightarrow> None))
        else c' = c \<and> r = None)"
  unfolding notifyResult_def
  by (rule writes_from_triple, rule triple_pre,
      (rule wp notifierMessage_reads [THEN reads_wp] create_PipelineRun_law [THEN writes_wp]
          reads_conj [OF list_PipelineRun_law list_PipelineRun_honest, THEN reads_wp])+)
    (auto simp: notify_due_def list_unfinished_iff)

end

end
