(* ===== verification/ComponentBuilds.thy ===== *)
theory ComponentBuilds
  imports NotifySteps
begin

text \<open>
  The handler for a component build (\<open>handleComponentBuildReceived\<close> in
  \<open>pkg/reconciler/componentbuild/componentbuild.go\<close>): read the deploy configuration, walk over
  the artifacts of the specification (creating artifact builds, deploying what is built, counting
  what is outstanding), derive the state, notify the result, and write the status.
\<close>

section \<open>Operations\<close>

record Result =
  Requeue :: bool
  RequeueAfter :: int

definition emptyResult :: Result where
  "emptyResult = \<lparr>Requeue = False, RequeueAfter = 0\<rparr>"

definition NoConfigMessage :: string where
  "NoConfigMessage = ''Some or all deployment config missing, please create a apheleia-config config map with the following keys: maven-repo, aws-owner, aws-domain''"

text \<open>The three settings of the config map; a missing map leaves them empty.\<close>

definition deployConfig ::
  "'s client \<Rightarrow> string \<Rightarrow> ('s, api_error + (string \<times> string \<times> string)) state" where
  "deployConfig cl ns = do {
     cm \<leftarrow> get_ConfigMap cl (NamespacedName ns ApheleiaConfig);
     case cm of
       Inl err \<Rightarrow>
         (if \<not> IsNotFound err then State_Monad.return (Inl err)
          else State_Monad.return (Inr ('''', '''', '''')))
     | Inr cm \<Rightarrow>
         State_Monad.return
           (Inr (gm_get (Data cm) MavenRepo, gm_get (Data cm) AWSOwner, gm_get (Data cm) AWSDomain))
   }"

text \<open>The body of the loop for an artifact whose build exists (or could not be read).\<close>

definition existingStep ::
  "env \<Rightarrow> 's client \<Rightarrow> string \<Rightarrow> string \<Rightarrow> string \<Rightarrow> string \<Rightarrow> ArtifactBuild
     \<Rightarrow> int \<Rightarrow> (string \<times> ArtifactState) list \<Rightarrow> ('s, int \<times> (string \<times> ArtifactState) list) state" where
  "existingStep env cl deployUrl deployOwner deployDomain i existing outstanding states = do {
     st \<leftarrow> artifactState cl existing;
     let states' = AList.update i st states;
     let outstanding' = (if \<not> Done st \<and> \<not> Failed st then outstanding + 1 else outstanding);
     derr \<leftarrow> (if Built st \<and> \<not> Deployed st
              then deployArtifact env cl existing deployUrl deployOwner deployDomain
              else State_Monad.return None);
     State_Monad.return (outstanding', states')
   }"

definition newArtifactBuild :: "env \<Rightarrow> string \<Rightarrow> string \<Rightarrow> ArtifactBuild" where
  "newArtifactBuild env ns i =
     empty_ArtifactBuild\<lparr>GAV := i,
       metadata := empty_meta\<lparr>Name := CreateABRName env i, Namespace := ns\<rparr>\<rparr>"

text \<open>
  The loop over the specified artifacts. A read that fails for another reason than a missing
  object takes the branch of an existing artifact, with the zero value that was to be filled in.
\<close>

fun artifactLoop ::
  "env \<Rightarrow> 's client \<Rightarrow> string \<Rightarrow> string \<Rightarrow> string \<Rightarrow> string \<Rightarrow> string list
     \<Rightarrow> int \<Rightarrow> (string \<times> ArtifactState) list
     \<Rightarrow> ('s, api_error + (int \<times> (string \<times> ArtifactState) list)) state" where
  "artifactLoop env cl ns u ow d [] outstanding states =
     State_Monad.return (Inr (outstanding, states))"
| "artifactLoop env cl ns u ow d (i # is) outstanding states = do {
     ab \<leftarrow> get_ArtifactBuild cl (NamespacedName ns (CreateABRName env i));
     case ab of
       Inr existing \<Rightarrow> do {
         (n, m) \<leftarrow> existingStep env cl u ow d i existing outstanding states;
         artifactLoop env cl ns u ow d is n m
       }
     | Inl aberr \<Rightarrow>
         (if \<not> IsNotFound aberr then do {
            (n, m) \<leftarrow> existingStep env cl u ow d i empty_ArtifactBuild outstanding states;
            artifactLoop env cl ns u ow d is n m
          }
          else do {
            r \<leftarrow> create_ArtifactBuild cl (newArtifactBuild env ns i);
            case r of
              Inl err \<Rightarrow> State_Monad.return (Inl err)
            | Inr abr \<Rightarrow> do {
                st \<leftarrow> artifactState cl abr;
                artifactLoop env cl ns u ow d is (outstanding + 1) (AList.update i st states)
              }
          })
   }"

text \<open>The loop that looks for a failed artifact, with its early exit.\<close>

fun anyFailed :: "(string \<times> ArtifactState) list \<Rightarrow> bool" where
  "anyFailed [] = False"
| "anyFailed ((k, v) # es) = (if Failed v then True else anyFailed es)"

definition finish ::
  "env \<Rightarrow> 's client \<Rightarrow> ComponentBuild \<Rightarrow> ('s, api_error option \<times> ComponentBuild) state" where
  "finish env cl cb =
     (if Outstanding (cbStatus cb) = 0 then do {
        n \<leftarrow> range_choice cl;
        let failed = anyFailed (pick_order n (gm_items (ArtifactStates (cbStatus cb))));
        let cb1 = cb\<lparr>cbStatus := (cbStatus cb)\<lparr>State :=
                    if failed then ComponentBuildStateFailed else ComponentBuildStateComplete\<rparr>\<rparr>;
        if (State (cbStatus cb1) = ComponentBuildStateComplete
              \<or> State (cbStatus cb1) = ComponentBuildStateFailed)
            \<and> \<not> ResultNotified (cbStatus cb1)
        then do {
          err \<leftarrow> notifyResult env cl cb1;
          State_Monad.return (err, cb1)
        }
        else State_Monad.return (None, cb1)
      }
      else State_Monad.return
        (None, cb\<lparr>cbStatus := (cbStatus cb)\<lparr>State := ComponentBuildStateInProgress,
                                         ResultNotified := False\<rparr>\<rparr>))"

definition updateStatus :: "'s client \<Rightarrow> ComponentBuild \<Rightarrow> ('s, Result \<times> api_error option) state" where
  "updateStatus cl cb = do {
     r \<leftarrow> update_status_ComponentBuild cl cb;
     State_Monad.return (emptyResult, (case r of Inl err \<Rightarrow> Some err | Inr x \<Rightarrow> None))
   }"

definition handleComponentBuildReceived ::
  "env \<Rightarrow> 's client \<Rightarrow> ComponentBuild \<Rightarrow> ('s, Result \<times> api_error option) state" where
  "handleComponentBuildReceived env cl cb = do {
     cfg \<leftarrow> deployConfig cl (obj_ns cb);
     case cfg of
       Inl err \<Rightarrow> State_Monad.return (emptyResult, Some err)
     | Inr (deployUrl, deployOwner, deployDomain) \<Rightarrow>
         (if deployUrl = '''' \<or> deployOwner = '''' \<or> deployDomain = ''''
          then updateStatus cl (cb\<lparr>cbStatus := (cbStatus cb)\<lparr>Message := NoConfigMessage\<rparr>\<rparr>)
          else do {
            let st0 = (if Message (cbStatus cb) = NoConfigMessage
                       then (cbStatus cb)\<lparr>Message := ''''\<rparr> else cbStatus cb);
            r \<leftarrow> artifactLoop env cl (obj_ns cb) deployUrl deployOwner deployDomain
                  (Artifacts (cbSpec cb)) 0 [];
            case r of
              Inl err \<Rightarrow> State_Monad.return (emptyResult, Some err)
            | Inr (n, m) \<Rightarrow> do {
                (err, cb') \<leftarrow> finish env cl
                  (cb\<lparr>cbStatus := st0\<lparr>Outstanding := n, ArtifactStates := Some m\<rparr>\<rparr>);
                case err of
                  Some err \<Rightarrow> State_Monad.return (emptyResult, Some err)
                | None \<Rightarrow> updateStatus cl cb'
              }
          })
   }"

end
