(* ===== verification/StatusSpec.thy ===== *)
theory StatusSpec
  imports ComponentBuilds
begin

text \<open>
  What the handler for a component build computes. The specification reads the state of every
  artifact off the cluster (\<open>phase\<close>), independently of the order in which the handler looks, and
  derives the status from it (\<open>expected_status\<close>). With reliable reads the handler writes exactly
  that status; with reads that may fail it never reports more than is true.
\<close>

section \<open>The phase of an artifact\<close>

definition artifact_key :: "env \<Rightarrow> string \<Rightarrow> string \<Rightarrow> NamespacedName" where
  "artifact_key env ns i = NamespacedName ns (CreateABRName env i)"

definition phase :: "env \<Rightarrow> cluster \<Rightarrow> string \<Rightarrow> string \<Rightarrow> ArtifactState" where
  "phase env c ns i =
     (case artifactBuilds c (artifact_key env ns i) of
        Some abr \<Rightarrow> state_of c abr
      | None \<Rightarrow> state_of c (newArtifactBuild env ns i))"

definition settled :: "ArtifactState \<Rightarrow> bool" where
  "settled st \<longleftrightarrow> Done st \<or> Failed st"

definition outstanding_count :: "env \<Rightarrow> cluster \<Rightarrow> string \<Rightarrow> string list \<Rightarrow> int" where
  "outstanding_count env c ns is = int (length (filter (\<lambda>i. \<not> settled (phase env c ns i)) is))"

definition phases :: "env \<Rightarrow> cluster \<Rightarrow> string \<Rightarrow> string list \<Rightarrow> (string \<times> ArtifactState) list
    \<Rightarrow> (string \<times> ArtifactState) list" where
  "phases env c ns is m = fold (\<lambda>i. AList.update i (phase env c ns i)) is m"

definition expected_status :: "env \<Rightarrow> cluster \<Rightarrow> ComponentBuild \<Rightarrow> ComponentBuildStatus" where
  "expected_status env c cb =
     (let is = Artifacts (cbSpec cb); ns = obj_ns cb; st = cbStatus cb;
          n = outstanding_count env c ns is in
      \<lparr>State = (if n \<noteq> 0 then ComponentBuildStateInProgress
                else if \<exists>i \<in> set is. Failed (phase env c ns i) then ComponentBuildStateFailed
                else ComponentBuildStateComplete),
       Outstanding = n,
       ArtifactStates = Some (phases env c ns is []),
       Message = (if Message st = NoConfigMessage then '''' else Message st),
       ResultNotified = (n = 0 \<and> ResultNotified st)\<rparr>)"

lemma map_of_phases:
  "map_of (phases env c ns is m) i =
     (if i \<in> set is then Some (phase env c ns i) else map_of m i)"
  by (induction "is" arbitrary: m) (auto simp: phases_def)

lemma distinct_phases: "distinct (map fst m) \<Longrightarrow> distinct (map fst (phases env c ns is m))"
  by (induction "is" arbitrary: m) (auto simp: phases_def distinct_update)

lemma phases_failed:
  "list_ex (\<lambda>e. Failed (snd e)) (phases env c ns is []) \<longleftrightarrow>
     (\<exists>i \<in> set is. Failed (phase env c ns i))"
proof -
  have d: "distinct (map fst (phases env c ns is []))" by (simp add: distinct_phases)
  have "(i, st) \<in> set (phases env c ns is []) \<longleftrightarrow> i \<in> set is \<and> st = phase env c ns i" for i st
    using map_of_SomeI_distinct [OF d, of i st] by (auto simp: map_of_phases split: if_splits)
  then show ?thesis by (auto simp: list_ex_iff Bex_def)
qed

lemma anyFailed_iff: "anyFailed es \<longleftrightarrow> list_ex (\<lambda>e. Failed (snd e)) es"
  by (induction es rule: anyFailed.induct) auto

text \<open>The loop's early exit makes the answer independent of the iteration order.\<close>

lemma anyFailed_pick_order [simp]: "anyFailed (pick_order n es) = anyFailed es"
  by (simp add: anyFailed_iff list_ex_iff)

section \<open>The states of a component build\<close>

lemma outstanding_count_zero:
  "outstanding_count env c ns is = 0 \<longleftrightarrow> (\<forall>i \<in> set is. settled (phase env c ns i))"
  by (simp add: outstanding_count_def filter_empty_conv)

lemma phase_exclusive: "Done (phase env c ns i) \<Longrightarrow> \<not> Failed (phase env c ns i)"
  by (auto simp: phase_def dest: state_of_exclusive split: option.splits)

lemma expected_complete:
  "State (expected_status env c cb) = ComponentBuildStateComplete \<longleftrightarrow>
     (\<forall>i \<in> set (Artifacts (cbSpec cb)). Done (phase env c (obj_ns cb) i))"
  by (auto simp: expected_status_def Let_def outstanding_count_zero settled_def
      dest: phase_exclusive)

lemma expected_failed:
  "State (expected_status env c cb) = ComponentBuildStateFailed \<longleftrightarrow>
     (\<forall>i \<in> set (Artifacts (cbSpec cb)). settled (phase env c (obj_ns cb) i))
     \<and> (\<exists>i \<in> set (Artifacts (cbSpec cb)). Failed (phase env c (obj_ns cb) i))"
  by (auto simp: expected_status_def Let_def outstanding_count_zero)

lemma expected_in_progress:
  "State (expected_status env c cb) = ComponentBuildStateInProgress \<longleftrightarrow>
     (\<exists>i \<in> set (Artifacts (cbSpec cb)). \<not> settled (phase env c (obj_ns cb) i))"
  by (auto simp: expected_status_def Let_def outstanding_count_zero)

text \<open>The status is a fixed point while the phases stay as they are.\<close>

lemma expected_status_again:
  assumes "\<forall>ns i. phase env c' ns i = phase env c ns i" and "obj_ns cb' = obj_ns cb"
    and "cbSpec cb' = cbSpec cb" and "cbStatus cb' = expected_status env c cb"
  shows "expected_status env c' cb' = expected_status env c cb"
  using assms by (auto simp: expected_status_def outstanding_count_def phases_def Let_def NoConfigMessage_def)

section \<open>The handler's own writes do not change any phase\<close>

text \<open>
  On its way the handler creates artifact builds and task runs only. A created artifact build has
  the phase the missing one had.
\<close>

definition only_new :: "env \<Rightarrow> string \<Rightarrow> cluster \<Rightarrow> cluster \<Rightarrow> bool" where
  "only_new env ns c0 c \<longleftrightarrow>
     (\<exists>abs trs. c = c0\<lparr>artifactBuilds := abs, taskRuns := trs\<rparr> \<and>
        (\<forall>k. abs k = artifactBuilds c0 k \<or>
             artifactBuilds c0 k = None \<and>
             (\<exists>i x. abs k = Some x \<and> accepted (newArtifactBuild env ns i) x \<and> k = obj_key x)))"

lemma only_new_refl [simp]: "only_new env ns c c"
  unfolding only_new_def by (rule exI [of _ "artifactBuilds c"], rule exI [of _ "taskRuns c"]) simp

lemma only_new_taskRuns: "only_new env ns c0 c \<Longrightarrow> only_new env ns c0 (c\<lparr>taskRuns := m\<rparr>)"
  unfolding only_new_def
  by (elim exE conjE, rule exI, rule exI [of _ m], erule conjI [rotated]) simp

lemma accepted_newArtifactBuild:
  assumes "accepted (newArtifactBuild env ns i) x"
  shows "obj_ns x = ns" "obj_name x = CreateABRName env i" "abState x = ''''" "GAV x = i"
  using assms by (auto simp: accepted_def newArtifactBuild_def empty_ArtifactBuild_def empty_meta_def)

lemma only_new_artifactBuild:
  assumes "only_new env ns c0 c" and "created (artifactBuilds c) (newArtifactBuild env ns i) x m"
  shows "only_new env ns c0 (c\<lparr>artifactBuilds := m\<rparr>)"
proof -
  from assms(1) obtain as ts where c: "c = c0\<lparr>artifactBuilds := as, taskRuns := ts\<rparr>"
    and as: "\<forall>k. as k = artifactBuilds c0 k \<or> artifactBuilds c0 k = None \<and>
      (\<exists>i x. as k = Some x \<and> accepted (newArtifactBuild env ns i) x \<and> k = obj_key x)"
    by (auto simp: only_new_def)
  have m: "as (obj_key x) = None" "m = as(obj_key x \<mapsto> x)" "accepted (newArtifactBuild env ns i) x"
    using assms(2) by (auto simp: created_def c)
  have "c\<lparr>artifactBuilds := m\<rparr> = c0\<lparr>artifactBuilds := m, taskRuns := ts\<rparr>" by (simp add: c)
  moreover have "\<forall>k. m k = artifactBuilds c0 k \<or> artifactBuilds c0 k = None \<and>
      (\<exists>i x. m k = Some x \<and> accepted (newArtifactBuild env ns i) x \<and> k = obj_key x)"
    using as m by (auto simp: m(2)) metis
  ultimately show ?thesis unfolding only_new_def by blast
qed

lemma new_state_of:
  "accepted (newArtifactBuild env ns i) x \<Longrightarrow>
     state_of c x = \<lparr>ArtifactBuildName = CreateABRName env i, Built = False, Deployed = False,
                     Failed = False\<rparr>"
  by (simp add: state_of_def accepted_newArtifactBuild ArtifactBuildStateComplete_def
      ArtifactBuildStateFailed_def ArtifactBuildStateMissing_def)

lemma state_of_new [simp]:
  "state_of c (newArtifactBuild env ns i) =
     \<lparr>ArtifactBuildName = CreateABRName env i, Built = False, Deployed = False, Failed = False\<rparr>"
  by (simp add: state_of_def newArtifactBuild_def empty_ArtifactBuild_def
      ArtifactBuildStateComplete_def ArtifactBuildStateFailed_def ArtifactBuildStateMissing_def)

lemma state_of_only_new: "only_new env ns c0 c \<Longrightarrow> state_of c x = state_of c0 x"
proof -
  assume "only_new env ns c0 c"
  then have "rebuiltArtifacts c = rebuiltArtifacts c0" "dependencyBuilds c = dependencyBuilds c0"
    by (auto simp: only_new_def)
  then show ?thesis by (simp add: state_of_def dependency_of_def Let_def split: option.split)
qed

lemma phase_only_new:
  assumes "only_new env ns c0 c"
  shows "phase env c ns' i = phase env c0 ns' i"
proof -
  let ?k = "artifact_key env ns' i"
  have "artifactBuilds c ?k = artifactBuilds c0 ?k \<or> artifactBuilds c0 ?k = None \<and>
      (\<exists>j x. artifactBuilds c ?k = Some x \<and> accepted (newArtifactBuild env ns j) x \<and> ?k = obj_key x)"
    using assms unfolding only_new_def by fastforce
  then consider "artifactBuilds c ?k = artifactBuilds c0 ?k"
    | j x where "artifactBuilds c0 ?k = None" "artifactBuilds c ?k = Some x"
        "accepted (newArtifactBuild env ns j) x" "?k = obj_key x"
    by blast
  then show ?thesis
  proof cases
    case 1
    then show ?thesis
      by (simp add: phase_def state_of_only_new [OF assms] split: option.splits)
  next
    case 2
    then have "CreateABRName env j = CreateABRName env i"
      by (simp add: artifact_key_def accepted_newArtifactBuild)
    with 2 show ?thesis by (simp add: phase_def new_state_of)
  qed
qed

lemma phases_only_new:
  "only_new env ns c0 c \<Longrightarrow> outstanding_count env c ns' is = outstanding_count env c0 ns' is"
  "only_new env ns c0 c \<Longrightarrow> phases env c ns' is m = phases env c0 ns' is m"
  "only_new env ns c0 c \<Longrightarrow> expected_status env c cb = expected_status env c0 cb"
  by (simp_all add: outstanding_count_def phases_def expected_status_def phase_only_new Let_def)

end
