(* ===== verification/HandlerSpec.thy ===== *)
theory HandlerSpec
  imports StatusSpec
begin

text \<open>
  Correctness of the handler for a component build. With reliable reads it writes exactly the
  status \<open>expected_status\<close> derives from the cluster (\<open>reliable_client\<close> below). Against any
  client, where every call may fail, a final state is still exact: a failed read can only make an
  artifact count as outstanding (\<open>api_client\<close>).
\<close>

section \<open>The deploy configuration\<close>

definition config_of :: "cluster \<Rightarrow> string \<Rightarrow> string \<times> string \<times> string" where
  "config_of c ns =
     (case configMaps c (NamespacedName ns ApheleiaConfig) of
        None \<Rightarrow> ('''', '''', '''')
      | Some cm \<Rightarrow> (gm_get (Data cm) MavenRepo, gm_get (Data cm) AWSOwner, gm_get (Data cm) AWSDomain))"

definition configured :: "cluster \<Rightarrow> string \<Rightarrow> bool" where
  "configured c ns \<longleftrightarrow> (case config_of c ns of (u, ow, d) \<Rightarrow> u \<noteq> '''' \<and> ow \<noteq> '''' \<and> d \<noteq> '''')"

lemma only_new_trans_taskRun:
  "only_new env ns c0 c \<Longrightarrow> c' = c\<lparr>taskRuns := m\<rparr> \<Longrightarrow> only_new env ns c0 c'"
  by (simp add: only_new_taskRuns)

lemma ex_same_taskRuns [simp]: "\<exists>ts. c = c\<lparr>taskRuns := ts\<rparr>"
  by (rule exI [of _ "taskRuns c"]) simp

lemma only_new_config: "only_new env ns c0 c \<Longrightarrow> config_of c = config_of c0"
  by (auto simp: only_new_def config_of_def fun_eq_iff)

lemma only_new_frame:
  assumes "only_new env ns c0 c"
  shows "componentBuilds c = componentBuilds c0" "pipelineRuns c = pipelineRuns c0"
    "configMaps c = configMaps c0" "rebuiltArtifacts c = rebuiltArtifacts c0"
    "dependencyBuilds c = dependencyBuilds c0"
  using assms by (auto simp: only_new_def)

section \<open>The walk over the artifacts\<close>

definition new_count :: "ArtifactState \<Rightarrow> int \<Rightarrow> int" where
  "new_count st n = (if settled st then n else n + 1)"

lemma outstanding_count_simps [simp]:
  "outstanding_count env c ns [] = 0"
  "outstanding_count env c ns (i # is) =
     (if settled (phase env c ns i) then 0 else 1) + outstanding_count env c ns is"
  by (simp_all add: outstanding_count_def)

lemma outstanding_count_nonneg [simp]: "0 \<le> outstanding_count env c ns is"
  by (simp add: outstanding_count_def)

lemma phases_simps [simp]:
  "phases env c ns [] m = m"
  "phases env c ns (i # is) m = phases env c ns is (AList.update i (phase env c ns i) m)"
  by (simp_all add: phases_def)

lemma settled_new [simp]:
  "\<not> settled \<lparr>ArtifactBuildName = nm, Built = False, Deployed = False, Failed = False\<rparr>"
  by (simp add: settled_def Done_iff)

lemma phase_stored:
  "artifactBuilds c (NamespacedName ns (CreateABRName env i)) = Some x \<Longrightarrow> phase env c ns i = state_of c x"
  by (simp add: phase_def artifact_key_def)

lemma phase_missing:
  "artifactBuilds c (NamespacedName ns (CreateABRName env i)) = None \<Longrightarrow>
     phase env c ns i =
       \<lparr>ArtifactBuildName = CreateABRName env i, Built = False, Deployed = False, Failed = False\<rparr>"
  by (simp add: phase_def artifact_key_def)

text \<open>What the walk finds at one artifact agrees with the phases it started from.\<close>

lemma only_new_create_ok:
  assumes "only_new env ns c0 c" and "create_ok (artifactBuilds c) (newArtifactBuild env ns i) r m"
  shows "only_new env ns c0 (c\<lparr>artifactBuilds := m\<rparr>)"
proof -
  from create_ok_cases [OF assms(2)] show ?thesis
    using assms(1) only_new_artifactBuild [OF assms(1)] by auto
qed

lemma found_phase:
  "only_new env ns c0 c \<Longrightarrow> artifactBuilds c (NamespacedName ns (CreateABRName env i)) = Some x \<Longrightarrow>
     state_of c x = phase env c0 ns i"
  using phase_only_new [of env ns c0 c ns i] by (simp add: phase_stored)

lemma missing_phase:
  assumes "only_new env ns c0 c"
    and "artifactBuilds c (NamespacedName ns (CreateABRName env i)) = None"
    and "create_ok (artifactBuilds c) (newArtifactBuild env ns i) (Inr x) m"
  shows "state_of c' x = phase env c0 ns i" "\<not> settled (phase env c0 ns i)"
proof -
  have "accepted (newArtifactBuild env ns i) x"
    using assms(3) by (simp add: create_ok_def created_def)
  then show *: "state_of c' x = phase env c0 ns i"
    using phase_only_new [OF assms(1), of ns i] phase_missing [OF assms(2)]
    by (simp add: new_state_of)
  show "\<not> settled (phase env c0 ns i)"
    using phase_only_new [OF assms(1), of ns i] phase_missing [OF assms(2)] settled_new by metis
qed

lemma created_artifactBuild_at:
  "create_ok m (newArtifactBuild env ns i) (Inr x) m' \<Longrightarrow> m' = m(artifact_key env ns i \<mapsto> x)"
  by (auto simp: create_ok_def created_def artifact_key_def accepted_newArtifactBuild)

lemmas walk_facts = only_new_create_ok found_phase missing_phase only_new_taskRuns

context reliable_client
begin

lemma existingStep_exact:
  "writes ab (existingStep env cl u ow d i x n m)
     (\<lambda>c r c'. (\<exists>ts. c' = c\<lparr>taskRuns := ts\<rparr>)
        \<and> r = (new_count (state_of c x) n, AList.update i (state_of c x) m))"
  unfolding existingStep_def
  by (rule writes_from_triple, rule triple_pre,
      (rule wp artifactState_exact [THEN reads_wp] deployArtifact_writes [THEN writes_wp])+)
    (auto simp: new_count_def settled_def Done_iff)

text \<open>
  The loop computes the count and the phases of the state it started from, and leaves every artifact
  with an artifact build.
\<close>

lemma artifactLoop_exact:
  "triple ab (\<lambda>c. only_new env ns c0 c \<and> (\<forall>k \<in> K. artifactBuilds c k \<noteq> None))
     (artifactLoop env cl ns u ow d is n m)
     (\<lambda>r c. only_new env ns c0 c \<and>
        (\<forall>n' m'. r = Inr (n', m') \<longrightarrow>
           n' = n + outstanding_count env c0 ns is \<and> m' = phases env c0 ns is m
           \<and> (\<forall>k \<in> K \<union> artifact_key env ns ` set is. artifactBuilds c k \<noteq> None)))"
proof (induction "is" arbitrary: n m K)
  case Nil
  show ?case by (simp, rule triple_pre, rule wp) simp
next
  case (Cons i "is")
  note IH = Cons.IH [of "insert (artifact_key env ns i) K", THEN triple_wp]
  show ?case
    unfolding artifactLoop.simps
    by (rule triple_pre,
        (rule wp IH existingStep_exact [THEN writes_wp]
          artifactState_exact [THEN reads_wp] exact_wp create_ArtifactBuild_law [THEN writes_wp])+)
      (auto simp: exact_def new_count_def walk_facts artifact_key_def
        dest: created_artifactBuild_at)
qed

end

section \<open>The end of the walk\<close>

text \<open>The status \<open>finish\<close> leaves, whatever the notification does.\<close>

definition final_status :: "ComponentBuildStatus \<Rightarrow> ComponentBuildStatus" where
  "final_status st =
     (if Outstanding st = 0
      then st\<lparr>State := if list_ex (\<lambda>e. Failed (snd e)) (gm_items (ArtifactStates st))
                       then ComponentBuildStateFailed else ComponentBuildStateComplete\<rparr>
      else st\<lparr>State := ComponentBuildStateInProgress, ResultNotified := False\<rparr>)"

lemma final_status_expected:
  "Message (cbStatus cb) = NoConfigMessage \<Longrightarrow>
     final_status ((cbStatus cb)\<lparr>Message := '''',
         Outstanding := outstanding_count env c (obj_ns cb) (Artifacts (cbSpec cb)),
         ArtifactStates := Some (phases env c (obj_ns cb) (Artifacts (cbSpec cb)) [])\<rparr>)
       = expected_status env c cb"
  "Message (cbStatus cb) \<noteq> NoConfigMessage \<Longrightarrow>
     final_status ((cbStatus cb)\<lparr>
         Outstanding := outstanding_count env c (obj_ns cb) (Artifacts (cbSpec cb)),
         ArtifactStates := Some (phases env c (obj_ns cb) (Artifacts (cbSpec cb)) [])\<rparr>)
       = expected_status env c cb"
  by (simp_all add: final_status_def expected_status_def Let_def phases_failed)

definition may_notify :: "ComponentBuildStatus \<Rightarrow> bool" where
  "may_notify st \<longleftrightarrow> Outstanding st = 0 \<and> \<not> ResultNotified st"

text \<open>One notification: a pipeline run with a right message, when none is in flight.\<close>

definition notification :: "env \<Rightarrow> ComponentBuild \<Rightarrow> cluster \<Rightarrow> cluster \<Rightarrow> bool" where
  "notification env cb c c' \<longleftrightarrow>
     PRURL (cbSpec cb) \<noteq> '''' \<and> notifies_in_flight c (obj_ns cb) (obj_name cb) = {} \<and>
     (\<exists>msg qty x' m. message_for (cbStatus cb) msg
        \<and> created (pipelineRuns c) (notifyPipelineRun env cb msg qty) x' m
        \<and> c' = c\<lparr>pipelineRuns := m\<rparr>)"

lemma notification_frame:
  "notification env cb c c' \<Longrightarrow> \<exists>m. c' = c\<lparr>pipelineRuns := m\<rparr>"
  by (auto simp: notification_def)

context api_client
begin

lemma finish_writes:
  "writes ab (finish env cl cb)
     (\<lambda>c r c'. snd r = cb\<lparr>cbStatus := final_status (cbStatus cb)\<rparr> \<and>
        (c' = c \<or> may_notify (cbStatus cb)
           \<and> notification env (cb\<lparr>cbStatus := final_status (cbStatus cb)\<rparr>) c c'))"
  unfolding finish_def
  by (rule writes_from_triple, rule triple_pre,
      (rule wp call_wp notifyResult_writes [THEN writes_wp])+)
    (auto simp: final_status_def anyFailed_iff notification_def may_notify_def)

lemma updateStatus_writes:
  "writes ab (updateStatus cl cb)
     (\<lambda>c r c'. fst r = emptyResult \<and> (\<exists>m. c' = c\<lparr>componentBuilds := m\<rparr>) \<and>
        (snd r \<noteq> None \<and> c' = c \<or> status_updated (componentBuilds c) cb (componentBuilds c')))"
  unfolding updateStatus_def
  by (rule writes_from_triple, rule triple_pre, (rule wp call_wp)+)
    (auto split: sum.splits)

end

section \<open>The handler with reliable reads\<close>

text \<open>
  What a call of the handler that returns no error has done: without a configuration it wrote the
  message that asks for one, otherwise it wrote exactly the expected status, every artifact of
  the specification has an artifact build, and no artifact has changed its phase.
\<close>

lemma phase_frame [simp]:
  "phase env (c\<lparr>pipelineRuns := prs\<rparr>) ns i = phase env c ns i"
  "phase env (c\<lparr>componentBuilds := cbs\<rparr>) ns i = phase env c ns i"
  by (simp_all add: phase_def state_of_def dependency_of_def Let_def split: option.split)

definition handled :: "env \<Rightarrow> ComponentBuild \<Rightarrow> cluster \<Rightarrow> cluster \<Rightarrow> bool" where
  "handled env cb c c' \<longleftrightarrow>
     (if configured c (obj_ns cb)
      then status_updated (componentBuilds c) (cb\<lparr>cbStatus := expected_status env c cb\<rparr>)
             (componentBuilds c')
           \<and> (\<forall>i \<in> set (Artifacts (cbSpec cb)).
                artifactBuilds c' (artifact_key env (obj_ns cb) i) \<noteq> None)
           \<and> configMaps c' = configMaps c
           \<and> (\<forall>ns i. phase env c' ns i = phase env c ns i)
      else (\<exists>m. c' = c\<lparr>componentBuilds := m\<rparr> \<and>
              status_updated (componentBuilds c)
                (cb\<lparr>cbStatus := (cbStatus cb)\<lparr>Message := NoConfigMessage\<rparr>\<rparr>) m))"

context reliable_client
begin

lemma deployConfig_exact:
  "reads ab (deployConfig cl ns) (\<lambda>c r. r = Inr (config_of c ns))"
  unfolding deployConfig_def
  by (rule reads_from_triple, rule triple_pre, (rule wp exact_wp)+)
    (auto simp: exact_def config_of_def)

lemma handleComponentBuildReceived_exact:
  "writes ab (handleComponentBuildReceived env cl cb)
     (\<lambda>c r c'. fst r = emptyResult \<and> (snd r = None \<longrightarrow> handled env cb c c'))"
proof (rule writes_from_triple)
  fix c0
  note loop = artifactLoop_exact [of env "obj_ns cb" c0 "{}", THEN triple_wp]
  show "triple ab (\<lambda>c. c = c0) (handleComponentBuildReceived env cl cb)
     (\<lambda>r c. fst r = emptyResult \<and> (snd r = None \<longrightarrow> handled env cb c0 c))"
    unfolding handleComponentBuildReceived_def
    by (rule triple_pre,
      (rule wp loop deployConfig_exact [THEN reads_wp] updateStatus_writes [THEN writes_wp]
          finish_writes [THEN writes_wp])+)
     (auto simp: handled_def configured_def final_status_expected only_new_frame phase_only_new
        dest!: notification_frame)
qed

end

section \<open>When a notification is sent\<close>

text \<open>
  With reliable reads a pipeline run is created exactly when one is due: the result is final and was
  not notified yet, the component build names a pull request and no notification is in flight.
\<close>

definition result_ready :: "env \<Rightarrow> cluster \<Rightarrow> ComponentBuild \<Rightarrow> bool" where
  "result_ready env c cb \<longleftrightarrow>
     outstanding_count env c (obj_ns cb) (Artifacts (cbSpec cb)) = 0
     \<and> \<not> ResultNotified (cbStatus cb)"

definition must_notify :: "env \<Rightarrow> cluster \<Rightarrow> ComponentBuild \<Rightarrow> bool" where
  "must_notify env c cb \<longleftrightarrow>
     configured c (obj_ns cb) \<and> result_ready env c cb \<and> notify_due c cb"

lemma may_notify_ready:
  "may_notify ((cbStatus cb)\<lparr>Message := msg,
       Outstanding := outstanding_count env c (obj_ns cb) (Artifacts (cbSpec cb)),
       ArtifactStates := as\<rparr>) = result_ready env c cb"
  "may_notify ((cbStatus cb)\<lparr>
       Outstanding := outstanding_count env c (obj_ns cb) (Artifacts (cbSpec cb)),
       ArtifactStates := as\<rparr>) = result_ready env c cb"
  by (simp_all add: may_notify_def result_ready_def)

definition notified :: "env \<Rightarrow> ComponentBuild \<Rightarrow> cluster \<Rightarrow> cluster \<Rightarrow> bool" where
  "notified env cb c c' \<longleftrightarrow>
     (\<exists>msg qty x. message_for (cbStatus cb) msg
        \<and> created (pipelineRuns c) (notifyPipelineRun env cb msg qty) x (pipelineRuns c'))"

lemma ex_same_pipelineRuns [simp]: "\<exists>m. c = c\<lparr>pipelineRuns := m\<rparr>"
  by (rule exI [of _ "pipelineRuns c"]) simp

lemma notify_due_only_new:
  "only_new env ns c0 c \<Longrightarrow> notify_due c cb = notify_due c0 cb"
  by (simp add: notify_due_def only_new_frame)

lemma notify_due_status [simp]: "notify_due c (cb\<lparr>cbStatus := st\<rparr>) = notify_due c cb"
  by (simp add: notify_due_def)

lemma notified_only_new:
  "only_new env ns c0 c \<Longrightarrow> notified env cb c c' = notified env cb c0 c'"
  by (simp add: notified_def only_new_frame)

lemma notified_componentBuilds [simp]:
  "notified env cb c (c'\<lparr>componentBuilds := m\<rparr>) = notified env cb c c'"
  by (simp add: notified_def)

context reliable_client
begin

lemma notifyResult_notifies:
  "writes ab (notifyResult env cl cb)
     (\<lambda>c r c'. (\<exists>m. c' = c\<lparr>pipelineRuns := m\<rparr>) \<and>
        (r = None \<longrightarrow> (if notify_due c cb then notified env cb c c' else c' = c)))"
proof (rule writes_mono [OF notifyResult_exact])
  fix c r c'
  assume e: "if notify_due c cb
        then (case ParseQuantity env ''1Gi'' of
                Inl e \<Rightarrow> c' = c \<and> r = Some e
              | Inr qty \<Rightarrow> \<exists>msg m r'. message_for (cbStatus cb) msg \<and> c' = c\<lparr>pipelineRuns := m\<rparr>
                  \<and> create_ok (pipelineRuns c) (notifyPipelineRun env cb msg qty) r' m
                  \<and> r = (case r' of Inl e \<Rightarrow> Some e | Inr _ \<Rightarrow> None))
        else c' = c \<and> r = None"
  show "(\<exists>m. c' = c\<lparr>pipelineRuns := m\<rparr>) \<and>
      (r = None \<longrightarrow> (if notify_due c cb then notified env cb c c' else c' = c))"
  proof (cases "notify_due c cb")
    case True
    show ?thesis
    proof (cases "ParseQuantity env ''1Gi''")
      case (Inr qty)
      with e True obtain msg m r' where "message_for (cbStatus cb) msg" "c' = c\<lparr>pipelineRuns := m\<rparr>"
        "create_ok (pipelineRuns c) (notifyPipelineRun env cb msg qty) r' m"
        "r = (case r' of Inl e \<Rightarrow> Some e | Inr _ \<Rightarrow> None)"
        by auto
      with True show ?thesis
        by (cases r') (auto simp: notified_def create_ok_def)
    qed (use e True in simp)
  qed (use e in simp)
qed

lemma finish_exact:
  "writes ab (finish env cl cb)
     (\<lambda>c r c'. snd r = cb\<lparr>cbStatus := final_status (cbStatus cb)\<rparr>
        \<and> (\<exists>m. c' = c\<lparr>pipelineRuns := m\<rparr>)
        \<and> (fst r = None \<longrightarrow>
             (if may_notify (cbStatus cb) \<and> notify_due c cb
              then notified env (cb\<lparr>cbStatus := final_status (cbStatus cb)\<rparr>) c c'
              else c' = c)))"
  unfolding finish_def
  by (rule writes_from_triple, rule triple_pre,
      (rule wp call_wp notifyResult_notifies [THEN writes_wp])+)
    (simp add: final_status_def anyFailed_iff may_notify_def)

lemma handleComponentBuildReceived_notifies:
  "writes ab (handleComponentBuildReceived env cl cb)
     (\<lambda>c r c'. snd r = None \<longrightarrow>
        (if must_notify env c cb
         then notified env (cb\<lparr>cbStatus := expected_status env c cb\<rparr>) c c'
         else pipelineRuns c' = pipelineRuns c))"
proof (rule writes_from_triple)
  fix c0
  note loop = artifactLoop_exact [of env "obj_ns cb" c0 "{}", THEN triple_wp]
  show "triple ab (\<lambda>c. c = c0) (handleComponentBuildReceived env cl cb)
     (\<lambda>r c. snd r = None \<longrightarrow>
        (if must_notify env c0 cb
         then notified env (cb\<lparr>cbStatus := expected_status env c0 cb\<rparr>) c0 c
         else pipelineRuns c = pipelineRuns c0))"
    unfolding handleComponentBuildReceived_def
    by (rule triple_pre,
      (rule wp loop deployConfig_exact [THEN reads_wp] updateStatus_writes [THEN writes_wp]
          finish_exact [THEN writes_wp])+)
     (auto simp: must_notify_def configured_def final_status_expected only_new_frame
        notify_due_only_new notified_only_new may_notify_ready)
qed

end

end
