(* ===== verification/EventHandlers.thy ===== *)
theory EventHandlers
  imports ComponentBuilds
begin

text \<open>
  The handlers for artifact builds, task runs and pipeline runs
  (\<open>handleArtifactBuildReceived\<close>, \<open>handleTaskRunReceived\<close> and \<open>handlePipelineRunReceived\<close> in
  \<open>pkg/reconciler/componentbuild/componentbuild.go\<close>). Each finds the component builds the event
  concerns and lets \<open>handleComponentBuildReceived\<close> deal with them.
\<close>

section \<open>Artifact builds\<close>

text \<open>Errors of the component builds are logged and do not stop the loop.\<close>

fun handleTracking ::
  "env \<Rightarrow> 's client \<Rightarrow> string \<Rightarrow> ComponentBuild list \<Rightarrow> ('s, unit) state" where
  "handleTracking env cl gav [] = State_Monad.return ()"
| "handleTracking env cl gav (i # is) = do {
     _ \<leftarrow> (if gm_lookup (ArtifactStates (cbStatus i)) gav \<noteq> None
          then handleComponentBuildReceived env cl i
          else State_Monad.return (emptyResult, None));
     handleTracking env cl gav is
   }"

definition handleArtifactBuildReceived ::
  "env \<Rightarrow> 's client \<Rightarrow> ArtifactBuild \<Rightarrow> ('s, Result \<times> api_error option) state" where
  "handleArtifactBuildReceived env cl abr = do {
     cbList \<leftarrow> list_ComponentBuild cl (obj_ns abr);
     case cbList of
       Inl err \<Rightarrow> State_Monad.return (emptyResult, Some err)
     | Inr items \<Rightarrow> do {
         _ \<leftarrow> handleTracking env cl (GAV abr) items;
         State_Monad.return (emptyResult, None)
       }
   }"

section \<open>Task runs\<close>

text \<open>The name of the first owner whose kind is one of two words, or the empty string.\<close>

fun ownerOfKind :: "string \<Rightarrow> string \<Rightarrow> OwnerReference list \<Rightarrow> string" where
  "ownerOfKind k1 k2 [] = ''''"
| "ownerOfKind k1 k2 (r # rs) =
     (if EqualFold (Kind r) k1 \<or> EqualFold (Kind r) k2 then OwnerName r else ownerOfKind k1 k2 rs)"

text \<open>
  The annotation map is created when it is nil, and then gets the entry.
\<close>

definition markDeployed :: "DependencyBuild \<Rightarrow> DependencyBuild" where
  "markDeployed db =
     (let anns = (case Annotations (metadata db) of None \<Rightarrow> [] | Some m \<Rightarrow> m) in
      db\<lparr>metadata := (metadata db)\<lparr>Annotations := Some (AList.update DeployedAnnotation ''true'' anns)\<rparr>\<rparr>)"

text \<open>The events the handlers record, with the arguments in the order the calls have them.\<close>

definition warning :: "string \<Rightarrow> NamespacedName \<Rightarrow> string \<Rightarrow> string \<Rightarrow> string list \<Rightarrow> event" where
  "warning kind obj reason fmt args =
     \<lparr>evKind = kind, evObject = obj, evType = ''Warning'', evReason = reason, evMessageFmt = fmt,
      evArgs = args\<rparr>"

definition handleTaskRunReceived ::
  "env \<Rightarrow> 's client \<Rightarrow> TaskRun \<Rightarrow> ('s, Result \<times> api_error option) state" where
  "handleTaskRunReceived env cl tr =
     (if trCompletionTime tr = None \<or> gm_get (Labels (metadata tr)) DeployTaskLabel = ''''
      then State_Monad.return (emptyResult, None)
      else if OwnerReferences (metadata tr) = [] then do {
        _ \<leftarrow> Eventf cl (warning ''TaskRun'' (obj_key tr) ''taskrun missing onwerrefs %s:%s''
               (obj_ns tr) [obj_name tr]);
        State_Monad.return (emptyResult, None)
      }
      else
        (let ownerName = ownerOfKind ''artifactbuild'' ''artifactbuilds'' (OwnerReferences (metadata tr)) in
         if ownerName = '''' then do {
           _ \<leftarrow> Eventf cl (warning ''TaskRun'' (obj_key tr) ''MissingOwner''
                  ''taskrun missing artifactbuild ownerrefs %s:%s'' [obj_ns tr, obj_name tr]);
           State_Monad.return (emptyResult, None)
         }
         else do {
           ab \<leftarrow> get_ArtifactBuild cl (NamespacedName (obj_ns tr) ownerName);
           case ab of
             Inl err \<Rightarrow> do {
               _ \<leftarrow> Eventf cl (warning ''TaskRun'' (obj_key tr)
                      ''get for taskrun %s:%s owning artifact build %s:%s yielded error %s''
                      (obj_ns tr) [obj_name tr, obj_ns tr, ownerName, errorString err]);
               State_Monad.return (emptyResult, Some err)
             }
           | Inr ab \<Rightarrow> do {
               _ \<leftarrow> (if IsTrue (trSucceeded tr) then do {
                      db \<leftarrow> getDependencyBuild cl ab;
                      case db of
                        None \<Rightarrow> State_Monad.return ()
                      | Some db \<Rightarrow> do {
                          _ \<leftarrow> update_DependencyBuild cl (markDeployed db);
                          State_Monad.return ()
                        }
                    }
                    else State_Monad.return ());
               handleArtifactBuildReceived env cl ab
             }
         }))"

section \<open>Pipeline runs\<close>

definition handlePipelineRunReceived ::
  "env \<Rightarrow> 's client \<Rightarrow> PipelineRun \<Rightarrow> ('s, Result \<times> api_error option) state" where
  "handlePipelineRunReceived env cl pr =
     (if gm_get (Labels (metadata pr)) ''tekton.dev/pipeline'' \<noteq> ''component-build-notifier''
      then State_Monad.return (emptyResult, None)
      else if prCompletionTime pr = None then State_Monad.return (emptyResult, None)
      else if OwnerReferences (metadata pr) = [] then do {
        _ \<leftarrow> Eventf cl (warning ''PipelineRun'' (obj_key pr) ''pipelinerun missing onwerrefs %s:%s''
               (obj_ns pr) [obj_name pr]);
        State_Monad.return (emptyResult, None)
      }
      else
        (let ownerName =
               ownerOfKind ''componentbuild'' ''componentbuilds'' (OwnerReferences (metadata pr)) in
         if ownerName = '''' then do {
           _ \<leftarrow> Eventf cl (warning ''PipelineRun'' (obj_key pr) ''MissingOwner''
                  ''pipelinerun missing componentbuild ownerrefs %s:%s'' [obj_ns pr, obj_name pr]);
           State_Monad.return (emptyResult, None)
         }
         else do {
           cb \<leftarrow> get_ComponentBuild cl (NamespacedName (obj_ns pr) ownerName);
           case cb of
             Inl err \<Rightarrow> do {
               _ \<leftarrow> Eventf cl (warning ''PipelineRun'' (obj_key pr)
                      ''get for pipelinerun %s:%s owning component build %s:%s yielded error %s''
                      (obj_ns pr) [obj_name pr, obj_ns pr, ownerName, errorString err]);
               State_Monad.return (emptyResult, Some err)
             }
           | Inr cb \<Rightarrow>
               (if IsTrue (prSucceeded pr)
                then updateStatus cl (cb\<lparr>cbStatus := (cbStatus cb)\<lparr>ResultNotified := True\<rparr>\<rparr>)
                else handleComponentBuildReceived env cl cb)
         }))"

end
