(* ===== verification/Reconciler.thy ===== *)
theory Reconciler
  imports EventHandlers
begin

text \<open>
  \<open>Reconcile\<close> (\<open>pkg/reconciler/componentbuild/componentbuild.go\<close>): a request is a key only, so the
  four kinds that share the work queue are all looked up under it, and the first kind found in a
  fixed order is handled. The mapping of watched objects to requests is
  \<open>SetupNewReconcilerWithManager\<close> in \<open>controller.go\<close> of the same package.
\<close>

section \<open>Operations\<close>

text \<open>
  A lookup of \<open>Reconcile\<close>: the object, None for a NotFound answer, or the error that ends the call.
\<close>

definition found :: "api_error + 'o \<Rightarrow> api_error + 'o option" where
  "found r = (case r of Inl err \<Rightarrow> if \<not> IsNotFound err then Inl err else Inr None
                      | Inr x \<Rightarrow> Inr (Some x))"

definition Reconcile ::
  "env \<Rightarrow> 's client \<Rightarrow> NamespacedName \<Rightarrow> ('s, Result \<times> api_error option) state" where
  "Reconcile env cl request = do {
     abr \<leftarrow> get_ArtifactBuild cl request;
     case found abr of Inl err \<Rightarrow> State_Monad.return (emptyResult, Some err)
     | Inr abr \<Rightarrow> do {
     cb \<leftarrow> get_ComponentBuild cl request;
     case found cb of Inl err \<Rightarrow> State_Monad.return (emptyResult, Some err)
     | Inr cb \<Rightarrow> do {
     tr \<leftarrow> get_TaskRun cl request;
     case found tr of Inl err \<Rightarrow> State_Monad.return (emptyResult, Some err)
     | Inr tr \<Rightarrow> do {
     pr \<leftarrow> get_PipelineRun cl request;
     case found pr of Inl err \<Rightarrow> State_Monad.return (emptyResult, Some err)
     | Inr pr \<Rightarrow>
         (if cb = None \<and> abr = None \<and> tr = None \<and> pr = None
          then State_Monad.return (emptyResult, None)
          else case cb of Some cb \<Rightarrow> handleComponentBuildReceived env cl cb
          | None \<Rightarrow> case abr of Some abr \<Rightarrow> handleArtifactBuildReceived env cl abr
          | None \<Rightarrow> case tr of Some tr \<Rightarrow> handleTaskRunReceived env cl tr
          | None \<Rightarrow> case pr of Some pr \<Rightarrow> handlePipelineRunReceived env cl pr
          | None \<Rightarrow> State_Monad.return (emptyResult, None))
     }}}}"

text \<open>
  The requests a change of an object enqueues: for the primary kind the builder enqueues the
  object's own key, for the three watched kinds the map functions of
  \<open>SetupNewReconcilerWithManager\<close> do the same.
\<close>

datatype watched =
  WatchedComponentBuild ComponentBuild | WatchedArtifactBuild ArtifactBuild
| WatchedPipelineRun PipelineRun | WatchedTaskRun TaskRun

fun requestsFor :: "watched \<Rightarrow> NamespacedName list" where
  "requestsFor (WatchedComponentBuild cb) = [NamespacedName (obj_ns cb) (obj_name cb)]"
| "requestsFor (WatchedArtifactBuild artifactBuild) =
     [NamespacedName (obj_ns artifactBuild) (obj_name artifactBuild)]"
| "requestsFor (WatchedPipelineRun pipelineRun) =
     [NamespacedName (obj_ns pipelineRun) (obj_name pipelineRun)]"
| "requestsFor (WatchedTaskRun taskRun) = [NamespacedName (obj_ns taskRun) (obj_name taskRun)]"

end
