(* ===== verification/ReconcilerSpec.thy ===== *)
theory ReconcilerSpec
  imports HandlerSpec Reconciler
begin

text \<open>
  The contract of the reconciler, as a step relation on the cluster: which single writes it may
  make, and in which situations. Every handler, and \<open>Reconcile\<close> itself, refines the reflexive
  transitive closure of this relation against any client, whichever calls fail, and the invariants
  of the relation are therefore invariants of the program.
\<close>

section \<open>The steps\<close>

text \<open>
  The statuses the reconciler may write: the request for a configuration; the exact final status; an
  unfinished one that does not undercount; or the result of a finished notification.
\<close>

definition progress_status :: "env \<Rightarrow> cluster \<Rightarrow> ComponentBuild \<Rightarrow> ComponentBuildStatus \<Rightarrow> bool" where
  "progress_status env c cb st \<longleftrightarrow>
     State st = ComponentBuildStateInProgress \<and> \<not> ResultNotified st \<and> 0 < Outstanding st
     \<and> outstanding_count env c (obj_ns cb) (Artifacts (cbSpec cb)) \<le> Outstanding st"

definition notified_by :: "cluster \<Rightarrow> ComponentBuild \<Rightarrow> bool" where
  "notified_by c cb \<longleftrightarrow>
     (\<exists>k pr. pipelineRuns c k = Some pr \<and> prCompletionTime pr \<noteq> None \<and> IsTrue (prSucceeded pr)
        \<and> gm_get (Labels (metadata pr)) ''tekton.dev/pipeline'' = ''component-build-notifier''
        \<and> ownerOfKind ''componentbuild'' ''componentbuilds'' (OwnerReferences (metadata pr)) = obj_name cb
        \<and> obj_ns pr = obj_ns cb)"

definition allowed_status :: "env \<Rightarrow> cluster \<Rightarrow> ComponentBuild \<Rightarrow> ComponentBuildStatus \<Rightarrow> bool" where
  "allowed_status env c cb st \<longleftrightarrow>
     (if configured c (obj_ns cb)
      then outstanding_count env c (obj_ns cb) (Artifacts (cbSpec cb)) = 0
             \<and> st = expected_status env c cb
           \<or> progress_status env c cb st
      else st = (cbStatus cb)\<lparr>Message := NoConfigMessage\<rparr>)
     \<or> notified_by c cb \<and> st = (cbStatus cb)\<lparr>ResultNotified := True\<rparr>"

inductive rstep :: "env \<Rightarrow> cluster \<Rightarrow> cluster \<Rightarrow> bool" for env where
  new_artifact:
    "\<lbrakk>componentBuilds c k = Some cb; i \<in> set (Artifacts (cbSpec cb));
      created (artifactBuilds c) (newArtifactBuild env (obj_ns cb) i) x m\<rbrakk>
     \<Longrightarrow> rstep env c (c\<lparr>artifactBuilds := m\<rparr>)"
| new_deploy:
    "\<lbrakk>artifactBuilds c k = Some abr; abState abr = ArtifactBuildStateComplete;
      dependency_of c abr = Some db; gm_get (Annotations (metadata db)) DeployedAnnotation = '''';
      deploys_in_flight c (obj_ns abr) (obj_name db) = {};
      configured c (obj_ns abr); config_of c (obj_ns abr) = (u, ow, d);
      created (taskRuns c) (deployTaskRun env abr db u ow d) x m\<rbrakk>
     \<Longrightarrow> rstep env c (c\<lparr>taskRuns := m\<rparr>)"
| new_notify:
    "\<lbrakk>componentBuilds c k = Some cb;
      outstanding_count env c (obj_ns cb) (Artifacts (cbSpec cb)) = 0;
      \<not> ResultNotified (cbStatus cb);
      notification env (cb\<lparr>cbStatus := expected_status env c cb\<rparr>) c c'\<rbrakk>
     \<Longrightarrow> rstep env c c'"
| new_status:
    "\<lbrakk>componentBuilds c k = Some cb; allowed_status env c cb st;
      status_updated (componentBuilds c) (cb\<lparr>cbStatus := st\<rparr>) m\<rbrakk>
     \<Longrightarrow> rstep env c (c\<lparr>componentBuilds := m\<rparr>)"
| mark_deployed:
    "\<lbrakk>taskRuns c k = Some tr; trCompletionTime tr \<noteq> None; IsTrue (trSucceeded tr);
      gm_get (Labels (metadata tr)) DeployTaskLabel \<noteq> '''';
      artifactBuilds c k' = Some abr; dependency_of c abr = Some db;
      updated (dependencyBuilds c) (markDeployed db) m\<rbrakk>
     \<Longrightarrow> rstep env c (c\<lparr>dependencyBuilds := m\<rparr>)"

inductive_cases rstepE: "rstep env c c'"

abbreviation rsteps :: "env \<Rightarrow> cluster \<Rightarrow> cluster \<Rightarrow> bool" where
  "rsteps env \<equiv> (rstep env)\<^sup>*\<^sup>*"

section \<open>Keys\<close>

text \<open>Objects are stored under their own keys.\<close>

definition keyed :: "cluster \<Rightarrow> bool" where
  "keyed c \<longleftrightarrow>
     (\<forall>k x. componentBuilds c k = Some x \<longrightarrow> obj_key x = k)
     \<and> (\<forall>k x. artifactBuilds c k = Some x \<longrightarrow> obj_key x = k)
     \<and> (\<forall>k x. taskRuns c k = Some x \<longrightarrow> obj_key x = k)
     \<and> (\<forall>k x. pipelineRuns c k = Some x \<longrightarrow> obj_key x = k)
     \<and> (\<forall>k x. dependencyBuilds c k = Some x \<longrightarrow> obj_key x = k)"

lemma markDeployed_meta [simp]:
  "obj_name (markDeployed db) = obj_name db" "obj_ns (markDeployed db) = obj_ns db"
  "DeletionTimestamp (metadata (markDeployed db)) = DeletionTimestamp (metadata db)"
  by (simp_all add: markDeployed_def Let_def)

lemma rstep_keyed: "rstep env c c' \<Longrightarrow> keyed c \<Longrightarrow> keyed c'"
  by (cases rule: rstep.cases, assumption)
    (auto simp: keyed_def created_def notification_def status_updated_def updated_def split: if_splits)

lemma rsteps_keyed: "rsteps env c c' \<Longrightarrow> keyed c \<Longrightarrow> keyed c'"
  by (induction rule: rtranclp_induct) (auto intro: rstep_keyed)

section \<open>Invariants of the steps\<close>

lemma rstep_single_deploys:
  assumes "rstep env c c'" and "single_deploys c"
  shows "single_deploys c'"
  using assms(1)
proof cases
  case (new_deploy k abr db u ow d x m)
  then show ?thesis
    using assms(2) created_single_flight [OF _ new_deploy(9), where lbl = DeployTaskLabel]
    by (simp add: single_deploys_def deploys_in_flight_def)
qed (use assms(2) in \<open>auto simp: single_deploys_def notification_def\<close>)

lemma rstep_single_notifies:
  assumes "rstep env c c'" and "single_notifies c"
  shows "single_notifies c'"
  using assms(1)
proof cases
  case (new_notify k cb)
  then obtain x y m where "created (pipelineRuns c) x y m" "c' = c\<lparr>pipelineRuns := m\<rparr>"
    "gm_lookup (Labels (metadata x)) NotifyPipelineLabel = Some (obj_name cb)"
    "notifies_in_flight c (obj_ns x) (obj_name cb) = {}"
    by (auto simp: notification_def)
  then show ?thesis
    using assms(2) created_single_flight [where lbl = NotifyPipelineLabel]
    by (simp add: single_notifies_def notifies_in_flight_def)
qed (use assms(2) in \<open>auto simp: single_notifies_def\<close>)

lemma rsteps_single_flight:
  assumes "rsteps env c c'"
  shows "single_deploys c \<Longrightarrow> single_deploys c'" "single_notifies c \<Longrightarrow> single_notifies c'"
  using assms
  by (induction rule: rtranclp_induct) (auto intro: rstep_single_deploys rstep_single_notifies)

text \<open>
  What the reconciler leaves alone: configuration and rebuilt artifacts; the specification of a
  component build; whatever artifact builds, task runs and pipeline runs there are.
\<close>

definition conserves :: "cluster \<Rightarrow> cluster \<Rightarrow> bool" where
  "conserves c c' \<longleftrightarrow>
     configMaps c' = configMaps c \<and> rebuiltArtifacts c' = rebuiltArtifacts c
     \<and> map_le (artifactBuilds c) (artifactBuilds c') \<and> map_le (taskRuns c) (taskRuns c')
     \<and> map_le (pipelineRuns c) (pipelineRuns c')
     \<and> (\<forall>k x. componentBuilds c' k = Some x \<longrightarrow>
          (\<exists>y. componentBuilds c k = Some y \<and> cbSpec y = cbSpec x))"

lemma conserves_refl [simp]: "conserves c c"
  by (simp add: conserves_def)

lemma conserves_trans: "conserves c d \<Longrightarrow> conserves d e \<Longrightarrow> conserves c e"
  unfolding conserves_def by (metis map_le_trans)

lemma created_map_le: "created m x x' m' \<Longrightarrow> map_le m m'"
  by (auto simp: created_def map_le_def dom_def)

lemma rstep_conserves: "rstep env c c' \<Longrightarrow> keyed c \<Longrightarrow> conserves c c'"
  by (cases rule: rstep.cases, assumption)
    (auto simp: conserves_def notification_def status_updated_def keyed_def
      dest: created_map_le split: if_splits)

lemma rsteps_conserves: "rsteps env c c' \<Longrightarrow> keyed c \<Longrightarrow> conserves c c'"
  by (induction rule: rtranclp_induct)
    (auto intro: conserves_trans rstep_conserves rsteps_keyed)

end
