(* ===== verification/Refinement.thy ===== *)
theory Refinement
  imports ReconcilerSpec
begin

text \<open>
  Every handler refines the step relation against any client: whichever calls fail, the cluster
  only changes by steps of the contract. The walk over the artifacts comes first: under failing
  reads an artifact can only be counted as outstanding.
\<close>

section \<open>Artifact states under failing reads\<close>

text \<open>A state that settles an artifact is the artifact's state.\<close>

definition safe_state :: "ArtifactState \<Rightarrow> ArtifactState \<Rightarrow> bool" where
  "safe_state st truth \<longleftrightarrow> (settled st \<longrightarrow> st = truth)"

lemma safe_stateI:
  assumes "Built st = Built (state_of c x)" "Failed st = Failed (state_of c x)"
    "ArtifactBuildName st = obj_name x" "Deployed st \<longrightarrow> Deployed (state_of c x)"
  shows "safe_state st (state_of c x)"
  using assms by (cases st) (auto simp: safe_state_def settled_def Done_iff state_of_def)

definition deploys :: "env \<Rightarrow> string \<Rightarrow> string \<Rightarrow> string \<Rightarrow> ArtifactBuild \<Rightarrow> cluster \<Rightarrow> cluster \<Rightarrow> bool" where
  "deploys env u ow d abr c c' \<longleftrightarrow>
     abState abr = ArtifactBuildStateComplete \<and>
     (\<exists>db x m. dependency_of c abr = Some db
        \<and> gm_get (Annotations (metadata db)) DeployedAnnotation = ''''
        \<and> deploys_in_flight c (obj_ns abr) (obj_name db) = {}
        \<and> created (taskRuns c) (deployTaskRun env abr db u ow d) x m
        \<and> c' = c\<lparr>taskRuns := m\<rparr>)"

lemma settled_empty [simp]: "\<not> settled (state_of c empty_ArtifactBuild)"
  by (simp add: settled_def Done_iff empty_ArtifactBuild_def ArtifactBuildStateComplete_def
      ArtifactBuildStateFailed_def ArtifactBuildStateMissing_def)

lemma deploys_empty [simp]: "\<not> deploys env u ow d empty_ArtifactBuild c c'"
  by (simp add: deploys_def empty_ArtifactBuild_def ArtifactBuildStateComplete_def)

lemma deploys_taskRuns: "deploys env u ow d abr c c' \<Longrightarrow> \<exists>m. c' = c\<lparr>taskRuns := m\<rparr>"
  by (auto simp: deploys_def)

context api_client
begin

lemma artifactState_safe: "reads ab (artifactState cl x) (\<lambda>c st. safe_state st (state_of c x)
    \<and> (Built st \<longleftrightarrow> abState x = ArtifactBuildStateComplete))"
  by (rule reads_mono [OF artifactState_reads]) (simp add: safe_stateI)

lemma existingStep_writes:
  "writes ab (existingStep env cl u ow d i x n m)
     (\<lambda>c r c'. (c' = c \<or> deploys env u ow d x c c')
        \<and> (\<exists>st. safe_state st (state_of c x) \<and> r = (new_count st n, AList.update i st m)))"
  unfolding existingStep_def
  by (rule writes_from_triple, rule triple_pre,
      (rule wp artifactState_safe [THEN reads_wp] deployArtifact_writes [THEN writes_wp])+)
    (auto simp: new_count_def settled_def deploys_def)

lemma deployConfig_reads:
  "reads ab (deployConfig cl ns) (\<lambda>c r. \<forall>cfg. r = Inr cfg \<longrightarrow> cfg = config_of c ns)"
  unfolding deployConfig_def
  by (rule reads_from_triple, rule triple_pre, (rule wp call_wp)+)
    (auto simp: get_ok_def config_of_def)

end

section \<open>The walk over the artifacts\<close>

definition walked :: "env \<Rightarrow> ComponentBuild \<Rightarrow> cluster \<Rightarrow> cluster \<Rightarrow> bool" where
  "walked env cb c0 c \<longleftrightarrow> rsteps env c0 c \<and> only_new env (obj_ns cb) c0 c"

text \<open>The situation in which the walk runs.\<close>

definition walks_from :: "ComponentBuild \<Rightarrow> string \<Rightarrow> string \<Rightarrow> string \<Rightarrow> cluster \<Rightarrow> bool" where
  "walks_from cb u ow d c \<longleftrightarrow>
     keyed c \<and> componentBuilds c (obj_key cb) = Some cb
     \<and> configured c (obj_ns cb) \<and> config_of c (obj_ns cb) = (u, ow, d)"

lemma walks_fromI:
  "keyed c \<Longrightarrow> componentBuilds c (obj_key cb) = Some cb \<Longrightarrow> (u, ow, d) = config_of c (obj_ns cb)
     \<Longrightarrow> u \<noteq> '''' \<Longrightarrow> ow \<noteq> '''' \<Longrightarrow> d \<noteq> '''' \<Longrightarrow> walks_from cb u ow d c"
  by (auto simp: walks_from_def configured_def split: prod.splits)

lemma walked_refl [simp]: "walked env cb c c"
  by (simp add: walked_def)

lemma walked_create:
  assumes "walks_from cb u ow d c0" and "walked env cb c0 c" and "i \<in> set (Artifacts (cbSpec cb))"
    and "create_ok (artifactBuilds c) (newArtifactBuild env (obj_ns cb) i) r m"
  shows "walked env cb c0 (c\<lparr>artifactBuilds := m\<rparr>)"
proof -
  have cb: "componentBuilds c (obj_key cb) = Some cb"
    using assms(1,2) by (auto simp: walks_from_def walked_def only_new_frame)
  have "rsteps env c (c\<lparr>artifactBuilds := m\<rparr>)"
    using create_ok_cases [OF assms(4)] new_artifact [OF cb assms(3)] by auto
  then show ?thesis
    using assms(2) only_new_create_ok [OF _ assms(4)] by (auto simp: walked_def)
qed

lemma walked_deploy:
  assumes "walks_from cb u ow d c0" and "walked env cb c0 c"
    and "artifactBuilds c (NamespacedName (obj_ns cb) nm) = Some x" and "deploys env u ow d x c c'"
  shows "walked env cb c0 c'"
proof -
  have new: "only_new env (obj_ns cb) c0 c" and steps: "rsteps env c0 c"
    using assms(2) by (simp_all add: walked_def)
  have "keyed c" using steps assms(1) by (auto simp: walks_from_def intro: rsteps_keyed)
  then have ns: "obj_ns x = obj_ns cb" using assms(3) by (auto simp: keyed_def)
  have cfg: "configured c (obj_ns cb)" "config_of c (obj_ns cb) = (u, ow, d)"
    using assms(1) by (auto simp: walks_from_def configured_def only_new_config [OF new])
  have "rstep env c c'"
    using assms(3,4) cfg ns unfolding deploys_def
    by (elim conjE exE) (simp, rule new_deploy, assumption+, simp_all)
  then show ?thesis
    using new steps deploys_taskRuns [OF assms(4)] only_new_taskRuns by (auto simp: walked_def)
qed

lemma walked_phase:
  "walked env cb c0 c \<Longrightarrow>
     artifactBuilds c (NamespacedName (obj_ns cb) (CreateABRName env i)) = Some x \<Longrightarrow>
     safe_state st (state_of c x) \<Longrightarrow> safe_state st (phase env c0 (obj_ns cb) i)"
  using found_phase by (auto simp: walked_def)

lemma safe_empty: "safe_state st (state_of c empty_ArtifactBuild) \<Longrightarrow> \<not> settled st"
  by (auto simp: safe_state_def)

text \<open>
  What the loop answers: it does not undercount, and when it counts nothing its map is exact.
\<close>

definition counted ::
  "env \<Rightarrow> cluster \<Rightarrow> string \<Rightarrow> string list \<Rightarrow> int \<Rightarrow> (string \<times> ArtifactState) list
     \<Rightarrow> api_error + (int \<times> (string \<times> ArtifactState) list) \<Rightarrow> bool" where
  "counted env c0 ns is n m r \<longleftrightarrow>
     (\<forall>n' m'. r = Inr (n', m') \<longrightarrow> n + outstanding_count env c0 ns is \<le> n'
        \<and> (n' = n \<longrightarrow> m' = phases env c0 ns is m))"

lemma counted_Inl [simp]: "counted env c0 ns is n m (Inl e)"
  by (simp add: counted_def)

lemma counted_Nil [simp]: "counted env c0 ns [] n m (Inr (n, m))"
  by (simp add: counted_def)

lemma counted_more:
  "counted env c0 ns is (n + 1) m1 r \<Longrightarrow> counted env c0 ns (i # is) n m r"
  using outstanding_count_nonneg [of env c0 ns "is"]
  by (fastforce simp: counted_def simp del: outstanding_count_nonneg)

lemma counted_step:
  assumes "safe_state st (phase env c0 ns i)"
    and "counted env c0 ns is (new_count st n) (AList.update i st m) r"
  shows "counted env c0 ns (i # is) n m r"
proof (cases "settled st")
  case True
  with assms show ?thesis by (auto simp: counted_def new_count_def safe_state_def)
next
  case False
  with assms show ?thesis by (auto simp: new_count_def intro: counted_more)
qed

lemma counted_skip:
  "safe_state st (state_of c empty_ArtifactBuild) \<Longrightarrow>
     counted env c0 ns is (new_count st n) m1 r \<Longrightarrow> counted env c0 ns (i # is) n m r"
  using safe_empty [of st c] by (auto simp: new_count_def intro: counted_more)

lemmas walk_steps =
  walked_create walked_deploy counted_more counted_skip counted_step [OF walked_phase]

context api_client
begin

text \<open>The loop takes steps of the contract only, and answers as said.\<close>

lemma artifactLoop_walks:
  assumes "walks_from cb u ow d c0" and "set is \<subseteq> set (Artifacts (cbSpec cb))"
  shows "triple ab (walked env cb c0) (artifactLoop env cl (obj_ns cb) u ow d is n m)
     (\<lambda>r c. walked env cb c0 c \<and> counted env c0 (obj_ns cb) is n m r)"
  using assms(2)
proof (induction "is" arbitrary: n m)
  case Nil
  show ?case by (simp, rule triple_pre, rule wp) simp
next
  case (Cons i "is")
  then have "set is \<subseteq> set (Artifacts (cbSpec cb))" and i: "i \<in> set (Artifacts (cbSpec cb))" by auto
  note IH = Cons.IH [OF this(1), THEN triple_wp]
  show ?case
    unfolding artifactLoop.simps
    by (rule triple_pre,
        (rule wp IH existingStep_writes [THEN writes_wp] artifactState_safe [THEN reads_wp] call_wp)+)
      (auto simp: get_ok_def intro: walk_steps assms(1) i)
qed

end

section \<open>The handler for a component build\<close>

text \<open>What a handled component build may have changed.\<close>

definition handles :: "env \<Rightarrow> NamespacedName \<Rightarrow> cluster \<Rightarrow> cluster \<Rightarrow> bool" where
  "handles env k c c' \<longleftrightarrow>
     rsteps env c c' \<and> (\<forall>k'. k' \<noteq> k \<longrightarrow> componentBuilds c' k' = componentBuilds c k')"

lemma handles_refl [simp]: "handles env k c c"
  by (simp add: handles_def)

lemma pipelineRuns_irrelevant [simp]:
  "phase env (c\<lparr>pipelineRuns := m\<rparr>) = phase env c"
  "outstanding_count env (c\<lparr>pipelineRuns := m\<rparr>) = outstanding_count env c"
  "expected_status env (c\<lparr>pipelineRuns := m\<rparr>) = expected_status env c"
  "configured (c\<lparr>pipelineRuns := m\<rparr>) = configured c"
proof -
  show p: "phase env (c\<lparr>pipelineRuns := m\<rparr>) = phase env c"
    by (simp add: fun_eq_iff phase_def state_of_def dependency_of_def Let_def split: option.split)
  then show "outstanding_count env (c\<lparr>pipelineRuns := m\<rparr>) = outstanding_count env c"
    by (simp add: fun_eq_iff outstanding_count_def)
  then show "expected_status env (c\<lparr>pipelineRuns := m\<rparr>) = expected_status env c"
    using p by (simp add: fun_eq_iff expected_status_def phases_def Let_def)
  show "configured (c\<lparr>pipelineRuns := m\<rparr>) = configured c"
    by (simp add: fun_eq_iff configured_def config_of_def)
qed

text \<open>The status that follows from the answer of the loop.\<close>

definition outcome :: "env \<Rightarrow> cluster \<Rightarrow> ComponentBuild \<Rightarrow> ComponentBuildStatus \<Rightarrow> bool" where
  "outcome env c cb st \<longleftrightarrow>
     outstanding_count env c (obj_ns cb) (Artifacts (cbSpec cb)) = 0 \<and> st = expected_status env c cb
     \<or> progress_status env c cb st"

lemma outcome_only_new:
  "only_new env ns c0 c \<Longrightarrow> outcome env c cb st = outcome env c0 cb st"
  by (simp add: outcome_def progress_status_def phases_only_new)

lemma outcome_final:
  assumes "counted env c (obj_ns cb) (Artifacts (cbSpec cb)) 0 [] (Inr (n, m))"
    and "st0 = (if Message (cbStatus cb) = NoConfigMessage then (cbStatus cb)\<lparr>Message := ''''\<rparr>
                else cbStatus cb)"
  shows "outcome env c cb (final_status (st0\<lparr>Outstanding := n, ArtifactStates := Some m\<rparr>))"
    and "may_notify (st0\<lparr>Outstanding := n, ArtifactStates := Some m\<rparr>) \<Longrightarrow>
      \<not> ResultNotified (cbStatus cb) \<and>
      outstanding_count env c (obj_ns cb) (Artifacts (cbSpec cb)) = 0 \<and>
      final_status (st0\<lparr>Outstanding := n, ArtifactStates := Some m\<rparr>) = expected_status env c cb"
proof -
  let ?k = "outstanding_count env c (obj_ns cb) (Artifacts (cbSpec cb))"
  have le: "?k \<le> n" and eq: "n = 0 \<longrightarrow> m = phases env c (obj_ns cb) (Artifacts (cbSpec cb)) []"
    using assms(1) by (auto simp: counted_def)
  have zero: "?k = 0 \<and> final_status (st0\<lparr>Outstanding := n, ArtifactStates := Some m\<rparr>)
      = expected_status env c cb" if "n = 0"
  proof -
    have "?k = n" using le that outstanding_count_nonneg [of env c "obj_ns cb"] by (simp add: antisym)
    with that eq final_status_expected [of cb env c] show ?thesis
      by (auto simp: assms(2))
  qed
  show "outcome env c cb (final_status (st0\<lparr>Outstanding := n, ArtifactStates := Some m\<rparr>))"
  proof (cases "n = 0")
    case True
    with zero show ?thesis by (simp add: outcome_def)
  next
    case False
    then have "0 < n" using le outstanding_count_nonneg [of env c "obj_ns cb"] by (smt (verit))
    with False le show ?thesis by (simp add: outcome_def progress_status_def final_status_def)
  qed
  show "may_notify (st0\<lparr>Outstanding := n, ArtifactStates := Some m\<rparr>) \<Longrightarrow>
      \<not> ResultNotified (cbStatus cb) \<and> ?k = 0 \<and>
      final_status (st0\<lparr>Outstanding := n, ArtifactStates := Some m\<rparr>) = expected_status env c cb"
    using zero by (auto simp: may_notify_def assms(2) split: if_splits)
qed

lemma allowed_outcome:
  "configured c (obj_ns cb) \<Longrightarrow> outcome env c cb st \<Longrightarrow> allowed_status env c cb st"
  by (auto simp: allowed_status_def outcome_def)

lemma allowed_message:
  "\<not> configured c (obj_ns cb) \<Longrightarrow>
     allowed_status env c cb ((cbStatus cb)\<lparr>Message := NoConfigMessage\<rparr>)"
  by (simp add: allowed_status_def)

lemma status_updated_others:
  "status_updated m x m' \<Longrightarrow> k \<noteq> obj_key x \<Longrightarrow> m' k = m k"
  by (auto simp: status_updated_def)

lemma handles_status:
  assumes "componentBuilds c (obj_key cb) = Some cb" and "allowed_status env c cb st"
    and "status_updated (componentBuilds c) (cb\<lparr>cbStatus := st\<rparr>) m"
  shows "handles env (obj_key cb) c (c\<lparr>componentBuilds := m\<rparr>)"
  using new_status [OF assms] status_updated_others [OF assms(3)]
  by (auto simp: handles_def)

lemma handles_trans: "handles env k c d \<Longrightarrow> handles env k d e \<Longrightarrow> handles env k c e"
  by (auto simp: handles_def)

lemma walked_handles: "walked env cb c0 c \<Longrightarrow> handles env k c0 c"
  by (auto simp: walked_def handles_def only_new_frame)

text \<open>After the walk: the notification, if there is one, and the status.\<close>

definition finishes :: "env \<Rightarrow> ComponentBuild \<Rightarrow> ComponentBuildStatus \<Rightarrow> cluster \<Rightarrow> cluster \<Rightarrow> bool" where
  "finishes env cb st c c' \<longleftrightarrow>
     (\<exists>c1. (c1 = c \<or> may_notify st \<and> notification env (cb\<lparr>cbStatus := final_status st\<rparr>) c c1)
        \<and> (c' = c1 \<or> (\<exists>ms. status_updated (componentBuilds c1) (cb\<lparr>cbStatus := final_status st\<rparr>) ms
                            \<and> c' = c1\<lparr>componentBuilds := ms\<rparr>)))"

lemma finishesI:
  assumes "c1 = c \<or> may_notify st \<and> notification env (cb\<lparr>cbStatus := final_status st\<rparr>) c c1"
  shows "finishes env cb st c c1"
    and "status_updated (componentBuilds c1) (cb\<lparr>cbStatus := final_status st\<rparr>) ms \<Longrightarrow>
      finishes env cb st c (c1\<lparr>componentBuilds := ms\<rparr>)"
  using assms by (auto simp: finishes_def)

lemma handles_finish:
  assumes "walks_from cb u ow d c0" and "walked env cb c0 c"
    and "counted env c0 (obj_ns cb) (Artifacts (cbSpec cb)) 0 [] (Inr (n, m))"
    and "finishes env cb st c c'"
    and st: "st = (if Message (cbStatus cb) = NoConfigMessage then (cbStatus cb)\<lparr>Message := ''''\<rparr>
              else cbStatus cb)\<lparr>Outstanding := n, ArtifactStates := Some m\<rparr>"
  shows "handles env (obj_key cb) c0 c'"
proof -
  have new: "only_new env (obj_ns cb) c0 c" using assms(2) by (simp add: walked_def)
  have cb: "componentBuilds c (obj_key cb) = Some cb" and cfg: "configured c (obj_ns cb)"
    using assms(1) by (auto simp: walks_from_def configured_def only_new_frame [OF new]
        only_new_config [OF new])
  have out: "outcome env c cb (final_status st)"
    using outcome_final(1) [OF assms(3)] outcome_only_new [OF new] st by (auto split: if_splits)
  from assms(4) obtain c1
    where c1: "c1 = c \<or> may_notify st \<and> notification env (cb\<lparr>cbStatus := final_status st\<rparr>) c c1"
      and c': "c' = c1 \<or> (\<exists>ms. status_updated (componentBuilds c1) (cb\<lparr>cbStatus := final_status st\<rparr>) ms
                            \<and> c' = c1\<lparr>componentBuilds := ms\<rparr>)"
    by (auto simp: finishes_def)
  have notify: "rstep env c c1" if "c1 \<noteq> c"
  proof -
    have "may_notify st" and n: "notification env (cb\<lparr>cbStatus := final_status st\<rparr>) c c1"
      using c1 that by auto
    then have "\<not> ResultNotified (cbStatus cb)"
      "outstanding_count env c (obj_ns cb) (Artifacts (cbSpec cb)) = 0"
      "final_status st = expected_status env c cb"
      using outcome_final(2) [OF assms(3)] st phases_only_new [OF new] by (auto split: if_splits)
    with cb n show ?thesis by (auto intro: new_notify)
  qed
  have pr: "\<exists>ps. c1 = c\<lparr>pipelineRuns := ps\<rparr>"
    using c1 by (auto dest: notification_frame intro: exI [of _ "pipelineRuns c"])
  have "handles env (obj_key cb) c c1"
    using notify pr by (cases "c1 = c") (auto simp: handles_def)
  then have h: "handles env (obj_key cb) c0 c1"
    using walked_handles [OF assms(2)] handles_trans by blast
  have "handles env (obj_key cb) c1 c'"
    using c' pr cb cfg out
    by (auto intro!: handles_status allowed_outcome simp: outcome_def progress_status_def)
  with h show ?thesis by (rule handles_trans)
qed

lemma handles_message:
  assumes "componentBuilds c (obj_key cb) = Some cb" and "(u, ow, d) = config_of c (obj_ns cb)"
    and "u = '''' \<or> ow = '''' \<or> d = ''''"
    and "status_updated (componentBuilds c) (cb\<lparr>cbStatus := (cbStatus cb)\<lparr>Message := NoConfigMessage\<rparr>\<rparr>) m"
  shows "handles env (obj_key cb) c (c\<lparr>componentBuilds := m\<rparr>)"
proof (rule handles_status [OF assms(1) _ assms(4)])
  have "\<not> configured c (obj_ns cb)" using assms(2,3) by (auto simp: configured_def split: prod.splits)
  then show "allowed_status env c cb ((cbStatus cb)\<lparr>Message := NoConfigMessage\<rparr>)"
    by (rule allowed_message)
qed

context api_client
begin

lemma artifactLoop_from:
  "triple ab (\<lambda>c. walks_from cb u ow d c0 \<and> walked env cb c0 c)
     (artifactLoop env cl (obj_ns cb) u ow d (Artifacts (cbSpec cb)) 0 [])
     (\<lambda>r c. walks_from cb u ow d c0 \<and> walked env cb c0 c
        \<and> counted env c0 (obj_ns cb) (Artifacts (cbSpec cb)) 0 [] r)"
  using artifactLoop_walks [of cb u ow d c0 "Artifacts (cbSpec cb)"]
  by (cases "walks_from cb u ow d c0") (auto simp: triple_def)

lemma finish_update_writes:
  "writes ab (do {
       (err, cb') \<leftarrow> finish env cl (cb\<lparr>cbStatus := st\<rparr>);
       case err of
         Some err \<Rightarrow> State_Monad.return (emptyResult, Some err)
       | None \<Rightarrow> updateStatus cl cb'
     }) (\<lambda>c r c'. finishes env cb st c c')"
  by (rule writes_from_triple, rule triple_pre,
      (rule wp updateStatus_writes [THEN writes_wp] finish_writes [THEN writes_wp])+)
    (auto intro: finishesI)

lemma handleComponentBuildReceived_handles:
  assumes c0: "keyed c0" "componentBuilds c0 (obj_key cb) = Some cb"
  shows "triple ab (\<lambda>c. c = c0) (handleComponentBuildReceived env cl cb)
           (\<lambda>r c. handles env (obj_key cb) c0 c)"
  unfolding handleComponentBuildReceived_def
  by (rule triple_pre,
      (rule finish_update_writes [THEN writes_wp] wp artifactLoop_from [THEN triple_wp, of cb _ _ _ c0]
        deployConfig_reads [THEN reads_wp] updateStatus_writes [THEN writes_wp])+)
    (auto simp: c0 intro: walks_fromI handles_message handles_finish walked_handles
      split del: if_split)

lemma handleComponentBuildReceived_refines:
  "writes ab (handleComponentBuildReceived env cl cb)
     (\<lambda>c r c'. keyed c \<and> componentBuilds c (obj_key cb) = Some cb \<longrightarrow>
        handles env (obj_key cb) c c')"
proof (rule writes_from_triple)
  fix c0
  show "triple ab (\<lambda>c. c = c0) (handleComponentBuildReceived env cl cb)
     (\<lambda>r c. keyed c0 \<and> componentBuilds c0 (obj_key cb) = Some cb \<longrightarrow>
        handles env (obj_key cb) c0 c)"
    using handleComponentBuildReceived_handles [of c0 cb]
    by (cases "keyed c0 \<and> componentBuilds c0 (obj_key cb) = Some cb") (auto simp: triple_def)
qed

end

end
