(* ===== verification/ReconcileRefinement.thy ===== *)
theory ReconcileRefinement
  imports Refinement
begin

text \<open>
  The handlers for the other kinds and \<open>Reconcile\<close> refine the step relation against any client.
\<close>

section \<open>The loop over component builds\<close>

definition tracking :: "ComponentBuild list \<Rightarrow> cluster \<Rightarrow> bool" where
  "tracking cbs c \<longleftrightarrow> keyed c \<and> distinct (map (\<lambda>cb. obj_key cb) cbs)
     \<and> (\<forall>cb \<in> set cbs. componentBuilds c (obj_key cb) = Some cb)"

lemma list_tracking:
  assumes "keyed c" and "list_ok (\<lambda>_. True) ns (componentBuilds c) (Inr cbs)"
  shows "tracking cbs c"
proof -
  from assms(2) obtain ks where ks: "distinct ks" "set ks = selected (\<lambda>_. True) ns (componentBuilds c)"
    "cbs = map (\<lambda>k. the (componentBuilds c k)) ks"
    by (auto simp: list_ok_def)
  have *: "componentBuilds c k = Some (the (componentBuilds c k)) \<and>
      obj_key (the (componentBuilds c k)) = k" if "k \<in> set ks" for k
    using that ks(2) assms(1) by (auto simp: selected_def keyed_def)
  have "map (\<lambda>cb. obj_key cb) cbs = ks"
    using * by (auto simp: ks(3) intro: map_idI)
  then show ?thesis
    using assms(1) ks * by (auto simp: tracking_def)
qed

lemma trackingD:
  "tracking cbs c \<Longrightarrow> keyed c"
  "tracking cbs c \<Longrightarrow> distinct (map (\<lambda>cb. obj_key cb) cbs)"
  "tracking cbs c \<Longrightarrow> cb \<in> set cbs \<Longrightarrow> componentBuilds c (obj_key cb) = Some cb"
  unfolding tracking_def by (elim conjE, assumption, elim conjE, assumption, elim conjE, erule bspec)

lemma tracking_tail: "tracking (cb # cbs) c \<Longrightarrow> tracking cbs c"
  by (simp add: tracking_def)

lemma handles_tracking:
  assumes t: "tracking (cb # cbs) c" and h: "handles env (obj_key cb) c c'"
  shows "tracking cbs c'"
proof -
  have "keyed c'"
    using trackingD(1) [OF t] h rsteps_keyed [of env c c'] by (simp add: handles_def)
  moreover have "componentBuilds c' (obj_key x) = Some x" if x: "x \<in> set cbs" for x
  proof -
    have "obj_key cb \<notin> set (map (\<lambda>cb. obj_key cb) cbs)"
      by (rule trackingD(2) [OF t, unfolded list.map distinct.simps, THEN conjunct1])
    moreover have "obj_key x \<in> set (map (\<lambda>cb. obj_key cb) cbs)"
      unfolding set_map using x by (rule imageI)
    ultimately have "obj_key x \<noteq> obj_key cb" by (metis (no_types))
    then have "componentBuilds c' (obj_key x) = componentBuilds c (obj_key x)"
      using h unfolding handles_def by blast
    also have "\<dots> = Some x"
      by (rule trackingD(3) [OF tracking_tail [OF t] x])
    finally show ?thesis .
  qed
  ultimately show ?thesis
    using trackingD(2) [OF tracking_tail [OF t]] unfolding tracking_def by (intro conjI ballI)
qed

context api_client
begin

lemma handleTracking_refines:
  "triple ab (\<lambda>c. rsteps env c0 c \<and> tracking cbs c) (handleTracking env cl gav cbs)
     (\<lambda>_. rsteps env c0)"
proof (induction cbs)
  case Nil
  show ?case by (simp, rule triple_pre, rule wp) simp
next
  case (Cons cb cbs)
  have step: "tracking cbs c' \<and> rsteps env c0 c'"
    if "tracking (cb # cbs) c" "rsteps env c0 c"
      "keyed c \<and> componentBuilds c (obj_key cb) = Some cb \<longrightarrow> handles env (obj_key cb) c c'" for c c'
  proof -
    have h: "handles env (obj_key cb) c c'"
      using that(3) trackingD(1,3) [OF that(1)] by (meson list.set_intros(1))
    then show ?thesis
      using that(2) handles_tracking [OF that(1) h] by (auto simp: handles_def)
  qed
  show ?case
    by (simp only: handleTracking.simps, rule triple_pre,
        (rule wp Cons.IH [THEN triple_wp]
          handleComponentBuildReceived_refines [THEN writes_wp])+)
      (use step tracking_tail in \<open>blast\<close>)
qed

lemma handleArtifactBuildReceived_refines:
  "triple ab (\<lambda>c. rsteps env c0 c \<and> keyed c) (handleArtifactBuildReceived env cl abr)
     (\<lambda>_. rsteps env c0)"
  unfolding handleArtifactBuildReceived_def
  by (rule triple_pre,
      (rule wp call_wp handleTracking_refines [THEN triple_wp, of env c0])+)
    (auto intro: list_tracking)

end

section \<open>Task runs and pipeline runs\<close>

lemma mark_step:
  assumes "rsteps env c0 c" and "keyed c" and "taskRuns c k = Some tr" and "trCompletionTime tr \<noteq> None"
    and "IsTrue (trSucceeded tr)" and "gm_get (Labels (metadata tr)) DeployTaskLabel \<noteq> ''''"
    and "artifactBuilds c k' = Some abr" and "dependency_of c abr = Some db"
    and "isl r \<and> m = dependencyBuilds c \<or> updated (dependencyBuilds c) (markDeployed db) m"
  shows "rsteps env c0 (c\<lparr>dependencyBuilds := m\<rparr>) \<and> keyed (c\<lparr>dependencyBuilds := m\<rparr>)"
proof (cases "updated (dependencyBuilds c) (markDeployed db) m")
  case True
  then have "rstep env c (c\<lparr>dependencyBuilds := m\<rparr>)" by (rule mark_deployed [OF assms(3-8)])
  with assms(1,2) show ?thesis by (auto intro: rstep_keyed)
next
  case False
  with assms(9) have "m = dependencyBuilds c" by simp
  with assms(1,2) show ?thesis by simp
qed

lemma notified_step:
  assumes "rsteps env c0 c" and "keyed c" and "pipelineRuns c k = Some pr"
    and "gm_get (Labels (metadata pr)) ''tekton.dev/pipeline'' = ''component-build-notifier''"
    and "prCompletionTime pr \<noteq> None" and "IsTrue (prSucceeded pr)"
    and "componentBuilds c (NamespacedName (obj_ns pr)
          (ownerOfKind ''componentbuild'' ''componentbuilds'' (OwnerReferences (metadata pr)))) = Some cb"
    and "status_updated (componentBuilds c)
          (cb\<lparr>cbStatus := (cbStatus cb)\<lparr>ResultNotified := True\<rparr>\<rparr>) m"
  shows "rsteps env c0 (c\<lparr>componentBuilds := m\<rparr>)"
proof -
  have "obj_key cb = NamespacedName (obj_ns pr)
      (ownerOfKind ''componentbuild'' ''componentbuilds'' (OwnerReferences (metadata pr)))"
    using assms(2,7) by (auto simp: keyed_def)
  then have "notified_by c cb"
    using assms(3-6) unfolding notified_by_def by auto
  then have "allowed_status env c cb ((cbStatus cb)\<lparr>ResultNotified := True\<rparr>)"
    by (simp add: allowed_status_def)
  with assms(7) have "rstep env c (c\<lparr>componentBuilds := m\<rparr>)"
    using assms(8) by (rule new_status)
  with assms(1) show ?thesis by auto
qed

lemma handles_stored:
  assumes "rsteps env c0 c" and "keyed c" and "componentBuilds c k = Some cb"
    and "keyed c \<and> componentBuilds c (obj_key cb) = Some cb \<longrightarrow> handles env (obj_key cb) c c'"
  shows "rsteps env c0 c'"
proof -
  have "obj_key cb = k" using assms(2,3) unfolding keyed_def by blast
  with assms show ?thesis by (auto simp: handles_def)
qed

context api_client
begin

lemma handleTaskRunReceived_refines:
  "triple ab (\<lambda>c. rsteps env c0 c \<and> keyed c \<and> taskRuns c k = Some tr)
     (handleTaskRunReceived env cl tr) (\<lambda>_. rsteps env c0)"
  unfolding handleTaskRunReceived_def
  by (rule triple_pre,
      (rule wp call_wp getDependencyBuild_reads [THEN reads_wp]
        handleArtifactBuildReceived_refines [THEN triple_wp, of env c0])+)
    (auto simp: get_ok_def intro: mark_step [THEN conjunct1] mark_step [THEN conjunct2])

lemma handlePipelineRunReceived_refines:
  "triple ab (\<lambda>c. rsteps env c0 c \<and> keyed c \<and> pipelineRuns c k = Some pr)
     (handlePipelineRunReceived env cl pr) (\<lambda>_. rsteps env c0)"
  unfolding handlePipelineRunReceived_def
  by (rule triple_pre,
      (rule wp call_wp updateStatus_writes [THEN writes_wp]
        handleComponentBuildReceived_refines [THEN writes_wp])+)
    (auto simp: get_ok_def intro: notified_step handles_stored)

end

section \<open>Reconcile\<close>

lemma get_ok_found:
  "get_ok m k r \<Longrightarrow> found r = Inr (Some x) \<Longrightarrow> m k = Some x"
  "get_ok m k r \<Longrightarrow> found r = Inr None \<Longrightarrow> m k = None"
  by (auto simp: get_ok_def found_def split: sum.splits if_splits)

context api_client
begin

theorem Reconcile_refines:
  "triple ab (\<lambda>c. rsteps env c0 c \<and> keyed c) (Reconcile env cl request) (\<lambda>_. rsteps env c0)"
  unfolding Reconcile_def
  by (rule triple_pre,
      (rule wp call_wp handleComponentBuildReceived_refines [THEN writes_wp]
        handleArtifactBuildReceived_refines [THEN triple_wp, of env c0]
        handleTaskRunReceived_refines [THEN triple_wp, of env c0 request]
        handlePipelineRunReceived_refines [THEN triple_wp, of env c0 request])+)
    (auto dest: get_ok_found intro: handles_stored)

lemma Reconcile_rsteps:
  "run_state (Reconcile env cl request) s = (r, s') \<Longrightarrow> keyed (ab s) \<Longrightarrow> rsteps env (ab s) (ab s')"
  using tripleD [OF Reconcile_refines [of env "ab s" request], of s r s'] by simp

end

end
