(* ===== verification/EventSpec.thy ===== *)
theory EventSpec
  imports ReconcileRefinement
begin

text \<open>
  What the event handlers and \<open>Reconcile\<close> do in particular situations: which events they ignore,
  whom they attribute a run to, what a finished run leads to, and which object a request is for.
\<close>

section \<open>Attribution\<close>

lemma EqualFold_ArtifactBuild: "EqualFold ''ArtifactBuild'' ''artifactbuild''"
  by code_simp

lemma EqualFold_ComponentBuild: "EqualFold ''ComponentBuild'' ''componentbuild''"
  by code_simp

text \<open>
  A run the reconciler creates is attributed to the object it was created for, when the scheme
  knows that object's type.
\<close>

lemma deployTaskRun_attributed:
  assumes "GVKForObject ArtifactBuildType (scheme env) = Inr gvk" and "gvkKind gvk = ''ArtifactBuild''"
  shows "ownerOfKind ''artifactbuild'' ''artifactbuilds''
           (OwnerReferences (metadata (deployTaskRun env abr db u ow d))) = obj_name abr"
  using assms
  by (simp add: deployTaskRun_def Let_def SetOwnerReference_def validateOwner_def empty_meta_def
      empty_TaskRun_def EqualFold_ArtifactBuild del: EqualFold.simps)

lemma notifyPipelineRun_attributed:
  assumes "GVKForObject ComponentBuildType (scheme env) = Inr gvk" and "gvkKind gvk = ''ComponentBuild''"
  shows "ownerOfKind ''componentbuild'' ''componentbuilds''
           (OwnerReferences (metadata (notifyPipelineRun env cb msg qty))) = obj_name cb"
  using assms
  by (simp add: notifyPipelineRun_def Let_def SetControllerReference_def validateOwner_def
      empty_meta_def empty_PipelineRun_def EqualFold_ComponentBuild
      del: EqualFold.simps)

lemma ownerOfKind_in:
  "ownerOfKind k1 k2 rs \<noteq> '''' \<Longrightarrow>
     \<exists>r \<in> set rs. OwnerName r = ownerOfKind k1 k2 rs \<and> (EqualFold (Kind r) k1 \<or> EqualFold (Kind r) k2)"
  by (induction rs) auto

section \<open>What is left alone\<close>

context api_client
begin

text \<open>Nothing but the task run handler writes dependency builds.\<close>

lemma create_keeps_dependencies:
  "keeps ab (\<lambda>c. dependencyBuilds c = D) (create_ArtifactBuild cl abr)"
  "keeps ab (\<lambda>c. dependencyBuilds c = D) (create_TaskRun cl tr)"
  "keeps ab (\<lambda>c. dependencyBuilds c = D) (create_PipelineRun cl pr)"
  "keeps ab (\<lambda>c. dependencyBuilds c = D) (update_status_ComponentBuild cl cb)"
  by (rule writes_keeps [OF create_ArtifactBuild_law] writes_keeps [OF create_TaskRun_law]
      writes_keeps [OF create_PipelineRun_law] writes_keeps [OF update_status_law]; auto)+

lemmas handler_keeping =
  keeping read_keeps create_keeps_dependencies getDependencyBuild_reads [THEN reads_keeps]
  artifactState_reads [THEN reads_keeps] notifierMessage_reads [THEN reads_keeps]

lemma artifactLoop_keeps_dependencies:
  "keeps ab (\<lambda>c. dependencyBuilds c = D) (artifactLoop env cl ns u ow d is n m)"
proof (induction "is" arbitrary: n m)
  case Nil
  show ?case by (simp add: keeping)
next
  case (Cons i "is")
  show ?case
    unfolding artifactLoop.simps existingStep_def deployArtifact_def Let_def
    by (rule handler_keeping Cons.IH)+
qed

lemma handleComponentBuildReceived_keeps_dependencies:
  "keeps ab (\<lambda>c. dependencyBuilds c = D) (handleComponentBuildReceived env cl cb)"
  unfolding handleComponentBuildReceived_def deployConfig_def finish_def notifyResult_def
    updateStatus_def Let_def
  by (rule handler_keeping artifactLoop_keeps_dependencies)+

lemma handleTracking_keeps_dependencies:
  "keeps ab (\<lambda>c. dependencyBuilds c = D) (handleTracking env cl gav cbs)"
  by (induction cbs)
    (simp_all only: handleTracking.simps,
      (rule handler_keeping handleComponentBuildReceived_keeps_dependencies | assumption)+)

lemma handleArtifactBuildReceived_keeps_dependencies:
  "keeps ab (\<lambda>c. dependencyBuilds c = D) (handleArtifactBuildReceived env cl abr)"
  unfolding handleArtifactBuildReceived_def
  by (rule handler_keeping handleTracking_keeps_dependencies)+

section \<open>Task runs\<close>

text \<open>Only a finished, labelled and successful run marks a dependency build.\<close>

lemma handleTaskRunReceived_ignores:
  assumes "trCompletionTime tr = None \<or> gm_get (Labels (metadata tr)) DeployTaskLabel = ''''"
  shows "handleTaskRunReceived env cl tr = State_Monad.return (emptyResult, None)"
  using assms by (simp add: handleTaskRunReceived_def)

lemma handleTaskRunReceived_unsuccessful:
  assumes "\<not> IsTrue (trSucceeded tr)"
  shows "keeps ab (\<lambda>c. dependencyBuilds c = D) (handleTaskRunReceived env cl tr)"
  unfolding handleTaskRunReceived_def Let_def if_not_P [OF assms]
  by (rule handler_keeping handleArtifactBuildReceived_keeps_dependencies)+

lemma handleTaskRunReceived_ownerless:
  assumes "ownerOfKind ''artifactbuild'' ''artifactbuilds'' (OwnerReferences (metadata tr)) = ''''"
  shows "keeps ab (\<lambda>c. dependencyBuilds c = D) (handleTaskRunReceived env cl tr)"
  unfolding handleTaskRunReceived_def Let_def if_P [OF assms]
  by (rule handler_keeping)+

lemma handleTaskRunReceived_marks_only:
  assumes "dependencyBuilds (ab (snd (run_state (handleTaskRunReceived env cl tr) s)))
      \<noteq> dependencyBuilds (ab s)"
  shows "trCompletionTime tr \<noteq> None \<and> gm_get (Labels (metadata tr)) DeployTaskLabel \<noteq> ''''
    \<and> IsTrue (trSucceeded tr)
    \<and> ownerOfKind ''artifactbuild'' ''artifactbuilds'' (OwnerReferences (metadata tr)) \<noteq> ''''"
proof -
  have "\<not> keeps ab (\<lambda>c. dependencyBuilds c = dependencyBuilds (ab s)) (handleTaskRunReceived env cl tr)"
    using assms by (auto simp: triple_def prod_eq_iff)
  then have "IsTrue (trSucceeded tr)"
    "ownerOfKind ''artifactbuild'' ''artifactbuilds'' (OwnerReferences (metadata tr)) \<noteq> ''''"
    using handleTaskRunReceived_unsuccessful handleTaskRunReceived_ownerless by blast+
  moreover have "\<not> (trCompletionTime tr = None \<or> gm_get (Labels (metadata tr)) DeployTaskLabel = '''')"
    using assms handleTaskRunReceived_ignores [of tr env] by (metis run_state_return snd_conv)
  ultimately show ?thesis by simp
qed

end

section \<open>Pipeline runs\<close>

definition notify_owner :: "PipelineRun \<Rightarrow> string" where
  "notify_owner pr =
     ownerOfKind ''componentbuild'' ''componentbuilds'' (OwnerReferences (metadata pr))"

text \<open>A finished notification pipeline of a component build.\<close>

definition notification_finished :: "PipelineRun \<Rightarrow> bool" where
  "notification_finished pr \<longleftrightarrow>
     gm_get (Labels (metadata pr)) ''tekton.dev/pipeline'' = ''component-build-notifier''
     \<and> prCompletionTime pr \<noteq> None \<and> notify_owner pr \<noteq> ''''"

lemma ownerOfKind_Nil: "ownerOfKind k1 k2 rs \<noteq> '''' \<Longrightarrow> rs \<noteq> []"
  by auto

context api_client
begin

lemma handlePipelineRunReceived_ignores:
  assumes "gm_get (Labels (metadata pr)) ''tekton.dev/pipeline'' \<noteq> ''component-build-notifier''
      \<or> prCompletionTime pr = None"
  shows "handlePipelineRunReceived env cl pr = State_Monad.return (emptyResult, None)"
  using assms by (auto simp: handlePipelineRunReceived_def)

end

context reliable_client
begin

text \<open>
  After a successful notification the handler has set the flag, or returned an error; after a failed
  one it handles the component build again, which notifies again when the state is still final.
\<close>

lemma handlePipelineRunReceived_exact:
  assumes "notification_finished pr"
  shows "writes ab (handlePipelineRunReceived env cl pr)
     (\<lambda>c r c'. snd r = None \<longrightarrow>
        (\<exists>cb. componentBuilds c (NamespacedName (obj_ns pr) (notify_owner pr)) = Some cb \<and>
           (if IsTrue (prSucceeded pr)
            then \<exists>m. c' = c\<lparr>componentBuilds := m\<rparr> \<and> status_updated (componentBuilds c)
                   (cb\<lparr>cbStatus := (cbStatus cb)\<lparr>ResultNotified := True\<rparr>\<rparr>) m
            else handled env cb c c')))"
  unfolding handlePipelineRunReceived_def
  by (rule writes_from_triple, rule triple_pre,
      (rule wp exact_wp call_wp updateStatus_writes [THEN writes_wp]
        handleComponentBuildReceived_exact [THEN writes_wp])+)
    (use assms in \<open>auto simp: exact_def notification_finished_def notify_owner_def\<close>)

end

section \<open>Requests\<close>

lemma exact_found:
  "exact m k r \<Longrightarrow> found r = Inr (m k)"
  by (auto simp: exact_def found_def split: sum.splits)

context reliable_client
begin

text \<open>
  With reliable reads a request is for the component build of that name, if there is one, whatever
  else has the name; a request for nothing does nothing.
\<close>

lemma Reconcile_exact:
  "writes ab (Reconcile env cl request)
     (\<lambda>c r c'. (\<forall>cb. componentBuilds c request = Some cb \<longrightarrow> snd r = None \<longrightarrow> handled env cb c c')
        \<and> (componentBuilds c request = None \<and> artifactBuilds c request = None
             \<and> taskRuns c request = None \<and> pipelineRuns c request = None
           \<longrightarrow> c' = c \<and> r = (emptyResult, None)))"
proof (rule writes_from_triple)
  fix c0
  have any: "triple ab (\<lambda>_. True) m (\<lambda>_ _. True)" for m :: "('a, 'b) state"
    by (simp add: triple_def)
  show "triple ab (\<lambda>c. c = c0) (Reconcile env cl request)
     (\<lambda>r c. (\<forall>cb. componentBuilds c0 request = Some cb \<longrightarrow> snd r = None \<longrightarrow> handled env cb c0 c)
        \<and> (componentBuilds c0 request = None \<and> artifactBuilds c0 request = None
             \<and> taskRuns c0 request = None \<and> pipelineRuns c0 request = None
           \<longrightarrow> c = c0 \<and> r = (emptyResult, None)))"
    unfolding Reconcile_def
    by (rule triple_pre,
        (rule wp exact_wp handleComponentBuildReceived_exact [THEN writes_wp]
          any [THEN triple_wp])+)
      (auto simp: exact_found)
qed

end

end
