(* ===== verification/Tracker.thy ===== *)
theory Tracker
  imports ClientSpec "HOL-Library.Word"
begin

text \<open>
  The in-memory client the repository's tests run the reconciler against, from the vendored
  \<open>sigs.k8s.io/controller-runtime/pkg/client/fake/client.go\<close> (\<open>versionedTracker\<close>, \<open>fakeClient\<close>)
  and \<open>k8s.io/client-go/testing/fixture.go\<close> (\<open>tracker\<close>). The objects of one resource are a Go map
  from names to objects; the tests' resources are the seven the reconciler uses. The values of the
  random generator and the orders of the iterations over maps are lists the state starts with.
\<close>

section \<open>The objects of one resource\<close>

type_synonym 'a store = "(NamespacedName \<times> 'a kobject_scheme) list"

definition tracker_Get :: "GroupResource \<Rightarrow> 'a store \<Rightarrow> string \<Rightarrow> string \<Rightarrow> api_error + 'a kobject_scheme" where
  "tracker_Get gr objs ns name =
     (case map_of objs (NamespacedName ns name) of
        None \<Rightarrow> Inl (NewNotFound gr name)
      | Some matchingObj \<Rightarrow> Inr matchingObj)"

definition SetNamespace :: "string \<Rightarrow> 'a kobject_scheme \<Rightarrow> 'a kobject_scheme" where
  "SetNamespace ns obj = obj\<lparr>metadata := (metadata obj)\<lparr>Namespace := ns\<rparr>\<rparr>"

definition SetName :: "string \<Rightarrow> 'a kobject_scheme \<Rightarrow> 'a kobject_scheme" where
  "SetName name obj = obj\<lparr>metadata := (metadata obj)\<lparr>Name := name\<rparr>\<rparr>"

definition SetResourceVersion :: "string \<Rightarrow> 'a kobject_scheme \<Rightarrow> 'a kobject_scheme" where
  "SetResourceVersion rv obj = obj\<lparr>metadata := (metadata obj)\<lparr>ResourceVersion := rv\<rparr>\<rparr>"

text \<open>\<open>add\<close>: the answer is an error or the new map.\<close>

definition tracker_add ::
  "GroupResource \<Rightarrow> 'a store \<Rightarrow> 'a kobject_scheme \<Rightarrow> string \<Rightarrow> bool \<Rightarrow> api_error + 'a store" where
  "tracker_add gr objs obj ns replaceExisting =
     (let newMeta = (if length (obj_ns obj) = 0 then SetNamespace ns obj else obj) in
      if ns \<noteq> obj_ns newMeta
      then Inl (NewBadRequest (''request namespace does not match object namespace, request: ''
                  @ quoted ns @ '' object: '' @ quoted (obj_ns newMeta)))
      else
        (let namespacedName = NamespacedName (obj_ns newMeta) (obj_name newMeta) in
         case map_of objs namespacedName of
           Some old \<Rightarrow>
             if replaceExisting then Inr (AList.update namespacedName newMeta objs)
             else Inl (NewAlreadyExists gr (obj_name newMeta))
         | None \<Rightarrow>
             if replaceExisting then Inl (NewNotFound gr (obj_name newMeta))
             else Inr (AList.update namespacedName newMeta objs)))"

definition tracker_Delete :: "GroupResource \<Rightarrow> 'a store \<Rightarrow> string \<Rightarrow> string \<Rightarrow> api_error + 'a store" where
  "tracker_Delete gr objs ns name =
     (case map_of objs (NamespacedName ns name) of
        None \<Rightarrow> Inl (NewNotFound gr name)
      | Some obj \<Rightarrow> Inr (AList.delete (NamespacedName ns name) objs))"

text \<open>
  \<open>filterByNamespace\<close>: the values of the map in the namespace, sorted by namespace and name; then
  the client keeps those the selector matches.
\<close>

definition filterByNamespace :: "'a store \<Rightarrow> string \<Rightarrow> 'a kobject_scheme list" where
  "filterByNamespace objs ns =
     sort_key (\<lambda>x. obj_key x)
       (filter (\<lambda>x. \<not> (ns \<noteq> '''' \<and> obj_ns x \<noteq> ns)) (map snd (AList.clearjunk objs)))"

definition FilterWithLabels :: "Selector \<Rightarrow> 'a kobject_scheme list \<Rightarrow> 'a kobject_scheme list" where
  "FilterWithLabels sel objs = filter (\<lambda>x. SelectorMatches sel (Labels (metadata x))) objs"

section \<open>Versions\<close>

text \<open>\<open>strconv.ParseUint(s, 10, 64)\<close> and \<open>FormatUint\<close>.\<close>

definition ParseUint64 :: "string \<Rightarrow> 64 word option" where
  "ParseUint64 s =
     (if s = '''' then None
      else case parse_digits 0 s of None \<Rightarrow> None
           | Some n \<Rightarrow> if n < 2 ^ 64 then Some (word_of_int n) else None)"

fun format_nat :: "nat \<Rightarrow> string" where
  "format_nat n =
     (if n < 10 then [char_of (48 + n)] else format_nat (n div 10) @ [char_of (48 + n mod 10)])"

definition FormatUint :: "64 word \<Rightarrow> string" where
  "FormatUint w = format_nat (unat w)"

text \<open>Printing and parsing a version are inverse.\<close>

declare format_nat.simps [simp del]

lemma parse_digits_append:
  "parse_digits acc (xs @ ys) = Option.bind (parse_digits acc xs) (\<lambda>a. parse_digits a ys)"
  by (induction acc xs rule: parse_digits.induct) (auto split: option.splits)

lemma digit_value_digit:
  assumes "d < 10"
  shows "digit_value (char_of (48 + d)) = Some (int d)"
proof -
  have "(of_char (char_of (48 + d) :: char) :: nat) = 48 + d" using assms by simp
  then have "(of_char (char_of (48 + d) :: char) :: int) = int (48 + d)"
    by (metis of_nat_of_char)
  then show ?thesis using assms by (simp add: digit_value_def)
qed

lemma parse_format_nat: "parse_digits 0 (format_nat n) = Some (int n)"
proof (induction n rule: format_nat.induct)
  case (1 n)
  show ?case
  proof (cases "n < 10")
    case True
    then show ?thesis by (simp add: format_nat.simps [of n] digit_value_digit)
  next
    case False
    have "10 * int (n div 10) + int (n mod 10) = int n" by presburger
    then show ?thesis
      using False 1 by (simp add: format_nat.simps [of n] parse_digits_append digit_value_digit)
  qed
qed

lemma format_nat_nonempty: "format_nat n \<noteq> ''''"
  by (simp add: format_nat.simps [of n])

lemma ParseUint64_FormatUint: "ParseUint64 (FormatUint w) = Some w"
proof -
  have "unat w < 2 ^ 64" using unsigned_less [of w] by simp
  then have "int (unat w) < 2 ^ 64" by (metis of_nat_less_iff of_nat_numeral of_nat_power)
  then show ?thesis
    by (simp add: ParseUint64_def FormatUint_def parse_format_nat format_nat_nonempty)
qed

definition NameRequired :: api_error where
  "NameRequired = NewInvalid ''metadata.name: Required value: name is required''"

definition versioned_Create ::
  "GroupResource \<Rightarrow> 'a store \<Rightarrow> 'a kobject_scheme \<Rightarrow> api_error + ('a store \<times> 'a kobject_scheme)" where
  "versioned_Create gr objs obj =
     (if obj_name obj = '''' then Inl NameRequired
      else if ResourceVersion (metadata obj) \<noteq> ''''
      then Inl (NewBadRequest ''resourceVersion can not be set for Create requests'')
      else
        (let obj1 = SetResourceVersion ''1'' obj in
         case tracker_add gr objs obj1 (obj_ns obj) False of
           Inl err \<Rightarrow> Inl err
         | Inr objs' \<Rightarrow> Inr (objs', obj1)))"

text \<open>
  The two resources that are updated belong to groups that neither \<open>allowsCreateOnUpdate\<close> nor
  \<open>allowsUnconditionalUpdate\<close> lists.
\<close>

definition versioned_Update ::
  "GroupResource \<Rightarrow> 'a store \<Rightarrow> 'a kobject_scheme \<Rightarrow> api_error + ('a store \<times> 'a kobject_scheme)" where
  "versioned_Update gr objs obj =
     (if obj_name obj = '''' then Inl NameRequired
      else case tracker_Get gr objs (obj_ns obj) (obj_name obj) of
        Inl err \<Rightarrow> Inl err
      | Inr oldObject \<Rightarrow>
          (let oldVersion = ResourceVersion (metadata oldObject) in
           if ResourceVersion (metadata obj) \<noteq> oldVersion
           then Inl (NewConflict gr (obj_name obj) (OtherError ''object was modified''))
           else case ParseUint64 (if oldVersion = '''' then ''0'' else oldVersion) of
             None \<Rightarrow> Inl (OtherError (''can not convert resourceVersion '' @ quoted oldVersion @ '' to int''))
           | Some intResourceVersion \<Rightarrow>
               (let obj1 = SetResourceVersion (FormatUint (intResourceVersion + 1)) obj in
                case (if DeletionTimestamp (metadata obj1) \<noteq> None \<and> Finalizers (metadata obj1) = []
                      then tracker_Delete gr objs (obj_ns obj1) (obj_name obj1)
                      else tracker_add gr objs obj1 (obj_ns obj1) True) of
                  Inl err \<Rightarrow> Inl err
                | Inr objs' \<Rightarrow> Inr (objs', obj1))))"

text \<open>The name the client generates; \<open>random\<close> is the answer of \<open>utilrand.String(5)\<close>.\<close>

definition maxGeneratedNameLength :: nat where
  "maxGeneratedNameLength = 63 - 5"

definition generateName :: "string \<Rightarrow> 'a kobject_scheme \<Rightarrow> 'a kobject_scheme" where
  "generateName random obj =
     (if obj_name obj = '''' \<and> GenerateName (metadata obj) \<noteq> ''''
      then (let base = GenerateName (metadata obj);
                base = (if length base > maxGeneratedNameLength
                        then take maxGeneratedNameLength base else base)
            in SetName (base @ random) obj)
      else obj)"

section \<open>The client\<close>

record tracker =
  artifactBuildObjs :: "(NamespacedName \<times> ArtifactBuild) list"
  componentBuildObjs :: "(NamespacedName \<times> ComponentBuild) list"
  taskRunObjs :: "(NamespacedName \<times> TaskRun) list"
  pipelineRunObjs :: "(NamespacedName \<times> PipelineRun) list"
  configMapObjs :: "(NamespacedName \<times> ConfigMap) list"
  rebuiltArtifactObjs :: "(NamespacedName \<times> RebuiltArtifact) list"
  dependencyBuildObjs :: "(NamespacedName \<times> DependencyBuild) list"
  randomStrings :: "string list"
  rangeOrders :: "nat list"
  events :: "event list"

definition artifactbuilds :: GroupResource where
  "artifactbuilds = GroupResource ''jvmbuildservice.io'' ''artifactbuilds''"
definition componentbuilds :: GroupResource where
  "componentbuilds = GroupResource ''apheleia.io'' ''componentbuilds''"
definition taskruns :: GroupResource where
  "taskruns = GroupResource ''tekton.dev'' ''taskruns''"
definition pipelineruns :: GroupResource where
  "pipelineruns = GroupResource ''tekton.dev'' ''pipelineruns''"
definition configmaps :: GroupResource where
  "configmaps = GroupResource '''' ''configmaps''"
definition rebuiltartifacts :: GroupResource where
  "rebuiltartifacts = GroupResource ''jvmbuildservice.io'' ''rebuiltartifacts''"
definition dependencybuilds :: GroupResource where
  "dependencybuilds = GroupResource ''jvmbuildservice.io'' ''dependencybuilds''"

definition fake_Get ::
  "GroupResource \<Rightarrow> (tracker \<Rightarrow> 'a store) \<Rightarrow> NamespacedName
     \<Rightarrow> (tracker, api_error + 'a kobject_scheme) state" where
  "fake_Get gr objs key = State_Monad.State (\<lambda>t. (tracker_Get gr (objs t) (nnNamespace key) (nnName key), t))"

definition fake_List ::
  "(tracker \<Rightarrow> 'a store) \<Rightarrow> string \<Rightarrow> Selector \<Rightarrow> (tracker, api_error + 'a kobject_scheme list) state" where
  "fake_List objs ns sel =
     State_Monad.State (\<lambda>t. (Inr (FilterWithLabels sel (filterByNamespace (objs t) ns)), t))"

definition nextRandom :: "tracker \<Rightarrow> string \<times> tracker" where
  "nextRandom t =
     (case randomStrings t of [] \<Rightarrow> (''bbbbb'', t) | r # rs \<Rightarrow> (r, t\<lparr>randomStrings := rs\<rparr>))"

text \<open>A random string is drawn only for an object that has a prefix in place of a name.\<close>

definition nameSuffix :: "'a kobject_scheme \<Rightarrow> tracker \<Rightarrow> string \<times> tracker" where
  "nameSuffix obj t =
     (if obj_name obj = '''' \<and> GenerateName (metadata obj) \<noteq> '''' then nextRandom t else ('''', t))"

definition fake_Create ::
  "GroupResource \<Rightarrow> (tracker \<Rightarrow> 'a store) \<Rightarrow> ('a store \<Rightarrow> tracker \<Rightarrow> tracker) \<Rightarrow> 'a kobject_scheme
     \<Rightarrow> (tracker, api_error + 'a kobject_scheme) state" where
  "fake_Create gr objs set_objs obj =
     State_Monad.State (\<lambda>t0.
       (let (random, t) = nameSuffix obj t0 in
        case versioned_Create gr (objs t) (generateName random obj) of
          Inl err \<Rightarrow> (Inl err, t)
        | Inr (objs', obj') \<Rightarrow> (Inr obj', set_objs objs' t)))"

definition fake_Update ::
  "GroupResource \<Rightarrow> (tracker \<Rightarrow> 'a store) \<Rightarrow> ('a store \<Rightarrow> tracker \<Rightarrow> tracker) \<Rightarrow> 'a kobject_scheme
     \<Rightarrow> (tracker, api_error + 'a kobject_scheme) state" where
  "fake_Update gr objs set_objs obj =
     State_Monad.State (\<lambda>t.
       (case versioned_Update gr (objs t) obj of
          Inl err \<Rightarrow> (Inl err, t)
        | Inr (objs', obj') \<Rightarrow> (Inr obj', set_objs objs' t)))"

definition fake_Eventf :: "event \<Rightarrow> (tracker, unit) state" where
  "fake_Eventf ev = State_Monad.State (\<lambda>t. ((), t\<lparr>events := events t @ [ev]\<rparr>))"

definition fake_range :: "(tracker, nat) state" where
  "fake_range =
     State_Monad.State (\<lambda>t. case rangeOrders t of [] \<Rightarrow> (0, t) | n # ns \<Rightarrow> (n, t\<lparr>rangeOrders := ns\<rparr>))"

text \<open>The status writer of the fake client performs a full update.\<close>

definition fake_client :: "tracker client" where
  "fake_client =
     \<lparr>get_ArtifactBuild = fake_Get artifactbuilds artifactBuildObjs,
      get_ComponentBuild = fake_Get componentbuilds componentBuildObjs,
      get_TaskRun = fake_Get taskruns taskRunObjs,
      get_PipelineRun = fake_Get pipelineruns pipelineRunObjs,
      get_ConfigMap = fake_Get configmaps configMapObjs,
      get_RebuiltArtifact = fake_Get rebuiltartifacts rebuiltArtifactObjs,
      get_DependencyBuild = fake_Get dependencybuilds dependencyBuildObjs,
      list_ComponentBuild = (\<lambda>ns. fake_List componentBuildObjs ns NewSelector),
      list_TaskRun = fake_List taskRunObjs,
      list_PipelineRun = fake_List pipelineRunObjs,
      create_ArtifactBuild =
        fake_Create artifactbuilds artifactBuildObjs (\<lambda>m t. t\<lparr>artifactBuildObjs := m\<rparr>),
      create_TaskRun = fake_Create taskruns taskRunObjs (\<lambda>m t. t\<lparr>taskRunObjs := m\<rparr>),
      create_PipelineRun =
        fake_Create pipelineruns pipelineRunObjs (\<lambda>m t. t\<lparr>pipelineRunObjs := m\<rparr>),
      update_DependencyBuild =
        fake_Update dependencybuilds dependencyBuildObjs (\<lambda>m t. t\<lparr>dependencyBuildObjs := m\<rparr>),
      update_status_ComponentBuild =
        fake_Update componentbuilds componentBuildObjs (\<lambda>m t. t\<lparr>componentBuildObjs := m\<rparr>),
      Eventf = fake_Eventf,
      range_choice = fake_range\<rparr>"

definition fake_cluster :: "tracker \<Rightarrow> cluster" where
  "fake_cluster t =
     \<lparr>artifactBuilds = map_of (artifactBuildObjs t), componentBuilds = map_of (componentBuildObjs t),
      taskRuns = map_of (taskRunObjs t), pipelineRuns = map_of (pipelineRunObjs t),
      configMaps = map_of (configMapObjs t), rebuiltArtifacts = map_of (rebuiltArtifactObjs t),
      dependencyBuilds = map_of (dependencyBuildObjs t)\<rparr>"

section \<open>The laws\<close>

lemma tracker_Get_ok: "get_ok (map_of objs) k (tracker_Get gr objs (nnNamespace k) (nnName k))"
  by (auto simp: get_ok_def tracker_Get_def split: option.splits)

lemma tracker_Get_honest:
  "tracker_Get gr objs ns name = Inl err \<Longrightarrow> IsNotFound err"
  by (auto simp: tracker_Get_def split: option.splits)

text \<open>A list shows every matching object once.\<close>

lemma values_map_of:
  assumes "distinct (map fst l)"
  shows "map snd l = map (\<lambda>k. the (map_of l k)) (map fst l)"
  using assms by (auto simp: map_of_is_SomeI)

lemma insort_key_map: "insort_key f (g x) (map g xs) = map g (insort_key (f \<circ> g) x xs)"
  by (induction xs) auto

lemma sort_key_map: "sort_key f (map g xs) = map g (sort_key (f \<circ> g) xs)"
  by (induction xs) (auto simp: insort_key_map comp_def)

lemma tracker_List_ok:
  "list_ok (\<lambda>x. SelectorMatches sel (Labels (metadata x))) ns (map_of objs)
     (Inr (FilterWithLabels sel (filterByNamespace objs ns)))"
proof -
  let ?l = "AList.clearjunk objs"
  let ?g = "\<lambda>k. the (map_of ?l k)"
  let ?inns = "\<lambda>x. \<not> (ns \<noteq> '''' \<and> obj_ns x \<noteq> ns)"
  let ?sel = "\<lambda>x. SelectorMatches sel (Labels (metadata x))"
  let ?ks = "filter (?sel \<circ> ?g) (sort_key ((\<lambda>x. obj_key x) \<circ> ?g) (filter (?inns \<circ> ?g) (map fst ?l)))"
  have vals: "map snd ?l = map ?g (map fst ?l)"
    by (rule values_map_of) (rule distinct_clearjunk)
  have keys: "k \<in> set (map fst ?l) \<longleftrightarrow> map_of objs k \<noteq> None" for k
    by (metis map_of_clearjunk map_of_eq_None_iff list.set_map)
  have "FilterWithLabels sel (filterByNamespace objs ns) = map ?g ?ks"
    unfolding FilterWithLabels_def filterByNamespace_def vals filter_map sort_key_map ..
  moreover have "distinct ?ks" by (simp add: distinct_clearjunk)
  moreover have "set ?ks = selected ?sel ns (map_of objs)"
    unfolding selected_def set_filter set_sort keys map_of_clearjunk by auto
  ultimately show ?thesis
    unfolding list_ok_def sum.case by (intro exI [of _ ?ks]) (simp add: map_of_clearjunk)
qed

lemma tracker_add_new:
  "tracker_add gr objs obj (obj_ns obj) False = Inr objs' \<Longrightarrow>
     map_of objs (obj_key obj) = None \<and> map_of objs' = (map_of objs)(obj_key obj \<mapsto> obj)"
  by (auto simp: tracker_add_def Let_def SetNamespace_def split: if_splits option.splits)

lemma tracker_add_replace:
  "tracker_add gr objs obj (obj_ns obj) True = Inr objs' \<Longrightarrow>
     map_of objs (obj_key obj) \<noteq> None \<and> map_of objs' = (map_of objs)(obj_key obj \<mapsto> obj)"
  by (auto simp: tracker_add_def Let_def SetNamespace_def split: if_splits option.splits)

lemma generateName_accepted:
  "obj_name (generateName random obj) \<noteq> '''' \<Longrightarrow> accepted obj (SetResourceVersion rv (generateName random obj))"
  by (cases "obj_name obj = ''''")
    (auto simp: generateName_def accepted_def SetName_def SetResourceVersion_def Let_def
      intro!: exI [of _ "metadata (SetResourceVersion rv (generateName random obj))"])

lemma versioned_Create_ok:
  assumes "versioned_Create gr objs (generateName random obj) = Inr (objs', obj')"
  shows "created (map_of objs) obj obj' (map_of objs')"
proof -
  let ?x = "SetResourceVersion ''1'' (generateName random obj)"
  have n: "obj_name (generateName random obj) \<noteq> ''''" and obj': "obj' = ?x"
    and add: "tracker_add gr objs ?x (obj_ns ?x) False = Inr objs'"
    using assms
    by (auto simp: versioned_Create_def Let_def SetResourceVersion_def split: if_splits sum.splits)
  show ?thesis
    using tracker_add_new [OF add] generateName_accepted [OF n] by (simp add: created_def obj')
qed

lemma versioned_Update_ok:
  assumes "versioned_Update gr objs obj = Inr (objs', obj')"
  shows "updated (map_of objs) obj (map_of objs')"
proof -
  from assms obtain rv
    where x: "obj' = SetResourceVersion rv obj"
      and r: "(if DeletionTimestamp (metadata obj) \<noteq> None \<and> Finalizers (metadata obj) = []
          then tracker_Delete gr objs (obj_ns obj) (obj_name obj)
          else tracker_add gr objs obj' (obj_ns obj') True) = Inr objs'"
    by (auto simp: versioned_Update_def Let_def SetResourceVersion_def split: if_splits sum.splits option.splits)
  show ?thesis
  proof (cases "DeletionTimestamp (metadata obj) \<noteq> None \<and> Finalizers (metadata obj) = []")
    case True
    with r show ?thesis
      by (auto simp: updated_def tracker_Delete_def delete_conv' fun_upd_def split: option.splits)
  next
    case False
    with r have "tracker_add gr objs obj' (obj_ns obj') True = Inr objs'" by (simp only: if_False)
    from tracker_add_replace [OF this] show ?thesis
      by (auto simp: updated_def x SetResourceVersion_def)
  qed
qed

lemma updated_status_updated:
  assumes "updated m x m'"
  shows "status_updated m x m'"
proof -
  from assms obtain old where "m (obj_key x) = Some old" by (auto simp: updated_def)
  moreover from assms consider
      rv where "m' = m(obj_key x \<mapsto> x\<lparr>metadata := (metadata x)\<lparr>ResourceVersion := rv\<rparr>\<rparr>)"
    | "DeletionTimestamp (metadata x) \<noteq> None" "m' = m(obj_key x := None)"
    unfolding updated_def by blast
  then have "(\<exists>x'. m' = m(obj_key x \<mapsto> x') \<and> obj_key x' = obj_key x \<and> cbStatus x' = cbStatus x
        \<and> (cbSpec x' = cbSpec old \<or> cbSpec x' = cbSpec x))
      \<or> DeletionTimestamp (metadata x) \<noteq> None \<and> m' = m(obj_key x := None)"
  proof cases
    case 1
    then show ?thesis
      by (intro disjI1 exI [of _ "x\<lparr>metadata := (metadata x)\<lparr>ResourceVersion := rv\<rparr>\<rparr>"]) simp
  qed simp
  ultimately show ?thesis by (simp add: status_updated_def)
qed

section \<open>The fake client is a reliable client\<close>

lemma fake_cluster_simps [simp]:
  "artifactBuilds (fake_cluster t) = map_of (artifactBuildObjs t)"
  "componentBuilds (fake_cluster t) = map_of (componentBuildObjs t)"
  "taskRuns (fake_cluster t) = map_of (taskRunObjs t)"
  "pipelineRuns (fake_cluster t) = map_of (pipelineRunObjs t)"
  "configMaps (fake_cluster t) = map_of (configMapObjs t)"
  "rebuiltArtifacts (fake_cluster t) = map_of (rebuiltArtifactObjs t)"
  "dependencyBuilds (fake_cluster t) = map_of (dependencyBuildObjs t)"
  by (simp_all add: fake_cluster_def)

lemma fake_Get_reads:
  "\<forall>t. P (fake_cluster t) (tracker_Get gr (objs t) (nnNamespace k) (nnName k)) \<Longrightarrow>
     reads fake_cluster (fake_Get gr objs k) P"
  by (rule readsI) (auto simp: fake_Get_def)

lemma fake_List_reads:
  "\<forall>t. P (fake_cluster t) (Inr (FilterWithLabels sel (filterByNamespace (objs t) ns))) \<Longrightarrow>
     reads fake_cluster (fake_List objs ns sel) P"
  by (rule readsI) (auto simp: fake_List_def)

lemma nextRandom_cluster [simp]: "fake_cluster (snd (nextRandom t)) = fake_cluster t"
  by (auto simp: nextRandom_def fake_cluster_def split: list.split)

lemma nameSuffix_cluster [simp]: "fake_cluster (snd (nameSuffix obj t)) = fake_cluster t"
  by (simp add: nameSuffix_def)

lemma fake_Create_writes:
  assumes "\<And>t. map_of (objs t) = sel (fake_cluster t)"
    and "\<And>m t. fake_cluster (set_objs m t) = upd (map_of m) (fake_cluster t)"
    and "\<And>c. upd (sel c) c = c"
  shows "writes fake_cluster (fake_Create gr objs set_objs x)
           (\<lambda>c r c'. \<exists>m. c' = upd m c \<and> create_ok (sel c) x r m)"
proof (rule writesI)
  fix t0 r t'
  assume run: "run_state (fake_Create gr objs set_objs x) t0 = (r, t')"
  obtain random t where t: "nameSuffix x t0 = (random, t)" by fastforce
  then have same: "fake_cluster t = fake_cluster t0" using nameSuffix_cluster [of x t0] by simp
  show "\<exists>m. fake_cluster t' = upd m (fake_cluster t0) \<and> create_ok (sel (fake_cluster t0)) x r m"
  proof (cases "versioned_Create gr (objs t) (generateName random x)")
    case (Inl err)
    with run t have "r = Inl err" "t' = t" by (auto simp: fake_Create_def)
    with same show ?thesis
      by (intro exI [of _ "sel (fake_cluster t0)"]) (simp add: assms(3) create_ok_def)
  next
    case (Inr p)
    obtain m x' where p: "p = (m, x')" by fastforce
    with run t Inr have r: "r = Inr x'" "t' = set_objs m t" by (auto simp: fake_Create_def)
    from versioned_Create_ok [OF Inr [unfolded p]]
    have "created (sel (fake_cluster t0)) x x' (map_of m)" by (simp add: assms(1) same)
    then show ?thesis
      by (intro exI [of _ "map_of m"]) (simp add: r assms(2) same create_ok_def)
  qed
qed

lemma fake_Update_writes:
  assumes "\<And>t. map_of (objs t) = sel (fake_cluster t)"
    and "\<And>m t. fake_cluster (set_objs m t) = upd (map_of m) (fake_cluster t)"
    and "\<And>c. upd (sel c) c = c"
  shows "writes fake_cluster (fake_Update gr objs set_objs x)
           (\<lambda>c r c'. \<exists>m. c' = upd m c \<and> (isl r \<and> m = sel c \<or> updated (sel c) x m))"
proof (rule writesI)
  fix t r t'
  assume run: "run_state (fake_Update gr objs set_objs x) t = (r, t')"
  show "\<exists>m. fake_cluster t' = upd m (fake_cluster t)
      \<and> (isl r \<and> m = sel (fake_cluster t) \<or> updated (sel (fake_cluster t)) x m)"
  proof (cases "versioned_Update gr (objs t) x")
    case (Inl err)
    with run have "r = Inl err" "t' = t" by (auto simp: fake_Update_def)
    then show ?thesis by (intro exI [of _ "sel (fake_cluster t)"]) (simp add: assms(3))
  next
    case (Inr p)
    obtain m x' where p: "p = (m, x')" by fastforce
    with run Inr have "t' = set_objs m t" by (auto simp: fake_Update_def)
    with versioned_Update_ok [OF Inr [unfolded p]] show ?thesis
      by (intro exI [of _ "map_of m"]) (simp add: assms)
  qed
qed

lemma set_objs_cluster [simp]:
  "fake_cluster (t\<lparr>artifactBuildObjs := m1\<rparr>) = (fake_cluster t)\<lparr>artifactBuilds := map_of m1\<rparr>"
  "fake_cluster (t\<lparr>componentBuildObjs := m2\<rparr>) = (fake_cluster t)\<lparr>componentBuilds := map_of m2\<rparr>"
  "fake_cluster (t\<lparr>taskRunObjs := m3\<rparr>) = (fake_cluster t)\<lparr>taskRuns := map_of m3\<rparr>"
  "fake_cluster (t\<lparr>pipelineRunObjs := m4\<rparr>) = (fake_cluster t)\<lparr>pipelineRuns := map_of m4\<rparr>"
  "fake_cluster (t\<lparr>dependencyBuildObjs := m5\<rparr>) = (fake_cluster t)\<lparr>dependencyBuilds := map_of m5\<rparr>"
  by (simp_all add: fake_cluster_def)

lemma fake_update_status_writes:
  "writes fake_cluster (update_status_ComponentBuild fake_client cb)
     (\<lambda>c r c'. \<exists>m. c' = c\<lparr>componentBuilds := m\<rparr>
        \<and> (isl r \<and> m = componentBuilds c \<or> status_updated (componentBuilds c) cb m))"
  unfolding fake_client_def client.simps
  by (rule writes_mono [OF fake_Update_writes [where sel = componentBuilds
          and upd = "\<lambda>m. componentBuilds_update (\<lambda>_. m)"]])
    (auto dest: updated_status_updated)

lemma fake_list_sorted:
  "sorted (map (\<lambda>x. obj_key x) (FilterWithLabels sel (filterByNamespace objs ns)))"
  unfolding FilterWithLabels_def filterByNamespace_def by (rule sorted_filter) (rule sorted_sort_key)

lemma tracker_List_all: "list_ok (\<lambda>_. True) ns (map_of objs)
    (Inr (FilterWithLabels NewSelector (filterByNamespace objs ns)))"
  using tracker_List_ok [of NewSelector ns objs] by simp

interpretation fake: reliable_client fake_client fake_cluster
proof unfold_locales
  fix k
  show "reads fake_cluster (get_ArtifactBuild fake_client k) (\<lambda>c. get_ok (artifactBuilds c) k)"
    "reads fake_cluster (get_ComponentBuild fake_client k) (\<lambda>c. get_ok (componentBuilds c) k)"
    "reads fake_cluster (get_TaskRun fake_client k) (\<lambda>c. get_ok (taskRuns c) k)"
    "reads fake_cluster (get_PipelineRun fake_client k) (\<lambda>c. get_ok (pipelineRuns c) k)"
    "reads fake_cluster (get_ConfigMap fake_client k) (\<lambda>c. get_ok (configMaps c) k)"
    "reads fake_cluster (get_RebuiltArtifact fake_client k) (\<lambda>c. get_ok (rebuiltArtifacts c) k)"
    "reads fake_cluster (get_DependencyBuild fake_client k) (\<lambda>c. get_ok (dependencyBuilds c) k)"
    by (simp_all add: fake_client_def fake_Get_reads tracker_Get_ok)
  show "reads fake_cluster (get_ArtifactBuild fake_client k) honest"
    "reads fake_cluster (get_ComponentBuild fake_client k) honest"
    "reads fake_cluster (get_TaskRun fake_client k) honest"
    "reads fake_cluster (get_PipelineRun fake_client k) honest"
    "reads fake_cluster (get_ConfigMap fake_client k) honest"
    "reads fake_cluster (get_RebuiltArtifact fake_client k) honest"
    "reads fake_cluster (get_DependencyBuild fake_client k) honest"
    using tracker_Get_honest by (auto simp: fake_client_def intro!: fake_Get_reads)
next
  fix ns sel
  show "reads fake_cluster (list_ComponentBuild fake_client ns)
      (\<lambda>c. list_ok (\<lambda>_. True) ns (componentBuilds c))"
    "reads fake_cluster (list_TaskRun fake_client ns sel)
      (\<lambda>c. list_ok (\<lambda>x. SelectorMatches sel (Labels (metadata x))) ns (taskRuns c))"
    "reads fake_cluster (list_PipelineRun fake_client ns sel)
      (\<lambda>c. list_ok (\<lambda>x. SelectorMatches sel (Labels (metadata x))) ns (pipelineRuns c))"
    "reads fake_cluster (list_ComponentBuild fake_client ns) (\<lambda>_ r. \<not> isl r)"
    "reads fake_cluster (list_TaskRun fake_client ns sel) (\<lambda>_ r. \<not> isl r)"
    "reads fake_cluster (list_PipelineRun fake_client ns sel) (\<lambda>_ r. \<not> isl r)"
    by (simp_all add: fake_client_def fake_List_reads tracker_List_ok tracker_List_all)
next
  fix abr tr pr
  show "writes fake_cluster (create_ArtifactBuild fake_client abr)
         (\<lambda>c r c'. \<exists>m. c' = c\<lparr>artifactBuilds := m\<rparr> \<and> create_ok (artifactBuilds c) abr r m)"
    "writes fake_cluster (create_TaskRun fake_client tr)
         (\<lambda>c r c'. \<exists>m. c' = c\<lparr>taskRuns := m\<rparr> \<and> create_ok (taskRuns c) tr r m)"
    "writes fake_cluster (create_PipelineRun fake_client pr)
         (\<lambda>c r c'. \<exists>m. c' = c\<lparr>pipelineRuns := m\<rparr> \<and> create_ok (pipelineRuns c) pr r m)"
    by (simp_all add: fake_client_def fake_Create_writes)
next
  fix db cb ev
  show "writes fake_cluster (update_DependencyBuild fake_client db)
         (\<lambda>c r c'. \<exists>m. c' = c\<lparr>dependencyBuilds := m\<rparr>
            \<and> (isl r \<and> m = dependencyBuilds c \<or> updated (dependencyBuilds c) db m))"
    by (simp add: fake_client_def fake_Update_writes)
  show "writes fake_cluster (update_status_ComponentBuild fake_client cb)
         (\<lambda>c r c'. \<exists>m. c' = c\<lparr>componentBuilds := m\<rparr>
            \<and> (isl r \<and> m = componentBuilds c \<or> status_updated (componentBuilds c) cb m))"
    by (rule fake_update_status_writes)
  show "reads fake_cluster (Eventf fake_client ev) (\<lambda>_ _. True)"
    by (rule readsI) (auto simp: fake_client_def fake_Eventf_def fake_cluster_def)
  show "reads fake_cluster (range_choice fake_client) (\<lambda>_ _. True)"
    by (rule readsI) (auto simp: fake_client_def fake_range_def fake_cluster_def split: list.splits)
qed

end
