(* ===== verification/FakeRuns.thy ===== *)
theory FakeRuns
  imports EventSpec Tracker
begin

text \<open>
  The reconciler on the fake client, call by call: which handler a request reaches, what a finished
  deploy task leads to, which events are recorded, and how versions go on.
\<close>

section \<open>Reads\<close>

lemma run_fake_Get [simp]:
  "run_state (fake_Get gr objs k) t = (tracker_Get gr (objs t) (nnNamespace k) (nnName k), t)"
  by (simp add: fake_Get_def)

lemma tracker_Get_cases:
  "tracker_Get gr objs (nnNamespace k) (nnName k) =
     (case map_of objs k of None \<Rightarrow> Inl (NewNotFound gr (nnName k)) | Some x \<Rightarrow> Inr x)"
  by (simp add: tracker_Get_def)

lemma found_tracker_Get [simp]:
  "found (tracker_Get gr objs (nnNamespace k) (nnName k)) = Inr (map_of objs k)"
  by (simp add: tracker_Get_cases found_def split: option.split)

lemma fake_gets [simp]:
  "get_ArtifactBuild fake_client = fake_Get artifactbuilds artifactBuildObjs"
  "get_ComponentBuild fake_client = fake_Get componentbuilds componentBuildObjs"
  "get_TaskRun fake_client = fake_Get taskruns taskRunObjs"
  "get_PipelineRun fake_client = fake_Get pipelineruns pipelineRunObjs"
  "get_RebuiltArtifact fake_client = fake_Get rebuiltartifacts rebuiltArtifactObjs"
  "get_DependencyBuild fake_client = fake_Get dependencybuilds dependencyBuildObjs"
  "Eventf fake_client = fake_Eventf"
  "update_DependencyBuild fake_client =
     fake_Update dependencybuilds dependencyBuildObjs (\<lambda>m t. t\<lparr>dependencyBuildObjs := m\<rparr>)"
  by (simp_all add: fake_client_def)

section \<open>Dispatch\<close>

text \<open>The first kind that has an object of the requested name, in the order of the switch.\<close>

lemma Reconcile_on_fake:
  "run_state (Reconcile env fake_client k) t =
     (case map_of (componentBuildObjs t) k of
        Some cb \<Rightarrow> run_state (handleComponentBuildReceived env fake_client cb) t
      | None \<Rightarrow>
     (case map_of (artifactBuildObjs t) k of
        Some abr \<Rightarrow> run_state (handleArtifactBuildReceived env fake_client abr) t
      | None \<Rightarrow>
     (case map_of (taskRunObjs t) k of
        Some tr \<Rightarrow> run_state (handleTaskRunReceived env fake_client tr) t
      | None \<Rightarrow>
     (case map_of (pipelineRunObjs t) k of
        Some pr \<Rightarrow> run_state (handlePipelineRunReceived env fake_client pr) t
      | None \<Rightarrow> ((emptyResult, None), t)))))"
  by (simp add: Reconcile_def split: option.split)

section \<open>Finding the dependency build\<close>

lemma getDependencyBuild_on_fake:
  "run_state (getDependencyBuild fake_client abr) t = (dependency_of (fake_cluster t) abr, t)"
  by (auto simp: getDependencyBuild_def dependency_of_def tracker_Get_def Let_def split: option.split)

section \<open>Versions\<close>

lemma tracker_add_existing:
  assumes "map_of objs (NamespacedName ns (obj_name obj)) = Some old" and "obj_ns obj = ns"
  shows "tracker_add gr objs obj ns True = Inr (AList.update (NamespacedName ns (obj_name obj)) obj objs)"
proof -
  have "(if length (obj_ns obj) = 0 then SetNamespace ns obj else obj) = obj"
    using assms(2) by (simp add: SetNamespace_def)
  then show ?thesis using assms by (simp add: tracker_add_def Let_def del: length_0_conv)
qed

text \<open>
  An update under the stored version with a numeric value succeeds and moves the version on, modulo
  2^64; one under another version is rejected as a conflict.
\<close>

lemma versioned_Update_current:
  assumes "map_of objs (obj_key old) = Some old" and "obj_name old \<noteq> ''''"
    and "obj_key obj = obj_key old" and "ResourceVersion (metadata obj) = ResourceVersion (metadata old)"
    and "ParseUint64 (ResourceVersion (metadata old)) = Some v" and "DeletionTimestamp (metadata obj) = None"
  shows "versioned_Update gr objs obj =
     Inr (AList.update (obj_key old) (SetResourceVersion (FormatUint (v + 1)) obj) objs,
          SetResourceVersion (FormatUint (v + 1)) obj)"
proof -
  have "ResourceVersion (metadata old) \<noteq> ''''" using assms(5) by (auto simp: ParseUint64_def)
  with assms show ?thesis
    by (simp add: versioned_Update_def tracker_Get_def Let_def SetResourceVersion_def
        tracker_add_existing [where old = old])
qed

lemma versioned_Update_stale:
  assumes "map_of objs (obj_key obj) = Some old" and "obj_name obj \<noteq> ''''"
    and "ResourceVersion (metadata obj) \<noteq> ResourceVersion (metadata old)"
  shows "versioned_Update gr objs obj = Inl (NewConflict gr (obj_name obj) (OtherError ''object was modified''))"
  using assms by (simp add: versioned_Update_def tracker_Get_def Let_def)

section \<open>Marking a dependency build\<close>

definition finished_deploy :: "TaskRun \<Rightarrow> string \<Rightarrow> bool" where
  "finished_deploy tr owner \<longleftrightarrow>
     trCompletionTime tr \<noteq> None \<and> gm_get (Labels (metadata tr)) DeployTaskLabel \<noteq> ''''
     \<and> OwnerReferences (metadata tr) \<noteq> [] \<and> owner \<noteq> ''''
     \<and> ownerOfKind ''artifactbuild'' ''artifactbuilds'' (OwnerReferences (metadata tr)) = owner"

lemma markDeployed_version [simp]:
  "ResourceVersion (metadata (markDeployed db)) = ResourceVersion (metadata db)"
  by (simp add: markDeployed_def Let_def)

lemma handleTaskRunReceived_marks:
  assumes "finished_deploy tr owner" and "IsTrue (trSucceeded tr)"
    and "map_of (artifactBuildObjs t) (NamespacedName (obj_ns tr) owner) = Some abr"
    and "dependency_of (fake_cluster t) abr = Some db"
    and "map_of (dependencyBuildObjs t) (obj_key db) = Some db" and "obj_name db \<noteq> ''''"
    and "ParseUint64 (ResourceVersion (metadata db)) = Some v" and "DeletionTimestamp (metadata db) = None"
  shows "map_of (dependencyBuildObjs (snd (run_state (handleTaskRunReceived env fake_client tr) t)))
           = (map_of (dependencyBuildObjs t))
               (obj_key db \<mapsto> SetResourceVersion (FormatUint (v + 1)) (markDeployed db))"
proof -
  let ?db = "SetResourceVersion (FormatUint (v + 1)) (markDeployed db)"
  let ?t = "t\<lparr>dependencyBuildObjs := AList.update (obj_key db) ?db (dependencyBuildObjs t)\<rparr>"
  have upd: "run_state (fake_Update dependencybuilds dependencyBuildObjs
      (\<lambda>m t. t\<lparr>dependencyBuildObjs := m\<rparr>) (markDeployed db)) t = (Inr ?db, ?t)"
    using versioned_Update_current [of "dependencyBuildObjs t" db "markDeployed db" v dependencybuilds]
      assms(5-8) by (simp add: fake_Update_def)
  have run: "run_state (handleTaskRunReceived env fake_client tr) t
      = run_state (handleArtifactBuildReceived env fake_client abr) ?t"
    using assms(1-4) upd
    by (auto simp: handleTaskRunReceived_def finished_deploy_def Let_def tracker_Get_def
        getDependencyBuild_on_fake)
  have "dependencyBuilds (fake_cluster (snd (run_state (handleArtifactBuildReceived env fake_client abr) ?t)))
      = dependencyBuilds (fake_cluster ?t)"
    using api_client.handleArtifactBuildReceived_keeps_dependencies [OF fake.api_client_axioms,
        of "dependencyBuilds (fake_cluster ?t)" env abr]
    by (auto simp: triple_def)
  then show ?thesis by (simp add: run)
qed

section \<open>Recorded events\<close>

text \<open>
  The call that reports a run without owners passes its message where the reason belongs, so the
  namespace becomes the format of the message.
\<close>

lemma handleTaskRunReceived_no_owner:
  assumes "trCompletionTime tr \<noteq> None" and "gm_get (Labels (metadata tr)) DeployTaskLabel \<noteq> ''''"
    and "OwnerReferences (metadata tr) = []"
  shows "run_state (handleTaskRunReceived env fake_client tr) t =
     ((emptyResult, None),
      t\<lparr>events := events t @ [warning ''TaskRun'' (obj_key tr) ''taskrun missing onwerrefs %s:%s''
                                (obj_ns tr) [obj_name tr]]\<rparr>)"
  using assms by (auto simp: handleTaskRunReceived_def fake_Eventf_def)

end
