(* ===== verification/FakeTotal.thy ===== *)
theory FakeTotal
  imports FakeRuns "HOL-Library.Sublist"
begin

text \<open>
  Total correctness of the handler for a component build on the fake client: with enough unused names
  and well-formed input no call fails, so the handler returns no error and has the effect its
  specification gives. The other theories state what a call that returns no error has done; here it
  is shown that it returns none.
\<close>

section \<open>From clusters to trackers\<close>

lemma triple_concrete: "triple ab P m Q \<Longrightarrow> triple (\<lambda>s. s) (\<lambda>s. P (ab s)) m (\<lambda>r s. Q r (ab s))"
  by (simp add: triple_def)

lemma writes_concrete: "writes ab m \<Psi> \<Longrightarrow> writes (\<lambda>s. s) m (\<lambda>s r s'. \<Psi> (ab s) r (ab s'))"
  by (simp add: writes_def)

lemma reads_run: "(\<And>s. run_state m s = (f s, s)) \<Longrightarrow> reads (\<lambda>s. s) m (\<lambda>s r. r = f s)"
  by (simp add: reads_def)

section \<open>Unused names\<close>

text \<open>
  The client makes a name from a prefix and a random string of five characters. The strings to come
  are unused when they differ from each other and no run has a name that ends with one of them.
\<close>

definition fresh_names :: "tracker \<Rightarrow> bool" where
  "fresh_names t \<longleftrightarrow> distinct (randomStrings t) \<and>
     (\<forall>r \<in> set (randomStrings t). length r = 5
        \<and> (\<forall>k \<in> fst ` set (taskRunObjs t) \<union> fst ` set (pipelineRunObjs t). \<not> suffix r (nnName k)))"

definition spare :: "nat \<Rightarrow> tracker \<Rightarrow> bool" where
  "spare n t \<longleftrightarrow> fresh_names t \<and> n \<le> length (randomStrings t)"

lemma spare_mono: "spare n t \<Longrightarrow> m \<le> n \<Longrightarrow> spare m t"
  by (simp add: spare_def)

lemma spare_frame [simp]:
  "spare n (t\<lparr>artifactBuildObjs := m1\<rparr>) = spare n t"
  "spare n (t\<lparr>componentBuildObjs := m2\<rparr>) = spare n t"
  "spare n (t\<lparr>rangeOrders := m3\<rparr>) = spare n t"
  by (simp_all add: spare_def fresh_names_def)

lemma suffix_same_length: "suffix r (xs @ s) \<Longrightarrow> length r = length s \<Longrightarrow> r = s"
  by (auto simp: suffix_def)

lemma fst_set_update: "fst ` set (AList.update k v l) = insert k (fst ` set l)"
  by (induction l) auto

text \<open>The generated name ends with the string drawn, so it is not in use.\<close>

lemma generateName_name:
  assumes "obj_name x = ''''" and "GenerateName (metadata x) \<noteq> ''''"
  shows "\<exists>base. obj_name (generateName r x) = base @ r"
    "obj_ns (generateName r x) = obj_ns x"
    "ResourceVersion (metadata (generateName r x)) = ResourceVersion (metadata x)"
  using assms by (auto simp: generateName_def SetName_def Let_def)

text \<open>The object the client stores for one with a prefix in place of a name.\<close>

definition named :: "string \<Rightarrow> 'a kobject_scheme \<Rightarrow> 'a kobject_scheme" where
  "named r x = SetResourceVersion ''1'' (generateName r x)"

lemma spare_Suc: "spare (Suc n) t \<Longrightarrow> \<exists>r rs. randomStrings t = r # rs \<and> r \<noteq> ''''"
  by (cases "randomStrings t") (auto simp: spare_def fresh_names_def)

lemma tracker_add_absent:
  assumes "map_of objs (obj_key x) = None"
  shows "tracker_add gr objs x (obj_ns x) False = Inr (AList.update (obj_key x) x objs)"
proof -
  have "(if length (obj_ns x) = 0 then SetNamespace (obj_ns x) x else x) = x"
    by (simp add: SetNamespace_def)
  then show ?thesis using assms by (simp add: tracker_add_def Let_def del: length_0_conv)
qed

lemma obj_key_SetResourceVersion [simp]:
  "obj_name (SetResourceVersion rv x) = obj_name x" "obj_ns (SetResourceVersion rv x) = obj_ns x"
  by (simp_all add: SetResourceVersion_def)

lemma versioned_Create_absent:
  assumes "obj_name x \<noteq> ''''" and "ResourceVersion (metadata x) = ''''" and "map_of objs (obj_key x) = None"
  shows "versioned_Create gr objs x =
     Inr (AList.update (obj_key x) (SetResourceVersion ''1'' x) objs, SetResourceVersion ''1'' x)"
  using assms tracker_add_absent [of objs "SetResourceVersion ''1'' x" gr]
  by (simp add: versioned_Create_def Let_def)

lemma fresh_key:
  assumes "spare (Suc n) t" and "randomStrings t = r # rs"
    and "obj_name x = ''''" and "GenerateName (metadata x) \<noteq> ''''"
  shows "map_of (taskRunObjs t) (obj_key (named r x)) = None"
    "map_of (pipelineRunObjs t) (obj_key (named r x)) = None"
    "obj_name (generateName r x) \<noteq> ''''"
proof -
  from generateName_name(1) [OF assms(3,4)] obtain base where b: "obj_name (generateName r x) = base @ r"
    by blast
  have "r \<noteq> ''''" using assms(1,2) by (auto simp: spare_def fresh_names_def)
  with b show "obj_name (generateName r x) \<noteq> ''''" by simp
  have "\<forall>k \<in> fst ` set (taskRunObjs t) \<union> fst ` set (pipelineRunObjs t). \<not> suffix r (nnName k)"
    using assms(1,2) by (simp add: spare_def fresh_names_def)
  moreover have "suffix r (nnName (obj_key (named r x)))" by (simp add: named_def b suffix_def)
  ultimately show "map_of (taskRunObjs t) (obj_key (named r x)) = None"
    "map_of (pipelineRunObjs t) (obj_key (named r x)) = None"
    unfolding map_of_eq_None_iff by blast+
qed

lemma spare_after:
  assumes "spare (Suc n) t" and "randomStrings t = r # rs"
    and "obj_name x = ''''" and "GenerateName (metadata x) \<noteq> ''''"
  shows "spare n (t\<lparr>randomStrings := rs, taskRunObjs := AList.update (obj_key (named r x)) y (taskRunObjs t)\<rparr>)"
proof -
  from generateName_name(1) [OF assms(3,4)] obtain base where b: "obj_name (generateName r x) = base @ r"
    by blast
  have f: "distinct (r # rs)" "\<forall>s \<in> set (r # rs). length s = 5"
    using assms(1,2) by (simp_all add: spare_def fresh_names_def)
  have "\<not> suffix s (nnName (obj_key (named r x)))" if "s \<in> set rs" for s
    using suffix_same_length [of s base r] that f by (auto simp: named_def b)
  with assms(1,2) show ?thesis
    by (auto simp: spare_def fresh_names_def fst_set_update)
qed


section \<open>Single calls\<close>

lemma created_named:
  "obj_name (named r x) = obj_name (generateName r x)"
  "obj_ns (named r x) = obj_ns (generateName r x)"
  by (simp_all add: named_def)

lemma fake_Create_generated:
  assumes "randomStrings t = r # rs" and "obj_name x = ''''" and "GenerateName (metadata x) \<noteq> ''''"
    and "ResourceVersion (metadata x) = ''''" and "obj_name (generateName r x) \<noteq> ''''"
    and "objs (t\<lparr>randomStrings := rs\<rparr>) = objs t" and "map_of (objs t) (obj_key (named r x)) = None"
  shows "run_state (fake_Create gr objs set_objs x) t =
     (Inr (named r x),
      set_objs (AList.update (obj_key (named r x)) (named r x) (objs t)) (t\<lparr>randomStrings := rs\<rparr>))"
proof -
  have "versioned_Create gr (objs t) (generateName r x) =
      Inr (AList.update (obj_key (named r x)) (named r x) (objs t), named r x)"
    using versioned_Create_absent [of "generateName r x" "objs t" gr] assms
      generateName_name(3) [OF assms(2,3)]
    by (simp add: named_def)
  then show ?thesis using assms by (simp add: fake_Create_def nameSuffix_def nextRandom_def)
qed

lemma fake_Create_with_name:
  assumes "obj_name x \<noteq> ''''" and "ResourceVersion (metadata x) = ''''"
    and "map_of (objs t) (obj_key x) = None"
  shows "run_state (fake_Create gr objs set_objs x) t =
     (Inr (SetResourceVersion ''1'' x),
      set_objs (AList.update (obj_key x) (SetResourceVersion ''1'' x) (objs t)) t)"
  using versioned_Create_absent [OF assms] assms(1)
  by (simp add: fake_Create_def nameSuffix_def generateName_def)

lemma fake_creates [simp]:
  "create_ArtifactBuild fake_client =
     fake_Create artifactbuilds artifactBuildObjs (\<lambda>m t. t\<lparr>artifactBuildObjs := m\<rparr>)"
  "create_TaskRun fake_client = fake_Create taskruns taskRunObjs (\<lambda>m t. t\<lparr>taskRunObjs := m\<rparr>)"
  "create_PipelineRun fake_client =
     fake_Create pipelineruns pipelineRunObjs (\<lambda>m t. t\<lparr>pipelineRunObjs := m\<rparr>)"
  "list_TaskRun fake_client = fake_List taskRunObjs"
  "list_PipelineRun fake_client = fake_List pipelineRunObjs"
  "update_status_ComponentBuild fake_client =
     fake_Update componentbuilds componentBuildObjs (\<lambda>m t. t\<lparr>componentBuildObjs := m\<rparr>)"
  "range_choice fake_client = fake_range"
  by (simp_all add: fake_client_def)

lemma run_fake_List [simp]:
  "run_state (fake_List objs ns sel) t = (Inr (FilterWithLabels sel (filterByNamespace (objs t) ns)), t)"
  by (simp add: fake_List_def)

lemma artifactState_on_fake:
  "run_state (artifactState fake_client abr) t = (state_of (fake_cluster t) abr, t)"
  by (auto simp: artifactState_def getDependencyBuild_on_fake state_of_def is_deployed_def Let_def
      split: option.split)

section \<open>What the handler adds\<close>

text \<open>
  Until the notification the handler only adds artifact builds and task runs; \<open>grows\<close> is the
  extension of a tracker it makes.
\<close>

definition grows :: "tracker \<Rightarrow> tracker \<Rightarrow> bool" where
  "grows t t' \<longleftrightarrow>
     componentBuildObjs t' = componentBuildObjs t \<and> pipelineRunObjs t' = pipelineRunObjs t
     \<and> configMapObjs t' = configMapObjs t \<and> rebuiltArtifactObjs t' = rebuiltArtifactObjs t
     \<and> dependencyBuildObjs t' = dependencyBuildObjs t
     \<and> map_le (map_of (artifactBuildObjs t)) (map_of (artifactBuildObjs t'))
     \<and> map_le (map_of (taskRunObjs t)) (map_of (taskRunObjs t'))"

lemma grows_refl [simp]: "grows t t"
  by (simp add: grows_def)

lemma grows_trans: "grows t t' \<Longrightarrow> grows t' t'' \<Longrightarrow> grows t t''"
  unfolding grows_def by (metis map_le_trans)

lemma map_le_new: "m k = None \<Longrightarrow> map_le m (m(k \<mapsto> x))"
  by (auto simp: map_le_def dom_def)

text \<open>No deploy task is due for an artifact; that stays so while the tracker grows.\<close>

definition deploy_settled :: "cluster \<Rightarrow> ArtifactBuild \<Rightarrow> bool" where
  "deploy_settled c abr \<longleftrightarrow> (\<forall>db. \<not> deploy_due c abr db)"

lemma dependency_of_grows:
  "grows t t' \<Longrightarrow> dependency_of (fake_cluster t') abr = dependency_of (fake_cluster t) abr"
  by (simp add: grows_def dependency_of_def Let_def split: option.split)

lemma selected_map_le: "map_le m m' \<Longrightarrow> selected p ns m \<subseteq> selected p ns m'"
  by (force simp: selected_def map_le_def dom_def)

lemma deploy_settled_grows:
  assumes "grows t t'" and "deploy_settled (fake_cluster t) abr"
  shows "deploy_settled (fake_cluster t') abr"
proof -
  have "selected p ns (map_of (taskRunObjs t)) \<subseteq> selected p ns (map_of (taskRunObjs t'))" for p ns
    using assms(1) by (intro selected_map_le) (simp add: grows_def)
  then have "deploy_due (fake_cluster t') abr db \<Longrightarrow> deploy_due (fake_cluster t) abr db" for db
    unfolding deploy_due_def dependency_of_grows [OF assms(1)] fake_cluster_simps by blast
  with assms(2) show ?thesis unfolding deploy_settled_def by blast
qed

lemma dependency_of_frame [simp]:
  "dependency_of (c\<lparr>taskRuns := m\<rparr>) = dependency_of c"
  "dependency_of (c\<lparr>artifactBuilds := m1\<rparr>) = dependency_of c"
  "dependency_of (c\<lparr>pipelineRuns := m2\<rparr>) = dependency_of c"
  "dependency_of (c\<lparr>componentBuilds := m3\<rparr>) = dependency_of c"
  by (simp_all add: dependency_of_def fun_eq_iff Let_def split: option.split)

lemma deploy_settled_created:
  assumes "created (taskRuns c) (deployTaskRun env abr db u ow d) x m" and "dependency_of c abr = Some db"
  shows "deploy_settled (c\<lparr>taskRuns := m\<rparr>) abr"
proof -
  have x: "obj_ns x = obj_ns abr" "gm_lookup (Labels (metadata x)) DeployTaskLabel = Some (obj_name db)"
    "trConditions x = []" "m (obj_key x) = Some x"
    using assms(1) by (auto simp: created_def accepted_def)
  then have "obj_key x \<in> selected (\<lambda>x. gm_lookup (Labels (metadata x)) DeployTaskLabel = Some (obj_name db)
      \<and> IsUnknown (trSucceeded x)) (obj_ns abr) m"
    by (auto simp: selected_def)
  with assms(2) show ?thesis by (auto simp: deploy_settled_def deploy_due_def)
qed


section \<open>The walk over the artifacts\<close>

text \<open>\<open>deployArtifact\<close> succeeds and leaves no deploy task due.\<close>

lemma deployTaskRun_version [simp]: "ResourceVersion (metadata (deployTaskRun env abr db u ow d)) = ''''"
  by (auto simp: deployTaskRun_def Let_def empty_TaskRun_def empty_meta_def
      dest!: SetOwnerReference_meta split: sum.split)

lemma create_deploy_works:
  assumes "spare (Suc n) t"
  shows "\<exists>x t'. run_state (create_TaskRun fake_client (deployTaskRun env abr db u ow d)) t = (Inr x, t')
     \<and> grows t t' \<and> spare n t'"
proof -
  let ?x = "deployTaskRun env abr db u ow d"
  from spare_Suc [OF assms] obtain r rs where r: "randomStrings t = r # rs" by blast
  have n: "obj_name ?x = ''''" "GenerateName (metadata ?x) \<noteq> ''''" by simp_all
  note f = fresh_key [OF assms r n]
  let ?t = "t\<lparr>randomStrings := rs, taskRunObjs := AList.update (obj_key (named r ?x)) (named r ?x) (taskRunObjs t)\<rparr>"
  have "run_state (create_TaskRun fake_client ?x) t = (Inr (named r ?x), ?t)"
    using fake_Create_generated [where objs = taskRunObjs, OF r n _ f(3) _ f(1)] by simp
  moreover have "grows t ?t" using f(1) by (simp add: grows_def map_le_new)
  moreover have "spare n ?t" using spare_after [OF assms r n] .
  ultimately show ?thesis by blast
qed

lemma deployArtifact_works:
  assumes "spare (Suc n) t"
  shows "\<exists>t'. run_state (deployArtifact env fake_client abr u ow d) t = (None, t')
     \<and> grows t t' \<and> spare n t' \<and> deploy_settled (fake_cluster t') abr"
proof -
  let ?m = "deployArtifact env fake_client abr u ow d"
  have spare: "spare n t" using spare_mono [OF assms, of n] by simp
  have ex: "if \<exists>db. deploy_due (fake_cluster t) abr db
        then \<exists>db m r'. deploy_due (fake_cluster t) abr db \<and> fake_cluster t' = (fake_cluster t)\<lparr>taskRuns := m\<rparr>
               \<and> create_ok (taskRuns (fake_cluster t)) (deployTaskRun env abr db u ow d) r' m
               \<and> r = (case r' of Inl e \<Rightarrow> Some e | Inr _ \<Rightarrow> None)
        else fake_cluster t' = fake_cluster t \<and> r = None"
    if "run_state ?m t = (r, t')" for r t'
    using reliable_client.deployArtifact_exact [OF fake.reliable_client_axioms, unfolded writes_def] that
    by blast
  have "(\<exists>t'. run_state ?m t = (None, t') \<and> grows t t' \<and> spare n t')"
  proof (cases "dependency_of (fake_cluster t) abr")
    case None
    with spare show ?thesis by (simp add: deployArtifact_def getDependencyBuild_on_fake)
  next
    case (Some db)
    from create_deploy_works [OF assms, of env abr db u ow d] obtain x t1 where
      "run_state (create_TaskRun fake_client (deployTaskRun env abr db u ow d)) t = (Inr x, t1)"
      "grows t t1 \<and> spare n t1" by blast
    with Some spare show ?thesis by (auto simp: deployArtifact_def getDependencyBuild_on_fake)
  qed
  then obtain t' where t': "run_state ?m t = (None, t')" "grows t t'" "spare n t'" by blast
  have "deploy_settled (fake_cluster t') abr"
  proof (cases "\<exists>db. deploy_due (fake_cluster t) abr db")
    case True
    with ex [OF t'(1)] obtain db m x where "dependency_of (fake_cluster t) abr = Some db"
      "fake_cluster t' = (fake_cluster t)\<lparr>taskRuns := m\<rparr>"
      "created (taskRuns (fake_cluster t)) (deployTaskRun env abr db u ow d) x m"
      by (auto simp: deploy_due_def create_ok_def split: sum.splits)
    then show ?thesis using deploy_settled_created by metis
  next
    case False
    with ex [OF t'(1)] show ?thesis by (simp add: deploy_settled_def)
  qed
  with t' show ?thesis by blast
qed

text \<open>An artifact is served when it has an artifact build, and no deploy task is due if that is built.\<close>

definition served :: "env \<Rightarrow> string \<Rightarrow> cluster \<Rightarrow> string \<Rightarrow> bool" where
  "served env ns c i \<longleftrightarrow>
     (\<exists>abr. artifactBuilds c (artifact_key env ns i) = Some abr
        \<and> (abState abr = ArtifactBuildStateComplete \<longrightarrow> deploy_settled c abr))"

lemma served_frame [simp]:
  "served env ns (c\<lparr>pipelineRuns := prs\<rparr>) i = served env ns c i"
  "served env ns (c\<lparr>componentBuilds := cbs\<rparr>) i = served env ns c i"
  by (simp_all add: served_def deploy_settled_def deploy_due_def)

lemma served_grows: "grows t t' \<Longrightarrow> served env ns (fake_cluster t) i \<Longrightarrow> served env ns (fake_cluster t') i"
proof -
  assume g: "grows t t'" and "served env ns (fake_cluster t) i"
  then obtain abr where a: "map_of (artifactBuildObjs t) (artifact_key env ns i) = Some abr"
    "abState abr = ArtifactBuildStateComplete \<longrightarrow> deploy_settled (fake_cluster t) abr"
    by (auto simp: served_def)
  have "map_of (artifactBuildObjs t') (artifact_key env ns i) = Some abr"
    using g a(1) by (auto simp: grows_def map_le_def dom_def)
  with a(2) deploy_settled_grows [OF g] show ?thesis by (auto simp: served_def)
qed

lemma deployed_settled:
  "state_of (fake_cluster t) abr = st \<Longrightarrow> Deployed st \<Longrightarrow> deploy_settled (fake_cluster t) abr"
  by (auto simp: deploy_settled_def deploy_due_def is_deployed_def state_of_def split: option.splits)

lemma existingStep_works:
  assumes "spare (Suc n) t"
  shows "\<exists>o' m' t'. run_state (existingStep env fake_client u ow d i abr ou m) t = ((o', m'), t')
     \<and> grows t t' \<and> spare n t'
     \<and> (abState abr = ArtifactBuildStateComplete \<longrightarrow> deploy_settled (fake_cluster t') abr)"
proof (cases "Built (state_of (fake_cluster t) abr) \<and> \<not> Deployed (state_of (fake_cluster t) abr)")
  case True
  from deployArtifact_works [OF assms, of env abr u ow d] obtain t' where
    "run_state (deployArtifact env fake_client abr u ow d) t = (None, t')"
    "grows t t' \<and> spare n t' \<and> deploy_settled (fake_cluster t') abr" by blast
  with True show ?thesis by (simp add: existingStep_def artifactState_on_fake Let_def)
next
  case False
  have "spare n t" using spare_mono [OF assms, of n] by simp
  moreover have "abState abr = ArtifactBuildStateComplete \<longrightarrow> deploy_settled (fake_cluster t) abr"
    using False deployed_settled [OF refl] by auto
  ultimately show ?thesis using False by (auto simp: existingStep_def artifactState_on_fake Let_def)
qed


lemma newArtifactBuild_fields [simp]:
  "obj_name (newArtifactBuild env ns i) = CreateABRName env i" "obj_ns (newArtifactBuild env ns i) = ns"
  "ResourceVersion (metadata (newArtifactBuild env ns i)) = ''''" "abState (newArtifactBuild env ns i) = ''''"
  by (simp_all add: newArtifactBuild_def empty_ArtifactBuild_def empty_meta_def)

lemma abState_SetResourceVersion [simp]: "abState (SetResourceVersion rv abr) = abState abr"
  by (simp add: SetResourceVersion_def)

lemma create_artifactBuild_works:
  assumes "CreateABRName env i \<noteq> ''''" and "map_of (artifactBuildObjs t) (artifact_key env ns i) = None"
  shows "\<exists>x t'. run_state (create_ArtifactBuild fake_client (newArtifactBuild env ns i)) t = (Inr x, t')
     \<and> grows t t' \<and> (\<forall>n. spare n t \<longrightarrow> spare n t') \<and> served env ns (fake_cluster t') i"
proof -
  let ?x = "newArtifactBuild env ns i"
  let ?x1 = "SetResourceVersion ''1'' ?x"
  let ?t = "t\<lparr>artifactBuildObjs := AList.update (obj_key ?x) ?x1 (artifactBuildObjs t)\<rparr>"
  have "run_state (create_ArtifactBuild fake_client ?x) t = (Inr ?x1, ?t)"
    using fake_Create_with_name [of ?x artifactBuildObjs t] assms by (simp add: artifact_key_def)
  moreover have "grows t ?t" using assms(2) by (simp add: grows_def map_le_new artifact_key_def)
  moreover have "served env ns (fake_cluster ?t) i"
    by (simp add: served_def artifact_key_def ArtifactBuildStateComplete_def)
  ultimately show ?thesis by simp
qed

lemma artifactLoop_works:
  assumes "spare (length is + n) t" and "\<forall>i \<in> set is. CreateABRName env i \<noteq> ''''"
  shows "\<exists>o' m' t'. run_state (artifactLoop env fake_client ns u ow d is ou m) t = (Inr (o', m'), t')
     \<and> grows t t' \<and> spare n t' \<and> (\<forall>i \<in> set is. served env ns (fake_cluster t') i)"
  using assms
proof (induction "is" arbitrary: t ou m)
  case Nil
  then show ?case by simp
next
  case (Cons i "is")
  have step: "\<exists>o' m' t'. run_state (artifactLoop env fake_client ns u ow d is o1 m1) t1 = (Inr (o', m'), t')
      \<and> grows t t' \<and> spare n t' \<and> (\<forall>j \<in> set (i # is). served env ns (fake_cluster t') j)"
    if "grows t t1" and "spare (length is + n) t1" and "served env ns (fake_cluster t1) i" for t1 o1 m1
  proof -
    from Cons.IH [OF that(2), of o1 m1] Cons.prems(2) obtain o' m' t' where
      "run_state (artifactLoop env fake_client ns u ow d is o1 m1) t1 = (Inr (o', m'), t')"
      "grows t1 t'" "spare n t'" "\<forall>j \<in> set is. served env ns (fake_cluster t') j" by auto
    then show ?thesis using grows_trans [OF that(1)] served_grows [OF _ that(3)] by auto
  qed
  have spare: "spare (Suc (length is + n)) t" using Cons.prems(1) by simp
  show ?case
  proof (cases "map_of (artifactBuildObjs t) (artifact_key env ns i)")
    case None
    have "CreateABRName env i \<noteq> ''''" using Cons.prems(2) by simp
    from create_artifactBuild_works [OF this None] obtain x t1 where t1:
      "run_state (create_ArtifactBuild fake_client (newArtifactBuild env ns i)) t = (Inr x, t1)"
      "grows t t1" "\<forall>n. spare n t \<longrightarrow> spare n t1" "served env ns (fake_cluster t1) i" by blast
    have "spare (length is + n) t1" using t1(3) spare_mono [OF spare] by simp
    from step [OF t1(2) this t1(4)] show ?thesis
      using t1(1) None by (simp add: tracker_Get_def artifactState_on_fake artifact_key_def)
  next
    case (Some abr)
    from existingStep_works [OF spare, of env u ow d i abr ou m] obtain o1 m1 t1 where t1:
      "run_state (existingStep env fake_client u ow d i abr ou m) t = ((o1, m1), t1)"
      "grows t t1" "spare (length is + n) t1"
      "abState abr = ArtifactBuildStateComplete \<longrightarrow> deploy_settled (fake_cluster t1) abr" by blast
    have "map_of (artifactBuildObjs t1) (artifact_key env ns i) = Some abr"
      using t1(2) Some by (auto simp: grows_def map_le_def dom_def)
    then have "served env ns (fake_cluster t1) i" using t1(4) by (simp add: served_def)
    from step [OF t1(2,3) this] show ?thesis
      using t1(1) Some by (simp add: tracker_Get_def artifact_key_def)
  qed
qed


section \<open>The notification\<close>

lemma notifyPipelineRun_start [simp]:
  "ResourceVersion (metadata (notifyPipelineRun env cb msg qty)) = ''''"
  "GenerateName (metadata (notifyPipelineRun env cb msg qty)) = obj_name cb @ ''-notify-pipeline''"
  by (auto simp: notifyPipelineRun_def Let_def empty_PipelineRun_def empty_meta_def
      dest!: SetControllerReference_meta split: sum.split)

lemma create_notify_works:
  assumes "spare (Suc n) t"
  shows "\<exists>x t'. run_state (create_PipelineRun fake_client (notifyPipelineRun env cb msg qty)) t = (Inr x, t')"
proof -
  let ?x = "notifyPipelineRun env cb msg qty"
  from spare_Suc [OF assms] obtain r rs where r: "randomStrings t = r # rs" by blast
  have n: "obj_name ?x = ''''" "GenerateName (metadata ?x) \<noteq> ''''" by simp_all
  note f = fresh_key [OF assms r n]
  show ?thesis
    using fake_Create_generated [where objs = pipelineRunObjs, OF r n _ f(3) _ f(2)] by simp
qed

lemma fake_range_spare: "\<exists>n' t'. run_state fake_range t = (n', t') \<and> (\<forall>n. spare n t' = spare n t)"
  by (auto simp: fake_range_def split: list.split)

lemma notifierMessage_spare:
  "\<exists>msg t'. run_state (notifierMessage fake_client cb) t = (msg, t') \<and> (\<forall>n. spare n t' = spare n t)"
  using fake_range_spare [of t] by (auto simp: notifierMessage_def)

lemma notifyResult_works:
  assumes "spare (Suc n) t" and "ParseQuantity env ''1Gi'' = Inr qty"
  shows "\<exists>t'. run_state (notifyResult env fake_client cb) t = (None, t')"
proof -
  obtain msg t1 where t1: "run_state (notifierMessage fake_client cb) t = (msg, t1)"
    "\<forall>n. spare n t1 = spare n t" using notifierMessage_spare by blast
  then have "spare (Suc n) t1" using assms(1) by simp
  from create_notify_works [OF this, of env cb msg qty] t1(1) assms(2) show ?thesis
    by (auto simp: notifyResult_def)
qed

lemma finish_works:
  assumes "spare (Suc n) t" and "ParseQuantity env ''1Gi'' = Inr qty"
  shows "\<exists>cb' t'. run_state (finish env fake_client cb) t = ((None, cb'), t')"
proof -
  obtain k t1 where t1: "run_state fake_range t = (k, t1)" "\<forall>n. spare n t1 = spare n t"
    using fake_range_spare by blast
  then have "spare (Suc n) t1" using assms(1) by simp
  note n = notifyResult_works [OF this assms(2)]
  show ?thesis
  proof (cases "anyFailed (gm_items (ArtifactStates (cbStatus cb)))")
    case True
    from n [of "cb\<lparr>cbStatus := (cbStatus cb)\<lparr>State := ComponentBuildStateFailed\<rparr>\<rparr>"] True t1(1)
    show ?thesis by (auto simp: finish_def Let_def)
  next
    case False
    from n [of "cb\<lparr>cbStatus := (cbStatus cb)\<lparr>State := ComponentBuildStateComplete\<rparr>\<rparr>"] False t1(1)
    show ?thesis by (auto simp: finish_def Let_def)
  qed
qed

section \<open>The handler\<close>

lemma deployConfig_on_fake:
  "run_state (deployConfig fake_client ns) t = (Inr (config_of (fake_cluster t) ns), t)"
proof -
  have "get_ConfigMap fake_client = fake_Get configmaps configMapObjs" by (simp add: fake_client_def)
  then show ?thesis
    by (auto simp: deployConfig_def config_of_def tracker_Get_def split: option.split)
qed

lemma updateStatus_current:
  assumes "map_of (componentBuildObjs t) (obj_key old) = Some old" and "obj_name old \<noteq> ''''"
    and "obj_key cb = obj_key old" and "ResourceVersion (metadata cb) = ResourceVersion (metadata old)"
    and "ParseUint64 (ResourceVersion (metadata old)) = Some v" and "DeletionTimestamp (metadata cb) = None"
  shows "run_state (updateStatus fake_client cb) t = ((emptyResult, None),
     t\<lparr>componentBuildObjs := AList.update (obj_key old) (SetResourceVersion (FormatUint (v + 1)) cb)
                              (componentBuildObjs t)\<rparr>)"
  using versioned_Update_current [OF assms, of componentbuilds]
  by (simp add: updateStatus_def fake_Update_def)


text \<open>
  What the handler needs to succeed: the component build is the stored one, is not being deleted, and
  has a name and a numeric version; the namespace is configured; artifact builds get names; the
  quantity parses; and there is a name for each deploy task and for the notification.
\<close>

definition prepared :: "env \<Rightarrow> tracker \<Rightarrow> ComponentBuild \<Rightarrow> bool" where
  "prepared env t cb \<longleftrightarrow>
     map_of (componentBuildObjs t) (obj_key cb) = Some cb \<and> obj_name cb \<noteq> ''''
     \<and> DeletionTimestamp (metadata cb) = None \<and> ParseUint64 (ResourceVersion (metadata cb)) \<noteq> None
     \<and> configured (fake_cluster t) (obj_ns cb)
     \<and> (\<forall>i \<in> set (Artifacts (cbSpec cb)). CreateABRName env i \<noteq> '''')
     \<and> \<not> isl (ParseQuantity env ''1Gi'')"

definition ready :: "env \<Rightarrow> tracker \<Rightarrow> ComponentBuild \<Rightarrow> bool" where
  "ready env t cb \<longleftrightarrow> prepared env t cb \<and> spare (length (Artifacts (cbSpec cb)) + 1) t"

definition next_version :: "string \<Rightarrow> string" where
  "next_version rv = FormatUint (the (ParseUint64 rv) + 1)"

text \<open>The component build with the status the handler stores.\<close>

definition restated :: "env \<Rightarrow> cluster \<Rightarrow> ComponentBuild \<Rightarrow> ComponentBuild" where
  "restated env c cb =
     SetResourceVersion (next_version (ResourceVersion (metadata cb)))
       (cb\<lparr>cbStatus := expected_status env c cb\<rparr>)"

definition cleared :: "ComponentBuildStatus \<Rightarrow> ComponentBuildStatus" where
  "cleared st = (if Message st = NoConfigMessage then st\<lparr>Message := ''''\<rparr> else st)"

lemma final_status_cleared:
  "final_status ((cleared (cbStatus cb))\<lparr>
      Outstanding := outstanding_count env c (obj_ns cb) (Artifacts (cbSpec cb)),
      ArtifactStates := Some (phases env c (obj_ns cb) (Artifacts (cbSpec cb)) [])\<rparr>)
     = expected_status env c cb"
  using final_status_expected [of cb env c] by (simp add: cleared_def)

text \<open>The walk with its result, and the end of the handler from there.\<close>

lemma walk_total:
  assumes "spare (length is + n) t" and "\<forall>i \<in> set is. CreateABRName env i \<noteq> ''''"
  shows "\<exists>t'. run_state (artifactLoop env fake_client ns u ow d is 0 []) t
      = (Inr (outstanding_count env (fake_cluster t) ns is, phases env (fake_cluster t) ns is []), t')
     \<and> grows t t' \<and> spare n t' \<and> (\<forall>i \<in> set is. served env ns (fake_cluster t') i)"
proof -
  from artifactLoop_works [OF assms, of ns u ow d 0 "[]"] obtain o' m' t' where
    run: "run_state (artifactLoop env fake_client ns u ow d is 0 []) t = (Inr (o', m'), t')"
    and t': "grows t t'" "spare n t'" "\<forall>i \<in> set is. served env ns (fake_cluster t') i" by blast
  have "triple fake_cluster (\<lambda>c. only_new env ns (fake_cluster t) c \<and> (\<forall>k \<in> {}. artifactBuilds c k \<noteq> None))
     (artifactLoop env fake_client ns u ow d is 0 [])
     (\<lambda>r c. only_new env ns (fake_cluster t) c \<and>
        (\<forall>n' m'. r = Inr (n', m') \<longrightarrow>
           n' = 0 + outstanding_count env (fake_cluster t) ns is \<and> m' = phases env (fake_cluster t) ns is []
           \<and> (\<forall>k \<in> {} \<union> artifact_key env ns ` set is. artifactBuilds c k \<noteq> None)))"
    by (rule reliable_client.artifactLoop_exact [OF fake.reliable_client_axioms])
  from tripleD [OF this _ run] have "o' = outstanding_count env (fake_cluster t) ns is"
    "m' = phases env (fake_cluster t) ns is []" by simp_all
  with run t' show ?thesis by blast
qed

lemma finish_total:
  assumes "spare (Suc n) t" and "\<not> isl (ParseQuantity env ''1Gi'')"
  shows "\<exists>t'. run_state (finish env fake_client cb) t
      = ((None, cb\<lparr>cbStatus := final_status (cbStatus cb)\<rparr>), t')
     \<and> componentBuilds (fake_cluster t') = componentBuilds (fake_cluster t)
     \<and> (\<forall>ns i. served env ns (fake_cluster t') i = served env ns (fake_cluster t) i)"
proof -
  from assms(2) obtain qty where "ParseQuantity env ''1Gi'' = Inr qty"
    by (cases "ParseQuantity env ''1Gi''") auto
  from finish_works [OF assms(1) this, of cb] obtain cb' t' where
    run: "run_state (finish env fake_client cb) t = ((None, cb'), t')" by blast
  from api_client.finish_writes [OF fake.api_client_axioms, unfolded writes_def, rule_format, OF run]
  have "cb' = cb\<lparr>cbStatus := final_status (cbStatus cb)\<rparr>"
    "fake_cluster t' = fake_cluster t \<or> (\<exists>m. fake_cluster t' = (fake_cluster t)\<lparr>pipelineRuns := m\<rparr>)"
    by (auto dest: notification_frame)
  with run show ?thesis by (auto simp del: fake_cluster_simps)
qed


lemma handleComponentBuildReceived_total:
  assumes "ready env t cb"
  shows "\<exists>t'. run_state (handleComponentBuildReceived env fake_client cb) t = ((emptyResult, None), t')
     \<and> componentBuilds (fake_cluster t')
         = (componentBuilds (fake_cluster t))(obj_key cb \<mapsto> restated env (fake_cluster t) cb)
     \<and> (\<forall>i \<in> set (Artifacts (cbSpec cb)). served env (obj_ns cb) (fake_cluster t') i)"
proof -
  let ?is = "Artifacts (cbSpec cb)" and ?ns = "obj_ns cb" and ?c = "fake_cluster t"
  obtain u ow d where cfg: "config_of ?c ?ns = (u, ow, d)" "u \<noteq> ''''" "ow \<noteq> ''''" "d \<noteq> ''''"
    using assms by (cases "config_of ?c ?ns") (auto simp: ready_def prepared_def configured_def)
  have names: "\<forall>i \<in> set ?is. CreateABRName env i \<noteq> ''''" and qty: "\<not> isl (ParseQuantity env ''1Gi'')"
    and spare: "spare (length ?is + Suc 0) t" using assms by (simp_all add: ready_def prepared_def)
  from walk_total [OF spare names, of ?ns u ow d] obtain t1 where t1:
    "run_state (artifactLoop env fake_client ?ns u ow d ?is 0 []) t
      = (Inr (outstanding_count env ?c ?ns ?is, phases env ?c ?ns ?is []), t1)"
    "grows t t1" "spare (Suc 0) t1" "\<forall>i \<in> set ?is. served env ?ns (fake_cluster t1) i" by blast
  let ?cb1 = "cb\<lparr>cbStatus := (cleared (cbStatus cb))\<lparr>Outstanding := outstanding_count env ?c ?ns ?is,
      ArtifactStates := Some (phases env ?c ?ns ?is [])\<rparr>\<rparr>"
  let ?cb2 = "cb\<lparr>cbStatus := expected_status env ?c cb\<rparr>"
  from finish_total [OF t1(3) qty, of ?cb1] obtain t2 where t2:
    "run_state (finish env fake_client ?cb1) t1 = ((None, ?cb2), t2)"
    "componentBuilds (fake_cluster t2) = componentBuilds (fake_cluster t1)"
    "\<forall>ns i. served env ns (fake_cluster t2) i = served env ns (fake_cluster t1) i"
    by (auto simp: final_status_cleared)
  obtain v where v: "ParseUint64 (ResourceVersion (metadata cb)) = Some v"
    using assms by (auto simp: ready_def prepared_def)
  have stored: "map_of (componentBuildObjs t2) (obj_key cb) = Some cb"
    "map_of (componentBuildObjs t2) = map_of (componentBuildObjs t)"
    using t2(2) t1(2) assms by (simp_all add: grows_def ready_def prepared_def)
  let ?t3 = "t2\<lparr>componentBuildObjs := AList.update (obj_key cb) (restated env ?c cb) (componentBuildObjs t2)\<rparr>"
  have "run_state (updateStatus fake_client ?cb2) t2 = ((emptyResult, None), ?t3)"
    using updateStatus_current [OF stored(1), of ?cb2 v] assms v
    by (simp add: ready_def prepared_def restated_def next_version_def)
  then have "run_state (handleComponentBuildReceived env fake_client cb) t = ((emptyResult, None), ?t3)"
    using cfg t1(1) t2(1)
    by (simp add: handleComponentBuildReceived_def deployConfig_on_fake cleared_def Let_def
        cong: if_cong split: if_splits)
  moreover have "\<forall>i \<in> set ?is. served env ?ns (fake_cluster ?t3) i" using t1(4) t2(3) by simp
  ultimately show ?thesis using stored(2) by (intro exI [of _ ?t3]) simp
qed

end
