(* ===== verification/SystemSpec.thy ===== *)
theory SystemSpec
  imports ReconcileRefinement
begin

text \<open>
  Consequences of the contract: why a task run, a pipeline run or a final state may appear, and the
  whole system as a state machine in which the reconciler's steps interleave with those of the users,
  the build service and Tekton.
\<close>

section \<open>Why a run appears\<close>

text \<open>The reason for a task run.\<close>

definition deploy_reason :: "env \<Rightarrow> cluster \<Rightarrow> TaskRun \<Rightarrow> bool" where
  "deploy_reason env c x \<longleftrightarrow>
     (\<exists>k abr db. artifactBuilds c k = Some abr \<and> abState abr = ArtifactBuildStateComplete
        \<and> dependency_of c abr = Some db
        \<and> gm_get (Annotations (metadata db)) DeployedAnnotation = ''''
        \<and> deploys_in_flight c (obj_ns abr) (obj_name db) = {}
        \<and> configured c (obj_ns abr)
        \<and> (case config_of c (obj_ns abr) of (u, ow, d) \<Rightarrow> accepted (deployTaskRun env abr db u ow d) x))"

lemma rstep_new_taskRun:
  assumes "rstep env c c'" and "taskRuns c' k = Some x" and "taskRuns c k = None"
  shows "deploy_reason env c x"
  using assms(1)
proof cases
  case (new_deploy k' abr db u ow d y m)
  then have "accepted (deployTaskRun env abr db u ow d) x"
    using assms(2,3) by (auto simp: created_def split: if_splits)
  with new_deploy show ?thesis
    unfolding deploy_reason_def by (intro exI [of _ k'] exI [of _ abr] exI [of _ db]) simp
qed (use assms(2,3) in \<open>auto simp: notification_def\<close>)

text \<open>The reason for a pipeline run.\<close>

definition notify_reason :: "env \<Rightarrow> cluster \<Rightarrow> PipelineRun \<Rightarrow> bool" where
  "notify_reason env c x \<longleftrightarrow>
     (\<exists>k cb msg qty. componentBuilds c k = Some cb \<and> PRURL (cbSpec cb) \<noteq> ''''
        \<and> outstanding_count env c (obj_ns cb) (Artifacts (cbSpec cb)) = 0
        \<and> \<not> ResultNotified (cbStatus cb)
        \<and> notifies_in_flight c (obj_ns cb) (obj_name cb) = {}
        \<and> message_for (expected_status env c cb) msg
        \<and> accepted (notifyPipelineRun env (cb\<lparr>cbStatus := expected_status env c cb\<rparr>) msg qty) x)"

lemma rstep_new_pipelineRun:
  assumes "rstep env c c'" and "pipelineRuns c' k = Some x" and "pipelineRuns c k = None"
  shows "notify_reason env c x"
  using assms(1)
proof cases
  case (new_notify k' cb)
  then obtain msg qty y m where n: "PRURL (cbSpec cb) \<noteq> ''''"
    "notifies_in_flight c (obj_ns cb) (obj_name cb) = {}" "message_for (expected_status env c cb) msg"
    "created (pipelineRuns c) (notifyPipelineRun env (cb\<lparr>cbStatus := expected_status env c cb\<rparr>) msg qty) y m"
    "c' = c\<lparr>pipelineRuns := m\<rparr>"
    by (auto simp: notification_def)
  then have "accepted (notifyPipelineRun env (cb\<lparr>cbStatus := expected_status env c cb\<rparr>) msg qty) x"
    using assms(2,3) by (auto simp: created_def split: if_splits)
  with n new_notify show ?thesis unfolding notify_reason_def by blast
qed (use assms(2,3) in auto)

text \<open>What appears during several steps has its reason at one of them.\<close>

lemma rsteps_appears:
  assumes "rsteps env c c'" and "sel c' k = Some x" and "sel c k = None"
    and step: "\<And>d d' y. rstep env d d' \<Longrightarrow> sel d' k = Some y \<Longrightarrow> sel d k = None \<Longrightarrow> R d y"
    and keeps: "\<And>d d' y. rstep env d d' \<Longrightarrow> sel d k = Some y \<Longrightarrow> sel d' k = Some y"
  shows "\<exists>d. rsteps env c d \<and> rsteps env d c' \<and> R d x"
  using assms(1,2)
proof (induction arbitrary: x rule: rtranclp_induct)
  case base
  with assms(3) show ?case by simp
next
  case (step d d')
  show ?case
  proof (cases "sel d k")
    case None
    with step show ?thesis using assms(4) by blast
  next
    case (Some y)
    with keeps [OF step(2)] step(4) have "y = x" by simp
    with Some step show ?thesis by (meson rtranclp.rtrancl_into_rtrancl)
  qed
qed

lemma rstep_taskRuns_kept: "rstep env d d' \<Longrightarrow> taskRuns d k = Some y \<Longrightarrow> taskRuns d' k = Some y"
  by (cases rule: rstep.cases, assumption) (auto simp: notification_def created_def)

lemma rstep_pipelineRuns_kept:
  "rstep env d d' \<Longrightarrow> pipelineRuns d k = Some y \<Longrightarrow> pipelineRuns d' k = Some y"
  by (cases rule: rstep.cases, assumption) (auto simp: notification_def created_def)

section \<open>Why a final state appears\<close>

definition state_justified :: "env \<Rightarrow> cluster \<Rightarrow> string \<Rightarrow> string list \<Rightarrow> string \<Rightarrow> bool" where
  "state_justified env c ns is s \<longleftrightarrow>
     (if s = ComponentBuildStateComplete then \<forall>i \<in> set is. Done (phase env c ns i)
      else if s = ComponentBuildStateFailed
      then (\<forall>i \<in> set is. settled (phase env c ns i)) \<and> (\<exists>i \<in> set is. Failed (phase env c ns i))
      else s = ComponentBuildStateInProgress)"

lemma expected_justified:
  "state_justified env c (obj_ns cb) (Artifacts (cbSpec cb)) (State (expected_status env c cb))"
proof -
  have "State (expected_status env c cb) \<in>
      {ComponentBuildStateInProgress, ComponentBuildStateComplete, ComponentBuildStateFailed}"
    by (simp add: expected_status_def Let_def)
  then show ?thesis
    using expected_complete [of env c cb] expected_failed [of env c cb]
    unfolding state_justified_def by auto
qed

lemma allowed_justified:
  assumes "allowed_status env c cb st"
  shows "State st = State (cbStatus cb)
     \<or> state_justified env c (obj_ns cb) (Artifacts (cbSpec cb)) (State st)"
  using assms expected_justified [of env c cb]
  by (auto simp: allowed_status_def progress_status_def state_justified_def split: if_splits)

lemma rstep_state:
  assumes "rstep env c c'" and "keyed c" and "componentBuilds c' k = Some x'"
  shows "\<exists>x. componentBuilds c k = Some x \<and> cbSpec x' = cbSpec x \<and>
     (State (cbStatus x') = State (cbStatus x)
      \<or> state_justified env c (nnNamespace k) (Artifacts (cbSpec x)) (State (cbStatus x')))"
  using assms(1)
proof cases
  case (new_status k' cb st m)
  have key: "obj_key cb = k'" using assms(2) new_status(2) unfolding keyed_def by blast
  show ?thesis
  proof (cases "k = k'")
    case True
    have "cbStatus x' = st \<and> cbSpec x' = cbSpec cb"
      using new_status key assms(3) True by (auto simp: status_updated_def)
    then show ?thesis
      using new_status(2) allowed_justified [OF new_status(3)] True key by auto
  next
    case False
    then have "componentBuilds c k = Some x'"
      using new_status(1,4) key assms(3) by (auto simp: status_updated_def)
    then show ?thesis by simp
  qed
qed (use assms(3) in \<open>auto simp: notification_def\<close>)

lemma rsteps_state:
  assumes "rsteps env c c'" and "keyed c" and "componentBuilds c' k = Some x'"
  shows "\<exists>x. componentBuilds c k = Some x \<and> cbSpec x' = cbSpec x \<and>
     (State (cbStatus x') = State (cbStatus x)
      \<or> (\<exists>d. rsteps env c d \<and> rsteps env d c'
           \<and> state_justified env d (nnNamespace k) (Artifacts (cbSpec x)) (State (cbStatus x'))))"
  using assms(1,3)
proof (induction arbitrary: x' rule: rtranclp_induct)
  case base
  then show ?case by blast
next
  case (step d d')
  have kd: "keyed d" using rsteps_keyed [OF step(1) assms(2)] .
  from rstep_state [OF step(2) kd step(4)] obtain y where y: "componentBuilds d k = Some y"
    "cbSpec x' = cbSpec y" "State (cbStatus x') = State (cbStatus y)
      \<or> state_justified env d (nnNamespace k) (Artifacts (cbSpec y)) (State (cbStatus x'))"
    by blast
  from step.IH [OF y(1)] obtain x where x: "componentBuilds c k = Some x" "cbSpec y = cbSpec x"
    and j: "State (cbStatus y) = State (cbStatus x)
      \<or> (\<exists>e. rsteps env c e \<and> rsteps env e d
           \<and> state_justified env e (nnNamespace k) (Artifacts (cbSpec x)) (State (cbStatus y)))"
    by blast
  have "rsteps env d d'" using step(2) by blast
  with x y j step(1) show ?case by (metis rtranclp_trans)
qed

section \<open>The whole system\<close>

text \<open>
  The others may do what they want to component builds, artifact builds, dependency builds,
  rebuilt artifacts and the configuration. Of the runs that carry one of the two labels they may
  only finish, delete or change existing ones: nobody else starts such a run, moves one to another
  namespace or label, or makes a finished one unfinished.
\<close>

definition runs_calm ::
  "string \<Rightarrow> ('a kobject_scheme \<Rightarrow> bool) \<Rightarrow> (NamespacedName \<rightharpoonup> 'a kobject_scheme)
     \<Rightarrow> (NamespacedName \<rightharpoonup> 'a kobject_scheme) \<Rightarrow> bool" where
  "runs_calm lbl unfinished m m' \<longleftrightarrow>
     (\<forall>k x. m' k = Some x \<longrightarrow> unfinished x \<longrightarrow> gm_lookup (Labels (metadata x)) lbl \<noteq> None \<longrightarrow>
        (\<exists>y. m k = Some y \<and> unfinished y \<and> obj_ns y = obj_ns x
             \<and> gm_lookup (Labels (metadata y)) lbl = gm_lookup (Labels (metadata x)) lbl))"

inductive system :: "env \<Rightarrow> cluster \<Rightarrow> cluster \<Rightarrow> bool" for env where
  reconciler: "rstep env c c' \<Longrightarrow> system env c c'"
| others:
    "keyed c' \<Longrightarrow>
     runs_calm DeployTaskLabel (\<lambda>tr. IsUnknown (trSucceeded tr)) (taskRuns c) (taskRuns c') \<Longrightarrow>
     runs_calm NotifyPipelineLabel (\<lambda>pr. IsUnknown (prSucceeded pr)) (pipelineRuns c) (pipelineRuns c') \<Longrightarrow>
     system env c c'"

text \<open>A cluster before the program is installed has no labelled run.\<close>

definition initial :: "cluster \<Rightarrow> bool" where
  "initial c \<longleftrightarrow> keyed c
     \<and> (\<forall>k x. taskRuns c k = Some x \<longrightarrow> gm_lookup (Labels (metadata x)) DeployTaskLabel = None)
     \<and> (\<forall>k x. pipelineRuns c k = Some x \<longrightarrow> gm_lookup (Labels (metadata x)) NotifyPipelineLabel = None)"

inductive reachable :: "env \<Rightarrow> cluster \<Rightarrow> bool" for env where
  start: "initial c \<Longrightarrow> reachable env c"
| onwards: "reachable env c \<Longrightarrow> system env c c' \<Longrightarrow> reachable env c'"

lemma single_flight_calm:
  "single_flight lbl unfinished m \<Longrightarrow> runs_calm lbl unfinished m m' \<Longrightarrow> single_flight lbl unfinished m'"
  by (rule single_flight_others, assumption) (simp add: runs_calm_def)

lemma single_flight_initial:
  "\<forall>k x. m k = Some x \<longrightarrow> gm_lookup (Labels (metadata x)) lbl = None \<Longrightarrow> single_flight lbl unfinished m"
  by (auto simp: single_flight_def in_flight_def at_most_one_def)

lemma system_keeps:
  assumes "system env c c'"
  shows "keyed c \<Longrightarrow> keyed c'" "single_deploys c \<Longrightarrow> single_deploys c'"
    "single_notifies c \<Longrightarrow> single_notifies c'"
  using assms
  by (cases; auto simp: single_deploys_def single_notifies_def
      intro: rstep_keyed single_flight_calm
        rstep_single_deploys [unfolded single_deploys_def]
        rstep_single_notifies [unfolded single_notifies_def])+

lemma reachable_invariant:
  "reachable env c \<Longrightarrow> keyed c \<and> single_deploys c \<and> single_notifies c"
  by (induction rule: reachable.induct)
    (auto simp: initial_def single_deploys_def single_notifies_def
      intro: single_flight_initial system_keeps(1) system_keeps(2) [unfolded single_deploys_def]
        system_keeps(3) [unfolded single_notifies_def])

lemma reachable_rsteps: "rsteps env c c' \<Longrightarrow> reachable env c \<Longrightarrow> reachable env c'"
  by (induction rule: rtranclp_induct) (auto intro: onwards reconciler)

end
