(* ===== verification/Scenarios.thy ===== *)
theory Scenarios
  imports Reconciler Tracker
begin

text \<open>
  Runs of the reconciler on the fake client. \<open>test_creation\<close> is the scenario of
  \<open>TestArtifactBuildCreation\<close> (\<open>pkg/reconciler/componentbuild/componentbuild_test.go\<close>).
\<close>

section \<open>The setting\<close>

definition jvmbs_pkg :: string where
  "jvmbs_pkg = ''github.com/redhat-appstudio/jvm-build-service/pkg/apis/jvmbuildservice/v1alpha1''"

definition jvmbs_version :: GroupVersion where
  "jvmbs_version = GroupVersion ''jvmbuildservice.io'' ''v1alpha1''"

definition jvmbs_types :: "GoType list" where
  "jvmbs_types =
     [GoType jvmbs_pkg ''ArtifactBuild'', GoType jvmbs_pkg ''ArtifactBuildList'',
      GoType jvmbs_pkg ''DependencyBuild'', GoType jvmbs_pkg ''DependencyBuildList'',
      GoType jvmbs_pkg ''RebuiltArtifact'', GoType jvmbs_pkg ''RebuiltArtifactList'']"

definition jvmbs_AddToScheme :: "Scheme \<Rightarrow> Scheme option" where
  "jvmbs_AddToScheme = AddKnownTypes jvmbs_version jvmbs_types"

definition test_scheme :: Scheme where
  "test_scheme = the (Option.bind (jvmbs_AddToScheme NewScheme) (AddToScheme (\<lambda>gv. Some)))"

text \<open>The registry that results, in the form in which the runs below evaluate it.\<close>

lemma test_scheme_code [code]:
  "test_scheme =
     (let kinds = map (\<lambda>t. (WithKind jvmbs_version (goTypeName t), t)) jvmbs_types
                  @ map (\<lambda>t. (WithKind SchemeGroupVersion (goTypeName t), t))
                      [ComponentBuildType, ComponentBuildListType]
      in \<lparr>gvkToType = kinds, typeToGVK = map (\<lambda>(gvk, t). (t, [gvk])) kinds,
          observedVersions = [jvmbs_version, SchemeGroupVersion], unversionedTypes = []\<rparr>)"
  unfolding test_scheme_def by code_simp

text \<open>The naming function replaces the colons of a coordinate here.\<close>

definition test_env :: env where
  "test_env =
     \<lparr>scheme = test_scheme,
      CreateABRName = (\<lambda>gav. map (\<lambda>c. if c = CHR '':'' then CHR ''.'' else c) gav),
      ParseQuantity = (\<lambda>s. if s = ''1Gi'' then Inr (1024 * 1024 * 1024)
                             else Inl (OtherError ''unable to parse quantity's suffix''))\<rparr>"

definition meta_of :: "string \<Rightarrow> ObjectMeta" where
  "meta_of name = empty_meta\<lparr>Name := name, Namespace := ''default''\<rparr>"

definition test_key :: "string \<Rightarrow> NamespacedName" where
  "test_key name = NamespacedName ''default'' name"

definition test_config :: ConfigMap where
  "test_config = \<lparr>metadata = (meta_of ApheleiaConfig)\<lparr>ResourceVersion := ''999''\<rparr>,
     Data = Some [(MavenRepo, ''dummy-repo''), (AWSDomain, ''dummy-domain''), (AWSOwner, ''dummy-owner'')]\<rparr>"

definition test_tracker :: tracker where
  "test_tracker =
     \<lparr>artifactBuildObjs = [], componentBuildObjs = [], taskRunObjs = [], pipelineRunObjs = [],
      configMapObjs = [(test_key ApheleiaConfig, test_config)], rebuiltArtifactObjs = [],
      dependencyBuildObjs = [], randomStrings = [''bcdfg'', ''hjklm'', ''npqrs''],
      rangeOrders = [], events = []\<rparr>"

definition test_status :: ComponentBuildStatus where
  "test_status = \<lparr>State = '''', Outstanding = 0, ArtifactStates = None, Message = '''',
     ResultNotified = False\<rparr>"

definition test_componentBuild :: "string \<Rightarrow> string list \<Rightarrow> ComponentBuild" where
  "test_componentBuild prurl artifacts =
     \<lparr>metadata = meta_of ''test'',
      cbSpec = \<lparr>SCMURL = ''https://test.com/test.git'', PRURL = prurl, Tag = ''1.0'',
                Artifacts = artifacts\<rparr>,
      cbStatus = test_status\<rparr>"

section \<open>What the others do\<close>

definition create_ComponentBuild :: "ComponentBuild \<Rightarrow> (tracker, api_error + ComponentBuild) state" where
  "create_ComponentBuild =
     fake_Create componentbuilds componentBuildObjs (\<lambda>m t. t\<lparr>componentBuildObjs := m\<rparr>)"

definition on_ArtifactBuild ::
  "NamespacedName \<Rightarrow> (ArtifactBuild \<Rightarrow> ArtifactBuild) \<Rightarrow> (tracker, unit) state" where
  "on_ArtifactBuild k f = do {
     r \<leftarrow> get_ArtifactBuild fake_client k;
     case r of Inl err \<Rightarrow> State_Monad.return ()
     | Inr x \<Rightarrow> do {
         _ \<leftarrow> fake_Update artifactbuilds artifactBuildObjs (\<lambda>m t. t\<lparr>artifactBuildObjs := m\<rparr>) (f x);
         State_Monad.return ()
       }
   }"

definition on_TaskRun :: "NamespacedName \<Rightarrow> (TaskRun \<Rightarrow> TaskRun) \<Rightarrow> (tracker, unit) state" where
  "on_TaskRun k f = do {
     r \<leftarrow> get_TaskRun fake_client k;
     case r of Inl err \<Rightarrow> State_Monad.return ()
     | Inr x \<Rightarrow> do {
         _ \<leftarrow> fake_Update taskruns taskRunObjs (\<lambda>m t. t\<lparr>taskRunObjs := m\<rparr>) (f x);
         State_Monad.return ()
       }
   }"

definition on_PipelineRun :: "NamespacedName \<Rightarrow> (PipelineRun \<Rightarrow> PipelineRun) \<Rightarrow> (tracker, unit) state" where
  "on_PipelineRun k f = do {
     r \<leftarrow> get_PipelineRun fake_client k;
     case r of Inl err \<Rightarrow> State_Monad.return ()
     | Inr x \<Rightarrow> do {
         _ \<leftarrow> fake_Update pipelineruns pipelineRunObjs (\<lambda>m t. t\<lparr>pipelineRunObjs := m\<rparr>) (f x);
         State_Monad.return ()
       }
   }"

definition on_DependencyBuild ::
  "NamespacedName \<Rightarrow> (DependencyBuild \<Rightarrow> DependencyBuild) \<Rightarrow> (tracker, unit) state" where
  "on_DependencyBuild k f = do {
     r \<leftarrow> get_DependencyBuild fake_client k;
     case r of Inl err \<Rightarrow> State_Monad.return ()
     | Inr x \<Rightarrow> do {
         _ \<leftarrow> update_DependencyBuild fake_client (f x);
         State_Monad.return ()
       }
   }"

text \<open>
  A build of an artifact: the dependency build, owned by the artifact build, and the rebuilt
  artifact, owned by the dependency build.
\<close>

definition owned_by :: "GoType \<Rightarrow> ObjectMeta \<Rightarrow> ObjectMeta \<Rightarrow> ObjectMeta" where
  "owned_by t owner m = (case SetOwnerReference t owner m test_scheme of Inl e \<Rightarrow> m | Inr m' \<Rightarrow> m')"

definition built :: "string \<Rightarrow> string \<Rightarrow> string \<Rightarrow> (tracker, unit) state" where
  "built gav abname dbname = do {
     on_ArtifactBuild (test_key abname) (\<lambda>x. x\<lparr>abState := ArtifactBuildStateComplete\<rparr>);
     _ \<leftarrow> fake_Create dependencybuilds dependencyBuildObjs (\<lambda>m t. t\<lparr>dependencyBuildObjs := m\<rparr>)
          \<lparr>metadata = owned_by (GoType jvmbs_pkg ''ArtifactBuild'') (meta_of abname) (meta_of dbname),
           dbState = ''''\<rparr>;
     _ \<leftarrow> fake_Create rebuiltartifacts rebuiltArtifactObjs (\<lambda>m t. t\<lparr>rebuiltArtifactObjs := m\<rparr>)
          \<lparr>metadata = owned_by (GoType jvmbs_pkg ''DependencyBuild'') (meta_of dbname) (meta_of abname),
           raGAV = gav, raImage = ''test-image''\<rparr>;
     State_Monad.return ()
   }"

definition succeeded :: Condition where
  "succeeded = \<lparr>ConditionType = ConditionSucceeded, ConditionStatus = ''True''\<rparr>"

definition complete_TaskRun :: "TaskRun \<Rightarrow> TaskRun" where
  "complete_TaskRun tr = tr\<lparr>trCompletionTime := Some 1, trConditions := [succeeded]\<rparr>"

section \<open>The creation test\<close>

definition test_creation :: "(tracker, api_error option list \<times> Param list list) state" where
  "test_creation = do {
     _ \<leftarrow> create_ComponentBuild (test_componentBuild '''' [''com.test:test:1.0'']);
     (_, e1) \<leftarrow> Reconcile test_env fake_client (test_key ''test'');
     built ''com.test:test:1.0'' ''com.test.test.1.0'' ''test-db'';
     (_, e2) \<leftarrow> Reconcile test_env fake_client (test_key ''com.test.test.1.0'');
     trl \<leftarrow> list_TaskRun fake_client '''' NewSelector;
     (case trl of
        Inr (tr # _) \<Rightarrow> do {
          on_TaskRun (obj_key tr) complete_TaskRun;
          (_, e3) \<leftarrow> Reconcile test_env fake_client (obj_key tr);
          State_Monad.return ([e1, e2, e3], map trParams (projr trl))
        }
      | _ \<Rightarrow> State_Monad.return ([], []))
   }"

text \<open>
  The scenario of the repository's test: after the creation of a component build, the build of
  its artifact and the completion of the deploy task, no call has returned an error, there has been
  one deploy task, with the configured parameters, and the component build is complete.
\<close>

theorem test_creation_run:
  "case run_state test_creation test_tracker of (r, t) \<Rightarrow>
     r = ([None, None, None],
          [[stringParam ''DOMAIN'' ''dummy-domain'', stringParam ''OWNER'' ''dummy-owner'',
            stringParam ''REPO'' ''dummy-repo'', stringParam ''FORCE'' ''false'',
            stringParam ''ARTIFACT'' ''com.test.test.1.0'']])
     \<and> map_option (\<lambda>cb. State (cbStatus cb)) (map_of (componentBuildObjs t) (test_key ''test''))
       = Some ComponentBuildStateComplete"
  by code_simp

section \<open>A stale notification\<close>

text \<open>
  The failure of an artifact is notified; while the notification pipeline is still running the
  artifact is rebuilt and deployed. The component build is complete when the pipeline finishes, so
  its success is taken for the notification of the completion.
\<close>

definition finish_PipelineRun :: "PipelineRun \<Rightarrow> PipelineRun" where
  "finish_PipelineRun pr =
     pr\<lparr>metadata := (metadata pr)\<lparr>Labels :=
          Some (AList.update ''tekton.dev/pipeline'' ''component-build-notifier''
                 (gm_items (Labels (metadata pr))))\<rparr>,
        prCompletionTime := Some 1, prConditions := [succeeded]\<rparr>"

definition test_stale :: "(tracker, unit) state" where
  "test_stale = do {
     _ \<leftarrow> create_ComponentBuild (test_componentBuild ''https://test.com/pr/1'' [''com.test:test:1.0'']);
     _ \<leftarrow> Reconcile test_env fake_client (test_key ''test'');
     on_ArtifactBuild (test_key ''com.test.test.1.0'') (\<lambda>x. x\<lparr>abState := ArtifactBuildStateFailed\<rparr>);
     _ \<leftarrow> Reconcile test_env fake_client (test_key ''com.test.test.1.0'');
     built ''com.test:test:1.0'' ''com.test.test.1.0'' ''test-db'';
     on_DependencyBuild (test_key ''test-db'') markDeployed;
     _ \<leftarrow> Reconcile test_env fake_client (test_key ''com.test.test.1.0'');
     prl \<leftarrow> list_PipelineRun fake_client '''' NewSelector;
     (case prl of
        Inr [pr] \<Rightarrow> do {
          on_PipelineRun (obj_key pr) finish_PipelineRun;
          _ \<leftarrow> Reconcile test_env fake_client (obj_key pr);
          _ \<leftarrow> Reconcile test_env fake_client (test_key ''test'');
          State_Monad.return ()
        }
      | _ \<Rightarrow> State_Monad.return ())
   }"

definition messages_sent :: "tracker \<Rightarrow> string list" where
  "messages_sent t =
     map StringVal (filter (\<lambda>p. ParamName p = ''message'')
       (concat (map (\<lambda>e. prParams (snd e)) (pipelineRunObjs t))))"

text \<open>
  A stale notification: the failure of an artifact is notified, and the artifact is rebuilt and
  deployed while that pipeline is running. The pipeline's success then marks the completion as
  notified, though the only message ever sent is the one about the failure.
\<close>

theorem test_stale_run:
  "case run_state test_stale test_tracker of (r, t) \<Rightarrow>
     map_option (\<lambda>cb. (State (cbStatus cb), ResultNotified (cbStatus cb)))
         (map_of (componentBuildObjs t) (test_key ''test''))
       = Some (ComponentBuildStateComplete, True)
     \<and> messages_sent t = [failureMessage [''com.test:test:1.0'']]"
  by code_simp

end
