(* ===== verification/Liveness.thy ===== *)
theory Liveness
  imports FakeTotal SystemSpec Scenarios
begin

text \<open>
  Liveness of the operator on the fake client: when each of the others does its part once, the build
  service building the artifacts and Tekton running the deploy tasks, then handling the events that
  follow leads a component build to its final state. The parts of the others are relations between the
  tracker before and after; everything in between is the reconciler's own calls.
\<close>

section \<open>Well-formed stores\<close>

text \<open>
  Objects are stored under their own names, have a name and a numeric version, and are not being
  deleted. Updates of such objects succeed, and keep the store so.
\<close>

definition healthy :: "ObjectMeta \<Rightarrow> bool" where
  "healthy m \<longleftrightarrow> DeletionTimestamp m = None \<and> Name m \<noteq> '''' \<and> ParseUint64 (ResourceVersion m) \<noteq> None"

definition healthy_store :: "'a store \<Rightarrow> bool" where
  "healthy_store objs \<longleftrightarrow> list_all (\<lambda>(k, x). obj_key x = k \<and> healthy (metadata x)) objs"

lemma healthy_storeD:
  "healthy_store objs \<Longrightarrow> map_of objs k = Some x \<Longrightarrow> obj_key x = k \<and> healthy (metadata x)"
  by (auto simp: healthy_store_def list_all_iff dest!: map_of_SomeD)

lemma set_AList_update: "set (AList.update k v l) \<subseteq> insert (k, v) (set l)"
  by (induction l) auto

lemma healthy_store_update:
  assumes "healthy_store objs" and "obj_key x = k" and "healthy (metadata x)"
  shows "healthy_store (AList.update k x objs)"
  using assms set_AList_update [of k x objs] by (auto simp: healthy_store_def list_all_iff)

lemma healthy_next [simp]:
  "healthy (metadata (SetResourceVersion (FormatUint w) x)) \<longleftrightarrow>
     DeletionTimestamp (metadata x) = None \<and> obj_name x \<noteq> ''''"
  by (simp add: healthy_def SetResourceVersion_def ParseUint64_FormatUint)

lemma versioned_Update_result:
  assumes "healthy_store objs" and "DeletionTimestamp (metadata x) = None" and "obj_name x \<noteq> ''''"
    and "versioned_Update gr objs x = Inr (objs', x')"
  shows "healthy_store objs'" "map_of objs' = (map_of objs)(obj_key x \<mapsto> x')"
    "map_of objs (obj_key x) \<noteq> None" "\<exists>w. x' = SetResourceVersion (FormatUint w) x"
proof -
  from assms(3,4) obtain old where old: "map_of objs (obj_key x) = Some old"
    by (auto simp: versioned_Update_def tracker_Get_def split: option.splits)
  have rv: "ResourceVersion (metadata x) = ResourceVersion (metadata old)"
    using versioned_Update_stale [OF old assms(3), of gr] assms(4) by fastforce
  from healthy_storeD [OF assms(1) old] obtain v where
    h: "obj_key old = obj_key x" "obj_name old \<noteq> ''''" "ParseUint64 (ResourceVersion (metadata old)) = Some v"
    using assms(3) by (auto simp: healthy_def)
  have "versioned_Update gr objs x = Inr (AList.update (obj_key old) (SetResourceVersion (FormatUint (v + 1)) x) objs,
      SetResourceVersion (FormatUint (v + 1)) x)"
    by (rule versioned_Update_current) (use old h rv assms(2) in simp_all)
  then have r: "objs' = AList.update (obj_key x) (SetResourceVersion (FormatUint (v + 1)) x) objs"
    "x' = SetResourceVersion (FormatUint (v + 1)) x" using assms(4) h(1) by simp_all
  show "healthy_store objs'" unfolding r(1)
    by (rule healthy_store_update [OF assms(1)]) (use assms(2,3) in simp_all)
  show "map_of objs' = (map_of objs)(obj_key x \<mapsto> x')" by (simp add: r)
  show "map_of objs (obj_key x) \<noteq> None" by (simp add: old)
  show "\<exists>w. x' = SetResourceVersion (FormatUint w) x" using r(2) by blast
qed

text \<open>The invariant of all calls: the component builds and dependency builds are well formed, and none goes.\<close>

definition sound :: "tracker \<Rightarrow> bool" where
  "sound t \<longleftrightarrow> healthy_store (componentBuildObjs t) \<and> healthy_store (dependencyBuildObjs t)"

definition stays :: "NamespacedName set \<Rightarrow> tracker \<Rightarrow> bool" where
  "stays K t \<longleftrightarrow> sound t \<and> K \<subseteq> dom (map_of (componentBuildObjs t))"

lemma stays_frame [simp]:
  "stays K (t\<lparr>artifactBuildObjs := m1\<rparr>) = stays K t" "stays K (t\<lparr>taskRunObjs := m2\<rparr>) = stays K t"
  "stays K (t\<lparr>pipelineRunObjs := m3\<rparr>) = stays K t" "stays K (t\<lparr>randomStrings := m4\<rparr>) = stays K t"
  "stays K (t\<lparr>rangeOrders := m5\<rparr>) = stays K t" "stays K (t\<lparr>events := m6\<rparr>) = stays K t"
  by (simp_all add: stays_def sound_def)


section \<open>Every call keeps the stores well formed\<close>

named_theorems staying "what keeps the stores well formed"

abbreviation kept :: "NamespacedName set \<Rightarrow> (tracker, 'a) state \<Rightarrow> bool" where
  "kept K m \<equiv> keeps (\<lambda>t. t) (stays K) m"

lemma kept_read: "(\<And>t. snd (run_state m t) = t) \<Longrightarrow> kept K m"
  by (simp add: triple_def)

lemma kept_reads [staying]: "kept K (fake_Get gr objs k)" "kept K (fake_List objs' ns sel)"
  by (rule kept_read, simp)+

lemma kept_other [staying]: "kept K (fake_Eventf ev)" "kept K fake_range"
  by (auto simp: triple_def fake_Eventf_def fake_range_def split: list.split)

lemma stays_nameSuffix [simp]: "stays K (snd (nameSuffix x t)) = stays K t"
  by (auto simp: nameSuffix_def nextRandom_def split: list.split)

lemma kept_Create:
  assumes "\<And>m t. stays K (set_objs m t) = stays K t"
  shows "kept K (fake_Create gr objs set_objs x)"
proof -
  have "stays K (snd (run_state (fake_Create gr objs set_objs x) t)) = stays K t" for t
  proof -
    obtain r t1 where "nameSuffix x t = (r, t1)" by fastforce
    then show ?thesis using stays_nameSuffix [of K x t] assms
      by (auto simp: fake_Create_def split: sum.split)
  qed
  then show ?thesis by (simp add: triple_def)
qed

lemma kept_creates [staying]:
  "kept K (create_ArtifactBuild fake_client abr)" "kept K (create_TaskRun fake_client tr)"
  "kept K (create_PipelineRun fake_client pr)"
  by (simp_all add: kept_Create)

lemma kept_Update_status [staying]:
  assumes "healthy (metadata cb)"
  shows "kept K (update_status_ComponentBuild fake_client cb)"
proof (rule tripleI)
  fix t r t'
  assume s: "stays K t" and run: "run_state (update_status_ComponentBuild fake_client cb) t = (r, t')"
  show "stays K t'"
  proof (cases "versioned_Update componentbuilds (componentBuildObjs t) cb")
    case (Inl err)
    with run s show ?thesis by (simp add: fake_Update_def)
  next
    case (Inr p)
    then obtain objs' x' where u: "versioned_Update componentbuilds (componentBuildObjs t) cb = Inr (objs', x')"
      by (cases p) simp
    have "healthy_store (componentBuildObjs t)" using s by (simp add: stays_def sound_def)
    from versioned_Update_result [OF this _ _ u] assms run u s show ?thesis
      by (auto simp: healthy_def fake_Update_def stays_def sound_def)
  qed
qed

text \<open>The one write to dependency builds.\<close>

lemma update_DependencyBuild_result:
  assumes "sound t" and "map_of (dependencyBuildObjs t) (obj_key db) = Some db"
  shows "\<exists>w. run_state (update_DependencyBuild fake_client (markDeployed db)) t =
     (Inr (SetResourceVersion (FormatUint w) (markDeployed db)),
      t\<lparr>dependencyBuildObjs := AList.update (obj_key db) (SetResourceVersion (FormatUint w) (markDeployed db))
          (dependencyBuildObjs t)\<rparr>)"
proof -
  have "healthy (metadata db)" using healthy_storeD [OF _ assms(2)] assms(1) by (simp add: sound_def)
  then obtain v where h: "DeletionTimestamp (metadata db) = None" "obj_name db \<noteq> ''''"
    "ParseUint64 (ResourceVersion (metadata db)) = Some v" by (auto simp: healthy_def)
  have "versioned_Update dependencybuilds (dependencyBuildObjs t) (markDeployed db) =
      Inr (AList.update (obj_key db) (SetResourceVersion (FormatUint (v + 1)) (markDeployed db)) (dependencyBuildObjs t),
        SetResourceVersion (FormatUint (v + 1)) (markDeployed db))"
    by (rule versioned_Update_current) (use h assms(2) in simp_all)
  then show ?thesis by (auto simp: fake_Update_def)
qed

lemma stays_marked:
  assumes "stays K t" and "map_of (dependencyBuildObjs t) (obj_key db) = Some db"
  shows "stays K (t\<lparr>dependencyBuildObjs := AList.update (obj_key db)
      (SetResourceVersion (FormatUint w) (markDeployed db)) (dependencyBuildObjs t)\<rparr>)"
proof -
  have s: "healthy_store (dependencyBuildObjs t)" using assms(1) by (simp add: stays_def sound_def)
  have "healthy (metadata db)" using healthy_storeD [OF s assms(2)] by simp
  then have "DeletionTimestamp (metadata db) = None" "obj_name db \<noteq> ''''" by (simp_all add: healthy_def)
  then have "healthy_store (AList.update (obj_key db) (SetResourceVersion (FormatUint w) (markDeployed db))
      (dependencyBuildObjs t))"
    by (intro healthy_store_update [OF s]) simp_all
  with assms(1) show ?thesis by (simp add: stays_def sound_def)
qed


section \<open>The handlers keep the stores well formed\<close>

lemma kept_getDependencyBuild [staying]: "kept K (getDependencyBuild fake_client abr)"
  by (rule kept_read) (simp add: getDependencyBuild_on_fake)

lemma kept_artifactState [staying]: "kept K (artifactState fake_client abr)"
  by (rule kept_read) (simp add: artifactState_on_fake)

lemma kept_deployConfig [staying]: "kept K (deployConfig fake_client ns)"
  by (rule kept_read) (simp add: deployConfig_on_fake)

lemmas kept_gets [staying] = kept_reads(1) [where gr = artifactbuilds and objs = artifactBuildObjs]

lemma kept_client [staying]:
  "kept K (get_ArtifactBuild fake_client k)" "kept K (get_ComponentBuild fake_client k)"
  "kept K (get_TaskRun fake_client k)" "kept K (get_PipelineRun fake_client k)"
  "kept K (list_TaskRun fake_client ns sel)" "kept K (list_PipelineRun fake_client ns sel)"
  "kept K (Eventf fake_client ev)" "kept K (range_choice fake_client)"
  by (simp_all add: staying)

lemma kept_artifactLoop [staying]: "kept K (artifactLoop env fake_client ns u ow d is ou m)"
proof (induction "is" arbitrary: ou m)
  case Nil
  show ?case by (simp add: keeping)
next
  case (Cons i "is")
  show ?case
    unfolding artifactLoop.simps existingStep_def deployArtifact_def Let_def
    by (rule keeping staying Cons.IH)+
qed

lemma kept_finish:
  "triple (\<lambda>t. t) (stays K) (finish env fake_client cb) (\<lambda>r t. stays K t \<and> metadata (snd r) = metadata cb)"
proof (rule triple_post [OF triple_conj])
  show "kept K (finish env fake_client cb)"
    unfolding finish_def notifyResult_def notifierMessage_def Let_def by (rule keeping staying)+
  show "triple (\<lambda>t. t) (stays K) (finish env fake_client cb)
      (\<lambda>r t. snd r = cb\<lparr>cbStatus := final_status (cbStatus cb)\<rparr>)"
    using api_client.finish_writes [OF fake.api_client_axioms, of env cb]
    by (auto simp: writes_def triple_def prod_eq_iff)
qed simp

lemma kept_handleComponentBuildReceived:
  assumes "healthy (metadata cb)"
  shows "kept K (handleComponentBuildReceived env fake_client cb)"
proof -
  have up: "metadata x = metadata cb \<Longrightarrow> kept K (updateStatus fake_client x)" for x
    unfolding updateStatus_def by (rule keeping staying | simp add: assms)+
  have after: "triple (\<lambda>t. t) (\<lambda>t. stays K t \<and> metadata (snd r) = metadata cb)
      (case r of (err, cb') \<Rightarrow>
         (case err of None \<Rightarrow> updateStatus fake_client cb' | Some err \<Rightarrow> State_Monad.return (emptyResult, Some err)))
      (\<lambda>_. stays K)" for r
  proof (cases "metadata (snd r) = metadata cb")
    case True
    obtain err x where r: "r = (err, x)" by (cases r)
    with True have "kept K (updateStatus fake_client x)" by (simp add: up)
    with r True show ?thesis by (cases err) (simp_all add: keeps_return)
  next
    case False
    then show ?thesis by (simp add: triple_def)
  qed
  have fin: "metadata x = metadata cb \<Longrightarrow> kept K (finish env fake_client x \<bind> (\<lambda>(err, cb').
      case err of None \<Rightarrow> updateStatus fake_client cb' | Some err \<Rightarrow> State_Monad.return (emptyResult, Some err)))" for x
    by (rule triple_bind [OF after]) (use kept_finish [of K env x] in simp)
  show ?thesis
    unfolding handleComponentBuildReceived_def Let_def
    by (rule keeping staying up fin | simp)+
qed


text \<open>What a list shows is stored.\<close>

lemma healthy_values:
  assumes "healthy_store objs" and "x \<in> set (filterByNamespace objs ns)"
  shows "healthy (metadata x)"
proof -
  have "x \<in> snd ` set (AList.clearjunk objs)" using assms(2) by (auto simp: filterByNamespace_def)
  then obtain k where "(k, x) \<in> set (AList.clearjunk objs)" by auto
  then have "map_of (AList.clearjunk objs) k = Some x"
    using map_of_SomeI_distinct [OF distinct_clearjunk] by auto
  then have "map_of objs k = Some x" by (simp add: map_of_clearjunk)
  from healthy_storeD [OF assms(1) this] show ?thesis by simp
qed

lemma kept_handleTracking:
  "\<forall>i \<in> set is. healthy (metadata i) \<Longrightarrow> kept K (handleTracking env fake_client gav is)"
proof (induction "is")
  case Nil
  show ?case by (simp add: keeping)
next
  case (Cons i "is")
  have h: "healthy (metadata i)" and rest: "kept K (handleTracking env fake_client gav is)"
    using Cons by simp_all
  show ?case
    unfolding handleTracking.simps
    by (rule keeping kept_handleComponentBuildReceived [OF h] rest)+
qed

lemma kept_handleArtifactBuildReceived [staying]: "kept K (handleArtifactBuildReceived env fake_client abr)"
proof (rule tripleI)
  fix t r t'
  assume s: "stays K t" and run: "run_state (handleArtifactBuildReceived env fake_client abr) t = (r, t')"
  let ?items = "FilterWithLabels NewSelector (filterByNamespace (componentBuildObjs t) (obj_ns abr))"
  have l: "list_ComponentBuild fake_client = (\<lambda>ns. fake_List componentBuildObjs ns NewSelector)"
    by (simp add: fake_client_def)
  have t': "t' = snd (run_state (handleTracking env fake_client (GAV abr) ?items) t)"
    using run by (auto simp: handleArtifactBuildReceived_def l split: prod.splits)
  have "\<forall>i \<in> set ?items. healthy (metadata i)"
    using s healthy_values [of "componentBuildObjs t"]
    by (auto simp: FilterWithLabels_def stays_def sound_def)
  from kept_handleTracking [OF this] s show "stays K t'" by (auto simp: t' triple_def)
qed

text \<open>The dependency build of an artifact is stored, so marking it is an update of what is there.\<close>

lemma dependency_of_stored:
  assumes "sound t" and "dependency_of (fake_cluster t) abr = Some db"
  shows "map_of (dependencyBuildObjs t) (obj_key db) = Some db"
proof -
  from assms(2) obtain k where "map_of (dependencyBuildObjs t) k = Some db"
    by (auto simp: dependency_of_def Let_def split: option.splits if_splits)
  with healthy_storeD [OF _ this] assms(1) show ?thesis by (simp add: sound_def)
qed

lemma kept_mark:
  "kept K (getDependencyBuild fake_client abr \<bind> (\<lambda>db. case db of None \<Rightarrow> State_Monad.return ()
     | Some db \<Rightarrow> update_DependencyBuild fake_client (markDeployed db) \<bind> (\<lambda>_. State_Monad.return ())))"
  (is "kept K ?m")
proof (rule tripleI)
  fix t r t'
  assume s: "stays K t" and run: "run_state ?m t = (r, t')"
  show "stays K t'"
  proof (cases "dependency_of (fake_cluster t) abr")
    case None
    with run s show ?thesis by (simp add: getDependencyBuild_on_fake)
  next
    case (Some db)
    have so: "sound t" using s by (simp add: stays_def)
    note st = dependency_of_stored [OF so Some]
    from update_DependencyBuild_result [OF so st] Some run stays_marked [OF s st] show ?thesis
      by (auto simp: getDependencyBuild_on_fake)
  qed
qed

lemma kept_handleTaskRunReceived: "kept K (handleTaskRunReceived env fake_client tr)"
  unfolding handleTaskRunReceived_def Let_def by (rule keeping staying kept_mark)+

text \<open>A component build that is found is well formed.\<close>

lemma stored_healthy:
  "stays K t \<Longrightarrow> map_of (componentBuildObjs t) k = Some cb \<Longrightarrow> healthy (metadata cb)"
  using healthy_storeD by (auto simp: stays_def sound_def)

lemma kept_found_build:
  assumes "\<And>err. kept K (f err)" and "\<And>cb. healthy (metadata cb) \<Longrightarrow> kept K (g cb)"
  shows "kept K (get_ComponentBuild fake_client k \<bind> (\<lambda>r. case r of Inl err \<Rightarrow> f err | Inr cb \<Rightarrow> g cb))"
    (is "kept K ?m")
proof (rule tripleI)
  fix t r t'
  assume s: "stays K t" and run: "run_state ?m t = (r, t')"
  show "stays K t'"
  proof (cases "map_of (componentBuildObjs t) k")
    case None
    with run assms(1) [of "NewNotFound componentbuilds (nnName k)"] s show ?thesis
      by (auto simp: tracker_Get_def triple_def)
  next
    case (Some cb)
    with run assms(2) [OF stored_healthy [OF s Some]] s show ?thesis
      by (auto simp: tracker_Get_def triple_def)
  qed
qed

lemma kept_handlePipelineRunReceived: "kept K (handlePipelineRunReceived env fake_client pr)"
proof -
  have up: "healthy (metadata x) \<Longrightarrow> kept K (updateStatus fake_client x)" for x
    unfolding updateStatus_def by (rule keeping staying | assumption)+
  show ?thesis
    unfolding handlePipelineRunReceived_def Let_def
    by (rule keeps_if keeps_return kept_found_build keeping staying up
        kept_handleComponentBuildReceived | simp)+
qed

theorem kept_Reconcile: "kept K (Reconcile env fake_client k)"
proof (rule tripleI)
  fix t r t'
  assume s: "stays K t" and run: "run_state (Reconcile env fake_client k) t = (r, t')"
  have "stays K (snd (run_state (Reconcile env fake_client k) t))"
    unfolding Reconcile_on_fake
    using kept_handleComponentBuildReceived [OF stored_healthy [OF s], of k _ K env]
      kept_handleArtifactBuildReceived [of K env] kept_handleTaskRunReceived [of K env]
      kept_handlePipelineRunReceived [of K env] s
    by (auto simp: triple_def split: option.split)
  then show "stays K t'" by (simp add: run)
qed


section \<open>What a call may change\<close>

definition call :: "env \<Rightarrow> NamespacedName \<Rightarrow> tracker \<Rightarrow> tracker" where
  "call env k t = snd (run_state (Reconcile env fake_client k) t)"

definition process :: "env \<Rightarrow> NamespacedName list \<Rightarrow> tracker \<Rightarrow> tracker" where
  "process env ks t = fold (call env) ks t"

lemma process_simps [simp]:
  "process env [] t = t" "process env (k # ks) t = process env ks (call env k t)"
  "process env (ks @ ls) t = process env ls (process env ks t)"
  by (simp_all add: process_def)

lemma call_rsteps: "keyed (fake_cluster t) \<Longrightarrow> rsteps env (fake_cluster t) (fake_cluster (call env k t))"
  unfolding call_def
  by (rule api_client.Reconcile_rsteps [OF fake.api_client_axioms prod.collapse [symmetric]])

context api_client
begin

lemma handlePipelineRunReceived_keeps_dependencies:
  "keeps ab (\<lambda>c. dependencyBuilds c = D) (handlePipelineRunReceived env cl pr)"
  unfolding handlePipelineRunReceived_def updateStatus_def Let_def
  by (rule handler_keeping handleComponentBuildReceived_keeps_dependencies)+

end

text \<open>A call marks at most one dependency build, and changes no other.\<close>

definition marks_one :: "tracker \<Rightarrow> tracker \<Rightarrow> bool" where
  "marks_one t t' \<longleftrightarrow> map_of (dependencyBuildObjs t') = map_of (dependencyBuildObjs t) \<or>
     (\<exists>db w. map_of (dependencyBuildObjs t) (obj_key db) = Some db
        \<and> map_of (dependencyBuildObjs t') = (map_of (dependencyBuildObjs t))
            (obj_key db \<mapsto> SetResourceVersion (FormatUint w) (markDeployed db)))"

lemma keeps_dependencies_run:
  assumes "\<And>D. keeps fake_cluster (\<lambda>c. dependencyBuilds c = D) m"
  shows "map_of (dependencyBuildObjs (snd (run_state m t))) = map_of (dependencyBuildObjs t)"
  using assms [of "dependencyBuilds (fake_cluster t)"] by (auto simp: triple_def)

lemmas dependencies_kept =
  api_client.handleComponentBuildReceived_keeps_dependencies [OF fake.api_client_axioms, THEN keeps_dependencies_run]
  api_client.handleArtifactBuildReceived_keeps_dependencies [OF fake.api_client_axioms, THEN keeps_dependencies_run]
  api_client.handlePipelineRunReceived_keeps_dependencies [OF fake.api_client_axioms, THEN keeps_dependencies_run]
  api_client.handleTaskRunReceived_unsuccessful [OF fake.api_client_axioms, THEN keeps_dependencies_run]
  api_client.handleTaskRunReceived_ownerless [OF fake.api_client_axioms, THEN keeps_dependencies_run]

lemma marks_one_same: "map_of (dependencyBuildObjs t') = map_of (dependencyBuildObjs t) \<Longrightarrow> marks_one t t'"
  by (simp add: marks_one_def)

lemma handleTaskRunReceived_marks_one:
  assumes "sound t"
  shows "marks_one t (snd (run_state (handleTaskRunReceived env fake_client tr) t))"
proof (cases "IsTrue (trSucceeded tr)
    \<and> ownerOfKind ''artifactbuild'' ''artifactbuilds'' (OwnerReferences (metadata tr)) \<noteq> ''''
    \<and> \<not> (trCompletionTime tr = None \<or> gm_get (Labels (metadata tr)) DeployTaskLabel = '''')")
  case False
  then show ?thesis
    using dependencies_kept(4,5) [of tr env] api_client.handleTaskRunReceived_ignores [OF fake.api_client_axioms, of tr env]
    by (intro marks_one_same) auto
next
  case True
  let ?owner = "ownerOfKind ''artifactbuild'' ''artifactbuilds'' (OwnerReferences (metadata tr))"
  have refs: "OwnerReferences (metadata tr) \<noteq> []" using True by auto
  show ?thesis
  proof (cases "map_of (artifactBuildObjs t) (NamespacedName (obj_ns tr) ?owner)")
    case None
    with True refs show ?thesis
      by (intro marks_one_same) (simp add: handleTaskRunReceived_def Let_def tracker_Get_def fake_Eventf_def)
  next
    case (Some abr)
    show ?thesis
    proof (cases "dependency_of (fake_cluster t) abr")
      case None
      with True refs Some show ?thesis
        by (intro marks_one_same)
          (simp add: handleTaskRunReceived_def Let_def tracker_Get_def getDependencyBuild_on_fake dependencies_kept(2))
    next
      case dep: (Some db)
      note st = dependency_of_stored [OF assms dep]
      from update_DependencyBuild_result [OF assms st] obtain w where
        "run_state (update_DependencyBuild fake_client (markDeployed db)) t =
          (Inr (SetResourceVersion (FormatUint w) (markDeployed db)),
           t\<lparr>dependencyBuildObjs := AList.update (obj_key db) (SetResourceVersion (FormatUint w) (markDeployed db))
               (dependencyBuildObjs t)\<rparr>)" by blast
      with True refs Some dep
      have "map_of (dependencyBuildObjs (snd (run_state (handleTaskRunReceived env fake_client tr) t)))
          = (map_of (dependencyBuildObjs t))(obj_key db \<mapsto> SetResourceVersion (FormatUint w) (markDeployed db))"
        by (auto simp: handleTaskRunReceived_def Let_def tracker_Get_def getDependencyBuild_on_fake
            dependencies_kept(2))
      with st show ?thesis unfolding marks_one_def by blast
    qed
  qed
qed

lemma call_marks_one: "sound t \<Longrightarrow> marks_one t (call env k t)"
  unfolding call_def Reconcile_on_fake
  by (auto split: option.split intro: handleTaskRunReceived_marks_one marks_one_same
      simp: dependencies_kept(1-3))


section \<open>What holds on from one call to the next\<close>

text \<open>
  \<open>follows\<close> is what the reconciler's calls conserve: well-formed stores, everything \<open>conserves\<close> names,
  component builds and dependency builds and their marks; a new artifact build is one that a component
  build plans.
\<close>

definition planned :: "env \<Rightarrow> cluster \<Rightarrow> NamespacedName \<Rightarrow> bool" where
  "planned env c k \<longleftrightarrow>
     (\<exists>k' cb. componentBuilds c k' = Some cb \<and> nnName k \<in> CreateABRName env ` set (Artifacts (cbSpec cb)))"

lemma planned_conserved: "conserves c c' \<Longrightarrow> planned env c' k \<Longrightarrow> planned env c k"
  unfolding planned_def conserves_def by metis

definition marked :: "tracker \<Rightarrow> NamespacedName \<Rightarrow> bool" where
  "marked t k \<longleftrightarrow> is_deployed (map_of (dependencyBuildObjs t) k)"

definition follows :: "env \<Rightarrow> tracker \<Rightarrow> tracker \<Rightarrow> bool" where
  "follows env t t' \<longleftrightarrow>
     stays (dom (map_of (componentBuildObjs t))) t' \<and> keyed (fake_cluster t')
     \<and> conserves (fake_cluster t) (fake_cluster t')
     \<and> (\<forall>k. map_of (artifactBuildObjs t) k = None \<longrightarrow> map_of (artifactBuildObjs t') k \<noteq> None \<longrightarrow>
          planned env (fake_cluster t) k)
     \<and> dom (map_of (dependencyBuildObjs t)) \<subseteq> dom (map_of (dependencyBuildObjs t'))
     \<and> (\<forall>k. marked t k \<longrightarrow> marked t' k)"

lemma follows_refl: "sound t \<Longrightarrow> keyed (fake_cluster t) \<Longrightarrow> follows env t t"
  by (simp add: follows_def stays_def)

lemma follows_trans:
  assumes a: "follows env t t'" and b: "follows env t' t''"
  shows "follows env t t''"
  unfolding follows_def stays_def
proof (intro conjI allI impI)
  note a = a [unfolded follows_def stays_def] and b = b [unfolded follows_def stays_def]
  show "sound t''" "keyed (fake_cluster t'')" using b by (simp_all only:)
  show "dom (map_of (componentBuildObjs t)) \<subseteq> dom (map_of (componentBuildObjs t''))"
    using a [THEN conjunct1, THEN conjunct2] b [THEN conjunct1, THEN conjunct2] by (rule subset_trans)
  show "conserves (fake_cluster t) (fake_cluster t'')"
    using a b by (simp only: conserves_trans [where d = "fake_cluster t'"])
  show "dom (map_of (dependencyBuildObjs t)) \<subseteq> dom (map_of (dependencyBuildObjs t''))"
    by (rule subset_trans [where B = "dom (map_of (dependencyBuildObjs t'))"]) (use a b in \<open>simp_all only:\<close>)
  show "marked t'' k" if "marked t k" for k using a b that by (simp only:)
  have c: "conserves (fake_cluster t) (fake_cluster t')" using a by (simp only:)
  show "planned env (fake_cluster t) k"
    if "map_of (artifactBuildObjs t) k = None" "map_of (artifactBuildObjs t'') k \<noteq> None" for k
  proof (cases "map_of (artifactBuildObjs t') k = None")
    case True
    then have "planned env (fake_cluster t') k" using b that by (simp only: simp_thms)
    then show ?thesis by (rule planned_conserved [OF c])
  next
    case False
    then show ?thesis using a that by (simp only: simp_thms)
  qed
qed

lemma rsteps_new_artifactBuild:
  assumes "rsteps env c c'" and "keyed c" and "artifactBuilds c k = None" and "artifactBuilds c' k \<noteq> None"
  shows "planned env c k"
  using assms(1,4)
proof (induction rule: rtranclp_induct)
  case base
  with assms(3) show ?case by simp
next
  case (step d d')
  show ?case
  proof (cases "artifactBuilds d k")
    case None
    with step(2,4) have "planned env d k"
    proof cases
      case (new_artifact k' cb i x m)
      with None step(4) have "k = obj_key x" "obj_name x = CreateABRName env i"
        by (auto simp: created_def accepted_newArtifactBuild split: if_splits)
      with new_artifact show ?thesis by (auto simp: planned_def)
    qed (use None step(4) in \<open>auto simp: notification_def\<close>)
    then show ?thesis by (rule planned_conserved [OF rsteps_conserves [OF step(1) assms(2)]])
  next
    case (Some y)
    then show ?thesis using step.IH by simp
  qed
qed

lemma is_deployed_marked [simp]: "is_deployed (Some (SetResourceVersion w (markDeployed db)))"
  by (simp add: is_deployed_def SetResourceVersion_def markDeployed_def Let_def)

lemma marks_one_keeps:
  assumes "marks_one t t'"
  shows "dom (map_of (dependencyBuildObjs t)) \<subseteq> dom (map_of (dependencyBuildObjs t'))"
    "marked t k \<Longrightarrow> marked t' k"
  using assms by (auto simp: marks_one_def marked_def)

lemma follows_call:
  assumes "sound t" and "keyed (fake_cluster t)"
  shows "follows env t (call env k t)"
proof -
  note r = call_rsteps [OF assms(2), of env k]
  have "stays (dom (map_of (componentBuildObjs t))) t" using assms(1) by (simp add: stays_def)
  then have "stays (dom (map_of (componentBuildObjs t))) (call env k t)"
    using kept_Reconcile by (auto simp: call_def triple_def)
  then show ?thesis
    using rsteps_keyed [OF r assms(2)] rsteps_conserves [OF r assms(2)] rsteps_new_artifactBuild [OF r assms(2)]
      marks_one_keeps [OF call_marks_one [OF assms(1)]]
    unfolding follows_def by (simp del: dom_map_of_conv_image_fst)
qed

lemma follows_sound: "follows env t t' \<Longrightarrow> sound t' \<and> keyed (fake_cluster t')"
  by (simp add: follows_def stays_def)

lemma follows_process: "sound t \<Longrightarrow> keyed (fake_cluster t) \<Longrightarrow> follows env t (process env ks t)"
proof (induction ks arbitrary: t)
  case Nil
  then show ?case by (simp add: follows_refl)
next
  case (Cons k ks)
  note f = follows_call [OF Cons.prems, of env k]
  then have "follows env (call env k t) (process env ks (call env k t))"
    using Cons.IH follows_sound by blast
  with f show ?case by (simp add: follows_trans)
qed


section \<open>Whom a deploy task belongs to\<close>

definition dependency_name :: "cluster \<Rightarrow> ArtifactBuild \<Rightarrow> string" where
  "dependency_name c abr =
     (case rebuiltArtifacts c (obj_key abr) of None \<Rightarrow> ''''
      | Some ra \<Rightarrow> dependencyOwner '''' (OwnerReferences (metadata ra)))"

lemma dependency_of_name:
  "dependency_of c abr = (if dependency_name c abr = '''' then None
     else dependencyBuilds c (NamespacedName (obj_ns abr) (dependency_name c abr)))"
  by (simp add: dependency_of_def dependency_name_def Let_def split: option.split)

lemma dependency_of_key:
  "keyed c \<Longrightarrow> dependency_of c abr = Some db \<Longrightarrow>
     obj_key db = NamespacedName (obj_ns abr) (dependency_name c abr)"
  by (auto simp: dependency_of_name keyed_def split: if_splits)

definition deploy_owner :: "TaskRun \<Rightarrow> string" where
  "deploy_owner tr = ownerOfKind ''artifactbuild'' ''artifactbuilds'' (OwnerReferences (metadata tr))"

text \<open>A deploy task's owner is an artifact build, and its label that artifact's dependency build.\<close>

definition attributed :: "cluster \<Rightarrow> TaskRun \<Rightarrow> bool" where
  "attributed c x \<longleftrightarrow> deploy_owner x \<noteq> '''' \<and>
     (case artifactBuilds c (NamespacedName (obj_ns x) (deploy_owner x)) of None \<Rightarrow> False
      | Some abr \<Rightarrow> gm_lookup (Labels (metadata x)) DeployTaskLabel = Some (dependency_name c abr))"

definition knows_artifactBuilds :: "env \<Rightarrow> bool" where
  "knows_artifactBuilds env \<longleftrightarrow>
     (case GVKForObject ArtifactBuildType (scheme env) of Inl e \<Rightarrow> False | Inr gvk \<Rightarrow> gvkKind gvk = ''ArtifactBuild'')"

lemma deploy_reason_attributed:
  assumes "deploy_reason env d x" and "keyed d" and "keyed c" and "conserves d c" and "knows_artifactBuilds env"
    and "\<forall>k abr. artifactBuilds c k = Some abr \<longrightarrow> obj_name abr \<noteq> ''''"
  shows "attributed c x"
proof -
  from assms(1) obtain k abr db u ow dm where r: "artifactBuilds d k = Some abr" "dependency_of d abr = Some db"
    "accepted (deployTaskRun env abr db u ow dm) x"
    unfolding deploy_reason_def by (metis (no_types, lifting) case_prodE)
  have "map_le (artifactBuilds d) (artifactBuilds c)" "rebuiltArtifacts c = rebuiltArtifacts d"
    using assms(4) by (simp_all add: conserves_def)
  then have abr: "artifactBuilds c k = Some abr" "dependency_name c abr = dependency_name d abr"
    using r(1) by (auto simp: map_le_def dom_def dependency_name_def)
  have k: "k = obj_key abr" using assms(3) abr(1) unfolding keyed_def by blast
  from assms(5) obtain gvk where "GVKForObject ArtifactBuildType (scheme env) = Inr gvk" "gvkKind gvk = ''ArtifactBuild''"
    by (auto simp: knows_artifactBuilds_def split: sum.splits)
  from deployTaskRun_attributed [OF this] r(3) have "deploy_owner x = obj_name abr" "obj_ns x = obj_ns abr"
    by (auto simp: deploy_owner_def accepted_def)
  moreover have "gm_lookup (Labels (metadata x)) DeployTaskLabel = Some (obj_name db)"
    using r(3) by (auto simp: accepted_def)
  moreover have "obj_name db = dependency_name d abr" using dependency_of_key [OF assms(2) r(2)] by simp
  ultimately show ?thesis using abr k assms(6) by (simp add: attributed_def)
qed


section \<open>The parts of the others\<close>

text \<open>Tekton runs every deploy task that is not finished to its successful end.\<close>

definition task_finished :: "TaskRun \<Rightarrow> TaskRun \<Rightarrow> bool" where
  "task_finished x x' \<longleftrightarrow> obj_key x' = obj_key x \<and> Labels (metadata x') = Labels (metadata x)
     \<and> OwnerReferences (metadata x') = OwnerReferences (metadata x)
     \<and> (if IsUnknown (trSucceeded x) then trCompletionTime x' \<noteq> None \<and> IsTrue (trSucceeded x') else x' = x)"

definition tekton_runs :: "tracker \<Rightarrow> tracker \<Rightarrow> bool" where
  "tekton_runs t t' \<longleftrightarrow>
     list_all2 (\<lambda>(k, x) (k', x'). k' = k \<and> task_finished x x') (taskRunObjs t) (taskRunObjs t')
     \<and> componentBuildObjs t' = componentBuildObjs t \<and> artifactBuildObjs t' = artifactBuildObjs t
     \<and> pipelineRunObjs t' = pipelineRunObjs t \<and> configMapObjs t' = configMapObjs t
     \<and> rebuiltArtifactObjs t' = rebuiltArtifactObjs t \<and> dependencyBuildObjs t' = dependencyBuildObjs t"

lemma list_all2_map_of:
  "list_all2 (\<lambda>(k, x) (k', x'). k' = k \<and> P x x') l l' \<Longrightarrow>
     rel_option P (map_of l k) (map_of l' k)"
  by (induction rule: list_all2_induct) auto

lemma tekton_task:
  "tekton_runs t t' \<Longrightarrow> rel_option task_finished (map_of (taskRunObjs t) k) (map_of (taskRunObjs t') k)"
  unfolding tekton_runs_def by (rule list_all2_map_of) blast

lemma tekton_keyed: "tekton_runs t t' \<Longrightarrow> keyed (fake_cluster t) \<Longrightarrow> keyed (fake_cluster t')"
proof -
  assume a: "tekton_runs t t'" "keyed (fake_cluster t)"
  have "obj_key x = k" if "map_of (taskRunObjs t') k = Some x" for k x
    using tekton_task [OF a(1), of k] that a(2)
    by (auto simp: option_rel_Some2 task_finished_def keyed_def)
  then show ?thesis using a by (simp add: keyed_def tekton_runs_def)
qed

text \<open>
  The build service finishes every artifact build there is: it failed, or it is built and its dependency
  build is known. Component builds, configuration and runs stay, and the stores stay well formed.
\<close>

definition artifact_finished :: "cluster \<Rightarrow> ArtifactBuild \<Rightarrow> bool" where
  "artifact_finished c abr \<longleftrightarrow> Failed (state_of c abr) \<or>
     (abState abr = ArtifactBuildStateComplete \<and>
        (case dependency_of c abr of None \<Rightarrow> False
         | Some db \<Rightarrow> gm_get (Annotations (metadata db)) DeployedAnnotation \<in> {'''', ''true''}))"

definition builds_done :: "tracker \<Rightarrow> tracker \<Rightarrow> bool" where
  "builds_done t t' \<longleftrightarrow>
     list_all (\<lambda>(k, abr). case map_of (artifactBuildObjs t') k of None \<Rightarrow> False
        | Some abr' \<Rightarrow> artifact_finished (fake_cluster t') abr') (artifactBuildObjs t)
     \<and> componentBuildObjs t' = componentBuildObjs t \<and> configMapObjs t' = configMapObjs t
     \<and> taskRunObjs t' = taskRunObjs t \<and> pipelineRunObjs t' = pipelineRunObjs t
     \<and> sound t' \<and> keyed (fake_cluster t')"

lemma builds_done_artifact:
  assumes "builds_done t t'" and "map_of (artifactBuildObjs t) k = Some abr"
  shows "\<exists>abr'. map_of (artifactBuildObjs t') k = Some abr' \<and> artifact_finished (fake_cluster t') abr'"
  using assms(1) map_of_SomeD [OF assms(2)]
  by (auto simp: builds_done_def list_all_iff split: option.splits dest!: bspec)

section \<open>Handling the end of the deploy tasks\<close>

lemma dependency_name_conserved: "conserves c c' \<Longrightarrow> dependency_name c' abr = dependency_name c abr"
  by (simp add: conserves_def dependency_name_def)

text \<open>A finished and attributed deploy task marks the dependency build on its label, once it is handled.\<close>

lemma call_marks:
  assumes "sound t" and "map_of (taskRunObjs t) k = Some x"
    and "map_of (componentBuildObjs t) k = None" and "map_of (artifactBuildObjs t) k = None"
    and "trCompletionTime x \<noteq> None" and "IsTrue (trSucceeded x)" and "attributed (fake_cluster t) x"
    and "gm_lookup (Labels (metadata x)) DeployTaskLabel = Some n" and "n \<noteq> ''''"
    and "NamespacedName (obj_ns x) n \<in> dom (map_of (dependencyBuildObjs t))" and "keyed (fake_cluster t)"
  shows "marked (call env k t) (NamespacedName (obj_ns x) n)"
proof -
  from assms(7,8) obtain abr where abr:
    "map_of (artifactBuildObjs t) (NamespacedName (obj_ns x) (deploy_owner x)) = Some abr"
    "deploy_owner x \<noteq> ''''" "dependency_name (fake_cluster t) abr = n"
    by (auto simp: attributed_def split: option.splits)
  have key: "obj_key abr = NamespacedName (obj_ns x) (deploy_owner x)"
    using assms(11) abr(1) by (simp add: keyed_def)
  from assms(10) obtain db where db: "map_of (dependencyBuildObjs t) (NamespacedName (obj_ns x) n) = Some db"
    by blast
  then have dep: "dependency_of (fake_cluster t) abr = Some db"
    using abr(3) assms(9) key by (simp add: dependency_of_name)
  have st: "map_of (dependencyBuildObjs t) (obj_key db) = Some db" "obj_key db = NamespacedName (obj_ns x) n"
    using dependency_of_stored [OF assms(1) dep] dependency_of_key [OF assms(11) dep] abr(3) key by simp_all
  have h: "healthy (metadata db)" using healthy_storeD [OF _ st(1)] assms(1) by (simp add: sound_def)
  then obtain v where v: "ParseUint64 (ResourceVersion (metadata db)) = Some v" by (auto simp: healthy_def)
  have f: "finished_deploy x (deploy_owner x)"
    using assms(5,8,9) abr(2) by (auto simp: finished_deploy_def deploy_owner_def gm_get_def)
  have "map_of (dependencyBuildObjs (snd (run_state (handleTaskRunReceived env fake_client x) t)))
      = (map_of (dependencyBuildObjs t)) (obj_key db \<mapsto> SetResourceVersion (FormatUint (v + 1)) (markDeployed db))"
    by (rule handleTaskRunReceived_marks [OF f assms(6) abr(1) dep st(1)]) (use h v in \<open>simp_all add: healthy_def\<close>)
  then show ?thesis
    using assms(2-4) st(2) by (simp add: call_def Reconcile_on_fake marked_def)
qed


lemma attributed_conserved: "conserves c c' \<Longrightarrow> attributed c x \<Longrightarrow> attributed c' x"
  by (auto simp: attributed_def conserves_def map_le_def dom_def dependency_name_def split: option.splits)

lemma conserved_absent: "conserves c c' \<Longrightarrow> componentBuilds c k = None \<Longrightarrow> componentBuilds c' k = None"
  unfolding conserves_def by (metis option.exhaust option.discI)

lemma process_marks:
  assumes "sound t" and "keyed (fake_cluster t)" and "k \<in> set ks" and "map_of (taskRunObjs t) k = Some x"
    and "map_of (componentBuildObjs t) k = None" and "map_of (artifactBuildObjs t) k = None"
    and "\<not> planned env (fake_cluster t) k"
    and "trCompletionTime x \<noteq> None" and "IsTrue (trSucceeded x)" and "attributed (fake_cluster t) x"
    and "gm_lookup (Labels (metadata x)) DeployTaskLabel = Some n" and "n \<noteq> ''''"
    and "NamespacedName (obj_ns x) n \<in> dom (map_of (dependencyBuildObjs t))"
  shows "marked (process env ks t) (NamespacedName (obj_ns x) n)"
proof -
  obtain xs ys where ks: "ks = xs @ k # ys" using split_list [OF assms(3)] by blast
  let ?t = "process env xs t"
  have f: "follows env t ?t" by (rule follows_process [OF assms(1,2)])
  then have c: "conserves (fake_cluster t) (fake_cluster ?t)" and s: "sound ?t" "keyed (fake_cluster ?t)"
    by (simp_all add: follows_def stays_def)
  have "map_of (taskRunObjs ?t) k = Some x"
    using c assms(4) by (auto simp: conserves_def map_le_def dom_def)
  moreover have "map_of (componentBuildObjs ?t) k = None" using conserved_absent [OF c] assms(5) by simp
  moreover have "map_of (artifactBuildObjs ?t) k = None"
    using f assms(6,7) unfolding follows_def by blast
  moreover have "NamespacedName (obj_ns x) n \<in> dom (map_of (dependencyBuildObjs ?t))"
    using f assms(13) unfolding follows_def by blast
  ultimately have "marked (call env k ?t) (NamespacedName (obj_ns x) n)"
    by (intro call_marks [OF s(1) _ _ _ assms(8,9) attributed_conserved [OF c assms(10)] assms(11,12) _ s(2)])
  moreover have "follows env (call env k ?t) (process env ys (call env k ?t))"
    using follows_sound [OF follows_call [OF s]] by (intro follows_process) blast+
  ultimately show ?thesis by (simp add: ks follows_def)
qed

section \<open>The rounds\<close>

text \<open>The phases of a component build's artifacts are settled when their dependency builds are marked.\<close>

lemma Failed_state_of: "Failed (state_of c abr) = Failed (state_of c' abr)"
  by (simp add: state_of_def)

lemma phase_settled:
  assumes "artifactBuilds c (artifact_key env ns i) = Some abr"
    and "Failed (state_of c abr) \<or> abState abr = ArtifactBuildStateComplete \<and> is_deployed (dependency_of c abr)"
  shows "settled (phase env c ns i)" "Failed (phase env c ns i) = Failed (state_of c abr)"
  using assms by (auto simp: phase_def settled_def Done_iff)

text \<open>Handling the component build, in one call.\<close>

lemma call_component_build:
  assumes "ready env t cb" and "k = obj_key cb"
  shows "map_of (componentBuildObjs (call env k t))
       = (map_of (componentBuildObjs t))(k \<mapsto> restated env (fake_cluster t) cb)"
    "\<forall>i \<in> set (Artifacts (cbSpec cb)). served env (obj_ns cb) (fake_cluster (call env k t)) i"
    "fst (run_state (Reconcile env fake_client k) t) = (emptyResult, None)"
    "map_of (dependencyBuildObjs (call env k t)) = map_of (dependencyBuildObjs t)"
proof -
  have run: "run_state (Reconcile env fake_client k) t = run_state (handleComponentBuildReceived env fake_client cb) t"
    using assms by (simp add: Reconcile_on_fake ready_def prepared_def)
  from handleComponentBuildReceived_total [OF assms(1)] obtain t' where t':
    "run_state (handleComponentBuildReceived env fake_client cb) t = ((emptyResult, None), t')"
    "componentBuilds (fake_cluster t') = (componentBuilds (fake_cluster t))(obj_key cb \<mapsto> restated env (fake_cluster t) cb)"
    "\<forall>i \<in> set (Artifacts (cbSpec cb)). served env (obj_ns cb) (fake_cluster t') i" by blast
  show "map_of (componentBuildObjs (call env k t))
       = (map_of (componentBuildObjs t))(k \<mapsto> restated env (fake_cluster t) cb)"
    "\<forall>i \<in> set (Artifacts (cbSpec cb)). served env (obj_ns cb) (fake_cluster (call env k t)) i"
    "fst (run_state (Reconcile env fake_client k) t) = (emptyResult, None)"
    using t' run assms(2) by (simp_all add: call_def)
  show "map_of (dependencyBuildObjs (call env k t)) = map_of (dependencyBuildObjs t)"
    by (simp add: call_def run dependencies_kept(1))
qed


text \<open>
  What is asked of the others' objects: deploy tasks that are under way belong to an artifact build,
  artifact builds have names, and no task run has the name of another object.
\<close>

definition deploys_attributed :: "tracker \<Rightarrow> bool" where
  "deploys_attributed t \<longleftrightarrow>
     list_all (\<lambda>(k, x). IsUnknown (trSucceeded x) \<longrightarrow> attributed (fake_cluster t) x) (taskRunObjs t)"

definition builds_named :: "env \<Rightarrow> tracker \<Rightarrow> bool" where
  "builds_named env t \<longleftrightarrow>
     list_all (\<lambda>(k, abr). obj_name abr \<noteq> '''') (artifactBuildObjs t)
     \<and> list_all (\<lambda>(k, cb). '''' \<notin> CreateABRName env ` set (Artifacts (cbSpec cb))) (componentBuildObjs t)"

definition tasks_distinct :: "env \<Rightarrow> tracker \<Rightarrow> bool" where
  "tasks_distinct env t \<longleftrightarrow>
     list_all (\<lambda>(k, x). map_of (componentBuildObjs t) k = None \<and> map_of (artifactBuildObjs t) k = None
        \<and> list_all (\<lambda>(k', cb). nnName k \<notin> CreateABRName env ` set (Artifacts (cbSpec cb)))
            (componentBuildObjs t)) (taskRunObjs t)"

lemma planned_listed:
  "planned env (fake_cluster t) k \<Longrightarrow>
     \<exists>(k', cb) \<in> set (componentBuildObjs t). nnName k \<in> CreateABRName env ` set (Artifacts (cbSpec cb))"
  by (auto simp: planned_def dest!: map_of_SomeD)

lemma builds_named_after:
  assumes "builds_named env t" and "follows env t t'" and "map_of (artifactBuildObjs t') k = Some abr"
  shows "obj_name abr \<noteq> ''''"
proof -
  have key: "obj_key abr = k" using assms(2,3) by (simp add: follows_def keyed_def)
  show ?thesis
  proof (cases "map_of (artifactBuildObjs t) k")
    case None
    with assms(2,3) have "planned env (fake_cluster t) k" unfolding follows_def by blast
    with key assms(1) show ?thesis
      by (auto simp: builds_named_def list_all_iff dest!: planned_listed)
  next
    case (Some y)
    with assms(2,3) have "y = abr" by (auto simp: follows_def conserves_def map_le_def dom_def)
    with Some assms(1) show ?thesis by (auto simp: builds_named_def list_all_iff dest!: map_of_SomeD)
  qed
qed

text \<open>After the handling of built artifacts there is an attributed deploy task for each unmarked one.\<close>

lemma deploy_under_way:
  assumes "ready env t cb" and "sound t" and "keyed (fake_cluster t)" and "knows_artifactBuilds env"
    and "builds_named env t" and "deploys_attributed t" and "obj_ns cb \<noteq> ''''"
    and "i \<in> set (Artifacts (cbSpec cb))" and "t' = call env (obj_key cb) t"
    and "map_of (artifactBuildObjs t) (artifact_key env (obj_ns cb) i) = Some abr"
    and "abState abr = ArtifactBuildStateComplete" and "dependency_of (fake_cluster t) abr = Some db"
    and "gm_get (Annotations (metadata db)) DeployedAnnotation = ''''"
  shows "\<exists>k x. map_of (taskRunObjs t') k = Some x \<and> IsUnknown (trSucceeded x) \<and> obj_ns x = obj_ns cb
     \<and> gm_lookup (Labels (metadata x)) DeployTaskLabel = Some (obj_name db) \<and> attributed (fake_cluster t') x"
proof -
  have f: "follows env t t'" unfolding assms(9) by (rule follows_call [OF assms(2,3)])
  then have c: "conserves (fake_cluster t) (fake_cluster t')" and s: "keyed (fake_cluster t')"
    by (simp_all add: follows_def)
  have abr: "map_of (artifactBuildObjs t') (artifact_key env (obj_ns cb) i) = Some abr"
    using c assms(10) by (auto simp: conserves_def map_le_def dom_def)
  have ns: "obj_ns abr = obj_ns cb" using assms(3,10) by (auto simp: keyed_def artifact_key_def)
  have dep: "dependency_of (fake_cluster t') abr = Some db"
    using assms(12) call_component_build(4) [OF assms(1) refl] dependency_name_conserved [OF c]
    by (simp add: dependency_of_name assms(9) split: if_splits)
  have "served env (obj_ns cb) (fake_cluster t') i"
    using call_component_build(2) [OF assms(1) refl] assms(8,9) by blast
  then have "\<not> deploy_due (fake_cluster t') abr db"
    using abr assms(11) by (auto simp: served_def deploy_settled_def)
  then obtain k x where x: "map_of (taskRunObjs t') k = Some x" "IsUnknown (trSucceeded x)"
    "obj_ns x = obj_ns cb" "gm_lookup (Labels (metadata x)) DeployTaskLabel = Some (obj_name db)"
    using dep assms(7,13) ns by (auto simp: deploy_due_def selected_def)
  have "attributed (fake_cluster t') x"
  proof (cases "map_of (taskRunObjs t) k")
    case (Some y)
    then have "y = x" using c x(1) by (auto simp: conserves_def map_le_def dom_def)
    with Some assms(6) x(2) have "attributed (fake_cluster t) x"
      by (auto simp: deploys_attributed_def list_all_iff dest!: map_of_SomeD)
    then show ?thesis by (rule attributed_conserved [OF c])
  next
    case None
    have "taskRuns (fake_cluster t') k = Some x" "taskRuns (fake_cluster t) k = None"
      using None x(1) by simp_all
    from rsteps_appears [where sel = taskRuns and R = "deploy_reason env",
        OF call_rsteps [OF assms(3), of env "obj_key cb", folded assms(9)] this]
    obtain d where d: "rsteps env (fake_cluster t) d" "rsteps env d (fake_cluster t')" "deploy_reason env d x"
      using rstep_new_taskRun rstep_taskRuns_kept by blast
    have kd: "keyed d" using rsteps_keyed [OF d(1) assms(3)] .
    show ?thesis
      by (rule deploy_reason_attributed [OF d(3) kd s rsteps_conserves [OF d(2) kd] assms(4)])
        (use builds_named_after [OF assms(5) f] in simp)
  qed
  with x show ?thesis by blast
qed


text \<open>After the deploy tasks have run and their ends have been handled, an artifact that was built is marked.\<close>

lemma built_marked:
  assumes "ready env t2 cb" and "sound t2" and "keyed (fake_cluster t2)" and "knows_artifactBuilds env"
    and "builds_named env t2" and "deploys_attributed t2" and "obj_ns cb \<noteq> ''''"
    and "i \<in> set (Artifacts (cbSpec cb))" and "t3 = call env (obj_key cb) t2"
    and "tekton_runs t3 t4" and "tasks_distinct env t4" and "fst ` set (taskRunObjs t4) \<subseteq> set ks"
    and "map_of (artifactBuildObjs t2) (artifact_key env (obj_ns cb) i) = Some abr"
    and "abState abr = ArtifactBuildStateComplete" and "artifact_finished (fake_cluster t2) abr"
  shows "dependency_name (fake_cluster t2) abr \<noteq> ''''"
    "marked (process env ks t4) (NamespacedName (obj_ns cb) (dependency_name (fake_cluster t2) abr))"
proof -
  let ?n = "dependency_name (fake_cluster t2) abr"
  have ns: "obj_ns abr = obj_ns cb" using assms(3,13) by (auto simp: keyed_def artifact_key_def)
  have "\<not> Failed (state_of (fake_cluster t2) abr)"
    using assms(14) by (simp add: ArtifactBuildStateComplete_def ArtifactBuildStateFailed_def ArtifactBuildStateMissing_def)
  then obtain db where dep: "dependency_of (fake_cluster t2) abr = Some db"
    and ann: "gm_get (Annotations (metadata db)) DeployedAnnotation \<in> {'''', ''true''}"
    using assms(15) by (auto simp: artifact_finished_def split: option.splits)
  show n: "?n \<noteq> ''''" using dep by (auto simp: dependency_of_name)
  have db: "map_of (dependencyBuildObjs t2) (NamespacedName (obj_ns cb) ?n) = Some db"
    using dep n ns by (simp add: dependency_of_name)
  have name: "obj_name db = ?n" using dependency_of_key [OF assms(3) dep] by simp
  have f3: "follows env t2 t3" unfolding assms(9) by (rule follows_call [OF assms(2,3)])
  then have s3: "sound t3" "keyed (fake_cluster t3)" by (simp_all add: follows_def stays_def)
  have s4: "sound t4" "keyed (fake_cluster t4)"
    using s3 assms(10) tekton_keyed by (auto simp: sound_def tekton_runs_def)
  have same: "dependencyBuildObjs t4 = dependencyBuildObjs t3" "artifactBuildObjs t4 = artifactBuildObjs t3"
    "rebuiltArtifactObjs t4 = rebuiltArtifactObjs t3" "componentBuildObjs t4 = componentBuildObjs t3"
    using assms(10) by (simp_all add: tekton_runs_def)
  show "marked (process env ks t4) (NamespacedName (obj_ns cb) ?n)"
  proof (cases "gm_get (Annotations (metadata db)) DeployedAnnotation = ''true''")
    case True
    then have "marked t2 (NamespacedName (obj_ns cb) ?n)" using db by (simp add: marked_def is_deployed_def)
    then have "marked t4 (NamespacedName (obj_ns cb) ?n)" using f3 same by (simp add: follows_def marked_def)
    then show ?thesis using follows_process [OF s4, of env ks] by (simp add: follows_def)
  next
    case False
    with ann have "gm_get (Annotations (metadata db)) DeployedAnnotation = ''''" by simp
    from deploy_under_way [OF assms(1-9,13,14) dep this] name obtain k x where x:
      "map_of (taskRunObjs t3) k = Some x" "IsUnknown (trSucceeded x)" "obj_ns x = obj_ns cb"
      "gm_lookup (Labels (metadata x)) DeployTaskLabel = Some ?n" "attributed (fake_cluster t3) x" by auto
    from tekton_task [OF assms(10), of k] x(1,2) obtain x' where x': "map_of (taskRunObjs t4) k = Some x'"
      "obj_key x' = obj_key x" "Labels (metadata x') = Labels (metadata x)"
      "OwnerReferences (metadata x') = OwnerReferences (metadata x)"
      "trCompletionTime x' \<noteq> None" "IsTrue (trSucceeded x')"
      by (auto simp: option_rel_Some1 task_finished_def)
    have "dependency_name (fake_cluster t4) = dependency_name (fake_cluster t3)"
      by (simp add: fun_eq_iff dependency_name_def same)
    then have att: "attributed (fake_cluster t4) x'"
      using x(5) x' same
      by (simp add: attributed_def deploy_owner_def cong: option.case_cong)
    have "(k, x') \<in> set (taskRunObjs t4)" using map_of_SomeD [OF x'(1)] .
    with assms(11) have k: "map_of (componentBuildObjs t4) k = None" "map_of (artifactBuildObjs t4) k = None"
      "\<forall>(k', b) \<in> set (componentBuildObjs t4). nnName k \<notin> CreateABRName env ` set (Artifacts (cbSpec b))"
      unfolding tasks_distinct_def list_all_iff by (blast, blast, blast)
    have "k \<in> set ks" using \<open>(k, x') \<in> set (taskRunObjs t4)\<close> assms(12) by force
    have p: "\<not> planned env (fake_cluster t4) k" using k(3) by (auto dest!: planned_listed)
    have "map_of (dependencyBuildObjs t4) (NamespacedName (obj_ns x') ?n) \<noteq> None"
      using f3 db same x(3) x'(2) unfolding follows_def by auto
    then have "NamespacedName (obj_ns x') ?n \<in> dom (map_of (dependencyBuildObjs t4))" by blast
    from process_marks [OF s4 \<open>k \<in> set ks\<close> x'(1) k(1,2) p x'(5,6) att _ n this] x(3,4) x'(2,3) show ?thesis by simp
  qed
qed


lemma prepared_follows:
  assumes "prepared env t cb" and "follows env t t'"
  shows "\<exists>cb'. map_of (componentBuildObjs t') (obj_key cb) = Some cb' \<and> obj_key cb' = obj_key cb
     \<and> cbSpec cb' = cbSpec cb \<and> prepared env t' cb'"
proof -
  from assms(2) have c: "conserves (fake_cluster t) (fake_cluster t')" and s: "sound t'"
    and d: "dom (map_of (componentBuildObjs t)) \<subseteq> dom (map_of (componentBuildObjs t'))"
    unfolding follows_def stays_def by blast+
  have "obj_key cb \<in> dom (map_of (componentBuildObjs t))" using assms(1) by (auto simp: prepared_def)
  with d obtain cb' where cb': "map_of (componentBuildObjs t') (obj_key cb) = Some cb'" by blast
  have spec: "cbSpec cb' = cbSpec cb" using c cb' assms(1) by (force simp: conserves_def prepared_def)
  from healthy_storeD [OF _ cb'] s have h: "obj_key cb' = obj_key cb" "healthy (metadata cb')"
    by (simp_all add: sound_def)
  have "config_of (fake_cluster t') = config_of (fake_cluster t)"
    using c by (simp add: conserves_def config_of_def fun_eq_iff)
  then have "prepared env t' cb'"
    using assms(1) cb' spec h by (simp add: prepared_def healthy_def configured_def)
  with cb' spec h show ?thesis by blast
qed

lemma prepared_frame:
  assumes "prepared env t cb" and "componentBuildObjs t' = componentBuildObjs t"
    and "configMapObjs t' = configMapObjs t"
  shows "prepared env t' cb"
  using assms by (simp add: prepared_def configured_def config_of_def)

text \<open>The phases after the rounds: every artifact is settled, and has failed just when its build had.\<close>

lemma rounds_settle:
  assumes "ready env t2 cb" and "sound t2" and "keyed (fake_cluster t2)" and "knows_artifactBuilds env"
    and "builds_named env t2" and "deploys_attributed t2" and "obj_ns cb \<noteq> ''''"
    and "i \<in> set (Artifacts (cbSpec cb))" and "t3 = call env (obj_key cb) t2"
    and "tekton_runs t3 t4" and "tasks_distinct env t4" and "fst ` set (taskRunObjs t4) \<subseteq> set ks"
    and "map_of (artifactBuildObjs t2) (artifact_key env (obj_ns cb) i) = Some abr"
    and "artifact_finished (fake_cluster t2) abr"
  shows "settled (phase env (fake_cluster (process env ks t4)) (obj_ns cb) i)
     \<and> Failed (phase env (fake_cluster (process env ks t4)) (obj_ns cb) i) = Failed (phase env (fake_cluster t2) (obj_ns cb) i)"
proof -
  let ?t5 = "process env ks t4"
  have f3: "follows env t2 t3" unfolding assms(9) by (rule follows_call [OF assms(2,3)])
  then have s3: "sound t3" "keyed (fake_cluster t3)" by (simp_all add: follows_def stays_def)
  have s4: "sound t4" "keyed (fake_cluster t4)"
    using s3 assms(10) tekton_keyed by (auto simp: sound_def tekton_runs_def)
  note f5 = follows_process [OF s4, of env ks]
  have c3: "conserves (fake_cluster t2) (fake_cluster t3)" using f3 by (simp add: follows_def)
  have c5: "conserves (fake_cluster t4) (fake_cluster ?t5)" using f5 by (simp add: follows_def)
  have abr: "map_of (artifactBuildObjs ?t5) (artifact_key env (obj_ns cb) i) = Some abr"
    using c3 c5 assms(10,13) by (auto simp: conserves_def map_le_def dom_def tekton_runs_def)
  have ns: "obj_ns abr = obj_ns cb" using assms(3,13) by (auto simp: keyed_def artifact_key_def)
  have "Failed (state_of (fake_cluster ?t5) abr)
      \<or> abState abr = ArtifactBuildStateComplete \<and> is_deployed (dependency_of (fake_cluster ?t5) abr)"
  proof (cases "Failed (state_of (fake_cluster t2) abr)")
    case True
    then show ?thesis using Failed_state_of by blast
  next
    case False
    then have complete: "abState abr = ArtifactBuildStateComplete"
      using assms(14) by (auto simp: artifact_finished_def)
    have "dependency_name (fake_cluster ?t5) abr = dependency_name (fake_cluster t2) abr"
      using dependency_name_conserved [OF c3, of abr] dependency_name_conserved [OF c5, of abr] assms(10)
      by (simp add: dependency_name_def tekton_runs_def)
    then show ?thesis
      using built_marked [OF assms(1-13) complete assms(14)] complete ns
      by (simp add: dependency_of_name marked_def)
  qed
  from phase_settled [OF _ this, of env "obj_ns cb" i] abr
    phase_stored [of "fake_cluster t2" "obj_ns cb" env i abr] assms(13) Failed_state_of [of _ abr "fake_cluster t2"]
  show ?thesis by (simp add: artifact_key_def)
qed


section \<open>The operator completes\<close>

text \<open>Handling a component build whose artifacts are settled finishes it and sees to its notification.\<close>

lemma selected_in_flight:
  "ns \<noteq> '''' \<Longrightarrow> selected (\<lambda>x. gm_lookup (Labels (metadata x)) lbl = Some subject \<and> unfinished x) ns m
     = in_flight lbl unfinished m ns subject"
  by (auto simp: selected_def in_flight_def)

lemma notified_in_flight:
  assumes "notified env cb c c'"
  shows "notifies_in_flight c' (obj_ns cb) (obj_name cb) \<noteq> {}"
proof -
  from assms obtain msg qty x where "created (pipelineRuns c) (notifyPipelineRun env cb msg qty) x (pipelineRuns c')"
    by (auto simp: notified_def)
  then have "pipelineRuns c' (obj_key x) = Some x" "obj_ns x = obj_ns cb"
    "gm_lookup (Labels (metadata x)) NotifyPipelineLabel = Some (obj_name cb)" "prConditions x = []"
    by (auto simp: created_def accepted_def)
  then have "obj_key x \<in> notifies_in_flight c' (obj_ns cb) (obj_name cb)"
    by (simp add: notifies_in_flight_def in_flight_def)
  then show ?thesis by blast
qed

lemma settled_completes:
  assumes "ready env t cb" and "obj_ns cb \<noteq> ''''"
    and "\<forall>i \<in> set (Artifacts (cbSpec cb)). settled (phase env (fake_cluster t) (obj_ns cb) i)"
    and "t' = call env (obj_key cb) t"
  shows "\<exists>cb'. map_of (componentBuildObjs t') (obj_key cb) = Some cb' \<and> cbSpec cb' = cbSpec cb
     \<and> State (cbStatus cb') =
         (if \<exists>i \<in> set (Artifacts (cbSpec cb)). Failed (phase env (fake_cluster t) (obj_ns cb) i)
          then ComponentBuildStateFailed else ComponentBuildStateComplete)
     \<and> Outstanding (cbStatus cb') = 0
     \<and> (PRURL (cbSpec cb) = '''' \<or> ResultNotified (cbStatus cb')
        \<or> notifies_in_flight (fake_cluster t') (obj_ns cb) (obj_name cb) \<noteq> {})"
proof -
  let ?st = "expected_status env (fake_cluster t) cb"
  have zero: "outstanding_count env (fake_cluster t) (obj_ns cb) (Artifacts (cbSpec cb)) = 0"
    using assms(3) by (simp add: outstanding_count_zero)
  then have st: "Outstanding ?st = 0" "ResultNotified ?st = ResultNotified (cbStatus cb)"
    "State ?st = (if \<exists>i \<in> set (Artifacts (cbSpec cb)). Failed (phase env (fake_cluster t) (obj_ns cb) i)
       then ComponentBuildStateFailed else ComponentBuildStateComplete)"
    by (simp_all add: expected_status_def Let_def)
  have r: "cbStatus (restated env (fake_cluster t) cb) = ?st" "cbSpec (restated env (fake_cluster t) cb) = cbSpec cb"
    by (simp_all add: restated_def SetResourceVersion_def)
  from handleComponentBuildReceived_total [OF assms(1)] obtain t1 where
    run: "run_state (handleComponentBuildReceived env fake_client cb) t = ((emptyResult, None), t1)" by blast
  have "t' = t1" using assms(1,4) run by (simp add: call_def Reconcile_on_fake ready_def prepared_def)
  with reliable_client.handleComponentBuildReceived_notifies [OF fake.reliable_client_axioms,
      unfolded writes_def, rule_format, OF run]
  have n: "if must_notify env (fake_cluster t) cb
      then notified env (cb\<lparr>cbStatus := ?st\<rparr>) (fake_cluster t) (fake_cluster t')
      else pipelineRuns (fake_cluster t') = pipelineRuns (fake_cluster t)"
    by (simp split: if_splits)
  have "PRURL (cbSpec cb) = '''' \<or> ResultNotified ?st
      \<or> notifies_in_flight (fake_cluster t') (obj_ns cb) (obj_name cb) \<noteq> {}"
  proof (cases "must_notify env (fake_cluster t) cb")
    case True
    then show ?thesis using n notified_in_flight [of env "cb\<lparr>cbStatus := ?st\<rparr>"] by simp
  next
    case False
    with n have "pipelineRuns (fake_cluster t') = pipelineRuns (fake_cluster t)" by simp
    with False zero assms(1,2) st(2) show ?thesis
      by (auto simp: must_notify_def ready_def prepared_def result_ready_def notify_due_def notifies_in_flight_def
          selected_in_flight)
  qed
  with st r call_component_build(1) [OF assms(1) refl] show ?thesis by (simp add: assms(4))
qed

text \<open>
  C20. The operator gets a component build done. Suppose the build service finishes every artifact build
  once the component build has been handled, Tekton successfully runs the deploy tasks that are started
  when it is handled again, and the ends of these tasks are handled in any order, together with any
  other requests. Then handling the component build once more returns no error and leaves it failed if
  an artifact's build has failed and complete otherwise, with nothing outstanding; and when it names a
  pull request its result is notified or a notification is under way.
\<close>

theorem operator_completes:
  assumes "ready env t0 cb" and "sound t0" and "keyed (fake_cluster t0)"
    and "knows_artifactBuilds env" and "obj_ns cb \<noteq> ''''"
    and "builds_done (call env (obj_key cb) t0) t2" and "builds_named env t2" and "deploys_attributed t2"
    and "spare (length (Artifacts (cbSpec cb)) + 1) t2"
    and "tekton_runs (call env (obj_key cb) t2) t4" and "tasks_distinct env t4"
    and "fst ` set (taskRunObjs t4) \<subseteq> set ks"
    and "spare (length (Artifacts (cbSpec cb)) + 1) (process env ks t4)"
  shows "fst (run_state (Reconcile env fake_client (obj_key cb)) (process env ks t4)) = (emptyResult, None)
    \<and> (\<exists>cb'. map_of (componentBuildObjs (call env (obj_key cb) (process env ks t4))) (obj_key cb) = Some cb'
         \<and> cbSpec cb' = cbSpec cb
         \<and> State (cbStatus cb') =
             (if \<exists>i \<in> set (Artifacts (cbSpec cb)). Failed (phase env (fake_cluster t2) (obj_ns cb) i)
              then ComponentBuildStateFailed else ComponentBuildStateComplete)
         \<and> Outstanding (cbStatus cb') = 0
         \<and> (PRURL (cbSpec cb) = '''' \<or> ResultNotified (cbStatus cb')
            \<or> notifies_in_flight (fake_cluster (call env (obj_key cb) (process env ks t4)))
                (obj_ns cb) (obj_name cb) \<noteq> {}))"
proof -
  let ?k = "obj_key cb" and ?n = "length (Artifacts (cbSpec cb)) + 1" and ?t5 = "process env ks t4"
  let ?t1 = "call env ?k t0" and ?t3 = "call env ?k t2"
  have f1: "follows env t0 ?t1" by (rule follows_call [OF assms(2,3)])
  have s2: "sound t2" "keyed (fake_cluster t2)" and b: "componentBuildObjs t2 = componentBuildObjs ?t1"
    "configMapObjs t2 = configMapObjs ?t1" using assms(6) by (simp_all add: builds_done_def)
  have p0: "prepared env t0 cb" using assms(1) by (simp add: ready_def)
  from prepared_follows [OF p0 f1] obtain cb2 where cb2: "obj_key cb2 = ?k" "cbSpec cb2 = cbSpec cb"
    "prepared env ?t1 cb2" by blast
  have r2: "ready env t2 cb2"
    using prepared_frame [OF cb2(3) b] assms(9) cb2(2) by (simp add: ready_def)
  have f3: "follows env t2 ?t3" by (rule follows_call [OF s2])
  then have s3: "sound ?t3" "keyed (fake_cluster ?t3)" by (simp_all add: follows_def stays_def)
  have s4: "sound t4" "keyed (fake_cluster t4)"
    using s3 assms(10) tekton_keyed by (auto simp: sound_def tekton_runs_def)
  have p2: "prepared env t2 cb2" using r2 by (simp add: ready_def)
  from prepared_follows [OF p2 f3] cb2 obtain cb3 where cb3: "obj_key cb3 = ?k" "cbSpec cb3 = cbSpec cb"
    "prepared env ?t3 cb3" by auto
  have p4: "prepared env t4 cb3"
    by (rule prepared_frame [OF cb3(3)]) (use assms(10) in \<open>simp_all add: tekton_runs_def\<close>)
  from prepared_follows [OF p4 follows_process [OF s4, of env ks]] cb3 obtain cb5 where cb5:
    "obj_key cb5 = ?k" "cbSpec cb5 = cbSpec cb" "prepared env ?t5 cb5" by auto
  have r5: "ready env ?t5 cb5" using cb5 assms(13) by (simp add: ready_def)
  have settle: "settled (phase env (fake_cluster ?t5) (obj_ns cb) i)
      \<and> Failed (phase env (fake_cluster ?t5) (obj_ns cb) i) = Failed (phase env (fake_cluster t2) (obj_ns cb) i)"
    if i: "i \<in> set (Artifacts (cbSpec cb))" for i
  proof -
    have "served env (obj_ns cb) (fake_cluster ?t1) i"
      using call_component_build(2) [OF assms(1) refl] i by blast
    then obtain abr1 where "map_of (artifactBuildObjs ?t1) (artifact_key env (obj_ns cb) i) = Some abr1"
      by (auto simp: served_def)
    from builds_done_artifact [OF assms(6) this] obtain abr where
      "map_of (artifactBuildObjs t2) (artifact_key env (obj_ns cb) i) = Some abr"
      "artifact_finished (fake_cluster t2) abr" by blast
    from rounds_settle [OF r2 s2 assms(4,7,8) _ _ _ assms(10-12), of i abr] this i cb2 assms(5)
    show ?thesis by simp
  qed
  show ?thesis
    using call_component_build(3) [OF r5, of ?k] settled_completes [OF r5 _ _ refl] settle cb5 assms(5)
    by simp
qed


section \<open>A run of the rounds\<close>

text \<open>Two artifacts, one of which fails.\<close>

definition live_build :: ComponentBuild where
  "live_build = SetResourceVersion ''1''
     (test_componentBuild ''https://test.com/pr/1'' [''com.test:test:1.0'', ''com.test:other:1.0''])"

definition live_start :: tracker where
  "live_start = test_tracker\<lparr>componentBuildObjs := [(test_key ''test'', live_build)],
     randomStrings := [''bcdfg'', ''hjklm'', ''npqrs'', ''tvwxz'', ''b2456'', ''c2456'', ''d2456'']\<rparr>"

definition live_built :: tracker where
  "live_built = snd (run_state (do {
       built ''com.test:test:1.0'' ''com.test.test.1.0'' ''test-db'';
       on_ArtifactBuild (test_key ''com.test.other.1.0'') (\<lambda>x. x\<lparr>abState := ArtifactBuildStateFailed\<rparr>)
     }) (call test_env (test_key ''test'') live_start))"

definition live_run :: tracker where
  "live_run =
     (let t = call test_env (test_key ''test'') live_built in
      t\<lparr>taskRunObjs := map (\<lambda>(k, x). (k, complete_TaskRun x)) (taskRunObjs t)\<rparr>)"

text \<open>Keys, in a form that evaluates.\<close>

definition well_keyed :: "tracker \<Rightarrow> bool" where
  "well_keyed t \<longleftrightarrow>
     list_all (\<lambda>(k, x). obj_key x = k) (componentBuildObjs t)
     \<and> list_all (\<lambda>(k, x). obj_key x = k) (artifactBuildObjs t)
     \<and> list_all (\<lambda>(k, x). obj_key x = k) (taskRunObjs t)
     \<and> list_all (\<lambda>(k, x). obj_key x = k) (pipelineRunObjs t)
     \<and> list_all (\<lambda>(k, x). obj_key x = k) (dependencyBuildObjs t)"

lemma well_keyed_keyed: "well_keyed t \<Longrightarrow> keyed (fake_cluster t)"
  by (auto simp: well_keyed_def keyed_def list_all_iff dest!: map_of_SomeD)

lemma live_start_ready: "ready test_env live_start live_build" "sound live_start" "well_keyed live_start"
  by code_simp+

lemma live_built_ok: "sound live_built" "well_keyed live_built" "builds_named test_env live_built"
  "deploys_attributed live_built" "spare 3 live_built"
  by code_simp+


lemma live_builds_done: "builds_done (call test_env (test_key ''test'') live_start) live_built"
proof -
  have "list_all (\<lambda>(k, abr). case map_of (artifactBuildObjs live_built) k of None \<Rightarrow> False
        | Some abr' \<Rightarrow> artifact_finished (fake_cluster live_built) abr')
      (artifactBuildObjs (call test_env (test_key ''test'') live_start))"
    by code_simp
  moreover have "componentBuildObjs live_built = componentBuildObjs (call test_env (test_key ''test'') live_start)"
    "configMapObjs live_built = configMapObjs (call test_env (test_key ''test'') live_start)"
    "taskRunObjs live_built = taskRunObjs (call test_env (test_key ''test'') live_start)"
    "pipelineRunObjs live_built = pipelineRunObjs (call test_env (test_key ''test'') live_start)"
    by code_simp+
  ultimately show ?thesis
    using live_built_ok(1,2) by (simp add: builds_done_def well_keyed_keyed)
qed

lemma live_tekton: "tekton_runs (call test_env (test_key ''test'') live_built) live_run"
proof -
  have "list_all2 (\<lambda>(k, x) (k', x'). k' = k \<and> task_finished x x')
      (taskRunObjs (call test_env (test_key ''test'') live_built)) (taskRunObjs live_run)"
    by code_simp
  then show ?thesis by (simp add: tekton_runs_def live_run_def Let_def)
qed

theorem operator_completes_witness:
  "\<exists>cb'. map_of (componentBuildObjs (call test_env (test_key ''test'')
        (process test_env (map fst (taskRunObjs live_run)) live_run))) (test_key ''test'') = Some cb'
     \<and> State (cbStatus cb') = ComponentBuildStateFailed"
proof -
  have k: "obj_key live_build = test_key ''test''" "obj_ns live_build = ''default''" by code_simp+
  have n: "length (Artifacts (cbSpec live_build)) + 1 = 3" by code_simp
  have d: "knows_artifactBuilds test_env" "tasks_distinct test_env live_run"
    "spare 3 (process test_env (map fst (taskRunObjs live_run)) live_run)" by code_simp+
  have f: "\<exists>i \<in> set (Artifacts (cbSpec live_build)).
      Failed (phase test_env (fake_cluster live_built) (obj_ns live_build) i)" by code_simp
  from operator_completes [OF live_start_ready(1,2) well_keyed_keyed [OF live_start_ready(3)], of live_built live_run
      "map fst (taskRunObjs live_run)"] k n d f live_builds_done live_tekton live_built_ok
  show ?thesis by auto
qed

end
