(* ===== verification/StatusTypes.thy ===== *)
theory StatusTypes
  imports SystemSpec
begin

text \<open>
  The values a status can have: which states there are, and how the state goes with the number of
  outstanding artifacts. The steps of the reconciler's contract keep every status well typed.
\<close>

definition typed_status :: "ComponentBuildStatus \<Rightarrow> bool" where
  "typed_status st \<longleftrightarrow>
     (State st = '''' \<and> Outstanding st = 0
      \<or> State st = ComponentBuildStateInProgress \<and> 0 < Outstanding st
      \<or> (State st = ComponentBuildStateComplete \<or> State st = ComponentBuildStateFailed) \<and> Outstanding st = 0)"

definition typed_statuses :: "cluster \<Rightarrow> bool" where
  "typed_statuses c \<longleftrightarrow> (\<forall>k cb. componentBuilds c k = Some cb \<longrightarrow> typed_status (cbStatus cb))"

lemma typed_unchanged [simp]:
  "typed_status (st\<lparr>Message := m\<rparr>) = typed_status st"
  "typed_status (st\<lparr>ResultNotified := b\<rparr>) = typed_status st"
  by (simp_all add: typed_status_def)

lemma expected_typed: "outstanding_count env c (obj_ns cb) (Artifacts (cbSpec cb)) = 0 \<Longrightarrow>
    typed_status (expected_status env c cb)"
  by (auto simp: typed_status_def expected_status_def Let_def)

lemma allowed_typed:
  "allowed_status env c cb st \<Longrightarrow> typed_status (cbStatus cb) \<Longrightarrow> typed_status st"
  using expected_typed [of env c cb]
  by (auto simp: allowed_status_def progress_status_def typed_status_def split: if_splits)

lemma rstep_typed:
  assumes "rstep env c c'" "typed_statuses c"
  shows "typed_statuses c'"
  using assms(1)
proof cases
  case (new_status k cb st m)
  then have st: "typed_status st"
    using allowed_typed assms(2) by (auto simp: typed_statuses_def)
  have "typed_status (cbStatus cb')" if "m k' = Some cb'" for k' cb'
    using new_status(4) that st assms(2)
    by (auto simp: status_updated_def typed_statuses_def split: if_splits)
  with new_status(1) show ?thesis by (simp add: typed_statuses_def)
qed (use assms(2) in \<open>auto simp: typed_statuses_def notification_def\<close>)

lemma rsteps_typed: "rsteps env c c' \<Longrightarrow> typed_statuses c \<Longrightarrow> typed_statuses c'"
  by (induction rule: rtranclp_induct) (auto intro: rstep_typed)

end
