(* ===== verification/ClientCache.thy ===== *)
theory ClientCache
  imports ApiTypes
begin

text \<open>
  The local store behind the generated listers and informers of \<open>pkg/client\<close>, from the vendored
  \<open>k8s.io/client-go/tools/cache\<close>: \<open>threadSafeMap\<close> (\<open>thread_safe_store.go\<close>), \<open>cache\<close> with its key
  functions (\<open>store.go\<close>, \<open>index.go\<close>) and \<open>processDeltas\<close> (\<open>controller.go\<close>), which plays the changes
  an informer receives into the store. A Go map is an association list here, a set of strings a
  distinct list, and an operation that panics has the value None. The loops over a map whose
  order can be seen take the order as a number (\<open>pick_order\<close>).
\<close>

section \<open>Objects of any type\<close>

text \<open>
  A value of type \<open>interface{}\<close> as the store tells them apart: nil, an object of the resource's
  type, another object with metadata, a key given in place of an object, the mark of a deletion
  that was missed, and anything else.
\<close>

datatype 'a any =
  NilValue
| ApiObject "'a kobject_scheme"
| MetaObject ObjectMeta
| ExplicitKey string
| DeletedFinalStateUnknown string "'a any"
| OtherValue

definition errNotObject :: api_error where
  "errNotObject = OtherError ''object does not implement the Object interfaces''"

fun Accessor :: "'a any \<Rightarrow> api_error + ObjectMeta" where
  "Accessor (ApiObject x) = Inr (metadata x)"
| "Accessor (MetaObject m) = Inr m"
| "Accessor _ = Inl errNotObject"

definition noMeta :: "api_error \<Rightarrow> api_error" where
  "noMeta err = OtherError (''object has no meta: '' @ errorString err)"

type_synonym 'a KeyFunc = "'a any \<Rightarrow> api_error + string"

definition metaKey :: "ObjectMeta \<Rightarrow> string" where
  "metaKey m = (if length (Namespace m) > 0 then Namespace m @ ''/'' @ Name m else Name m)"

definition MetaNamespaceKeyFunc :: "'a KeyFunc" where
  "MetaNamespaceKeyFunc obj =
     (case obj of ExplicitKey key \<Rightarrow> Inr key
      | _ \<Rightarrow> (case Accessor obj of Inl err \<Rightarrow> Inl (noMeta err) | Inr m \<Rightarrow> Inr (metaKey m)))"

definition DeletionHandlingMetaNamespaceKeyFunc :: "'a KeyFunc" where
  "DeletionHandlingMetaNamespaceKeyFunc obj =
     (case obj of DeletedFinalStateUnknown key x \<Rightarrow> Inr key | _ \<Rightarrow> MetaNamespaceKeyFunc obj)"

definition SplitMetaNamespaceKey :: "string \<Rightarrow> api_error + (string \<times> string)" where
  "SplitMetaNamespaceKey key =
     (case split_on CHR ''/'' key of
        [name] \<Rightarrow> Inr ('''', name)
      | [namespace, name] \<Rightarrow> Inr (namespace, name)
      | _ \<Rightarrow> Inl (OtherError (''unexpected key format: '' @ quoted key)))"

type_synonym 'a IndexFunc = "'a any \<Rightarrow> api_error + string list"

definition NamespaceIndex :: string where
  "NamespaceIndex = ''namespace''"

definition MetaNamespaceIndexFunc :: "'a IndexFunc" where
  "MetaNamespaceIndexFunc obj =
     (case Accessor obj of Inl err \<Rightarrow> Inl (noMeta err) | Inr m \<Rightarrow> Inr [Namespace m])"

section \<open>The indexed store\<close>

type_synonym Index = "(string \<times> string list) list"

record 'a threadSafeMap =
  storeItems :: "(string \<times> 'a any) list"
  indexers :: "(string \<times> 'a IndexFunc) list"
  indices :: "(string \<times> Index) list"

definition NewThreadSafeStore ::
  "(string \<times> 'a IndexFunc) list \<Rightarrow> (string \<times> Index) list \<Rightarrow> 'a threadSafeMap" where
  "NewThreadSafeStore fs is = \<lparr>storeItems = [], indexers = fs, indices = is\<rparr>"

text \<open>Reading a map yields the zero value at an absent key: a nil object, an empty set, an empty index.\<close>

definition item_at :: "'a threadSafeMap \<Rightarrow> string \<Rightarrow> 'a any" where
  "item_at c key = (case map_of (storeItems c) key of None \<Rightarrow> NilValue | Some x \<Rightarrow> x)"

definition keys_at :: "Index \<Rightarrow> string \<Rightarrow> string list" where
  "keys_at index value = (case map_of index value of None \<Rightarrow> [] | Some s \<Rightarrow> s)"

definition index_at :: "(string \<times> Index) list \<Rightarrow> string \<Rightarrow> Index" where
  "index_at is name = (case map_of is name of None \<Rightarrow> [] | Some i \<Rightarrow> i)"

definition addKeyToIndex :: "string \<Rightarrow> string \<Rightarrow> Index \<Rightarrow> Index" where
  "addKeyToIndex key indexValue index =
     AList.update indexValue (List.insert key (keys_at index indexValue)) index"

definition deleteKeyFromIndex :: "string \<Rightarrow> string \<Rightarrow> Index \<Rightarrow> Index" where
  "deleteKeyFromIndex key indexValue index =
     (case map_of index indexValue of
        None \<Rightarrow> index
      | Some s \<Rightarrow>
          (let s' = removeAll key s in
           if length s' = 0 then AList.delete indexValue index
           else AList.update indexValue s' index))"

definition valuesOf :: "'a IndexFunc \<Rightarrow> 'a any \<Rightarrow> api_error + string list" where
  "valuesOf f obj = (case obj of NilValue \<Rightarrow> Inr [] | _ \<Rightarrow> f obj)"

text \<open>
  \<open>updateIndices\<close>: the loop over the indexers. Each touches its own index only, so the order of
  the loop cannot be seen.
\<close>

fun updateIndices ::
  "'a any \<Rightarrow> 'a any \<Rightarrow> string \<Rightarrow> (string \<times> 'a IndexFunc) list
     \<Rightarrow> (string \<times> Index) list \<Rightarrow> (string \<times> Index) list option" where
  "updateIndices oldObj newObj key [] is = Some is"
| "updateIndices oldObj newObj key ((name, indexFunc) # fs) is =
     (case valuesOf indexFunc oldObj of Inl err \<Rightarrow> None | Inr oldIndexValues \<Rightarrow>
      case valuesOf indexFunc newObj of Inl err \<Rightarrow> None | Inr indexValues \<Rightarrow>
        (let index = index_at is name;
             index' =
               (if length indexValues = 1 \<and> length oldIndexValues = 1
                    \<and> indexValues ! 0 = oldIndexValues ! 0
                then index
                else fold (addKeyToIndex key) indexValues
                       (fold (deleteKeyFromIndex key) oldIndexValues index))
         in updateIndices oldObj newObj key fs (AList.update name index' is)))"

definition store_Update :: "string \<Rightarrow> 'a any \<Rightarrow> 'a threadSafeMap \<Rightarrow> 'a threadSafeMap option" where
  "store_Update key obj c =
     (case updateIndices (item_at c key) obj key (indexers c) (indices c) of
        None \<Rightarrow> None
      | Some is \<Rightarrow> Some (c\<lparr>storeItems := AList.update key obj (storeItems c), indices := is\<rparr>))"

definition store_Add :: "string \<Rightarrow> 'a any \<Rightarrow> 'a threadSafeMap \<Rightarrow> 'a threadSafeMap option" where
  "store_Add key obj c = store_Update key obj c"

definition store_Delete :: "string \<Rightarrow> 'a threadSafeMap \<Rightarrow> 'a threadSafeMap option" where
  "store_Delete key c =
     (case map_of (storeItems c) key of
        None \<Rightarrow> Some c
      | Some obj \<Rightarrow>
          (case updateIndices obj NilValue key (indexers c) (indices c) of
             None \<Rightarrow> None
           | Some is \<Rightarrow> Some (c\<lparr>storeItems := AList.delete key (storeItems c), indices := is\<rparr>)))"

fun rebuildIndices ::
  "(string \<times> 'a any) list \<Rightarrow> (string \<times> 'a IndexFunc) list
     \<Rightarrow> (string \<times> Index) list \<Rightarrow> (string \<times> Index) list option" where
  "rebuildIndices [] fs is = Some is"
| "rebuildIndices ((key, item) # es) fs is =
     (case updateIndices NilValue item key fs is of
        None \<Rightarrow> None | Some is' \<Rightarrow> rebuildIndices es fs is')"

definition store_Replace :: "(string \<times> 'a any) list \<Rightarrow> 'a threadSafeMap \<Rightarrow> 'a threadSafeMap option" where
  "store_Replace items c =
     (case rebuildIndices items (indexers c) [] of
        None \<Rightarrow> None | Some is \<Rightarrow> Some (c\<lparr>storeItems := items, indices := is\<rparr>))"

definition store_AddIndexers ::
  "(string \<times> 'a IndexFunc) list \<Rightarrow> 'a threadSafeMap \<Rightarrow> api_error option \<times> 'a threadSafeMap" where
  "store_AddIndexers newIndexers c =
     (if length (storeItems c) > 0
      then (Some (OtherError ''cannot add indexers to running index''), c)
      else if list_ex (\<lambda>k. k \<in> set (map fst (indexers c))) (map fst newIndexers)
      then (Some (OtherError (''indexer conflict: map[''
              @ Join (map (\<lambda>k. k @ '':{}'')
                  (sort (filter (\<lambda>k. k \<in> set (map fst (indexers c))) (map fst newIndexers)))) '' ''
              @ '']'')), c)
      else (None, c\<lparr>indexers := fold (\<lambda>(k, v). AList.update k v) newIndexers (indexers c)\<rparr>))"

definition store_List :: "nat \<Rightarrow> 'a threadSafeMap \<Rightarrow> 'a any list" where
  "store_List n c = map snd (pick_order n (storeItems c))"

definition store_ListKeys :: "nat \<Rightarrow> 'a threadSafeMap \<Rightarrow> string list" where
  "store_ListKeys n c = map fst (pick_order n (storeItems c))"

definition noIndex :: "string \<Rightarrow> api_error" where
  "noIndex indexName = OtherError (''Index with name '' @ indexName @ '' does not exist'')"

definition store_Index ::
  "nat \<Rightarrow> string \<Rightarrow> 'a any \<Rightarrow> 'a threadSafeMap \<Rightarrow> api_error + 'a any list" where
  "store_Index n indexName obj c =
     (case map_of (indexers c) indexName of
        None \<Rightarrow> Inl (noIndex indexName)
      | Some indexFunc \<Rightarrow>
          (case indexFunc obj of Inl err \<Rightarrow> Inl err | Inr indexedValues \<Rightarrow>
             (let index = index_at (indices c) indexName;
                  storeKeySet =
                    (if length indexedValues = 1 then keys_at index (indexedValues ! 0)
                     else fold (\<lambda>v. fold List.insert (keys_at index v)) indexedValues [])
              in Inr (map (item_at c) (pick_order n storeKeySet)))))"

definition store_ByIndex ::
  "nat \<Rightarrow> string \<Rightarrow> string \<Rightarrow> 'a threadSafeMap \<Rightarrow> api_error + 'a any list" where
  "store_ByIndex n indexName indexedValue c =
     (case map_of (indexers c) indexName of
        None \<Rightarrow> Inl (noIndex indexName)
      | Some indexFunc \<Rightarrow>
          Inr (map (item_at c) (pick_order n (keys_at (index_at (indices c) indexName) indexedValue))))"

definition store_IndexKeys :: "string \<Rightarrow> string \<Rightarrow> 'a threadSafeMap \<Rightarrow> api_error + string list" where
  "store_IndexKeys indexName indexedValue c =
     (case map_of (indexers c) indexName of
        None \<Rightarrow> Inl (noIndex indexName)
      | Some indexFunc \<Rightarrow> Inr (sort (keys_at (index_at (indices c) indexName) indexedValue)))"

definition store_ListIndexFuncValues :: "nat \<Rightarrow> string \<Rightarrow> 'a threadSafeMap \<Rightarrow> string list" where
  "store_ListIndexFuncValues n indexName c = map fst (pick_order n (index_at (indices c) indexName))"

section \<open>The cache\<close>

record 'a cache =
  cacheStorage :: "'a threadSafeMap"
  keyFunc :: "'a KeyFunc"

definition NewIndexer :: "'a KeyFunc \<Rightarrow> (string \<times> 'a IndexFunc) list \<Rightarrow> 'a cache" where
  "NewIndexer kf fs = \<lparr>cacheStorage = NewThreadSafeStore fs [], keyFunc = kf\<rparr>"

text \<open>
  The error of an object that has no key; the printed form of the object in its message is left
  out. A writing operation answers an error and the cache after it, or panics.
\<close>

definition KeyError :: "api_error \<Rightarrow> api_error" where
  "KeyError err = OtherError (''couldn't create key for object: '' @ errorString err)"

definition on_storage ::
  "'a cache \<Rightarrow> 'a threadSafeMap option \<Rightarrow> (api_error option \<times> 'a cache) option" where
  "on_storage c r = map_option (\<lambda>s. (None, c\<lparr>cacheStorage := s\<rparr>)) r"

definition cache_Add :: "'a any \<Rightarrow> 'a cache \<Rightarrow> (api_error option \<times> 'a cache) option" where
  "cache_Add obj c =
     (case keyFunc c obj of
        Inl err \<Rightarrow> Some (Some (KeyError err), c)
      | Inr key \<Rightarrow> on_storage c (store_Add key obj (cacheStorage c)))"

definition cache_Update :: "'a any \<Rightarrow> 'a cache \<Rightarrow> (api_error option \<times> 'a cache) option" where
  "cache_Update obj c =
     (case keyFunc c obj of
        Inl err \<Rightarrow> Some (Some (KeyError err), c)
      | Inr key \<Rightarrow> on_storage c (store_Update key obj (cacheStorage c)))"

definition cache_Delete :: "'a any \<Rightarrow> 'a cache \<Rightarrow> (api_error option \<times> 'a cache) option" where
  "cache_Delete obj c =
     (case keyFunc c obj of
        Inl err \<Rightarrow> Some (Some (KeyError err), c)
      | Inr key \<Rightarrow> on_storage c (store_Delete key (cacheStorage c)))"

definition cache_GetByKey :: "string \<Rightarrow> 'a cache \<Rightarrow> 'a any \<times> bool \<times> api_error option" where
  "cache_GetByKey key c =
     (item_at (cacheStorage c) key, map_of (storeItems (cacheStorage c)) key \<noteq> None, None)"

definition cache_Get :: "'a any \<Rightarrow> 'a cache \<Rightarrow> 'a any \<times> bool \<times> api_error option" where
  "cache_Get obj c =
     (case keyFunc c obj of
        Inl err \<Rightarrow> (NilValue, False, Some (KeyError err))
      | Inr key \<Rightarrow> cache_GetByKey key c)"

fun keyed_items ::
  "'a KeyFunc \<Rightarrow> 'a any list \<Rightarrow> (string \<times> 'a any) list \<Rightarrow> api_error + (string \<times> 'a any) list" where
  "keyed_items kf [] items = Inr items"
| "keyed_items kf (x # xs) items =
     (case kf x of Inl err \<Rightarrow> Inl (KeyError err)
      | Inr key \<Rightarrow> keyed_items kf xs (AList.update key x items))"

definition cache_Replace :: "'a any list \<Rightarrow> 'a cache \<Rightarrow> (api_error option \<times> 'a cache) option" where
  "cache_Replace xs c =
     (case keyed_items (keyFunc c) xs [] of
        Inl err \<Rightarrow> Some (Some err, c)
      | Inr items \<Rightarrow> on_storage c (store_Replace items (cacheStorage c)))"

definition cache_AddIndexers ::
  "(string \<times> 'a IndexFunc) list \<Rightarrow> 'a cache \<Rightarrow> api_error option \<times> 'a cache" where
  "cache_AddIndexers fs c =
     (case store_AddIndexers fs (cacheStorage c) of (err, s) \<Rightarrow> (err, c\<lparr>cacheStorage := s\<rparr>))"

definition cache_List :: "nat \<Rightarrow> 'a cache \<Rightarrow> 'a any list" where
  "cache_List n c = store_List n (cacheStorage c)"

definition cache_Index :: "nat \<Rightarrow> string \<Rightarrow> 'a any \<Rightarrow> 'a cache \<Rightarrow> api_error + 'a any list" where
  "cache_Index n indexName obj c = store_Index n indexName obj (cacheStorage c)"

section \<open>Changes\<close>

datatype DeltaType = Sync | Replaced | Added | Updated | Deleted

record 'a Delta =
  DeltaKind :: DeltaType
  DeltaObject :: "'a any"

datatype 'a handler_call = OnAdd "'a any" | OnUpdate "'a any" "'a any" | OnDelete "'a any"

text \<open>
  \<open>processDeltas\<close>: the answer is the error that stopped it, the notifications of the handler in
  order, and the store. The transformer is nil or a function.
\<close>

fun processDeltas ::
  "('a any \<Rightarrow> api_error + 'a any) option \<Rightarrow> 'a Delta list \<Rightarrow> 'a handler_call list \<Rightarrow> 'a cache
     \<Rightarrow> (api_error option \<times> 'a handler_call list \<times> 'a cache) option" where
  "processDeltas transformer [] ns c = Some (None, ns, c)"
| "processDeltas transformer (d # ds) ns c =
     (case (case transformer of None \<Rightarrow> Inr (DeltaObject d) | Some t \<Rightarrow> t (DeltaObject d)) of
        Inl err \<Rightarrow> Some (Some err, ns, c)
      | Inr obj \<Rightarrow>
          (case DeltaKind d of
             Deleted \<Rightarrow>
               (case cache_Delete obj c of None \<Rightarrow> None
                | Some (Some err, c') \<Rightarrow> Some (Some err, ns, c')
                | Some (None, c') \<Rightarrow> processDeltas transformer ds (ns @ [OnDelete obj]) c')
           | _ \<Rightarrow>
               (case cache_Get obj c of
                  (old, True, None) \<Rightarrow>
                    (case cache_Update obj c of None \<Rightarrow> None
                     | Some (Some err, c') \<Rightarrow> Some (Some err, ns, c')
                     | Some (None, c') \<Rightarrow>
                         processDeltas transformer ds (ns @ [OnUpdate old obj]) c')
                | _ \<Rightarrow>
                    (case cache_Add obj c of None \<Rightarrow> None
                     | Some (Some err, c') \<Rightarrow> Some (Some err, ns, c')
                     | Some (None, c') \<Rightarrow>
                         processDeltas transformer ds (ns @ [OnAdd obj]) c'))))"

section \<open>The indices are right\<close>

definition index_wf :: "Index \<Rightarrow> bool" where
  "index_wf index \<longleftrightarrow>
     distinct (map fst index) \<and> (\<forall>v s. map_of index v = Some s \<longrightarrow> distinct s \<and> s \<noteq> [])"

definition keys_of :: "Index \<Rightarrow> string \<Rightarrow> string set" where
  "keys_of index v = set (keys_at index v)"

text \<open>An object is indexed under the values the index function computes for it.\<close>

definition indexed_values :: "'a IndexFunc \<Rightarrow> 'a any \<Rightarrow> string set" where
  "indexed_values f x = (case valuesOf f x of Inl err \<Rightarrow> {} | Inr vs \<Rightarrow> set vs)"

definition index_right :: "'a IndexFunc \<Rightarrow> (string \<rightharpoonup> 'a any) \<Rightarrow> Index \<Rightarrow> bool" where
  "index_right f m index \<longleftrightarrow>
     index_wf index \<and> (\<forall>v. keys_of index v = {k. \<exists>x. m k = Some x \<and> v \<in> indexed_values f x})"

definition indexable :: "(string \<times> 'a IndexFunc) list \<Rightarrow> 'a any \<Rightarrow> bool" where
  "indexable fs x \<longleftrightarrow> x \<noteq> NilValue \<and> (\<forall>(name, f) \<in> set fs. \<exists>vs. f x = Inr vs)"

definition store_ok :: "'a threadSafeMap \<Rightarrow> bool" where
  "store_ok c \<longleftrightarrow>
     distinct (map fst (storeItems c)) \<and> distinct (map fst (indexers c)) \<and>
     (\<forall>k x. map_of (storeItems c) k = Some x \<longrightarrow> indexable (indexers c) x) \<and>
     (\<forall>(name, f) \<in> set (indexers c).
        index_right f (map_of (storeItems c)) (index_at (indices c) name))"

lemma index_wfD:
  assumes "index_wf index" "map_of index v = Some s"
  shows "distinct s" "s \<noteq> []"
  using assms by (auto simp: index_wf_def)

lemma index_wf_update:
  "index_wf index \<Longrightarrow> distinct s \<Longrightarrow> s \<noteq> [] \<Longrightarrow> index_wf (AList.update v s index)"
  by (simp add: index_wf_def distinct_update)

lemma index_wf_delete: "index_wf index \<Longrightarrow> index_wf (AList.delete v index)"
  by (auto simp: index_wf_def distinct_delete delete_conv')

lemma keys_at_update: "keys_at (AList.update v s index) w = (if w = v then s else keys_at index w)"
  by (simp add: keys_at_def)

lemma keys_at_delete: "keys_at (AList.delete v index) w = (if w = v then [] else keys_at index w)"
  by (simp add: keys_at_def delete_conv')

lemma addKeyToIndex_wf: "index_wf index \<Longrightarrow> index_wf (addKeyToIndex key v index)"
  unfolding addKeyToIndex_def
  by (rule index_wf_update) (auto simp: keys_at_def List.insert_def dest: index_wfD split: option.split)

lemma addKeyToIndex_keys:
  "keys_of (addKeyToIndex key v index) w = keys_of index w \<union> (if w = v then {key} else {})"
  by (auto simp: addKeyToIndex_def keys_of_def keys_at_update)

lemma deleteKeyFromIndex_wf: "index_wf index \<Longrightarrow> index_wf (deleteKeyFromIndex key v index)"
  by (auto simp: deleteKeyFromIndex_def Let_def dest: index_wfD distinct_removeAll
      intro!: index_wf_update index_wf_delete split: option.split)

lemma deleteKeyFromIndex_keys:
  "keys_of (deleteKeyFromIndex key v index) w = keys_of index w - (if w = v then {key} else {})"
  by (cases "map_of index v")
    (auto simp: deleteKeyFromIndex_def Let_def keys_of_def keys_at_update keys_at_delete,
      auto simp: keys_at_def removeAll_filter_not_eq filter_empty_conv)

lemma fold_add:
  "index_wf index \<Longrightarrow> index_wf (fold (addKeyToIndex key) vs index)"
  "keys_of (fold (addKeyToIndex key) vs index) w = keys_of index w \<union> (if w \<in> set vs then {key} else {})"
  by (induction vs arbitrary: index) (auto simp: addKeyToIndex_wf addKeyToIndex_keys)

lemma fold_delete:
  "index_wf index \<Longrightarrow> index_wf (fold (deleteKeyFromIndex key) vs index)"
  "keys_of (fold (deleteKeyFromIndex key) vs index) w =
     keys_of index w - (if w \<in> set vs then {key} else {})"
  by (induction vs arbitrary: index) (auto simp: deleteKeyFromIndex_wf deleteKeyFromIndex_keys)

lemma valuesOf_indexed: "valuesOf f x = Inr vs \<Longrightarrow> indexed_values f x = set vs"
  by (simp add: indexed_values_def)

lemma indexed_values_Nil [simp]: "indexed_values f NilValue = {}"
  by (simp add: indexed_values_def valuesOf_def)

text \<open>
  What an object's entry may become: absent, or an object that is not nil. The value of a map at
  a key reads nil when it is absent.
\<close>

definition any_at :: "(string \<rightharpoonup> 'a any) \<Rightarrow> string \<Rightarrow> 'a any" where
  "any_at m key = (case m key of None \<Rightarrow> NilValue | Some x \<Rightarrow> x)"

definition put :: "string \<Rightarrow> 'a any \<Rightarrow> (string \<rightharpoonup> 'a any) \<Rightarrow> (string \<rightharpoonup> 'a any)" where
  "put key x m = m(key := (case x of NilValue \<Rightarrow> None | _ \<Rightarrow> Some x))"

lemma put_values:
  "{k. \<exists>y. put key x m k = Some y \<and> v \<in> indexed_values f y} =
     {k. \<exists>y. m k = Some y \<and> v \<in> indexed_values f y} - {key}
       \<union> (if v \<in> indexed_values f x then {key} else {})"
  by (cases x) (auto simp: put_def)

text \<open>The step of the loop for one index.\<close>

lemma index_step:
  assumes right: "index_right f m index"
    and old: "valuesOf f (any_at m key) = Inr oldv" and new: "valuesOf f x = Inr newv"
  shows "index_right f (put key x m)
           (if length newv = 1 \<and> length oldv = 1 \<and> newv ! 0 = oldv ! 0 then index
            else fold (addKeyToIndex key) newv (fold (deleteKeyFromIndex key) oldv index))"
    (is "index_right f _ ?i")
proof -
  have was: "key \<in> keys_of index v \<longleftrightarrow> v \<in> set oldv" for v
    using right valuesOf_indexed [OF old]
    by (auto simp: index_right_def any_at_def split: option.splits)
  have eq: "oldv = newv" if "length newv = 1 \<and> length oldv = 1 \<and> newv ! 0 = oldv ! 0"
    using that by (auto simp: length_Suc_conv)
  have wf: "index_wf ?i"
    using right by (auto simp: index_right_def fold_add fold_delete)
  have "keys_of ?i v = keys_of index v - {key} \<union> (if v \<in> set newv then {key} else {})" for v
    using was eq by (auto simp: fold_add fold_delete)
  then show ?thesis
    using wf right valuesOf_indexed [OF new] by (auto simp: index_right_def put_values)
qed

lemma index_at_update: "index_at (AList.update n i is) n' = (if n' = n then i else index_at is n')"
  by (simp add: index_at_def)

text \<open>
  The whole loop: it does not panic on objects whose index values can be computed, it makes every
  index right for the changed map, and it leaves the other indices alone.
\<close>

lemma updateIndices_right:
  assumes "distinct (map fst fs)"
    and "\<And>name f. (name, f) \<in> set fs \<Longrightarrow> index_right f m (index_at is name)"
    and "\<And>name f. (name, f) \<in> set fs \<Longrightarrow> \<exists>vs. valuesOf f (any_at m key) = Inr vs"
    and "\<And>name f. (name, f) \<in> set fs \<Longrightarrow> \<exists>vs. valuesOf f x = Inr vs"
  shows "\<exists>is'. updateIndices (any_at m key) x key fs is = Some is'
           \<and> (\<forall>(name, f) \<in> set fs. index_right f (put key x m) (index_at is' name))
           \<and> (\<forall>name. name \<notin> set (map fst fs) \<longrightarrow> index_at is' name = index_at is name)"
  using assms
proof (induction fs arbitrary: "is")
  case Nil
  then show ?case by simp
next
  case (Cons a fs)
  obtain name f where a: "a = (name, f)" by (cases a)
  obtain oldv newv where vs: "valuesOf f (any_at m key) = Inr oldv" "valuesOf f x = Inr newv"
    using Cons.prems(3,4) a by fastforce
  define i where "i = (if length newv = 1 \<and> length oldv = 1 \<and> newv ! 0 = oldv ! 0
     then index_at is name
     else fold (addKeyToIndex key) newv (fold (deleteKeyFromIndex key) oldv (index_at is name)))"
  have i: "index_right f (put key x m) i"
    unfolding i_def using Cons.prems(2) a vs by (intro index_step) auto
  have ne: "name \<notin> fst ` set fs" using Cons.prems(1) a by simp
  have "\<exists>is'. updateIndices (any_at m key) x key fs (AList.update name i is) = Some is'
           \<and> (\<forall>(n, g) \<in> set fs. index_right g (put key x m) (index_at is' n))
           \<and> (\<forall>n. n \<notin> set (map fst fs) \<longrightarrow> index_at is' n = index_at (AList.update name i is) n)"
  proof (rule Cons.IH)
    show "index_right g m (index_at (AList.update name i is) n)" if "(n, g) \<in> set fs" for n g
      using that ne Cons.prems(2) [of n g] by (auto simp: index_at_update image_iff)
    show "\<exists>vs. valuesOf g (any_at m key) = Inr vs" if "(n, g) \<in> set fs" for n g
      using that Cons.prems(3) by (meson list.set_intros(2))
    show "\<exists>vs. valuesOf g x = Inr vs" if "(n, g) \<in> set fs" for n g
      using that Cons.prems(4) by (meson list.set_intros(2))
  qed (use Cons.prems(1) in simp)
  moreover have "updateIndices (any_at m key) x key (a # fs) is =
      updateIndices (any_at m key) x key fs (AList.update name i is)"
    by (simp add: a vs i_def Let_def)
  ultimately show ?case using i ne by (auto simp: a index_at_update)
qed

section \<open>Every operation keeps the indices right\<close>

text \<open>
  The abstract contents of a store is the map from keys to objects. Each operation changes it as
  its name says and does not panic on objects the indexers can index.
\<close>

abbreviation contents :: "'a threadSafeMap \<Rightarrow> string \<rightharpoonup> 'a any" where
  "contents c \<equiv> map_of (storeItems c)"

lemma item_at_any: "item_at c key = any_at (contents c) key"
  by (simp add: item_at_def any_at_def)

lemma valuesOf_indexable: "indexable fs x \<Longrightarrow> (name, f) \<in> set fs \<Longrightarrow> \<exists>vs. valuesOf f x = Inr vs"
  by (cases x) (auto simp: indexable_def valuesOf_def)

lemma store_ok_item: "store_ok c \<Longrightarrow> contents c k = Some x \<Longrightarrow> indexable (indexers c) x"
  by (auto simp: store_ok_def)

lemma valuesOf_stored:
  "store_ok c \<Longrightarrow> (name, f) \<in> set (indexers c) \<Longrightarrow> \<exists>vs. valuesOf f (any_at (contents c) key) = Inr vs"
  by (cases "contents c key")
    (auto simp: any_at_def valuesOf_def [of f NilValue] dest: store_ok_item valuesOf_indexable)

lemma NewThreadSafeStore_ok:
  "distinct (map fst fs) \<Longrightarrow> store_ok (NewThreadSafeStore fs [])"
  by (auto simp: store_ok_def NewThreadSafeStore_def index_right_def index_wf_def keys_of_def
      keys_at_def index_at_def)

lemma store_Update_ok:
  assumes ok: "store_ok c" and x: "indexable (indexers c) x"
  shows "\<exists>c'. store_Update key x c = Some c' \<and> store_ok c' \<and> contents c' = (contents c)(key \<mapsto> x)
           \<and> indexers c' = indexers c"
proof -
  have put: "put key x (contents c) = (contents c)(key \<mapsto> x)"
    using x by (cases x) (auto simp: put_def indexable_def)
  obtain is' where "updateIndices (item_at c key) x key (indexers c) (indices c) = Some is'"
    "\<forall>(name, f) \<in> set (indexers c). index_right f (put key x (contents c)) (index_at is' name)"
    using updateIndices_right [of "indexers c" "contents c" "indices c" key x]
      ok x valuesOf_stored [OF ok] valuesOf_indexable [OF x]
    unfolding item_at_any store_ok_def by blast
  with ok x show ?thesis
    by (auto simp: store_Update_def store_ok_def distinct_update put)
qed

lemma store_Delete_ok:
  assumes ok: "store_ok c"
  shows "\<exists>c'. store_Delete key c = Some c' \<and> store_ok c' \<and> contents c' = (contents c)(key := None)
           \<and> indexers c' = indexers c"
proof (cases "contents c key")
  case None
  then show ?thesis using ok by (auto simp: store_Delete_def fun_upd_idem)
next
  case (Some x)
  then have x: "any_at (contents c) key = x" by (simp add: any_at_def)
  have nil: "\<exists>vs. valuesOf f NilValue = Inr vs" for f :: "'a IndexFunc"
    by (simp add: valuesOf_def)
  have old: "\<exists>vs. valuesOf f x = Inr vs" if "(name, f) \<in> set (indexers c)" for name f
    using valuesOf_stored [OF ok that, of key] x by simp
  obtain is' where "updateIndices x NilValue key (indexers c) (indices c) = Some is'"
    "\<forall>(name, f) \<in> set (indexers c). index_right f (put key NilValue (contents c)) (index_at is' name)"
    using updateIndices_right [of "indexers c" "contents c" "indices c" key NilValue]
      ok old nil unfolding x store_ok_def by blast
  with ok Some show ?thesis
    by (auto simp: store_Delete_def store_ok_def distinct_delete put_def delete_conv')
qed

lemma rebuildIndices_right:
  assumes "distinct (map fst fs)" "distinct (map fst es)"
    and "\<And>k x. (k, x) \<in> set es \<Longrightarrow> indexable fs x \<and> m k = None"
    and "\<And>name f. (name, f) \<in> set fs \<Longrightarrow> index_right f m (index_at is name)"
  shows "\<exists>is'. rebuildIndices es fs is = Some is'
           \<and> (\<forall>(name, f) \<in> set fs. index_right f (m ++ map_of es) (index_at is' name))"
  using assms(2-)
proof (induction es arbitrary: m "is")
  case Nil
  then show ?case by auto
next
  case (Cons e es)
  obtain key x where e: "e = (key, x)" by (cases e)
  have x: "indexable fs x" "any_at m key = NilValue"
    using Cons.prems(2) [of key x] e by (auto simp: any_at_def)
  then have put: "put key x m = m(key \<mapsto> x)" by (cases x) (auto simp: put_def indexable_def)
  obtain is' where is': "updateIndices NilValue x key fs is = Some is'"
    "\<forall>(name, f) \<in> set fs. index_right f (m(key \<mapsto> x)) (index_at is' name)"
    using updateIndices_right [of fs m "is" key x] assms(1) Cons.prems(3) valuesOf_indexable [OF x(1)]
    unfolding x(2) put by (force simp: valuesOf_def)
  have "\<exists>is''. rebuildIndices es fs is' = Some is''
      \<and> (\<forall>(name, f) \<in> set fs. index_right f (m(key \<mapsto> x) ++ map_of es) (index_at is'' name))"
  proof (rule Cons.IH)
    show "indexable fs y \<and> (m(key \<mapsto> x)) k = None" if "(k, y) \<in> set es" for k y
      using that Cons.prems(1) Cons.prems(2) [of k y] e by (auto simp: image_iff)
    show "index_right f (m(key \<mapsto> x)) (index_at is' name)" if "(name, f) \<in> set fs" for name f
      using that is'(2) by blast
  qed (use Cons.prems(1) in auto)
  moreover have "m ++ map_of (e # es) = m(key \<mapsto> x) ++ map_of es"
    using Cons.prems(1) by (simp add: e map_add_upd_left dom_map_of_conv_image_fst)
  ultimately have "\<exists>is''. rebuildIndices es fs is' = Some is''
      \<and> (\<forall>(name, f) \<in> set fs. index_right f (m ++ map_of (e # es)) (index_at is'' name))"
    by (simp only:)
  moreover have "rebuildIndices (e # es) fs is = rebuildIndices es fs is'"
    by (simp add: e is'(1))
  ultimately show ?case by (simp only:)
qed

lemma store_Replace_ok:
  assumes "store_ok c" and "distinct (map fst items)" "\<And>k x. (k, x) \<in> set items \<Longrightarrow> indexable (indexers c) x"
  shows "\<exists>c'. store_Replace items c = Some c' \<and> store_ok c' \<and> contents c' = map_of items
           \<and> indexers c' = indexers c"
proof -
  obtain is' where "rebuildIndices items (indexers c) [] = Some is'"
    "\<forall>(name, f) \<in> set (indexers c). index_right f (Map.empty ++ map_of items) (index_at is' name)"
    using rebuildIndices_right [of "indexers c" items Map.empty "[]"] assms
    by (auto simp: store_ok_def index_right_def index_wf_def keys_of_def keys_at_def index_at_def)
  with assms show ?thesis by (auto simp: store_Replace_def store_ok_def)
qed

section \<open>Reading through an index\<close>

lemma keys_at_right:
  assumes "index_right f m index"
  shows "distinct (keys_at index v)" "k \<in> set (keys_at index v) \<longleftrightarrow> (\<exists>x. m k = Some x \<and> v \<in> indexed_values f x)"
proof -
  show "distinct (keys_at index v)"
    using assms by (simp add: index_right_def index_wf_def keys_at_def split: option.split)
  have "keys_of index v = {k. \<exists>x. m k = Some x \<and> v \<in> indexed_values f x}"
    using assms by (simp add: index_right_def)
  then show "k \<in> set (keys_at index v) \<longleftrightarrow> (\<exists>x. m k = Some x \<and> v \<in> indexed_values f x)"
    unfolding keys_of_def by simp
qed

lemma fold_insert_keys:
  "distinct acc \<Longrightarrow> distinct (fold List.insert ks acc)"
  "set (fold List.insert ks acc) = set ks \<union> set acc"
  by (induction ks arbitrary: acc) auto

lemma fold_union_keys:
  "distinct acc \<Longrightarrow> distinct (fold (\<lambda>v. fold List.insert (keys_at index v)) vs acc)"
  "set (fold (\<lambda>v. fold List.insert (keys_at index v)) vs acc) = (\<Union>v \<in> set vs. set (keys_at index v)) \<union> set acc"
  by (induction vs arbitrary: acc) (auto simp: fold_insert_keys)

lemma store_ok_index:
  "store_ok c \<Longrightarrow> map_of (indexers c) name = Some f \<Longrightarrow>
   index_right f (contents c) (index_at (indices c) name)"
  by (auto simp: store_ok_def dest: map_of_SomeD)

text \<open>
  A lookup in an index finds each object that shares a value with the one given, once.
\<close>

lemma store_Index_exact:
  assumes ok: "store_ok c" and f: "map_of (indexers c) name = Some f" "f obj = Inr vs"
  shows "\<exists>ks. store_Index n name obj c = Inr (map (item_at c) ks) \<and> distinct ks
           \<and> set ks = {k. \<exists>x. contents c k = Some x \<and> (\<exists>v \<in> set vs. v \<in> indexed_values f x)}"
proof -
  let ?i = "index_at (indices c) name"
  define S where "S = (if length vs = 1 then keys_at ?i (vs ! 0)
    else fold (\<lambda>v. fold List.insert (keys_at ?i v)) vs [])"
  note right = keys_at_right [OF store_ok_index [OF ok f(1)]]
  have S: "distinct S" "set S = (\<Union>v \<in> set vs. set (keys_at ?i v))"
    unfolding S_def by (auto simp: fold_union_keys right(1) length_Suc_conv)
  have "set S = {k. \<exists>x. contents c k = Some x \<and> (\<exists>v \<in> set vs. v \<in> indexed_values f x)}"
    unfolding S(2) by (intro set_eqI) (simp add: right(2), blast)
  moreover have "store_Index n name obj c = Inr (map (item_at c) (pick_order n S))"
    by (simp add: store_Index_def f S_def Let_def)
  ultimately show ?thesis
    using S(1) by (intro exI [of _ "pick_order n S"] conjI) simp_all
qed

lemma store_List_exact:
  assumes "store_ok c"
  shows "\<exists>ks. store_List n c = map (item_at c) ks \<and> distinct ks \<and> set ks = dom (contents c)"
proof (intro exI conjI)
  have d: "distinct (map fst (pick_order n (storeItems c)))"
    using assms unfolding store_ok_def by (metis mset_map mset_pick_order mset_eq_imp_distinct_iff)
  then show "distinct (map fst (pick_order n (storeItems c)))" .
  show "set (map fst (pick_order n (storeItems c))) = dom (contents c)"
    by (simp add: dom_map_of_conv_image_fst)
  have "item_at c k = x" if "(k, x) \<in> set (storeItems c)" for k x
    using that assms by (simp add: item_at_def store_ok_def)
  then show "store_List n c = map (item_at c) (map fst (pick_order n (storeItems c)))"
    unfolding store_List_def by auto
qed

section \<open>The cache follows the changes\<close>

abbreviation cached :: "'a cache \<Rightarrow> string \<rightharpoonup> 'a any" where
  "cached c \<equiv> contents (cacheStorage c)"

abbreviation cache_indexers :: "'a cache \<Rightarrow> (string \<times> 'a IndexFunc) list" where
  "cache_indexers c \<equiv> indexers (cacheStorage c)"

definition cache_ok :: "'a cache \<Rightarrow> bool" where
  "cache_ok c \<longleftrightarrow> store_ok (cacheStorage c) \<and> (\<forall>k x. cached c k = Some x \<longrightarrow> keyFunc c x = Inr k)"

text \<open>An operation that succeeds turns a correct cache into one with given contents.\<close>

definition turns :: "'a cache \<Rightarrow> (api_error option \<times> 'a cache) option \<Rightarrow> (string \<rightharpoonup> 'a any) \<Rightarrow> bool" where
  "turns c r m \<longleftrightarrow>
     (\<exists>c'. r = Some (None, c') \<and> cache_ok c' \<and> cached c' = m
        \<and> keyFunc c' = keyFunc c \<and> cache_indexers c' = cache_indexers c)"

lemma NewIndexer_ok: "distinct (map fst fs) \<Longrightarrow> cache_ok (NewIndexer kf fs)"
  by (auto simp: cache_ok_def NewIndexer_def NewThreadSafeStore_ok)
    (simp add: NewThreadSafeStore_def)

lemma cache_Add_ok:
  assumes "cache_ok c" "keyFunc c x = Inr k" "indexable (cache_indexers c) x"
  shows "turns c (cache_Add x c) ((cached c)(k \<mapsto> x))" "turns c (cache_Update x c) ((cached c)(k \<mapsto> x))"
  using store_Update_ok [of "cacheStorage c" x k] assms
  by (auto simp: cache_ok_def turns_def cache_Add_def cache_Update_def store_Add_def on_storage_def)

lemma cache_Delete_ok:
  assumes "cache_ok c" "keyFunc c x = Inr k"
  shows "turns c (cache_Delete x c) ((cached c)(k := None))"
  using store_Delete_ok [of "cacheStorage c" k] assms
  by (auto simp: cache_ok_def turns_def cache_Delete_def on_storage_def)

text \<open>The map the changes describe, and the notifications they call for.\<close>

definition play :: "'a KeyFunc \<Rightarrow> 'a Delta \<Rightarrow> (string \<rightharpoonup> 'a any) \<Rightarrow> (string \<rightharpoonup> 'a any)" where
  "play kf d m =
     (case kf (DeltaObject d) of Inl err \<Rightarrow> m
      | Inr k \<Rightarrow> m(k := (if DeltaKind d = Deleted then None else Some (DeltaObject d))))"

fun announced :: "'a KeyFunc \<Rightarrow> 'a Delta list \<Rightarrow> (string \<rightharpoonup> 'a any) \<Rightarrow> 'a handler_call list" where
  "announced kf [] m = []"
| "announced kf (d # ds) m =
     (if DeltaKind d = Deleted then OnDelete (DeltaObject d)
      else (case kf (DeltaObject d) of
              Inl err \<Rightarrow> OnAdd (DeltaObject d)
            | Inr k \<Rightarrow> (case m k of None \<Rightarrow> OnAdd (DeltaObject d)
                        | Some old \<Rightarrow> OnUpdate old (DeltaObject d))))
     # announced kf ds (play kf d m)"

definition playable :: "'a cache \<Rightarrow> 'a Delta \<Rightarrow> bool" where
  "playable c d \<longleftrightarrow>
     (\<exists>k. keyFunc c (DeltaObject d) = Inr k)
     \<and> (DeltaKind d \<noteq> Deleted \<longrightarrow> indexable (cache_indexers c) (DeltaObject d))"

lemma cache_Get_key:
  "keyFunc c x = Inr k \<Longrightarrow> cache_Get x c = (any_at (cached c) k, cached c k \<noteq> None, None)"
  by (simp add: cache_Get_def cache_GetByKey_def item_at_any)

lemma processDeltas_step:
  assumes ok: "cache_ok c" and d: "playable c d"
  shows "\<exists>n c'. processDeltas None (d # ds) ns c = processDeltas None ds (ns @ [n]) c'
           \<and> turns c (Some (None, c')) (play (keyFunc c) d (cached c))
           \<and> announced (keyFunc c) (d # ds) (cached c)
             = n # announced (keyFunc c) ds (play (keyFunc c) d (cached c))"
proof -
  obtain k where k: "keyFunc c (DeltaObject d) = Inr k" using d by (auto simp: playable_def)
  note del = cache_Delete_ok [OF ok k] and get = cache_Get_key [OF k]
  show ?thesis
  proof (cases "DeltaKind d = Deleted")
    case True
    with del k show ?thesis by (auto simp: turns_def play_def)
  next
    case False
    then have ix: "indexable (cache_indexers c) (DeltaObject d)" using d by (simp add: playable_def)
    have kind: "(case DeltaKind d of Deleted \<Rightarrow> a | _ \<Rightarrow> b) = b" for a b :: "(api_error option \<times> 'a handler_call list \<times> 'a cache) option"
      using False by (cases "DeltaKind d") auto
    show ?thesis
      using cache_Add_ok [OF ok k ix] False k
      by (cases "cached c k") (auto simp: kind get turns_def play_def any_at_def)
  qed
qed

text \<open>
  Playing changes into a cache: no error, no panic, the contents the changes describe, the right
  notifications, and indices that are right again.
\<close>

lemma processDeltas_plays:
  assumes "cache_ok c" "\<forall>d \<in> set ds. playable c d"
  shows "\<exists>c'. processDeltas None ds ns c = Some (None, ns @ announced (keyFunc c) ds (cached c), c')
           \<and> turns c (Some (None, c')) (fold (play (keyFunc c)) ds (cached c))"
  using assms
proof (induction ds arbitrary: c ns)
  case Nil
  then show ?case by (auto simp: turns_def)
next
  case (Cons d ds)
  obtain n c' where step: "processDeltas None (d # ds) ns c = processDeltas None ds (ns @ [n]) c'"
    "turns c (Some (None, c')) (play (keyFunc c) d (cached c))"
    "announced (keyFunc c) (d # ds) (cached c) = n # announced (keyFunc c) ds (play (keyFunc c) d (cached c))"
    using processDeltas_step [of c d ds ns] Cons.prems by auto
  then have "cache_ok c'" "\<forall>d \<in> set ds. playable c' d"
    using Cons.prems by (auto simp: turns_def playable_def)
  from Cons.IH [OF this, of "ns @ [n]"] step show ?case by (auto simp: turns_def)
qed

section \<open>Keys\<close>

lemma split_on_none: "c \<notin> set s \<Longrightarrow> split_on c s = [s]"
  by (induction s) auto

lemma split_on_nonempty [simp]: "split_on c s \<noteq> []" "[] \<noteq> split_on c s"
  by (cases s; auto split: list.split)+

lemma split_on_append: "c \<notin> set a \<Longrightarrow> split_on c (a @ c # b) = a # split_on c b"
  by (induction a) auto

text \<open>The key of an object can be taken apart again, since names have no slash.\<close>

lemma SplitMetaNamespaceKey_metaKey:
  "CHR ''/'' \<notin> set (Namespace m) \<Longrightarrow> CHR ''/'' \<notin> set (Name m) \<Longrightarrow>
   SplitMetaNamespaceKey (metaKey m) = Inr (Namespace m, Name m)"
  by (simp add: SplitMetaNamespaceKey_def metaKey_def split_on_none split_on_append)

lemma MetaNamespaceKeyFunc_meta:
  "Accessor x = Inr m \<Longrightarrow> MetaNamespaceKeyFunc x = Inr (metaKey m)"
  by (cases x) (simp_all add: MetaNamespaceKeyFunc_def)

lemma DeletionHandling_ApiObject [simp]:
  "DeletionHandlingMetaNamespaceKeyFunc (ApiObject x) = Inr (metaKey (metadata x))"
  by (simp add: DeletionHandlingMetaNamespaceKeyFunc_def MetaNamespaceKeyFunc_def)

lemma namespace_values:
  "v \<in> indexed_values MetaNamespaceIndexFunc x \<longleftrightarrow> (\<exists>m. Accessor x = Inr m \<and> Namespace m = v)"
  by (cases x) (auto simp: indexed_values_def valuesOf_def MetaNamespaceIndexFunc_def)

end
