(* ===== verification/ManagerClient.thy ===== *)
theory ManagerClient
  imports ArtifactSteps ClientCache
begin

text \<open>
  The client a manager gives to its controllers (vendored
  \<open>sigs.k8s.io/controller-runtime/pkg\<close>: \<open>cluster.DefaultNewClient\<close>, \<open>client/split.go\<close>,
  \<open>cache/informer_cache.go\<close>, \<open>cache/internal/informers_map.go\<close>, \<open>cache/internal/cache_reader.go\<close>):
  it writes to the API server and reads from the stores of informers, which follow the server with a
  delay. The API client it is made from is any \<open>client\<close> here; an informer is present as its store,
  and how the stores follow the server is left open. What is shown is that the reads are right about
  what the stores show, and so that \<open>deployArtifact\<close> decides on the stores and not on the server.
\<close>

section \<open>One store\<close>

record 'a CacheReader =
  readerIndexer :: "'a cache"
  readerKind :: GroupVersionKind
  readerRootScope :: bool

definition objectKeyToStoreKey :: "NamespacedName \<Rightarrow> string" where
  "objectKeyToStoreKey k =
     (if nnNamespace k = '''' then nnName k else nnNamespace k @ ''/'' @ nnName k)"

definition errWrongType :: api_error where
  "errWrongType = OtherError ''cache contained an object of another type''"

text \<open>The copy that is made of the object found is equal to it, and its kind is not kept here.\<close>

definition CacheReader_Get :: "'a CacheReader \<Rightarrow> NamespacedName \<Rightarrow> api_error + 'a kobject_scheme" where
  "CacheReader_Get c key0 =
     (let key = (if readerRootScope c then NamespacedName '''' (nnName key0) else key0);
          storeKey = objectKeyToStoreKey key
      in case cache_GetByKey storeKey (readerIndexer c) of
           (obj, exists, Some err) \<Rightarrow> Inl err
         | (obj, exists, None) \<Rightarrow>
             (if \<not> exists
              then Inl (NewNotFound
                     (GroupResource (gvkGroup (readerKind c)) (gvkKind (readerKind c))) (nnName key))
              else case obj of ApiObject x \<Rightarrow> Inr x | _ \<Rightarrow> Inl errWrongType))"

fun readItems :: "Selector option \<Rightarrow> 'a any list \<Rightarrow> api_error + 'a kobject_scheme list" where
  "readItems labelSel [] = Inr []"
| "readItems labelSel (item # items) =
     (case item of
        ApiObject x \<Rightarrow>
          (case readItems labelSel items of
             Inl err \<Rightarrow> Inl err
           | Inr xs \<Rightarrow>
               (case labelSel of
                  Some sel \<Rightarrow> Inr (if \<not> SelectorMatches sel (Labels (metadata x)) then xs else x # xs)
                | None \<Rightarrow> Inr (x # xs)))
      | _ \<Rightarrow> Inl errWrongType)"

text \<open>A list without field selector or limit; the number is the order of the store's map.\<close>

definition CacheReader_List ::
  "nat \<Rightarrow> 'a CacheReader \<Rightarrow> string \<Rightarrow> Selector option \<Rightarrow> api_error + 'a kobject_scheme list" where
  "CacheReader_List n c namespace labelSel =
     (case (if namespace \<noteq> ''''
            then store_ByIndex n NamespaceIndex namespace (cacheStorage (readerIndexer c))
            else Inr (cache_List n (readerIndexer c))) of
        Inl err \<Rightarrow> Inl err
      | Inr objs \<Rightarrow> readItems labelSel objs)"

section \<open>The stores of one type\<close>

text \<open>
  An entry is found by the kind of the object asked for. \<open>entrySynced\<close> is the answer to waiting for
  the informer's first list; \<open>addedEntry\<close> is what adding an informer comes to.
\<close>

record 'a MapEntry =
  entryReader :: "'a CacheReader"
  entrySynced :: bool

record 'a specificInformersMap =
  mapStarted :: bool
  informersByGVK :: "(GroupVersionKind \<times> 'a MapEntry) list"
  addedEntry :: "api_error + 'a MapEntry"

definition addInformerToMap ::
  "GroupVersionKind \<Rightarrow> 'a specificInformersMap
     \<Rightarrow> (api_error + 'a MapEntry) \<times> 'a specificInformersMap" where
  "addInformerToMap gvk ip =
     (case addedEntry ip of
        Inl err \<Rightarrow> (Inl err, ip)
      | Inr i \<Rightarrow> (Inr i, ip\<lparr>informersByGVK := AList.update gvk i (informersByGVK ip)\<rparr>))"

definition syncTimeout :: api_error where
  "syncTimeout = StatusError ''Timeout'' 504 ''Timeout: failed waiting for Informer to sync''"

definition ErrCacheNotStarted :: api_error where
  "ErrCacheNotStarted = OtherError ''the cache is not started, can not read objects''"

definition InformersMap_Get ::
  "GroupVersionKind \<Rightarrow> 'a specificInformersMap
     \<Rightarrow> (api_error + bool \<times> 'a MapEntry) \<times> 'a specificInformersMap" where
  "InformersMap_Get gvk ip =
     (case (case map_of (informersByGVK ip) gvk of
              Some i \<Rightarrow> (Inr i, ip) | None \<Rightarrow> addInformerToMap gvk ip) of
        (Inl err, ip') \<Rightarrow> (Inl err, ip')
      | (Inr i, ip') \<Rightarrow>
          (if mapStarted ip' \<and> \<not> entrySynced i then (Inl syncTimeout, ip')
           else (Inr (mapStarted ip', i), ip')))"

section \<open>The state of the client\<close>

record 's managed =
  apiState :: 's
  artifactBuildInformers :: "unit ArtifactBuild_ext specificInformersMap"
  componentBuildInformers :: "unit ComponentBuild_ext specificInformersMap"
  taskRunInformers :: "unit TaskRun_ext specificInformersMap"
  pipelineRunInformers :: "unit PipelineRun_ext specificInformersMap"
  configMapInformers :: "unit ConfigMap_ext specificInformersMap"
  rebuiltArtifactInformers :: "unit RebuiltArtifact_ext specificInformersMap"
  dependencyBuildInformers :: "unit DependencyBuild_ext specificInformersMap"
  mapOrders :: "nat list"

record ('s, 'a) slot =
  slotGet :: "'s managed \<Rightarrow> 'a specificInformersMap"
  slotSet :: "'a specificInformersMap \<Rightarrow> 's managed \<Rightarrow> 's managed"

definition drawOrder :: "('s managed, nat) state" where
  "drawOrder =
     State_Monad.State (\<lambda>s. case mapOrders s of [] \<Rightarrow> (0, s) | n # ns \<Rightarrow> (n, s\<lparr>mapOrders := ns\<rparr>))"

definition on_api :: "('s, 'a) state \<Rightarrow> ('s managed, 'a) state" where
  "on_api m = State_Monad.State (\<lambda>s. case run_state m (apiState s) of (r, a) \<Rightarrow> (r, s\<lparr>apiState := a\<rparr>))"

definition on_slot ::
  "('s, 'a) slot \<Rightarrow> ('a specificInformersMap \<Rightarrow> 'r \<times> 'a specificInformersMap) \<Rightarrow> ('s managed, 'r) state" where
  "on_slot sl f = State_Monad.State (\<lambda>s. case f (slotGet sl s) of (r, m) \<Rightarrow> (r, slotSet sl m s))"

section \<open>The cache\<close>

definition without_List :: "string \<Rightarrow> string" where
  "without_List k =
     (if length k \<ge> 4 \<and> drop (length k - 4) k = ''List'' then take (length k - 4) k else k)"

definition kindOfItem :: "GroupVersionKind \<Rightarrow> GroupVersionKind" where
  "kindOfItem gvk = GroupVersionKind (gvkGroup gvk) (gvkVersion gvk) (without_List (gvkKind gvk))"

definition informerCache_Get ::
  "Scheme \<Rightarrow> GoType \<Rightarrow> ('s, 'a) slot \<Rightarrow> NamespacedName
     \<Rightarrow> ('s managed, api_error + 'a kobject_scheme) state" where
  "informerCache_Get sch t sl key =
     (case GVKForObject t sch of
        Inl err \<Rightarrow> State_Monad.return (Inl err)
      | Inr gvk \<Rightarrow> do {
          r \<leftarrow> on_slot sl (InformersMap_Get gvk);
          State_Monad.return
            (case r of
               Inl err \<Rightarrow> Inl err
             | Inr (started, entry) \<Rightarrow>
                 (if \<not> started then Inl ErrCacheNotStarted
                  else CacheReader_Get (entryReader entry) key))
        })"

definition informerCache_List ::
  "Scheme \<Rightarrow> GoType \<Rightarrow> ('s, 'a) slot \<Rightarrow> string \<Rightarrow> Selector option
     \<Rightarrow> ('s managed, api_error + 'a kobject_scheme list) state" where
  "informerCache_List sch listType sl namespace labelSel =
     (case GVKForObject listType sch of
        Inl err \<Rightarrow> State_Monad.return (Inl err)
      | Inr gvk \<Rightarrow> do {
          r \<leftarrow> on_slot sl (InformersMap_Get (kindOfItem gvk));
          n \<leftarrow> drawOrder;
          State_Monad.return
            (case r of
               Inl err \<Rightarrow> Inl err
             | Inr (started, entry) \<Rightarrow>
                 (if \<not> started then Inl ErrCacheNotStarted
                  else CacheReader_List n (entryReader entry) namespace labelSel))
        })"

section \<open>The delegating client\<close>

record delegatingReader =
  readerScheme :: Scheme
  uncachedGVKs :: "GroupVersionKind list"

text \<open>The seven types are Go types of their own, never \<open>unstructured.Unstructured\<close>.\<close>

definition shouldBypassCache :: "delegatingReader \<Rightarrow> bool \<Rightarrow> GoType \<Rightarrow> api_error + bool" where
  "shouldBypassCache d isListType t =
     (case GVKForObject t (readerScheme d) of
        Inl err \<Rightarrow> Inl err
      | Inr gvk \<Rightarrow>
          (let gvk = (if isListType then kindOfItem gvk else gvk) in
           Inr (gvk \<in> set (uncachedGVKs d))))"

definition delegating_Get ::
  "delegatingReader \<Rightarrow> GoType \<Rightarrow> ('s, 'a) slot \<Rightarrow> (NamespacedName \<Rightarrow> ('s, api_error + 'a kobject_scheme) state)
     \<Rightarrow> NamespacedName \<Rightarrow> ('s managed, api_error + 'a kobject_scheme) state" where
  "delegating_Get d t sl clientGet key =
     (case shouldBypassCache d False t of
        Inl err \<Rightarrow> State_Monad.return (Inl err)
      | Inr isUncached \<Rightarrow>
          (if isUncached then on_api (clientGet key)
           else informerCache_Get (readerScheme d) t sl key))"

definition delegating_List ::
  "delegatingReader \<Rightarrow> GoType \<Rightarrow> ('s, 'a) slot \<Rightarrow> ('s, api_error + 'a kobject_scheme list) state
     \<Rightarrow> string \<Rightarrow> Selector option \<Rightarrow> ('s managed, api_error + 'a kobject_scheme list) state" where
  "delegating_List d listType sl clientList namespace labelSel =
     (case shouldBypassCache d True listType of
        Inl err \<Rightarrow> State_Monad.return (Inl err)
      | Inr isUncached \<Rightarrow>
          (if isUncached then on_api clientList
           else informerCache_List (readerScheme d) listType sl namespace labelSel))"

definition tekton_pkg :: string where
  "tekton_pkg = ''github.com/tektoncd/pipeline/pkg/apis/pipeline/v1beta1''"

definition jvm_type :: "string \<Rightarrow> GoType" where
  "jvm_type = GoType (goPkg ArtifactBuildType)"

definition ConfigMapType :: GoType where
  "ConfigMapType = GoType ''k8s.io/api/core/v1'' ''ConfigMap''"

definition delegating_client :: "delegatingReader \<Rightarrow> 's client \<Rightarrow> 's managed client" where
  "delegating_client d cl =
     \<lparr>get_ArtifactBuild = delegating_Get d ArtifactBuildType
        \<lparr>slotGet = artifactBuildInformers, slotSet = (\<lambda>m s. s\<lparr>artifactBuildInformers := m\<rparr>)\<rparr>
        (get_ArtifactBuild cl),
      get_ComponentBuild = delegating_Get d ComponentBuildType
        \<lparr>slotGet = componentBuildInformers, slotSet = (\<lambda>m s. s\<lparr>componentBuildInformers := m\<rparr>)\<rparr>
        (get_ComponentBuild cl),
      get_TaskRun = delegating_Get d (GoType tekton_pkg ''TaskRun'')
        \<lparr>slotGet = taskRunInformers, slotSet = (\<lambda>m s. s\<lparr>taskRunInformers := m\<rparr>)\<rparr> (get_TaskRun cl),
      get_PipelineRun = delegating_Get d (GoType tekton_pkg ''PipelineRun'')
        \<lparr>slotGet = pipelineRunInformers, slotSet = (\<lambda>m s. s\<lparr>pipelineRunInformers := m\<rparr>)\<rparr>
        (get_PipelineRun cl),
      get_ConfigMap = delegating_Get d ConfigMapType
        \<lparr>slotGet = configMapInformers, slotSet = (\<lambda>m s. s\<lparr>configMapInformers := m\<rparr>)\<rparr> (get_ConfigMap cl),
      get_RebuiltArtifact = delegating_Get d (jvm_type ''RebuiltArtifact'')
        \<lparr>slotGet = rebuiltArtifactInformers, slotSet = (\<lambda>m s. s\<lparr>rebuiltArtifactInformers := m\<rparr>)\<rparr>
        (get_RebuiltArtifact cl),
      get_DependencyBuild = delegating_Get d (jvm_type ''DependencyBuild'')
        \<lparr>slotGet = dependencyBuildInformers, slotSet = (\<lambda>m s. s\<lparr>dependencyBuildInformers := m\<rparr>)\<rparr>
        (get_DependencyBuild cl),
      list_ComponentBuild = (\<lambda>ns. delegating_List d ComponentBuildListType
        \<lparr>slotGet = componentBuildInformers, slotSet = (\<lambda>m s. s\<lparr>componentBuildInformers := m\<rparr>)\<rparr>
        (list_ComponentBuild cl ns) ns None),
      list_TaskRun = (\<lambda>ns sel. delegating_List d (GoType tekton_pkg ''TaskRunList'')
        \<lparr>slotGet = taskRunInformers, slotSet = (\<lambda>m s. s\<lparr>taskRunInformers := m\<rparr>)\<rparr>
        (list_TaskRun cl ns sel) ns (Some sel)),
      list_PipelineRun = (\<lambda>ns sel. delegating_List d (GoType tekton_pkg ''PipelineRunList'')
        \<lparr>slotGet = pipelineRunInformers, slotSet = (\<lambda>m s. s\<lparr>pipelineRunInformers := m\<rparr>)\<rparr>
        (list_PipelineRun cl ns sel) ns (Some sel)),
      create_ArtifactBuild = (\<lambda>x. on_api (create_ArtifactBuild cl x)),
      create_TaskRun = (\<lambda>x. on_api (create_TaskRun cl x)),
      create_PipelineRun = (\<lambda>x. on_api (create_PipelineRun cl x)),
      update_DependencyBuild = (\<lambda>x. on_api (update_DependencyBuild cl x)),
      update_status_ComponentBuild = (\<lambda>x. on_api (update_status_ComponentBuild cl x)),
      Eventf = (\<lambda>ev. on_api (Eventf cl ev)),
      range_choice = on_api (range_choice cl)\<rparr>"

fun kindsOf :: "Scheme \<Rightarrow> GoType list \<Rightarrow> api_error + GroupVersionKind list" where
  "kindsOf sch [] = Inr []"
| "kindsOf sch (t # ts) =
     (case GVKForObject t sch of
        Inl err \<Rightarrow> Inl err
      | Inr gvk \<Rightarrow> (case kindsOf sch ts of Inl err \<Rightarrow> Inl err | Inr gvks \<Rightarrow> Inr (gvk # gvks)))"

definition NewDelegatingClient :: "Scheme \<Rightarrow> GoType list \<Rightarrow> 's client \<Rightarrow> api_error + 's managed client" where
  "NewDelegatingClient sch uncachedObjects cl =
     (case kindsOf sch uncachedObjects of
        Inl err \<Rightarrow> Inl err
      | Inr gvks \<Rightarrow> Inr (delegating_client \<lparr>readerScheme = sch, uncachedGVKs = gvks\<rparr> cl))"

text \<open>\<open>NewManager\<close> sets no option \<open>ClientDisableCacheFor\<close>, so no object is uncached.\<close>

definition manager_client :: "Scheme \<Rightarrow> 's client \<Rightarrow> 's managed client" where
  "manager_client sch cl = projr (NewDelegatingClient sch [] cl)"

lemma manager_client_made: "NewDelegatingClient sch [] cl = Inr (manager_client sch cl)"
  by (simp add: manager_client_def NewDelegatingClient_def)


section \<open>A client that reads a view\<close>

text \<open>
  What \<open>deployArtifact\<close> needs of a client: that its reads are right about a view of the cluster,
  which may be another one than the state of the API, and that a task run is created at the API.
\<close>

definition sees ::
  "('s \<Rightarrow> cluster \<Rightarrow> bool) \<Rightarrow> ('s \<Rightarrow> 'c) \<Rightarrow> ('s, 'a) state \<Rightarrow> (cluster \<Rightarrow> 'a \<Rightarrow> bool) \<Rightarrow> bool" where
  "sees view ab m \<Phi> \<longleftrightarrow>
     (\<forall>s c r s'. view s c \<longrightarrow> run_state m s = (r, s') \<longrightarrow> view s' c \<and> ab s' = ab s \<and> \<Phi> c r)"

definition lists ::
  "('a kobject_scheme \<Rightarrow> bool) \<Rightarrow> string \<Rightarrow> (NamespacedName \<rightharpoonup> 'a kobject_scheme)
     \<Rightarrow> api_error + 'a kobject_scheme list \<Rightarrow> bool" where
  "lists p ns m r \<longleftrightarrow>
     (\<exists>xs. r = Inr xs \<and> set xs = {x. \<exists>k. m k = Some x \<and> (ns = '''' \<or> obj_ns x = ns) \<and> p x})"

lemma lists_of_list_ok: "list_ok p ns m r \<Longrightarrow> \<not> isl r \<Longrightarrow> lists p ns m r"
  by (cases r) (force simp: list_ok_def lists_def selected_def)+

lemma lists_Inl [simp]: "\<not> lists p ns m (Inl e)"
  by (simp add: lists_def)

lemma lists_unfinished_iff:
  "lists p ns m (Inr xs) \<Longrightarrow>
   list_ex unfinished xs \<longleftrightarrow> selected (\<lambda>x. p x \<and> unfinished x) ns m \<noteq> {}"
  by (auto simp: lists_def list_ex_iff selected_def)

lemma sees_wp:
  "sees view ab m \<Phi> \<Longrightarrow>
   triple (\<lambda>s. s) (\<lambda>s. view s c \<and> (\<forall>r s'. view s' c \<and> ab s' = ab s \<and> \<Phi> c r \<longrightarrow> Q r s')) m Q"
  by (rule tripleI) (auto simp: sees_def)

locale view_client =
  fixes cl :: "'s client" and view :: "'s \<Rightarrow> cluster \<Rightarrow> bool" and ab :: "'s \<Rightarrow> cluster"
  assumes see_ArtifactBuild: "sees view ab (get_ArtifactBuild cl k) (\<lambda>c. exact (artifactBuilds c) k)"
    and see_ComponentBuild: "sees view ab (get_ComponentBuild cl k) (\<lambda>c. exact (componentBuilds c) k)"
    and see_TaskRun: "sees view ab (get_TaskRun cl k) (\<lambda>c. exact (taskRuns c) k)"
    and see_PipelineRun: "sees view ab (get_PipelineRun cl k) (\<lambda>c. exact (pipelineRuns c) k)"
    and see_ConfigMap: "sees view ab (get_ConfigMap cl k) (\<lambda>c. exact (configMaps c) k)"
    and see_RebuiltArtifact:
      "sees view ab (get_RebuiltArtifact cl k) (\<lambda>c. exact (rebuiltArtifacts c) k)"
    and see_DependencyBuild:
      "sees view ab (get_DependencyBuild cl k) (\<lambda>c. exact (dependencyBuilds c) k)"
    and see_ComponentBuilds:
      "sees view ab (list_ComponentBuild cl ns) (\<lambda>c. lists (\<lambda>_. True) ns (componentBuilds c))"
    and see_TaskRuns:
      "sees view ab (list_TaskRun cl ns sel)
         (\<lambda>c. lists (\<lambda>x. SelectorMatches sel (Labels (metadata x))) ns (taskRuns c))"
    and see_PipelineRuns:
      "sees view ab (list_PipelineRun cl ns sel)
         (\<lambda>c. lists (\<lambda>x. SelectorMatches sel (Labels (metadata x))) ns (pipelineRuns c))"
    and make_TaskRun:
      "writes ab (create_TaskRun cl tr)
         (\<lambda>c r c'. \<exists>m. c' = c\<lparr>taskRuns := m\<rparr> \<and> create_ok (taskRuns c) tr r m)"
begin

lemmas see_wp =
  see_RebuiltArtifact [THEN sees_wp]
  see_DependencyBuild [THEN sees_wp]
  see_TaskRuns [THEN sees_wp]

lemma getDependencyBuild_sees:
  "sees view ab (getDependencyBuild cl abr) (\<lambda>c r. r = dependency_of c abr)"
proof -
  have "triple (\<lambda>s. s) (\<lambda>s. view s c \<and> ab s = a) (getDependencyBuild cl abr)
      (\<lambda>r s. view s c \<and> ab s = a \<and> r = dependency_of c abr)" for c a
    unfolding getDependencyBuild_def
    by (rule triple_pre, (rule wp see_wp [where c = c])+)
      (auto simp: dependency_of_def exact_def Let_def)
  from tripleD [OF this] show ?thesis by (auto simp: sees_def)
qed

lemma artifactState_sees: "sees view ab (artifactState cl abr) (\<lambda>c r. r = state_of c abr)"
proof -
  have "triple (\<lambda>s. s) (\<lambda>s. view s c \<and> ab s = a) (artifactState cl abr)
      (\<lambda>r s. view s c \<and> ab s = a \<and> r = state_of c abr)" for c a
    unfolding artifactState_def
    by (rule triple_pre, (rule wp getDependencyBuild_sees [THEN sees_wp, where c = c])+)
      (auto simp: state_of_def is_deployed_def split: option.splits)
  from tripleD [OF this] show ?thesis by (auto simp: sees_def)
qed

lemma make_wp:
  "triple (\<lambda>s. s)
     (\<lambda>s. \<forall>r s' m. ab s' = (ab s)\<lparr>taskRuns := m\<rparr> \<and> create_ok (taskRuns (ab s)) tr r m \<longrightarrow> Q r s')
     (create_TaskRun cl tr) Q"
  using make_TaskRun [of tr] by (intro tripleI) (auto simp: writes_def)

text \<open>A task run is created at the API exactly when one is due in the view.\<close>

lemma deployArtifact_by_view:
  assumes "view s c" and "run_state (deployArtifact env cl abr u ow d) s = (r, s')"
  shows "if \<exists>db. deploy_due c abr db
     then \<exists>db m r'. deploy_due c abr db \<and> ab s' = (ab s)\<lparr>taskRuns := m\<rparr>
            \<and> create_ok (taskRuns (ab s)) (deployTaskRun env abr db u ow d) r' m
            \<and> r = (case r' of Inl e \<Rightarrow> Some e | Inr _ \<Rightarrow> None)
     else ab s' = ab s \<and> r = None"
proof -
  let ?post = "\<lambda>a r s'. if \<exists>db. deploy_due c abr db
     then \<exists>db m r'. deploy_due c abr db \<and> ab s' = a\<lparr>taskRuns := m\<rparr>
            \<and> create_ok (taskRuns a) (deployTaskRun env abr db u ow d) r' m
            \<and> r = (case r' of Inl e \<Rightarrow> Some e | Inr _ \<Rightarrow> None)
     else ab s' = a \<and> r = None"
  have "triple (\<lambda>s. s) (\<lambda>s. view s c \<and> ab s = a) (deployArtifact env cl abr u ow d) (?post a)" for a
    unfolding deployArtifact_def
    by (rule triple_pre,
        (rule wp getDependencyBuild_sees [THEN sees_wp, where c = c] see_wp [where c = c] make_wp)+)
      (auto simp: deploy_due_def lists_unfinished_iff)
  from tripleD [OF this, of s "ab s" r s'] assms show ?thesis by simp
qed

end


text \<open>A reliable client sees the cluster as it is.\<close>

lemma sees_of_reads: "reads ab m \<Phi> \<Longrightarrow> sees (\<lambda>s c. c = ab s) ab m \<Phi>"
  by (simp add: reads_def sees_def)

lemma sees_of_list:
  assumes "reads ab m (\<lambda>c. list_ok p ns (f c))" "reads ab m (\<lambda>_ r. \<not> isl r)"
  shows "sees (\<lambda>s c. c = ab s) ab m (\<lambda>c. lists p ns (f c))"
  by (rule sees_of_reads, rule reads_mono [OF reads_conj [OF assms]]) (simp add: lists_of_list_ok)

sublocale reliable_client \<subseteq> live: view_client cl "\<lambda>s c. c = ab s" ab
  by unfold_locales
    (rule sees_of_reads get_ArtifactBuild_exact get_ComponentBuild_exact get_TaskRun_exact
      get_PipelineRun_exact get_ConfigMap_exact get_RebuiltArtifact_exact get_DependencyBuild_exact
      sees_of_list [OF list_ComponentBuild_law list_ComponentBuild_honest]
      sees_of_list [OF list_TaskRun_law list_TaskRun_honest]
      sees_of_list [OF list_PipelineRun_law list_PipelineRun_honest] create_TaskRun_law)+

section \<open>What the stores show\<close>

definition cached_objects :: "'a CacheReader \<Rightarrow> NamespacedName \<rightharpoonup> 'a kobject_scheme" where
  "cached_objects c k =
     (case cached (readerIndexer c) (objectKeyToStoreKey k) of
        Some (ApiObject x) \<Rightarrow> Some x | _ \<Rightarrow> None)"

text \<open>A store as the informers of a manager keep it.\<close>

definition reader_ok :: "'a CacheReader \<Rightarrow> bool" where
  "reader_ok c \<longleftrightarrow> \<not> readerRootScope c \<and> cache_ok (readerIndexer c)
     \<and> keyFunc (readerIndexer c) = DeletionHandlingMetaNamespaceKeyFunc
     \<and> map_of (cache_indexers (readerIndexer c)) NamespaceIndex = Some MetaNamespaceIndexFunc
     \<and> (\<forall>k x. cached (readerIndexer c) k = Some x \<longrightarrow> (\<exists>obj. x = ApiObject obj))"

lemma reader_ok_item:
  assumes "reader_ok c" "cached (readerIndexer c) k = Some x"
  shows "\<exists>obj. x = ApiObject obj \<and> k = objectKeyToStoreKey (obj_key obj)
           \<and> cached_objects c (obj_key obj) = Some obj"
proof -
  obtain obj where obj: "x = ApiObject obj" using assms by (auto simp: reader_ok_def)
  have "k = objectKeyToStoreKey (obj_key obj)"
  proof -
    have "DeletionHandlingMetaNamespaceKeyFunc x = Inr k"
      using assms unfolding reader_ok_def cache_ok_def by metis
    then show ?thesis using obj by (auto simp: objectKeyToStoreKey_def metaKey_def)
  qed
  with obj assms(2) show ?thesis by (simp add: cached_objects_def)
qed

lemma cached_objects_SomeD:
  "cached_objects c k = Some x \<Longrightarrow> cached (readerIndexer c) (objectKeyToStoreKey k) = Some (ApiObject x)"
  unfolding cached_objects_def by (simp split: option.split_asm any.split_asm)

lemma cached_objects_stored:
  assumes "reader_ok c"
  shows "(\<exists>k. cached_objects c k = Some x) \<longleftrightarrow> (\<exists>k. cached (readerIndexer c) k = Some (ApiObject x))"
proof
  assume "\<exists>k. cached (readerIndexer c) k = Some (ApiObject x)"
  with reader_ok_item [OF assms] show "\<exists>k. cached_objects c k = Some x" by blast
qed (auto dest: cached_objects_SomeD)

lemma CacheReader_Get_exact:
  assumes "reader_ok c" shows "exact (cached_objects c) k (CacheReader_Get c k)"
proof -
  have "\<not> readerRootScope c" using assms by (simp add: reader_ok_def)
  then show ?thesis
    using reader_ok_item [OF assms, of "objectKeyToStoreKey k"]
    by (cases "cached (readerIndexer c) (objectKeyToStoreKey k)")
      (auto simp: CacheReader_Get_def cache_GetByKey_def item_at_any any_at_def exact_def
        cached_objects_def Let_def)
qed

lemma readItems_objects:
  "readItems labelSel (map ApiObject xs)
     = Inr (filter (\<lambda>x. case labelSel of None \<Rightarrow> True
                        | Some sel \<Rightarrow> SelectorMatches sel (Labels (metadata x))) xs)"
  by (induction xs) (auto split: option.splits)

lemma objects_of_keys:
  assumes "\<forall>k \<in> set ks. \<exists>x. m k = Some (ApiObject x)"
  shows "\<exists>xs. map (any_at m) ks = map ApiObject xs
           \<and> set xs = {x. \<exists>k \<in> set ks. m k = Some (ApiObject x)}"
  using assms
proof (induction ks)
  case (Cons k ks)
  then obtain x xs where "m k = Some (ApiObject x)" "map (any_at m) ks = map ApiObject xs"
    "set xs = {x. \<exists>k \<in> set ks. m k = Some (ApiObject x)}" by auto
  then show ?case by (intro exI [of _ "x # xs"]) (auto simp: any_at_def [of m k])
qed simp

lemma CacheReader_List_exact:
  assumes ok: "reader_ok c"
  shows "lists (\<lambda>x. case labelSel of None \<Rightarrow> True
                    | Some sel \<Rightarrow> SelectorMatches sel (Labels (metadata x))) ns (cached_objects c)
           (CacheReader_List n c ns labelSel)"
proof -
  let ?st = "cacheStorage (readerIndexer c)" and ?m = "cached (readerIndexer c)"
  have st: "store_ok ?st" and nsx: "map_of (indexers ?st) NamespaceIndex = Some MetaNamespaceIndexFunc"
    using ok by (simp_all add: reader_ok_def cache_ok_def)
  have "\<exists>ks. (if ns \<noteq> '''' then store_ByIndex n NamespaceIndex ns ?st
              else Inr (cache_List n (readerIndexer c))) = Inr (map (any_at ?m) ks)
      \<and> set ks = {k. \<exists>x. ?m k = Some (ApiObject x) \<and> (ns = '''' \<or> obj_ns x = ns)}"
  proof (cases "ns = ''''")
    case True
    obtain ks where "cache_List n (readerIndexer c) = map (any_at ?m) ks" "set ks = dom ?m"
      using store_List_exact [OF st, of n] by (auto simp: cache_List_def item_at_any [abs_def])
    moreover have "dom ?m = {k. \<exists>x. ?m k = Some (ApiObject x)}"
      using reader_ok_item [OF ok] by blast
    ultimately show ?thesis using True by auto
  next
    case False
    have "k \<in> set (keys_at (index_at (indices ?st) NamespaceIndex) ns)
        \<longleftrightarrow> (\<exists>x. ?m k = Some (ApiObject x) \<and> obj_ns x = ns)" for k
      using keys_at_right(2) [OF store_ok_index [OF st nsx], of k ns] reader_ok_item [OF ok, of k]
      by (auto simp: namespace_values)
    with False nsx show ?thesis
      by (intro exI [of _ "pick_order n (keys_at (index_at (indices ?st) NamespaceIndex) ns)"])
        (auto simp: store_ByIndex_def item_at_any [abs_def])
  qed
  then obtain ks where ks: "(if ns \<noteq> '''' then store_ByIndex n NamespaceIndex ns ?st
              else Inr (cache_List n (readerIndexer c))) = Inr (map (any_at ?m) ks)"
    "set ks = {k. \<exists>x. ?m k = Some (ApiObject x) \<and> (ns = '''' \<or> obj_ns x = ns)}" by blast
  then obtain xs where xs: "map (any_at ?m) ks = map ApiObject xs"
    "set xs = {x. \<exists>k \<in> set ks. ?m k = Some (ApiObject x)}"
    using objects_of_keys [of ks ?m] by auto
  have "x \<in> set xs \<longleftrightarrow> (\<exists>k. cached_objects c k = Some x \<and> (ns = '''' \<or> obj_ns x = ns))" for x
  proof -
    have "x \<in> set xs \<longleftrightarrow> (\<exists>k. ?m k = Some (ApiObject x)) \<and> (ns = '''' \<or> obj_ns x = ns)"
      by (simp only: xs(2) ks(2) mem_Collect_eq bex_simps Bex_def) auto
    then show ?thesis by (simp only: cached_objects_stored [OF ok, symmetric]) auto
  qed
  moreover have "CacheReader_List n c ns labelSel = readItems labelSel (map ApiObject xs)"
    unfolding CacheReader_List_def ks(1) xs(1) by simp
  ultimately show ?thesis by (auto simp: lists_def readItems_objects)
qed


text \<open>The stores of a type are started, synced and hold the objects of \<open>m\<close>.\<close>

definition serves ::
  "Scheme \<Rightarrow> GoType \<Rightarrow> 'a specificInformersMap \<Rightarrow> (NamespacedName \<rightharpoonup> 'a kobject_scheme) \<Rightarrow> bool" where
  "serves sch t ip m \<longleftrightarrow> (\<exists>gvk i. GVKForObject t sch = Inr gvk \<and> map_of (informersByGVK ip) gvk = Some i
     \<and> mapStarted ip \<and> entrySynced i \<and> reader_ok (entryReader i) \<and> m = cached_objects (entryReader i))"

definition list_of_type :: "Scheme \<Rightarrow> GoType \<Rightarrow> GoType \<Rightarrow> bool" where
  "list_of_type sch listType t \<longleftrightarrow>
     (case GVKForObject listType sch of
        Inl err \<Rightarrow> False | Inr gvk \<Rightarrow> GVKForObject t sch = Inr (kindOfItem gvk))"

definition stores_show :: "Scheme \<Rightarrow> 's managed \<Rightarrow> cluster \<Rightarrow> bool" where
  "stores_show sch s c \<longleftrightarrow>
     serves sch ArtifactBuildType (artifactBuildInformers s) (artifactBuilds c)
   \<and> serves sch ComponentBuildType (componentBuildInformers s) (componentBuilds c)
   \<and> serves sch (GoType tekton_pkg ''TaskRun'') (taskRunInformers s) (taskRuns c)
   \<and> serves sch (GoType tekton_pkg ''PipelineRun'') (pipelineRunInformers s) (pipelineRuns c)
   \<and> serves sch ConfigMapType (configMapInformers s) (configMaps c)
   \<and> serves sch (jvm_type ''RebuiltArtifact'') (rebuiltArtifactInformers s) (rebuiltArtifacts c)
   \<and> serves sch (jvm_type ''DependencyBuild'') (dependencyBuildInformers s) (dependencyBuilds c)
   \<and> list_of_type sch ComponentBuildListType ComponentBuildType
   \<and> list_of_type sch (GoType tekton_pkg ''TaskRunList'') (GoType tekton_pkg ''TaskRun'')
   \<and> list_of_type sch (GoType tekton_pkg ''PipelineRunList'') (GoType tekton_pkg ''PipelineRun'')"

lemma serves_entry:
  assumes "serves sch t ip m"
  obtains gvk i where "GVKForObject t sch = Inr gvk"
    "InformersMap_Get gvk ip = (Inr (True, i), ip)" "reader_ok (entryReader i)"
    "m = cached_objects (entryReader i)"
  using assms by (auto simp: serves_def InformersMap_Get_def)

definition in_place :: "('s, 'a) slot \<Rightarrow> bool" where
  "in_place sl \<longleftrightarrow> (\<forall>s. slotSet sl (slotGet sl s) s = s)"

lemma delegating_Get_sees:
  assumes "\<And>s c. view s c \<Longrightarrow> serves sch t (slotGet sl s) (f c)" "in_place sl"
  shows "sees view ab (delegating_Get \<lparr>readerScheme = sch, uncachedGVKs = []\<rparr> t sl g k) (\<lambda>c. exact (f c) k)"
proof -
  have "\<exists>r. run_state (delegating_Get \<lparr>readerScheme = sch, uncachedGVKs = []\<rparr> t sl g k) s = (r, s)
      \<and> exact (f c) k r" if "view s c" for s c
  proof -
    from assms(1) [OF that] obtain gvk i where "GVKForObject t sch = Inr gvk"
      "InformersMap_Get gvk (slotGet sl s) = (Inr (True, i), slotGet sl s)" "reader_ok (entryReader i)"
      "f c = cached_objects (entryReader i)" by (rule serves_entry)
    then show ?thesis using CacheReader_Get_exact [of "entryReader i" k] assms(2)
      by (simp add: delegating_Get_def shouldBypassCache_def informerCache_Get_def on_slot_def
          in_place_def)
  qed
  then show ?thesis unfolding sees_def by (metis prod.inject)
qed

lemma delegating_List_sees:
  assumes "\<And>s c. view s c \<Longrightarrow> serves sch t (slotGet sl s) (f c) \<and> list_of_type sch lt t" "in_place sl"
    and "\<And>s c ns. view s c \<Longrightarrow> view (s\<lparr>mapOrders := ns\<rparr>) c \<and> ab (s\<lparr>mapOrders := ns\<rparr>) = ab s"
  shows "sees view ab (delegating_List \<lparr>readerScheme = sch, uncachedGVKs = []\<rparr> lt sl g ns sel)
    (\<lambda>c. lists (\<lambda>x. case sel of None \<Rightarrow> True | Some sel \<Rightarrow> SelectorMatches sel (Labels (metadata x))) ns (f c))"
    (is "sees _ _ ?m (\<lambda>c. lists ?p ns (f c))")
proof -
  have "\<exists>r os. run_state ?m s = (r, s\<lparr>mapOrders := os\<rparr>) \<and> lists ?p ns (f c) r" if "view s c" for s c
  proof -
    from assms(1) [OF that] obtain gvk i g where "GVKForObject t sch = Inr gvk"
      "InformersMap_Get gvk (slotGet sl s) = (Inr (True, i), slotGet sl s)" "reader_ok (entryReader i)"
      "f c = cached_objects (entryReader i)" "GVKForObject lt sch = Inr g" "kindOfItem g = gvk"
      by (auto simp: list_of_type_def elim!: serves_entry split: sum.splits)
    moreover obtain n os where "run_state drawOrder s = (n, s\<lparr>mapOrders := os\<rparr>)"
      by (cases "mapOrders s") (auto simp: drawOrder_def intro: that [of 0 "[]"])
    ultimately show ?thesis using CacheReader_List_exact [of "entryReader i" sel ns n] assms(2)
      by (auto simp: delegating_List_def shouldBypassCache_def informerCache_List_def on_slot_def
          in_place_def)
  qed
  with assms(3) show ?thesis unfolding sees_def by (metis prod.inject)
qed

lemma on_api_writes: "writes ab m \<Psi> \<Longrightarrow> writes (\<lambda>s. ab (apiState s)) (on_api m) \<Psi>"
  by (auto simp: writes_def on_api_def split: prod.splits)

lemma manager_client_eq:
  "manager_client sch cl = delegating_client \<lparr>readerScheme = sch, uncachedGVKs = []\<rparr> cl"
  by (simp add: manager_client_def NewDelegatingClient_def)

lemma managed_orders:
  "stores_show sch s c \<Longrightarrow> stores_show sch (s\<lparr>mapOrders := ns\<rparr>) c
     \<and> ab (apiState (s\<lparr>mapOrders := ns\<rparr>)) = ab (apiState s)"
  by (simp add: stores_show_def)

text \<open>Whatever API client it is made from, the manager's client reads what the stores show.\<close>

sublocale api_client \<subseteq> managed: view_client "manager_client sch cl" "stores_show sch" "\<lambda>s. ab (apiState s)" for sch
proof (unfold_locales, goal_cases)
  case (8 ns)
  show ?case
    using delegating_List_sees [of "stores_show sch" sch ComponentBuildType _ componentBuilds
        ComponentBuildListType "\<lambda>s. ab (apiState s)" _ ns None]
    by (simp add: manager_client_eq delegating_client_def)
      (simp add: stores_show_def in_place_def managed_orders)
qed (use create_TaskRun_law in \<open>auto simp: manager_client_eq delegating_client_def
      intro!: on_api_writes delegating_Get_sees
        delegating_List_sees [where sel = "Some _", simplified]
      simp: stores_show_def in_place_def managed_orders\<close>)


context api_client
begin

lemmas managed_view = managed.view_client_axioms
lemmas managed_deployArtifact = managed.deployArtifact_by_view

end

end
