(* ===== verification/StaleReads.thy ===== *)
theory StaleReads
  imports ManagerClient Scenarios
begin

text \<open>
  The reconciler on the client its manager gives it, over the fake API of the tests: what it means
  that it reads the stores of informers. The stores can be as right as they can be, namely caught up
  with the API whenever a call of \<open>Reconcile\<close> starts, and a call still does not see what it has
  written itself.
\<close>

interpretation fake_managed: view_client "manager_client sch fake_client" "stores_show sch"
    "\<lambda>s. fake_cluster (apiState s)" for sch
  by (rule api_client.managed_view [OF fake.api_client_axioms])

section \<open>The scheme of the manager\<close>

definition core_version :: GroupVersion where
  "core_version = GroupVersion '''' ''v1''"

definition tekton_version :: GroupVersion where
  "tekton_version = GroupVersion ''tekton.dev'' ''v1beta1''"

definition tekton_types :: "GoType list" where
  "tekton_types =
     [GoType tekton_pkg ''TaskRun'', GoType tekton_pkg ''TaskRunList'',
      GoType tekton_pkg ''PipelineRun'', GoType tekton_pkg ''PipelineRunList'']"

definition manager_scheme :: Scheme where
  "manager_scheme =
     the (Option.bind (AddKnownTypes core_version [ConfigMapType] test_scheme)
       (AddKnownTypes tekton_version tekton_types))"

lemma manager_scheme_code [code]:
  "manager_scheme =
     (let kinds = map (\<lambda>t. (WithKind jvmbs_version (goTypeName t), t)) jvmbs_types
                  @ map (\<lambda>t. (WithKind SchemeGroupVersion (goTypeName t), t))
                      [ComponentBuildType, ComponentBuildListType]
                  @ [(WithKind core_version ''ConfigMap'', ConfigMapType)]
                  @ map (\<lambda>t. (WithKind tekton_version (goTypeName t), t)) tekton_types
      in \<lparr>gvkToType = kinds, typeToGVK = map (\<lambda>(gvk, t). (t, [gvk])) kinds,
          observedVersions = [jvmbs_version, SchemeGroupVersion, core_version, tekton_version],
          unversionedTypes = []\<rparr>)"
  unfolding manager_scheme_def by code_simp

section \<open>Stores that have caught up\<close>

text \<open>The store of an informer after a list of the server's objects.\<close>

definition store_holding :: "'a store \<Rightarrow> 'a cache" where
  "store_holding objs =
     (let c = NewIndexer DeletionHandlingMetaNamespaceKeyFunc [(NamespaceIndex, MetaNamespaceIndexFunc)] in
      case cache_Replace (map (\<lambda>e. ApiObject (snd e)) objs) c of
        Some (None, c') \<Rightarrow> c' | _ \<Rightarrow> c)"

definition reader_of :: "GroupVersionKind \<Rightarrow> 'a store \<Rightarrow> 'a CacheReader" where
  "reader_of gvk objs =
     \<lparr>readerIndexer = store_holding objs, readerKind = gvk, readerRootScope = False\<rparr>"

definition caught_up :: "GroupVersionKind \<Rightarrow> 'a store \<Rightarrow> 'a specificInformersMap" where
  "caught_up gvk objs =
     \<lparr>mapStarted = True,
      informersByGVK = [(gvk, \<lparr>entryReader = reader_of gvk objs, entrySynced = True\<rparr>)],
      addedEntry = Inl syncTimeout\<rparr>"

text \<open>The client's state when its stores hold the objects of \<open>old\<close> and the API is \<open>t\<close>.\<close>

definition reading :: "tracker \<Rightarrow> tracker \<Rightarrow> tracker managed" where
  "reading old t =
     \<lparr>apiState = t,
      artifactBuildInformers = caught_up (WithKind jvmbs_version ''ArtifactBuild'') (artifactBuildObjs old),
      componentBuildInformers =
        caught_up (WithKind SchemeGroupVersion ''ComponentBuild'') (componentBuildObjs old),
      taskRunInformers = caught_up (WithKind tekton_version ''TaskRun'') (taskRunObjs old),
      pipelineRunInformers = caught_up (WithKind tekton_version ''PipelineRun'') (pipelineRunObjs old),
      configMapInformers = caught_up (WithKind core_version ''ConfigMap'') (configMapObjs old),
      rebuiltArtifactInformers =
        caught_up (WithKind jvmbs_version ''RebuiltArtifact'') (rebuiltArtifactObjs old),
      dependencyBuildInformers =
        caught_up (WithKind jvmbs_version ''DependencyBuild'') (dependencyBuildObjs old),
      mapOrders = []\<rparr>"

text \<open>
  The manager's client over the fake one, in a form in which the run below evaluates fast: the kinds
  are looked up once, and a store is only read when it is given.
\<close>

definition read_one ::
  "GroupVersionKind \<Rightarrow> NamespacedName \<Rightarrow> 'a specificInformersMap
     \<Rightarrow> (api_error + 'a kobject_scheme) \<times> 'a specificInformersMap" where
  "read_one gvk key ip =
     (case InformersMap_Get gvk ip of (r, ip') \<Rightarrow>
        (case r of
           Inl err \<Rightarrow> Inl err
         | Inr (started, entry) \<Rightarrow>
             (if \<not> started then Inl ErrCacheNotStarted else CacheReader_Get (entryReader entry) key), ip'))"

definition read_all ::
  "GroupVersionKind \<Rightarrow> string \<Rightarrow> Selector option \<Rightarrow> nat \<Rightarrow> 'a specificInformersMap
     \<Rightarrow> (api_error + 'a kobject_scheme list) \<times> 'a specificInformersMap" where
  "read_all gvk ns sel n ip =
     (case InformersMap_Get gvk ip of (r, ip') \<Rightarrow>
        (case r of
           Inl err \<Rightarrow> Inl err
         | Inr (started, entry) \<Rightarrow>
             (if \<not> started then Inl ErrCacheNotStarted
              else CacheReader_List n (entryReader entry) ns sel), ip'))"

lemma read_code [code]:
  "read_one gvk key \<lparr>mapStarted = b, informersByGVK = es, addedEntry = a\<rparr> =
     (case InformersMap_Get gvk \<lparr>mapStarted = b, informersByGVK = es, addedEntry = a\<rparr> of (r, ip') \<Rightarrow>
        (case r of
           Inl err \<Rightarrow> Inl err
         | Inr (started, entry) \<Rightarrow>
             (if \<not> started then Inl ErrCacheNotStarted else CacheReader_Get (entryReader entry) key), ip'))"
  "read_all gvk ns sel n \<lparr>mapStarted = b, informersByGVK = es, addedEntry = a\<rparr> =
     (case InformersMap_Get gvk \<lparr>mapStarted = b, informersByGVK = es, addedEntry = a\<rparr> of (r, ip') \<Rightarrow>
        (case r of
           Inl err \<Rightarrow> Inl err
         | Inr (started, entry) \<Rightarrow>
             (if \<not> started then Inl ErrCacheNotStarted
              else CacheReader_List n (entryReader entry) ns sel), ip'))"
  by (simp_all only: read_one_def read_all_def)

definition get_from ::
  "GroupVersionKind \<Rightarrow> ('s, 'a) slot \<Rightarrow> NamespacedName \<Rightarrow> ('s managed, api_error + 'a kobject_scheme) state"
where
  "get_from gvk sl key = on_slot sl (read_one gvk key)"

definition list_from ::
  "GroupVersionKind \<Rightarrow> ('s, 'a) slot \<Rightarrow> string \<Rightarrow> Selector option
     \<Rightarrow> ('s managed, api_error + 'a kobject_scheme list) state" where
  "list_from gvk sl ns sel =
     State_Monad.State (\<lambda>s. case run_state drawOrder s of (n, s1) \<Rightarrow>
       (case read_all gvk ns sel n (slotGet sl s) of (r, m) \<Rightarrow> (r, slotSet sl m s1)))"

lemma informerCache_Get_from:
  "GVKForObject t sch = Inr gvk \<Longrightarrow>
   delegating_Get \<lparr>readerScheme = sch, uncachedGVKs = []\<rparr> t sl g key = get_from gvk sl key"
  by (rule state_ext)
    (simp add: delegating_Get_def shouldBypassCache_def informerCache_Get_def get_from_def on_slot_def
      read_one_def split: prod.split)

lemma informerCache_List_from:
  assumes "GVKForObject t sch = Inr gvk" "\<And>m ns s. mapOrders (slotSet sl m s) = mapOrders s"
    "\<And>m ns s. slotSet sl m (s\<lparr>mapOrders := ns\<rparr>) = (slotSet sl m s)\<lparr>mapOrders := ns\<rparr>"
  shows "delegating_List \<lparr>readerScheme = sch, uncachedGVKs = []\<rparr> t sl g ns sel
     = list_from (kindOfItem gvk) sl ns sel"
  using assms
  by (intro state_ext)
    (simp add: delegating_List_def shouldBypassCache_def informerCache_List_def list_from_def on_slot_def
      read_all_def drawOrder_def split: prod.split list.split)

lemma manager_kinds:
  "GVKForObject ArtifactBuildType manager_scheme = Inr (WithKind jvmbs_version ''ArtifactBuild'')"
  "GVKForObject ComponentBuildType manager_scheme = Inr (WithKind SchemeGroupVersion ''ComponentBuild'')"
  "GVKForObject (GoType tekton_pkg ''TaskRun'') manager_scheme = Inr (WithKind tekton_version ''TaskRun'')"
  "GVKForObject (GoType tekton_pkg ''PipelineRun'') manager_scheme = Inr (WithKind tekton_version ''PipelineRun'')"
  "GVKForObject ConfigMapType manager_scheme = Inr (WithKind core_version ''ConfigMap'')"
  "GVKForObject (jvm_type ''RebuiltArtifact'') manager_scheme = Inr (WithKind jvmbs_version ''RebuiltArtifact'')"
  "GVKForObject (jvm_type ''DependencyBuild'') manager_scheme = Inr (WithKind jvmbs_version ''DependencyBuild'')"
  "GVKForObject ComponentBuildListType manager_scheme = Inr (WithKind SchemeGroupVersion ''ComponentBuildList'')"
  "GVKForObject (GoType tekton_pkg ''TaskRunList'') manager_scheme = Inr (WithKind tekton_version ''TaskRunList'')"
  "GVKForObject (GoType tekton_pkg ''PipelineRunList'') manager_scheme
     = Inr (WithKind tekton_version ''PipelineRunList'')"
  by code_simp+

lemma manager_list_kinds:
  "kindOfItem (WithKind SchemeGroupVersion ''ComponentBuildList'') = WithKind SchemeGroupVersion ''ComponentBuild''"
  "kindOfItem (WithKind tekton_version ''TaskRunList'') = WithKind tekton_version ''TaskRun''"
  "kindOfItem (WithKind tekton_version ''PipelineRunList'') = WithKind tekton_version ''PipelineRun''"
  by code_simp+

definition fake_manager_client :: "tracker managed client" where
  "fake_manager_client = manager_client manager_scheme fake_client"

lemma fake_manager_client_code [code]:
  "fake_manager_client =
     \<lparr>get_ArtifactBuild = get_from (WithKind jvmbs_version ''ArtifactBuild'')
        \<lparr>slotGet = artifactBuildInformers, slotSet = (\<lambda>m s. s\<lparr>artifactBuildInformers := m\<rparr>)\<rparr>,
      get_ComponentBuild = get_from (WithKind SchemeGroupVersion ''ComponentBuild'')
        \<lparr>slotGet = componentBuildInformers, slotSet = (\<lambda>m s. s\<lparr>componentBuildInformers := m\<rparr>)\<rparr>,
      get_TaskRun = get_from (WithKind tekton_version ''TaskRun'')
        \<lparr>slotGet = taskRunInformers, slotSet = (\<lambda>m s. s\<lparr>taskRunInformers := m\<rparr>)\<rparr>,
      get_PipelineRun = get_from (WithKind tekton_version ''PipelineRun'')
        \<lparr>slotGet = pipelineRunInformers, slotSet = (\<lambda>m s. s\<lparr>pipelineRunInformers := m\<rparr>)\<rparr>,
      get_ConfigMap = get_from (WithKind core_version ''ConfigMap'')
        \<lparr>slotGet = configMapInformers, slotSet = (\<lambda>m s. s\<lparr>configMapInformers := m\<rparr>)\<rparr>,
      get_RebuiltArtifact = get_from (WithKind jvmbs_version ''RebuiltArtifact'')
        \<lparr>slotGet = rebuiltArtifactInformers, slotSet = (\<lambda>m s. s\<lparr>rebuiltArtifactInformers := m\<rparr>)\<rparr>,
      get_DependencyBuild = get_from (WithKind jvmbs_version ''DependencyBuild'')
        \<lparr>slotGet = dependencyBuildInformers, slotSet = (\<lambda>m s. s\<lparr>dependencyBuildInformers := m\<rparr>)\<rparr>,
      list_ComponentBuild = (\<lambda>ns. list_from (WithKind SchemeGroupVersion ''ComponentBuild'')
        \<lparr>slotGet = componentBuildInformers, slotSet = (\<lambda>m s. s\<lparr>componentBuildInformers := m\<rparr>)\<rparr> ns None),
      list_TaskRun = (\<lambda>ns sel. list_from (WithKind tekton_version ''TaskRun'')
        \<lparr>slotGet = taskRunInformers, slotSet = (\<lambda>m s. s\<lparr>taskRunInformers := m\<rparr>)\<rparr> ns (Some sel)),
      list_PipelineRun = (\<lambda>ns sel. list_from (WithKind tekton_version ''PipelineRun'')
        \<lparr>slotGet = pipelineRunInformers, slotSet = (\<lambda>m s. s\<lparr>pipelineRunInformers := m\<rparr>)\<rparr> ns (Some sel)),
      create_ArtifactBuild = (\<lambda>x. on_api (create_ArtifactBuild fake_client x)),
      create_TaskRun = (\<lambda>x. on_api (create_TaskRun fake_client x)),
      create_PipelineRun = (\<lambda>x. on_api (create_PipelineRun fake_client x)),
      update_DependencyBuild = (\<lambda>x. on_api (update_DependencyBuild fake_client x)),
      update_status_ComponentBuild = (\<lambda>x. on_api (update_status_ComponentBuild fake_client x)),
      Eventf = (\<lambda>x. on_api (Eventf fake_client x)),
      range_choice = on_api (range_choice fake_client)\<rparr>"
  by (simp add: fake_manager_client_def manager_client_eq delegating_client_def fun_eq_iff
      informerCache_Get_from [OF manager_kinds(1)] informerCache_Get_from [OF manager_kinds(2)]
      informerCache_Get_from [OF manager_kinds(3)] informerCache_Get_from [OF manager_kinds(4)]
      informerCache_Get_from [OF manager_kinds(5)] informerCache_Get_from [OF manager_kinds(6)]
      informerCache_Get_from [OF manager_kinds(7)] informerCache_List_from [OF manager_kinds(8)]
      informerCache_List_from [OF manager_kinds(9)] informerCache_List_from [OF manager_kinds(10)]
      manager_list_kinds)

section \<open>A deployment that is done twice\<close>

text \<open>A call of \<open>Reconcile\<close> for an event, after all stores have caught up with the API.\<close>

definition managed_call :: "NamespacedName \<Rightarrow> tracker \<Rightarrow> api_error option \<times> tracker" where
  "managed_call k t =
     (case run_state (Reconcile test_env fake_manager_client k)
             (reading t t) of
        ((res, err), s) \<Rightarrow> (err, apiState s))"

lemma managed_call_code [code]:
  "managed_call k \<lparr>artifactBuildObjs = a, componentBuildObjs = b, taskRunObjs = c, pipelineRunObjs = d,
      configMapObjs = e, rebuiltArtifactObjs = f, dependencyBuildObjs = g, randomStrings = h,
      rangeOrders = i, events = j\<rparr> =
     (let t = \<lparr>artifactBuildObjs = a, componentBuildObjs = b, taskRunObjs = c, pipelineRunObjs = d,
      configMapObjs = e, rebuiltArtifactObjs = f, dependencyBuildObjs = g, randomStrings = h,
      rangeOrders = i, events = j\<rparr>
      in case run_state (Reconcile test_env fake_manager_client k)
             (reading t t) of
        ((res, err), s) \<Rightarrow> (err, apiState s))"
  by (simp add: managed_call_def Let_def)

definition handle_event :: "NamespacedName \<Rightarrow> (tracker, api_error option) state" where
  "handle_event k = State_Monad.State (managed_call k)"

definition task_keys :: "(tracker, NamespacedName list) state" where
  "task_keys = State_Monad.State (\<lambda>t. (map fst (taskRunObjs t), t))"

text \<open>
  A component build with one artifact, which is built; each deploy task that appears succeeds and is
  handled.
\<close>

definition test_managed :: "(tracker, api_error option list \<times> NamespacedName list list) state" where
  "test_managed = do {
     _ \<leftarrow> create_ComponentBuild (test_componentBuild '''' [''com.test:test:1.0'']);
     e1 \<leftarrow> handle_event (test_key ''test'');
     built ''com.test:test:1.0'' ''com.test.test.1.0'' ''test-db'';
     e2 \<leftarrow> handle_event (test_key ''com.test.test.1.0'');
     k1 \<leftarrow> task_keys;
     on_TaskRun (hd k1) complete_TaskRun;
     e3 \<leftarrow> handle_event (hd k1);
     k2 \<leftarrow> task_keys;
     on_TaskRun (last k2) complete_TaskRun;
     e4 \<leftarrow> handle_event (last k2);
     k3 \<leftarrow> task_keys;
     State_Monad.return ([e1, e2, e3, e4], [k1, k2, k3])
   }"


text \<open>
  With the client the manager provides, an artifact is deployed twice, even when every store has
  caught up with the API whenever a call of \<open>Reconcile\<close> starts: the call that marks the dependency
  build as deployed reads it again from the store, where it is not marked yet, and the deploy task
  that has just finished is no longer in flight. No call returns an error.
\<close>

theorem deployed_twice:
  "case run_state test_managed test_tracker of ((errs, tasks), t) \<Rightarrow>
     errs = [None, None, None, None]
     \<and> map length tasks = [1, 2, 2]
     \<and> map (\<lambda>e. gm_get (Labels (metadata (snd e))) DeployTaskLabel) (taskRunObjs t)
       = [''test-db'', ''test-db'']
     \<and> list_all (\<lambda>e. stringParam ''ARTIFACT'' ''com.test.test.1.0'' \<in> set (trParams (snd e))) (taskRunObjs t)
     \<and> map_option (\<lambda>cb. State (cbStatus cb)) (map_of (componentBuildObjs t) (test_key ''test''))
       = Some ComponentBuildStateComplete"
  by code_simp

section \<open>The stores of the runs\<close>

definition objects_keyed :: "(string \<times> 'a any) list \<Rightarrow> bool" where
  "objects_keyed items \<longleftrightarrow>
     list_all (\<lambda>(k, x). \<exists>obj. x = ApiObject obj \<and> k = metaKey (metadata obj)) items"

lemma objects_keyed_update:
  "objects_keyed items \<Longrightarrow>
   objects_keyed (AList.update (metaKey (metadata x)) (ApiObject x) items)"
  by (induction items) (auto simp: objects_keyed_def)

lemma objects_keyed_item:
  "objects_keyed items \<Longrightarrow> (k, x) \<in> set items \<Longrightarrow> \<exists>obj. x = ApiObject obj \<and> k = metaKey (metadata obj)"
  by (auto simp: objects_keyed_def list_all_iff)

lemma keyed_items_objects:
  "objects_keyed acc \<Longrightarrow> distinct (map fst acc) \<Longrightarrow>
   \<exists>items. keyed_items DeletionHandlingMetaNamespaceKeyFunc (map ApiObject xs) acc = Inr items
     \<and> objects_keyed items \<and> distinct (map fst items)"
  by (induction xs arbitrary: acc) (simp_all add: objects_keyed_update distinct_update)

lemma reader_of_ok:
  fixes objs :: "'a store"
  shows "reader_ok (reader_of gvk objs)"
proof -
  let ?fs = "[(NamespaceIndex, MetaNamespaceIndexFunc)] :: (string \<times> 'a IndexFunc) list"
  let ?c = "NewIndexer DeletionHandlingMetaNamespaceKeyFunc ?fs"
  have empty: "store_ok (cacheStorage ?c)" "keyFunc ?c = DeletionHandlingMetaNamespaceKeyFunc"
    "cache_indexers ?c = ?fs"
    using NewIndexer_ok [of ?fs] by (simp_all add: cache_ok_def NewIndexer_def NewThreadSafeStore_def)
  obtain items where items: "keyed_items DeletionHandlingMetaNamespaceKeyFunc
      (map ApiObject (map snd objs)) [] = Inr items"
    "objects_keyed items" "distinct (map fst items)"
    using keyed_items_objects [of "[]" "map snd objs"] by (auto simp: objects_keyed_def)
  have "indexable (indexers (cacheStorage ?c)) x" if "(k, x) \<in> set items" for k x
    using objects_keyed_item [OF items(2) that] unfolding empty(3)
    by (auto simp: indexable_def MetaNamespaceIndexFunc_def)
  with store_Replace_ok [OF empty(1) items(3)] obtain st where st:
    "store_Replace items (cacheStorage ?c) = Some st" "store_ok st" "contents st = map_of items"
    "indexers st = indexers (cacheStorage ?c)" by blast
  have held: "store_holding objs = ?c\<lparr>cacheStorage := st\<rparr>"
    using items(1) st(1) empty(2)
    by (simp add: store_holding_def cache_Replace_def on_storage_def comp_def Let_def)
  have "(\<exists>obj. x = ApiObject obj) \<and> DeletionHandlingMetaNamespaceKeyFunc x = Inr k"
    if "map_of items k = Some x" for k x
    using objects_keyed_item [OF items(2) map_of_SomeD [OF that]] by auto
  then show ?thesis
    using st empty by (auto simp: reader_ok_def reader_of_def held cache_ok_def)
qed

text \<open>What the stores of \<open>reading old t\<close> show, whatever the API \<open>t\<close> is.\<close>

definition shown :: "tracker \<Rightarrow> cluster" where
  "shown old =
     \<lparr>artifactBuilds = cached_objects (reader_of (WithKind jvmbs_version ''ArtifactBuild'') (artifactBuildObjs old)),
      componentBuilds =
        cached_objects (reader_of (WithKind SchemeGroupVersion ''ComponentBuild'') (componentBuildObjs old)),
      taskRuns = cached_objects (reader_of (WithKind tekton_version ''TaskRun'') (taskRunObjs old)),
      pipelineRuns = cached_objects (reader_of (WithKind tekton_version ''PipelineRun'') (pipelineRunObjs old)),
      configMaps = cached_objects (reader_of (WithKind core_version ''ConfigMap'') (configMapObjs old)),
      rebuiltArtifacts =
        cached_objects (reader_of (WithKind jvmbs_version ''RebuiltArtifact'') (rebuiltArtifactObjs old)),
      dependencyBuilds =
        cached_objects (reader_of (WithKind jvmbs_version ''DependencyBuild'') (dependencyBuildObjs old))\<rparr>"

lemma caught_up_serves:
  "GVKForObject ty sch = Inr gvk \<Longrightarrow>
   serves sch ty (caught_up gvk objs) (cached_objects (reader_of gvk objs))"
  by (simp add: serves_def caught_up_def reader_of_ok)

lemma reading_shows: "stores_show manager_scheme (reading old t) (shown old)"
  by (simp add: stores_show_def reading_def shown_def caught_up_serves manager_kinds list_of_type_def
      manager_list_kinds)

section \<open>Deciding on the stores\<close>

text \<open>
  C28. The client of the manager decides on what the stores of its informers show, whatever state the
  API is in: \<open>deployArtifact\<close> asks the API for a task run exactly when one is due in the stores, also
  when the API has the dependency build marked already or a deploy task in flight.
\<close>

theorem deploys_by_the_stores:
  assumes "api_client cl ab" and "stores_show sch s c"
    and "run_state (deployArtifact env (manager_client sch cl) abr u ow d) s = (r, s')"
  shows "if \<exists>db. deploy_due c abr db
     then \<exists>db m r'. deploy_due c abr db
            \<and> ab (apiState s') = (ab (apiState s))\<lparr>taskRuns := m\<rparr>
            \<and> create_ok (taskRuns (ab (apiState s))) (deployTaskRun env abr db u ow d) r' m
            \<and> r = (case r' of Inl e \<Rightarrow> Some e | Inr _ \<Rightarrow> None)
     else ab (apiState s') = ab (apiState s) \<and> r = None"
  by (rule api_client.managed_deployArtifact [OF assms])

text \<open>The dependency build is marked at the API, and the stores have not seen it.\<close>

definition unmarked :: tracker where
  "unmarked = snd (run_state (do {
     _ \<leftarrow> create_ComponentBuild (test_componentBuild '''' [''com.test:test:1.0'']);
     _ \<leftarrow> Reconcile test_env fake_client (test_key ''test'');
     built ''com.test:test:1.0'' ''com.test.test.1.0'' ''test-db''
   }) test_tracker)"

definition marked_db :: tracker where
  "marked_db = snd (run_state (on_DependencyBuild (test_key ''test-db'') markDeployed) unmarked)"

definition built_artifact :: ArtifactBuild where
  "built_artifact = the (map_of (artifactBuildObjs unmarked) (test_key ''com.test.test.1.0''))"

definition late_deploy :: "api_error option \<times> tracker managed" where
  "late_deploy = run_state (deployArtifact test_env fake_manager_client built_artifact ''u'' ''o'' ''d'')
     (reading unmarked marked_db)"

lemma late_deploy_run:
  "fst late_deploy = None \<and> length (taskRunObjs (apiState (snd late_deploy))) = 1
   \<and> taskRunObjs marked_db = []
   \<and> list_ex (\<lambda>e. gm_get (Annotations (metadata (snd e))) DeployedAnnotation = ''true'') (dependencyBuildObjs marked_db)"
  by code_simp

theorem deploys_by_the_stores_witness:
  "\<exists>db m. deploy_due (shown unmarked) built_artifact db
     \<and> fake_cluster (apiState (snd late_deploy)) = (fake_cluster marked_db)\<lparr>taskRuns := m\<rparr>
     \<and> m \<noteq> taskRuns (fake_cluster marked_db)"
proof -
  have api: "apiState (reading unmarked marked_db) = marked_db" by (simp add: reading_def)
  have run: "run_state (deployArtifact test_env (manager_client manager_scheme fake_client) built_artifact
      ''u'' ''o'' ''d'') (reading unmarked marked_db) = (fst late_deploy, snd late_deploy)"
    by (simp add: late_deploy_def fake_manager_client_def)
  have changed: "fake_cluster (apiState (snd late_deploy)) \<noteq> fake_cluster marked_db"
  proof
    assume "fake_cluster (apiState (snd late_deploy)) = fake_cluster marked_db"
    then have "map_of (taskRunObjs (apiState (snd late_deploy))) = map_of (taskRunObjs marked_db)"
      by (simp add: fake_cluster_def)
    with late_deploy_run show False
      by (cases "taskRunObjs (apiState (snd late_deploy))") (auto simp: fun_eq_iff split: if_splits)
  qed
  have mine: "(fake_cluster marked_db)\<lparr>taskRuns := taskRuns (fake_cluster marked_db)\<rparr> = fake_cluster marked_db"
    by simp
  from deploys_by_the_stores [OF fake.api_client_axioms reading_shows run, unfolded api] changed
  obtain db m where "deploy_due (shown unmarked) built_artifact db"
    "fake_cluster (apiState (snd late_deploy)) = (fake_cluster marked_db)\<lparr>taskRuns := m\<rparr>"
    by (auto simp del: fake_cluster_simps split: if_split_asm)
  with changed mine show ?thesis by (intro exI [of _ db] exI [of _ m]) metis
qed

end
