(* ===== verification/Controller.thy ===== *)
theory Controller
  imports Reconciler
begin

text \<open>
  Starting the program: \<open>NewManager\<close> in \<open>pkg/controller/controller.go\<close> and \<open>main\<close> in
  \<open>cmd/controller/main.go\<close>. The API server and the controller-runtime manager are not code of the
  repository; what the program learns from them (the answers about the CRD, the result of each call)
  are arguments.
\<close>

section \<open>Waiting for the CRD\<close>

text \<open>
  \<open>wait.PollImmediate\<close> from the vendored \<open>k8s.io/apimachinery/pkg/util/wait/wait.go\<close>: the condition
  is called once at the start, once for each tick that reaches the loop, and once more when the
  timeout closes the channel. The condition is a function of the number of the call; \<open>ticks\<close> is the
  number of ticks that reach the loop. The second component of the answer is the number of calls.
\<close>

type_synonym poll_condition = "nat \<Rightarrow> bool \<times> api_error option"

definition ErrWaitTimeout :: api_error where
  "ErrWaitTimeout = OtherError ''timed out waiting for the condition''"

fun WaitFor :: "nat \<Rightarrow> nat \<Rightarrow> poll_condition \<Rightarrow> api_error option \<times> nat" where
  "WaitFor 0 i fn =
     (case fn i of (ok, Some err) \<Rightarrow> (Some err, Suc i)
      | (ok, None) \<Rightarrow> if ok then (None, Suc i) else (Some ErrWaitTimeout, Suc i))"
| "WaitFor (Suc n) i fn =
     (case fn i of (ok, Some err) \<Rightarrow> (Some err, Suc i)
      | (ok, None) \<Rightarrow> if ok then (None, Suc i) else WaitFor n (Suc i) fn)"

definition PollImmediate :: "nat \<Rightarrow> poll_condition \<Rightarrow> api_error option \<times> nat" where
  "PollImmediate ticks condition =
     (case condition 0 of (done, Some err) \<Rightarrow> (Some err, 1)
      | (done, None) \<Rightarrow> if done then (None, 1) else WaitFor ticks 1 condition)"

text \<open>The condition of \<open>NewManager\<close>: an error of the lookup is logged and polled again.\<close>

definition crdCondition :: "(nat \<Rightarrow> api_error option) \<Rightarrow> poll_condition" where
  "crdCondition getCRD i = (case getCRD i of Some err \<Rightarrow> (False, None) | None \<Rightarrow> (True, None))"

section \<open>The manager\<close>

datatype 'a startup = Started 'a | StartupError api_error | Panicked

fun startup_bind :: "'a startup \<Rightarrow> ('a \<Rightarrow> 'b startup) \<Rightarrow> 'b startup" where
  "startup_bind (Started x) f = f x"
| "startup_bind (StartupError err) f = StartupError err"
| "startup_bind Panicked f = Panicked"

definition checked :: "api_error option \<Rightarrow> unit startup" where
  "checked e = (case e of None \<Rightarrow> Started () | Some err \<Rightarrow> StartupError err)"

text \<open>The libraries' registration functions return an error; this group's own can only panic.\<close>

definition registered :: "Scheme option \<Rightarrow> Scheme startup" where
  "registered s = (case s of None \<Rightarrow> Panicked | Some s \<Rightarrow> Started s)"

definition lift_error :: "api_error + 'a \<Rightarrow> 'a startup" where
  "lift_error r = (case r of Inl err \<Rightarrow> StartupError err | Inr x \<Rightarrow> Started x)"

datatype watched_kind = ComponentBuildKind | ArtifactBuildKind | PipelineRunKind | TaskRunKind

record Options =
  optScheme :: Scheme
  MetricsBindAddress :: string
  Port :: int
  HealthProbeBindAddress :: string
  LeaderElection :: bool
  LeaderElectionID :: string
  SelectorsByObject :: "(watched_kind \<times> Selector option) list"

text \<open>
  The selector of the task runs: \<open>Add\<close> returns a new selector (of one requirement, so that the draw
  of its sort is of no effect), and its answer is dropped.
\<close>

definition deployTaskSelector :: "string list + Selector" where
  "deployTaskSelector =
     (let deployTask = NewSelector in
      case NewRequirement DeployTaskLabel Exists [] of
        Inl lerr \<Rightarrow> Inl lerr
      | Inr requirement \<Rightarrow> (let dropped = Add 0 deployTask [requirement] in Inr deployTask))"

definition NewManager ::
  "nat \<Rightarrow> (nat \<Rightarrow> api_error option)
     \<Rightarrow> (Scheme \<Rightarrow> api_error + Scheme) \<Rightarrow> (Scheme \<Rightarrow> api_error + Scheme) \<Rightarrow> (Scheme \<Rightarrow> api_error + Scheme)
     \<Rightarrow> (GroupVersion \<Rightarrow> Scheme \<Rightarrow> Scheme option)
     \<Rightarrow> (Options \<Rightarrow> api_error + 'm) \<Rightarrow> ('m \<Rightarrow> api_error option)
     \<Rightarrow> Options \<Rightarrow> ('m \<times> Options) startup" where
  "NewManager ticks getCRD k8sAdd jvmbsAdd pipelineAdd addToGroupVersion ctrlNewManager setup options =
     startup_bind (checked (fst (PollImmediate ticks (crdCondition getCRD)))) (\<lambda>_.
     startup_bind (lift_error (k8sAdd NewScheme)) (\<lambda>s1.
     startup_bind (lift_error (jvmbsAdd s1)) (\<lambda>s2.
     startup_bind (lift_error (pipelineAdd s2)) (\<lambda>s3.
     startup_bind (registered (AddToScheme addToGroupVersion s3)) (\<lambda>s4.
     (case deployTaskSelector of
        Inl lerr \<Rightarrow> StartupError (OtherError (Join lerr '', ''))
      | Inr deployTask \<Rightarrow>
          (let options' = options\<lparr>optScheme := s4,
                 SelectorsByObject :=
                   [(ComponentBuildKind, None), (ArtifactBuildKind, None), (PipelineRunKind, None),
                    (TaskRunKind, Some deployTask)]\<rparr>
           in startup_bind (lift_error (ctrlNewManager options')) (\<lambda>mgr.
              startup_bind (checked (setup mgr)) (\<lambda>_. Started (mgr, options'))))))))))"

section \<open>The program\<close>

record Flags =
  metricsAddr :: string
  probeAddr :: string
  abAPIExportName :: string
  enableLeaderElection :: bool

definition defaultFlags :: Flags where
  "defaultFlags = \<lparr>metricsAddr = '':8080'', probeAddr = '':8081'',
     abAPIExportName = ''jvm-build-service'', enableLeaderElection = False\<rparr>"

definition managerOptions :: "Flags \<Rightarrow> Options" where
  "managerOptions fl =
     \<lparr>optScheme = NewScheme, MetricsBindAddress = metricsAddr fl, Port = 9443,
      HealthProbeBindAddress = probeAddr fl, LeaderElection = enableLeaderElection fl,
      LeaderElectionID = ''5483be8f.redhat.com'', SelectorsByObject = []\<rparr>"

text \<open>
  \<open>main\<close> from the options on: the exit code. \<open>healthz\<close>, \<open>readyz\<close> and \<open>start\<close> are the results of the
  three calls on the manager; a panic ends a Go program with code 2.
\<close>

definition main_program ::
  "(Options \<Rightarrow> ('m \<times> Options) startup) \<Rightarrow> ('m \<Rightarrow> api_error option) \<Rightarrow> ('m \<Rightarrow> api_error option)
     \<Rightarrow> ('m \<Rightarrow> api_error option) \<Rightarrow> Flags \<Rightarrow> int" where
  "main_program newManager healthz readyz start fl =
     (case newManager (managerOptions fl) of
        Panicked \<Rightarrow> 2
      | StartupError err \<Rightarrow> 1
      | Started (mgr, opts) \<Rightarrow>
          (if healthz mgr \<noteq> None then 1
           else if readyz mgr \<noteq> None then 1
           else if start mgr \<noteq> None then 1
           else 0))"

section \<open>What starting does\<close>

lemma WaitFor_calls: "i < snd (WaitFor n i fn) \<and> snd (WaitFor n i fn) \<le> i + n + 1"
  by (induction n i fn rule: WaitFor.induct)
    (auto split: prod.splits option.splits intro: Suc_lessD)

text \<open>The polling ends after at most two calls more than there are ticks.\<close>

lemma PollImmediate_calls:
  "0 < snd (PollImmediate n fn) \<and> snd (PollImmediate n fn) \<le> n + 2"
  using WaitFor_calls [of 1 n fn] by (auto simp: PollImmediate_def split: prod.splits option.splits)

lemma WaitFor_crd:
  "fst (WaitFor n i (crdCondition getCRD)) = None \<longleftrightarrow> (\<exists>j. i \<le> j \<and> j \<le> i + n \<and> getCRD j = None)"
proof (induction n arbitrary: i)
  case 0
  then show ?case by (auto simp: crdCondition_def split: option.splits)
next
  case (Suc n)
  show ?case
  proof (cases "getCRD i")
    case None
    then show ?thesis by (auto simp: crdCondition_def)
  next
    case (Some e)
    then have "(\<exists>j. Suc i \<le> j \<and> j \<le> Suc i + n \<and> getCRD j = None)
        \<longleftrightarrow> (\<exists>j. i \<le> j \<and> j \<le> i + Suc n \<and> getCRD j = None)"
      by (metis Suc_leD add_Suc add_Suc_right le_antisym not_less_eq_eq option.distinct(1))
    then show ?thesis using Some Suc.IH [of "Suc i"] by (simp add: crdCondition_def)
  qed
qed

text \<open>It succeeds exactly when the CRD is there at one of the calls.\<close>

lemma PollImmediate_crd:
  "fst (PollImmediate n (crdCondition getCRD)) = None \<longleftrightarrow> (\<exists>j \<le> n + 1. getCRD j = None)"
proof (cases "getCRD 0")
  case None
  then show ?thesis by (auto simp: PollImmediate_def crdCondition_def)
next
  case (Some e)
  then have "(\<exists>j. 1 \<le> j \<and> j \<le> 1 + n \<and> getCRD j = None) \<longleftrightarrow> (\<exists>j \<le> n + 1. getCRD j = None)"
    by (metis One_nat_def add.commute le_0_eq not_less_eq_eq option.distinct(1))
  then show ?thesis
    using Some WaitFor_crd [of n 1 getCRD] by (simp add: PollImmediate_def crdCondition_def)
qed

lemma DeployTaskLabel_qualified: "IsQualifiedName DeployTaskLabel"
  by code_simp

text \<open>The selector is never restricted: every task run passes it.\<close>

lemma deployTaskSelector_New: "deployTaskSelector = Inr NewSelector"
  by (simp add: deployTaskSelector_def NewRequirement_Exists DeployTaskLabel_qualified Let_def)

lemma deployTaskSelector_all:
  "\<exists>sel. deployTaskSelector = Inr sel \<and> (\<forall>ls. SelectorMatches sel ls)"
  by (auto simp: deployTaskSelector_New)

lemma startup_bind_Started: "startup_bind m f = Started y \<longleftrightarrow> (\<exists>x. m = Started x \<and> f x = Started y)"
  by (cases m) auto

lemma lift_error_Started: "lift_error r = Started x \<longleftrightarrow> r = Inr x"
  by (auto simp: lift_error_def split: sum.splits)

lemma checked_Started: "checked e = Started u \<longleftrightarrow> e = None"
  by (auto simp: checked_def split: option.splits)

lemma registered_Started: "registered s = Started x \<longleftrightarrow> s = Some x"
  by (auto simp: registered_def split: option.splits)

lemma case_sum_Started:
  "(case r of Inl e \<Rightarrow> StartupError (g e) | Inr x \<Rightarrow> f x) = Started y
     \<longleftrightarrow> (\<exists>x. r = Inr x \<and> f x = Started y)"
  by (auto split: sum.splits)

lemmas startup_simps = case_sum_Started startup_bind_Started lift_error_Started checked_Started registered_Started

lemma NewManager_started:
  assumes "NewManager ticks getCRD k j p agv mk setup options = Started (mgr, options')"
  shows "(\<exists>i \<le> ticks + 1. getCRD i = None) \<and> mk options' = Inr mgr \<and> setup mgr = None
    \<and> (\<exists>s1 s2 s3. k NewScheme = Inr s1 \<and> j s1 = Inr s2 \<and> p s2 = Inr s3
         \<and> AddToScheme agv s3 = Some (optScheme options'))
    \<and> LeaderElectionID options' = LeaderElectionID options"
proof -
  obtain sel where "deployTaskSelector = Inr sel" using deployTaskSelector_all by blast
  with assms show ?thesis
    by (auto simp: NewManager_def startup_simps PollImmediate_crd Let_def)
qed

lemma NewManager_selectors:
  assumes "NewManager ticks getCRD k j p agv mk setup options = Started (mgr, options')"
  shows "\<exists>sel. map_of (SelectorsByObject options') TaskRunKind = Some (Some sel)
    \<and> (\<forall>ls. SelectorMatches sel ls)"
proof -
  have "map_of (SelectorsByObject options') TaskRunKind = Some (Some NewSelector)"
    using assms by (auto simp: NewManager_def startup_simps deployTaskSelector_New Let_def)
  then show ?thesis by auto
qed

end
