(* ===== verification/DeepCopy.thy ===== *)
theory DeepCopy
  imports ApiTypes
begin

text \<open>
  The generated copy functions of \<open>pkg/apis/apheleia/v1alpha1/zz_generated.deepcopy.go\<close>, and those of
  the vendored \<open>k8s.io/apimachinery/pkg/apis/meta/v1/zz_generated.deepcopy.go\<close> they call for the
  metadata, over an explicit memory: slices, maps and pointers are addresses, so that copying the
  struct that holds one shares what it refers to. Strings, artifact states and times are values (the
  last as \<open>Time.DeepCopyInto\<close> says). What is shown is that a copy has the contents of its original
  and shares no cell of the memory with it, down to the owner references and the managed fields.
\<close>

section \<open>The structs, with their references\<close>

type_synonym addr = nat

record GoOwnerReference =
  orAPIVersion :: string
  orKind :: string
  orName :: string
  orUID :: string
  orController :: "addr option"
  orBlockOwnerDeletion :: "addr option"

record GoFieldsV1 =
  rawBytes :: "addr option"

record GoManagedFieldsEntry =
  mfManager :: string
  mfOperation :: string
  mfAPIVersion :: string
  mfTime :: "addr option"
  mfFieldsType :: string
  mfFieldsV1 :: "addr option"
  mfSubresource :: string

record GoObjectMeta =
  omName :: string
  omGenerateName :: string
  omNamespace :: string
  omSelfLink :: string
  omUID :: string
  omResourceVersion :: string
  omGeneration :: int
  omCreationTimestamp :: int
  omDeletionTimestamp :: "addr option"
  omDeletionGracePeriodSeconds :: "addr option"
  omLabels :: "addr option"
  omAnnotations :: "addr option"
  omOwnerReferences :: "addr option"
  omFinalizers :: "addr option"
  omManagedFields :: "addr option"

record GoListMeta =
  glSelfLink :: string
  glResourceVersion :: string
  glContinue :: string
  glRemainingItemCount :: "addr option"

record TypeMeta =
  tmKind :: string
  tmAPIVersion :: string

record GoSpec =
  goSCMURL :: string
  goPRURL :: string
  goTag :: string
  goArtifacts :: "addr option"

record GoStatus =
  goState :: string
  goOutstanding :: int
  goArtifactState :: "addr option"
  goMessage :: string
  goResultNotified :: bool

record GoComponentBuild =
  goTypeMeta :: TypeMeta
  goMeta :: GoObjectMeta
  goSpec :: GoSpec
  goStatus :: GoStatus

record GoComponentBuildList =
  goListTypeMeta :: TypeMeta
  goListMeta :: GoListMeta
  goItems :: "addr option"

section \<open>Memory\<close>

text \<open>What an address can refer to: a variable, the array behind a slice, or a map.\<close>

datatype cell =
  BoolCell bool
| IntCell int
| TimeCell int
| FieldsCell GoFieldsV1
| ByteArray "char list"
| StringArray "string list"
| OwnerArray "GoOwnerReference list"
| EntryArray "GoManagedFieldsEntry list"
| BuildArray "GoComponentBuild list"
| StringMap "(string \<times> string) list"
| StateMap "(string \<times> ArtifactState) list"

text \<open>Go's types say which kind of cell a reference refers to.\<close>

record 'c cell_kind =
  wrap :: "'c \<Rightarrow> cell"
  unwrap :: "cell \<Rightarrow> 'c option"

definition a_bool :: "bool cell_kind" where
  "a_bool = \<lparr>wrap = BoolCell, unwrap = (\<lambda>c. case c of BoolCell x \<Rightarrow> Some x | _ \<Rightarrow> None)\<rparr>"

definition an_int :: "int cell_kind" where
  "an_int = \<lparr>wrap = IntCell, unwrap = (\<lambda>c. case c of IntCell x \<Rightarrow> Some x | _ \<Rightarrow> None)\<rparr>"

definition a_time :: "int cell_kind" where
  "a_time = \<lparr>wrap = TimeCell, unwrap = (\<lambda>c. case c of TimeCell x \<Rightarrow> Some x | _ \<Rightarrow> None)\<rparr>"

definition some_fields :: "GoFieldsV1 cell_kind" where
  "some_fields = \<lparr>wrap = FieldsCell, unwrap = (\<lambda>c. case c of FieldsCell x \<Rightarrow> Some x | _ \<Rightarrow> None)\<rparr>"

definition byte_array :: "char list cell_kind" where
  "byte_array = \<lparr>wrap = ByteArray, unwrap = (\<lambda>c. case c of ByteArray x \<Rightarrow> Some x | _ \<Rightarrow> None)\<rparr>"

definition string_array :: "string list cell_kind" where
  "string_array = \<lparr>wrap = StringArray, unwrap = (\<lambda>c. case c of StringArray x \<Rightarrow> Some x | _ \<Rightarrow> None)\<rparr>"

definition owner_array :: "GoOwnerReference list cell_kind" where
  "owner_array = \<lparr>wrap = OwnerArray, unwrap = (\<lambda>c. case c of OwnerArray x \<Rightarrow> Some x | _ \<Rightarrow> None)\<rparr>"

definition entry_array :: "GoManagedFieldsEntry list cell_kind" where
  "entry_array = \<lparr>wrap = EntryArray, unwrap = (\<lambda>c. case c of EntryArray x \<Rightarrow> Some x | _ \<Rightarrow> None)\<rparr>"

definition build_array :: "GoComponentBuild list cell_kind" where
  "build_array = \<lparr>wrap = BuildArray, unwrap = (\<lambda>c. case c of BuildArray x \<Rightarrow> Some x | _ \<Rightarrow> None)\<rparr>"

definition string_map :: "(string \<times> string) list cell_kind" where
  "string_map = \<lparr>wrap = StringMap, unwrap = (\<lambda>c. case c of StringMap x \<Rightarrow> Some x | _ \<Rightarrow> None)\<rparr>"

definition state_map :: "(string \<times> ArtifactState) list cell_kind" where
  "state_map = \<lparr>wrap = StateMap, unwrap = (\<lambda>c. case c of StateMap x \<Rightarrow> Some x | _ \<Rightarrow> None)\<rparr>"

lemmas cell_kinds =
  a_bool_def an_int_def a_time_def some_fields_def byte_array_def string_array_def owner_array_def
  entry_array_def build_array_def string_map_def state_map_def

definition kinded :: "'c cell_kind \<Rightarrow> bool" where
  "kinded T \<longleftrightarrow> (\<forall>x. unwrap T (wrap T x) = Some x)"

lemma kinded_kinds [simp]:
  "kinded a_bool" "kinded an_int" "kinded a_time" "kinded some_fields" "kinded byte_array"
  "kinded string_array" "kinded owner_array" "kinded entry_array" "kinded build_array"
  "kinded string_map" "kinded state_map"
  by (simp_all add: kinded_def cell_kinds)

text \<open>The iteration orders the Go runtime draws for its loops over maps are part of the state.\<close>

record memory =
  cells :: "addr \<rightharpoonup> cell"
  next_addr :: addr
  orders :: "nat list"

definition load :: "'c cell_kind \<Rightarrow> addr \<Rightarrow> memory \<Rightarrow> 'c option" where
  "load T a h = Option.bind (cells h a) (unwrap T)"

definition read_cell :: "'c cell_kind \<Rightarrow> 'c \<Rightarrow> addr \<Rightarrow> (memory, 'c) state" where
  "read_cell T zero a = State_Monad.State (\<lambda>h. (case load T a h of None \<Rightarrow> zero | Some x \<Rightarrow> x, h))"

definition new_cell :: "'c cell_kind \<Rightarrow> 'c \<Rightarrow> (memory, addr) state" where
  "new_cell T x = State_Monad.State (\<lambda>h.
     (next_addr h, h\<lparr>cells := (cells h)(next_addr h \<mapsto> wrap T x), next_addr := next_addr h + 1\<rparr>))"

definition write_cell :: "'c cell_kind \<Rightarrow> addr \<Rightarrow> 'c \<Rightarrow> (memory, unit) state" where
  "write_cell T a x = State_Monad.State (\<lambda>h. ((), h\<lparr>cells := (cells h)(a \<mapsto> wrap T x)\<rparr>))"

definition write_element :: "'c list cell_kind \<Rightarrow> addr \<Rightarrow> nat \<Rightarrow> 'c \<Rightarrow> (memory, unit) state" where
  "write_element T a i x = do {
     xs \<leftarrow> read_cell T [] a;
     write_cell T a (xs[i := x])
   }"

definition write_entry :: "(string \<times> 'c) list cell_kind \<Rightarrow> addr \<Rightarrow> string \<Rightarrow> 'c \<Rightarrow> (memory, unit) state" where
  "write_entry T a k v = do {
     m \<leftarrow> read_cell T [] a;
     write_cell T a (AList.update k v m)
   }"

definition next_order :: "(memory, nat) state" where
  "next_order = State_Monad.State (\<lambda>h.
     case orders h of [] \<Rightarrow> (0, h) | n # ns \<Rightarrow> (n, h\<lparr>orders := ns\<rparr>))"

section \<open>The generated blocks\<close>

text \<open>
  The code generator has three blocks for the fields that are references, each guarded by a test for
  nil: one for a pointer, one for a slice, and one for a map. The loop over a slice fills the new array
  by index; the loop over a map writes the entries one by one, in the order drawn. A slice of strings
  or bytes is copied by the builtin \<open>copy\<close>, which does what the loop does for values.
\<close>

definition copy_pointer ::
  "'c cell_kind \<Rightarrow> 'c \<Rightarrow> ('c \<Rightarrow> (memory, 'c) state) \<Rightarrow> addr option \<Rightarrow> (memory, addr option) state" where
  "copy_pointer T zero copy p =
     (case p of
        None \<Rightarrow> State_Monad.return None
      | Some a \<Rightarrow> do {
          b \<leftarrow> new_cell T zero;
          x \<leftarrow> read_cell T zero a;
          y \<leftarrow> copy x;
          write_cell T b y;
          State_Monad.return (Some b)
        })"

fun copy_elements ::
  "'c list cell_kind \<Rightarrow> ('c \<Rightarrow> (memory, 'c) state) \<Rightarrow> addr \<Rightarrow> nat \<Rightarrow> 'c list \<Rightarrow> (memory, unit) state" where
  "copy_elements T copy b i [] = State_Monad.return ()"
| "copy_elements T copy b i (x # xs) = do {
     y \<leftarrow> copy x;
     write_element T b i y;
     copy_elements T copy b (Suc i) xs
   }"

definition copy_slice ::
  "'c list cell_kind \<Rightarrow> 'c \<Rightarrow> ('c \<Rightarrow> (memory, 'c) state) \<Rightarrow> addr option \<Rightarrow> (memory, addr option) state" where
  "copy_slice T zero copy p =
     (case p of
        None \<Rightarrow> State_Monad.return None
      | Some a \<Rightarrow> do {
          xs \<leftarrow> read_cell T [] a;
          b \<leftarrow> new_cell T (replicate (length xs) zero);
          copy_elements T copy b 0 xs;
          State_Monad.return (Some b)
        })"

fun copy_entries :: "(string \<times> 'c) list cell_kind \<Rightarrow> addr \<Rightarrow> (string \<times> 'c) list \<Rightarrow> (memory, unit) state" where
  "copy_entries T b [] = State_Monad.return ()"
| "copy_entries T b ((key, val) # es) = do {
     write_entry T b key val;
     copy_entries T b es
   }"

definition copy_map :: "(string \<times> 'c) list cell_kind \<Rightarrow> addr option \<Rightarrow> (memory, addr option) state" where
  "copy_map T p =
     (case p of
        None \<Rightarrow> State_Monad.return None
      | Some a \<Rightarrow> do {
          b \<leftarrow> new_cell T [];
          m \<leftarrow> read_cell T [] a;
          n \<leftarrow> next_order;
          copy_entries T b (pick_order n m);
          State_Monad.return (Some b)
        })"

section \<open>The generated functions\<close>

definition Time_DeepCopyInto :: "int \<Rightarrow> (memory, int) state" where
  "Time_DeepCopyInto t = State_Monad.return t"

definition OwnerReference_DeepCopyInto :: "GoOwnerReference \<Rightarrow> (memory, GoOwnerReference) state" where
  "OwnerReference_DeepCopyInto x = do {
     controller \<leftarrow> copy_pointer a_bool False State_Monad.return (orController x);
     block \<leftarrow> copy_pointer a_bool False State_Monad.return (orBlockOwnerDeletion x);
     State_Monad.return (x\<lparr>orController := controller, orBlockOwnerDeletion := block\<rparr>)
   }"

definition FieldsV1_DeepCopyInto :: "GoFieldsV1 \<Rightarrow> (memory, GoFieldsV1) state" where
  "FieldsV1_DeepCopyInto x = do {
     raw \<leftarrow> copy_slice byte_array (CHR 0x00) State_Monad.return (rawBytes x);
     State_Monad.return (x\<lparr>rawBytes := raw\<rparr>)
   }"

definition ManagedFieldsEntry_DeepCopyInto ::
  "GoManagedFieldsEntry \<Rightarrow> (memory, GoManagedFieldsEntry) state" where
  "ManagedFieldsEntry_DeepCopyInto x = do {
     time \<leftarrow> copy_pointer a_time 0 Time_DeepCopyInto (mfTime x);
     fieldsV1 \<leftarrow> copy_pointer some_fields \<lparr>rawBytes = None\<rparr> FieldsV1_DeepCopyInto (mfFieldsV1 x);
     State_Monad.return (x\<lparr>mfTime := time, mfFieldsV1 := fieldsV1\<rparr>)
   }"

definition zero_owner :: GoOwnerReference where
  "zero_owner = \<lparr>orAPIVersion = '''', orKind = '''', orName = '''', orUID = '''', orController = None,
     orBlockOwnerDeletion = None\<rparr>"

definition zero_entry :: GoManagedFieldsEntry where
  "zero_entry = \<lparr>mfManager = '''', mfOperation = '''', mfAPIVersion = '''', mfTime = None,
     mfFieldsType = '''', mfFieldsV1 = None, mfSubresource = ''''\<rparr>"

definition ObjectMeta_DeepCopyInto :: "GoObjectMeta \<Rightarrow> (memory, GoObjectMeta) state" where
  "ObjectMeta_DeepCopyInto x = do {
     creationTimestamp \<leftarrow> Time_DeepCopyInto (omCreationTimestamp x);
     deletionTimestamp \<leftarrow> copy_pointer a_time 0 Time_DeepCopyInto (omDeletionTimestamp x);
     gracePeriod \<leftarrow> copy_pointer an_int 0 State_Monad.return (omDeletionGracePeriodSeconds x);
     labels \<leftarrow> copy_map string_map (omLabels x);
     annotations \<leftarrow> copy_map string_map (omAnnotations x);
     owners \<leftarrow> copy_slice owner_array zero_owner OwnerReference_DeepCopyInto (omOwnerReferences x);
     finalizers \<leftarrow> copy_slice string_array '''' State_Monad.return (omFinalizers x);
     managed \<leftarrow> copy_slice entry_array zero_entry ManagedFieldsEntry_DeepCopyInto (omManagedFields x);
     State_Monad.return (x\<lparr>omCreationTimestamp := creationTimestamp,
       omDeletionTimestamp := deletionTimestamp, omDeletionGracePeriodSeconds := gracePeriod,
       omLabels := labels, omAnnotations := annotations, omOwnerReferences := owners,
       omFinalizers := finalizers, omManagedFields := managed\<rparr>)
   }"

definition ListMeta_DeepCopyInto :: "GoListMeta \<Rightarrow> (memory, GoListMeta) state" where
  "ListMeta_DeepCopyInto x = do {
     count \<leftarrow> copy_pointer an_int 0 State_Monad.return (glRemainingItemCount x);
     State_Monad.return (x\<lparr>glRemainingItemCount := count\<rparr>)
   }"

definition ArtifactState_DeepCopyInto :: "ArtifactState \<Rightarrow> ArtifactState" where
  "ArtifactState_DeepCopyInto x = x"

definition ComponentBuildSpec_DeepCopyInto :: "GoSpec \<Rightarrow> (memory, GoSpec) state" where
  "ComponentBuildSpec_DeepCopyInto x = do {
     artifacts \<leftarrow> copy_slice string_array '''' State_Monad.return (goArtifacts x);
     State_Monad.return (x\<lparr>goArtifacts := artifacts\<rparr>)
   }"

definition ComponentBuildStatus_DeepCopyInto :: "GoStatus \<Rightarrow> (memory, GoStatus) state" where
  "ComponentBuildStatus_DeepCopyInto x = do {
     states \<leftarrow> copy_map state_map (goArtifactState x);
     State_Monad.return (x\<lparr>goArtifactState := states\<rparr>)
   }"

definition ComponentBuild_DeepCopyInto :: "GoComponentBuild \<Rightarrow> (memory, GoComponentBuild) state" where
  "ComponentBuild_DeepCopyInto x = do {
     objectMeta \<leftarrow> ObjectMeta_DeepCopyInto (goMeta x);
     spec \<leftarrow> ComponentBuildSpec_DeepCopyInto (goSpec x);
     status \<leftarrow> ComponentBuildStatus_DeepCopyInto (goStatus x);
     State_Monad.return (x\<lparr>goMeta := objectMeta, goSpec := spec, goStatus := status\<rparr>)
   }"

definition zero_meta :: GoObjectMeta where
  "zero_meta = \<lparr>omName = '''', omGenerateName = '''', omNamespace = '''', omSelfLink = '''', omUID = '''',
     omResourceVersion = '''', omGeneration = 0, omCreationTimestamp = 0, omDeletionTimestamp = None,
     omDeletionGracePeriodSeconds = None, omLabels = None, omAnnotations = None,
     omOwnerReferences = None, omFinalizers = None, omManagedFields = None\<rparr>"

definition zero_build :: GoComponentBuild where
  "zero_build = \<lparr>goTypeMeta = \<lparr>tmKind = '''', tmAPIVersion = ''''\<rparr>, goMeta = zero_meta,
     goSpec = \<lparr>goSCMURL = '''', goPRURL = '''', goTag = '''', goArtifacts = None\<rparr>,
     goStatus = \<lparr>goState = '''', goOutstanding = 0, goArtifactState = None, goMessage = '''',
                 goResultNotified = False\<rparr>\<rparr>"

definition ComponentBuildList_DeepCopyInto ::
  "GoComponentBuildList \<Rightarrow> (memory, GoComponentBuildList) state" where
  "ComponentBuildList_DeepCopyInto x = do {
     listMeta \<leftarrow> ListMeta_DeepCopyInto (goListMeta x);
     items \<leftarrow> copy_slice build_array zero_build ComponentBuild_DeepCopyInto (goItems x);
     State_Monad.return (x\<lparr>goListMeta := listMeta, goItems := items\<rparr>)
   }"

text \<open>
  The functions \<open>DeepCopy\<close> take and return a pointer, which is nil or the struct it points to.
\<close>

definition ArtifactState_DeepCopy :: "ArtifactState option \<Rightarrow> ArtifactState option" where
  "ArtifactState_DeepCopy x = (case x of None \<Rightarrow> None | Some x \<Rightarrow> Some (ArtifactState_DeepCopyInto x))"

definition ComponentBuildSpec_DeepCopy :: "GoSpec option \<Rightarrow> (memory, GoSpec option) state" where
  "ComponentBuildSpec_DeepCopy x =
     (case x of
        None \<Rightarrow> State_Monad.return None
      | Some x \<Rightarrow> do {
          out \<leftarrow> ComponentBuildSpec_DeepCopyInto x;
          State_Monad.return (Some out)
        })"

definition ComponentBuildStatus_DeepCopy :: "GoStatus option \<Rightarrow> (memory, GoStatus option) state" where
  "ComponentBuildStatus_DeepCopy x =
     (case x of
        None \<Rightarrow> State_Monad.return None
      | Some x \<Rightarrow> do {
          out \<leftarrow> ComponentBuildStatus_DeepCopyInto x;
          State_Monad.return (Some out)
        })"

definition ComponentBuild_DeepCopy ::
  "GoComponentBuild option \<Rightarrow> (memory, GoComponentBuild option) state" where
  "ComponentBuild_DeepCopy x =
     (case x of
        None \<Rightarrow> State_Monad.return None
      | Some x \<Rightarrow> do {
          out \<leftarrow> ComponentBuild_DeepCopyInto x;
          State_Monad.return (Some out)
        })"

definition ComponentBuild_DeepCopyObject ::
  "GoComponentBuild option \<Rightarrow> (memory, GoComponentBuild option) state" where
  "ComponentBuild_DeepCopyObject x = do {
     c \<leftarrow> ComponentBuild_DeepCopy x;
     (case c of Some c \<Rightarrow> State_Monad.return (Some c) | None \<Rightarrow> State_Monad.return None)
   }"

definition ComponentBuildList_DeepCopy ::
  "GoComponentBuildList option \<Rightarrow> (memory, GoComponentBuildList option) state" where
  "ComponentBuildList_DeepCopy x =
     (case x of
        None \<Rightarrow> State_Monad.return None
      | Some x \<Rightarrow> do {
          out \<leftarrow> ComponentBuildList_DeepCopyInto x;
          State_Monad.return (Some out)
        })"

definition ComponentBuildList_DeepCopyObject ::
  "GoComponentBuildList option \<Rightarrow> (memory, GoComponentBuildList option) state" where
  "ComponentBuildList_DeepCopyObject x = do {
     c \<leftarrow> ComponentBuildList_DeepCopy x;
     (case c of Some c \<Rightarrow> State_Monad.return (Some c) | None \<Rightarrow> State_Monad.return None)
   }"

lemma DeepCopyObject_run:
  "run_state (ComponentBuild_DeepCopyObject (Some x)) h
     = (case run_state (ComponentBuild_DeepCopyInto x) h of (y, h') \<Rightarrow> (Some y, h'))"
  "run_state (ComponentBuildList_DeepCopyObject (Some l)) h
     = (case run_state (ComponentBuildList_DeepCopyInto l) h of (y, h') \<Rightarrow> (Some y, h'))"
  by (simp_all add: ComponentBuild_DeepCopyObject_def ComponentBuild_DeepCopy_def
      ComponentBuildList_DeepCopyObject_def ComponentBuildList_DeepCopy_def split: prod.split)

section \<open>What a struct holds and refers to\<close>

text \<open>
  A shape says of a type what a value of it holds once its references are followed, at which
  addresses all of that lies, and that the references are good: each refers to a cell of its type,
  and each map has its keys once.
\<close>

record ('a, 'v) shape =
  shValue :: "memory \<Rightarrow> 'a \<Rightarrow> 'v"
  shRefs :: "memory \<Rightarrow> 'a \<Rightarrow> addr set"
  shOk :: "memory \<Rightarrow> 'a \<Rightarrow> bool"

definition plain :: "('a, 'a) shape" where
  "plain = \<lparr>shValue = (\<lambda>h x. x), shRefs = (\<lambda>h x. {}), shOk = (\<lambda>h x. True)\<rparr>"

definition entries :: "((string \<times> 'c) list, string \<rightharpoonup> 'c) shape" where
  "entries = \<lparr>shValue = (\<lambda>h m. map_of m), shRefs = (\<lambda>h m. {}), shOk = (\<lambda>h m. distinct (map fst m))\<rparr>"

definition both :: "('a, 'v) shape \<Rightarrow> ('b, 'w) shape \<Rightarrow> ('a \<times> 'b, 'v \<times> 'w) shape" where
  "both S T =
     \<lparr>shValue = (\<lambda>h x. (shValue S h (fst x), shValue T h (snd x))),
      shRefs = (\<lambda>h x. shRefs S h (fst x) \<union> shRefs T h (snd x)),
      shOk = (\<lambda>h x. shOk S h (fst x) \<and> shOk T h (snd x))\<rparr>"

definition elements :: "('a, 'v) shape \<Rightarrow> ('a list, 'v list) shape" where
  "elements S =
     \<lparr>shValue = (\<lambda>h xs. map (shValue S h) xs), shRefs = (\<lambda>h xs. \<Union>x \<in> set xs. shRefs S h x),
      shOk = (\<lambda>h xs. list_all (shOk S h) xs)\<rparr>"

text \<open>A reference: nil, or an address with what lies there.\<close>

definition referred :: "'c cell_kind \<Rightarrow> ('c, 'v) shape \<Rightarrow> (addr option, 'v option) shape" where
  "referred T S =
     \<lparr>shValue = (\<lambda>h p. case p of None \<Rightarrow> None | Some a \<Rightarrow> map_option (shValue S h) (load T a h)),
      shRefs = (\<lambda>h p. case p of None \<Rightarrow> {}
        | Some a \<Rightarrow> insert a (case load T a h of None \<Rightarrow> {} | Some x \<Rightarrow> shRefs S h x)),
      shOk = (\<lambda>h p. case p of None \<Rightarrow> True
        | Some a \<Rightarrow> (case load T a h of None \<Rightarrow> False | Some x \<Rightarrow> shOk S h x))\<rparr>"

text \<open>A struct: the parts that have references, and the rest as it is.\<close>

definition struct :: "('a \<Rightarrow> 'r) \<Rightarrow> ('a \<Rightarrow> 'b) \<Rightarrow> ('b, 'v) shape \<Rightarrow> ('a, 'r \<times> 'v) shape" where
  "struct rest parts S =
     \<lparr>shValue = (\<lambda>h x. (rest x, shValue S h (parts x))), shRefs = (\<lambda>h x. shRefs S h (parts x)),
      shOk = (\<lambda>h x. shOk S h (parts x))\<rparr>"

definition owner_shape where
  "owner_shape =
     struct (\<lambda>x. x\<lparr>orController := None, orBlockOwnerDeletion := None\<rparr>)
       (\<lambda>x. (orController x, orBlockOwnerDeletion x))
       (both (referred a_bool plain) (referred a_bool plain))"

definition fields_shape where
  "fields_shape = struct (\<lambda>_. ()) rawBytes (referred byte_array (elements plain))"

definition entry_shape where
  "entry_shape =
     struct (\<lambda>x. x\<lparr>mfTime := None, mfFieldsV1 := None\<rparr>) (\<lambda>x. (mfTime x, mfFieldsV1 x))
       (both (referred a_time plain) (referred some_fields fields_shape))"

definition meta_shape where
  "meta_shape =
     struct
       (\<lambda>x. x\<lparr>omDeletionTimestamp := None, omDeletionGracePeriodSeconds := None, omLabels := None,
              omAnnotations := None, omOwnerReferences := None, omFinalizers := None,
              omManagedFields := None\<rparr>)
       (\<lambda>x. (omDeletionTimestamp x, omDeletionGracePeriodSeconds x, omLabels x, omAnnotations x,
             omOwnerReferences x, omFinalizers x, omManagedFields x))
       (both (referred a_time plain) (both (referred an_int plain)
         (both (referred string_map entries) (both (referred string_map entries)
           (both (referred owner_array (elements owner_shape))
             (both (referred string_array (elements plain))
               (referred entry_array (elements entry_shape))))))))"

definition listmeta_shape where
  "listmeta_shape =
     struct (\<lambda>x. x\<lparr>glRemainingItemCount := None\<rparr>) glRemainingItemCount (referred an_int plain)"

definition spec_shape where
  "spec_shape = struct (\<lambda>x. x\<lparr>goArtifacts := None\<rparr>) goArtifacts (referred string_array (elements plain))"

definition status_shape where
  "status_shape = struct (\<lambda>x. x\<lparr>goArtifactState := None\<rparr>) goArtifactState (referred state_map entries)"

definition build_shape where
  "build_shape =
     struct goTypeMeta (\<lambda>x. (goMeta x, goSpec x, goStatus x))
       (both meta_shape (both spec_shape status_shape))"

definition list_shape where
  "list_shape =
     struct goListTypeMeta (\<lambda>x. (goListMeta x, goItems x))
       (both listmeta_shape (referred build_array (elements build_shape)))"

section \<open>Copiers\<close>

definition valid :: "memory \<Rightarrow> bool" where
  "valid h \<longleftrightarrow> dom (cells h) \<subseteq> {..<next_addr h}"

text \<open>\<open>extends h h'\<close>: what was in memory is still there, unchanged.\<close>

definition extends :: "memory \<Rightarrow> memory \<Rightarrow> bool" where
  "extends h h' \<longleftrightarrow> next_addr h \<le> next_addr h' \<and> valid h'
     \<and> (\<forall>a < next_addr h. cells h' a = cells h a)"

lemma extends_refl: "valid h \<Longrightarrow> extends h h"
  by (simp add: extends_def)

lemma extends_trans: "extends h h1 \<Longrightarrow> extends h1 h2 \<Longrightarrow> extends h h2"
  by (auto simp: extends_def)

lemma extends_valid: "extends h h' \<Longrightarrow> valid h'"
  by (simp add: extends_def)

lemma load_same: "cells h' a = cells h a \<Longrightarrow> load T a h' = load T a h"
  by (simp add: load_def)

lemma load_dom: "load T a h = Some x \<Longrightarrow> a \<in> dom (cells h)"
  by (auto simp: load_def bind_eq_Some_conv)

text \<open>A copy: the same contents, in an extended memory, at new addresses only.\<close>

definition copied :: "('a, 'v) shape \<Rightarrow> memory \<Rightarrow> 'a \<Rightarrow> memory \<Rightarrow> 'a \<Rightarrow> bool" where
  "copied S h x h' y \<longleftrightarrow> extends h h' \<and> shValue S h' y = shValue S h x
     \<and> shRefs S h' y \<subseteq> {next_addr h..<next_addr h'} \<and> shOk S h' y"

text \<open>A shape looks at the memory only where its references lie.\<close>

locale shaped =
  fixes S :: "('a, 'v) shape"
  assumes bounded: "shOk S h x \<Longrightarrow> shRefs S h x \<subseteq> dom (cells h)"
    and frame: "shOk S h x \<Longrightarrow> \<forall>a \<in> shRefs S h x. cells h' a = cells h a \<Longrightarrow>
      shValue S h' x = shValue S h x \<and> shRefs S h' x = shRefs S h x \<and> shOk S h' x"
begin

lemma later:
  assumes "copied S h x h1 y" and "extends h1 h2"
  shows "copied S h x h2 y"
proof -
  have "\<forall>a \<in> shRefs S h1 y. cells h2 a = cells h1 a"
    using assms by (auto simp: copied_def extends_def subset_iff)
  with frame [of h1 y h2] assms extends_trans [of h h1 h2] show ?thesis
    by (auto simp: copied_def extends_def)
qed

lemma below: "valid h \<Longrightarrow> shOk S h x \<Longrightarrow> shRefs S h x \<subseteq> {..<next_addr h}"
  using bounded by (fastforce simp: valid_def)

lemma unchanged:
  assumes "valid h" and "shOk S h x" and "\<forall>a < next_addr h. a \<noteq> b \<longrightarrow> cells h1 a = cells h a"
    and "b \<notin> shRefs S h x"
  shows "shValue S h1 x = shValue S h x \<and> shRefs S h1 x = shRefs S h x \<and> shOk S h1 x"
  using assms below [OF assms(1,2)] by (intro frame) auto

lemma kept:
  assumes "valid h" and "shOk S h x" and "extends h h1"
  shows "shValue S h1 x = shValue S h x \<and> shRefs S h1 x = shRefs S h x \<and> shOk S h1 x"
  using assms below [OF assms(1,2)] by (intro frame) (auto simp: extends_def)

end

locale copier = shaped +
  fixes copy :: "'a \<Rightarrow> (memory, 'a) state"
  assumes copies: "valid h \<Longrightarrow> shOk S h x \<Longrightarrow>
    \<exists>h' y. run_state (copy x) h = (y, h') \<and> copied S h x h' y"
begin

text \<open>A copy that is made later, after other things were added to the memory.\<close>

lemma copies_later:
  assumes "valid h" and "shOk S h x" and "extends h h1"
  shows "\<exists>h2 y. run_state (copy x) h1 = (y, h2) \<and> extends h1 h2 \<and> copied S h x h2 y"
proof -
  have k: "shValue S h1 x = shValue S h x" "shOk S h1 x" using kept [OF assms] by auto
  from copies [OF extends_valid [OF assms(3)] k(2)] obtain h2 y where
    run: "run_state (copy x) h1 = (y, h2)" and c: "copied S h1 x h2 y" by blast
  have "{next_addr h1..<next_addr h2} \<subseteq> {next_addr h..<next_addr h2}"
    using assms(3) by (auto simp: extends_def)
  with c k(1) have "copied S h x h2 y"
    using extends_trans [OF assms(3)] unfolding copied_def by auto
  with run c show ?thesis by (auto simp: copied_def)
qed

text \<open>The copy and the original lie apart, so that writing into the one leaves the other alone.\<close>

lemma apart:
  assumes "valid h" and "shOk S h x" and "copied S h x h' y"
  shows "shRefs S h' x \<inter> shRefs S h' y = {}"
  using kept [OF assms(1,2)] below [OF assms(1,2)] assms(3) by (fastforce simp: copied_def)

lemma independent:
  assumes "valid h" and "shOk S h x"
  shows "\<exists>h' y. run_state (copy x) h = (y, h')
     \<and> shValue S h' y = shValue S h x \<and> shValue S h' x = shValue S h x
     \<and> shRefs S h' x \<inter> shRefs S h' y = {}
     \<and> (\<forall>h''. (\<forall>a. a \<notin> shRefs S h' y \<longrightarrow> cells h'' a = cells h' a) \<longrightarrow> shValue S h'' x = shValue S h x)
     \<and> (\<forall>h''. (\<forall>a. a \<notin> shRefs S h' x \<longrightarrow> cells h'' a = cells h' a) \<longrightarrow> shValue S h'' y = shValue S h x)"
proof -
  from copies [OF assms] obtain h' y where run: "run_state (copy x) h = (y, h')"
    and c: "copied S h x h' y" by blast
  have x: "shValue S h' x = shValue S h x" "shOk S h' x"
    using kept [OF assms] c by (auto simp: copied_def)
  have y: "shValue S h' y = shValue S h x" "shOk S h' y" using c by (auto simp: copied_def)
  have d: "shRefs S h' x \<inter> shRefs S h' y = {}" using apart [OF assms c] .
  have "shValue S h'' x = shValue S h x" if "\<forall>a. a \<notin> shRefs S h' y \<longrightarrow> cells h'' a = cells h' a" for h''
    using frame [OF x(2), of h''] that d x(1) by auto
  moreover have "shValue S h'' y = shValue S h x" if "\<forall>a. a \<notin> shRefs S h' x \<longrightarrow> cells h'' a = cells h' a" for h''
    using frame [OF y(2), of h''] that d y(1) by auto
  ultimately show ?thesis using run x(1) y(1) d by blast
qed

end

section \<open>Copiers for the parts of a struct\<close>

lemma copier_plain: "copier plain State_Monad.return"
  by unfold_locales (simp_all add: plain_def copied_def extends_refl)

lemma shaped_entries: "shaped entries"
  by unfold_locales (simp_all add: entries_def)

lemma shaped_elements:
  assumes "shaped S" shows "shaped (elements S)"
proof
  note bounded = shaped.bounded [OF assms] and frame = shaped.frame [OF assms]
  fix h h' :: memory and xs
  assume ok: "shOk (elements S) h xs"
  then show "shRefs (elements S) h xs \<subseteq> dom (cells h)"
    using bounded by (fastforce simp: elements_def list_all_iff)
  assume "\<forall>a \<in> shRefs (elements S) h xs. cells h' a = cells h a"
  with ok have "\<forall>x \<in> set xs. shValue S h' x = shValue S h x \<and> shRefs S h' x = shRefs S h x \<and> shOk S h' x"
    using frame [of h _ h'] by (fastforce simp: elements_def list_all_iff)
  then show "shValue (elements S) h' xs = shValue (elements S) h xs
      \<and> shRefs (elements S) h' xs = shRefs (elements S) h xs \<and> shOk (elements S) h' xs"
    by (simp add: elements_def list_all_iff)
qed

lemma shaped_referred:
  assumes "shaped S" shows "shaped (referred T S)"
proof
  note bounded = shaped.bounded [OF assms] and frame = shaped.frame [OF assms]
  fix h h' :: memory and p
  assume ok: "shOk (referred T S) h p"
  then show "shRefs (referred T S) h p \<subseteq> dom (cells h)"
    using bounded by (fastforce simp: referred_def dest: load_dom split: option.splits)
  assume "\<forall>a \<in> shRefs (referred T S) h p. cells h' a = cells h a"
  moreover have "load T a h' = load T a h" if "p = Some a" for a
    using calculation that by (intro load_same) (simp add: referred_def)
  ultimately show "shValue (referred T S) h' p = shValue (referred T S) h p
      \<and> shRefs (referred T S) h' p = shRefs (referred T S) h p \<and> shOk (referred T S) h' p"
    using ok frame [of h _ h'] by (cases p) (auto simp: referred_def split: option.split_asm)
qed

text \<open>Two parts, one after the other.\<close>

definition copy_both ::
  "('a \<Rightarrow> (memory, 'a) state) \<Rightarrow> ('b \<Rightarrow> (memory, 'b) state) \<Rightarrow> 'a \<times> 'b \<Rightarrow> (memory, 'a \<times> 'b) state" where
  "copy_both f g x = do {
     a \<leftarrow> f (fst x);
     b \<leftarrow> g (snd x);
     State_Monad.return (a, b)
   }"

lemma copier_both:
  assumes "copier S f" and "copier T g"
  shows "copier (both S T) (copy_both f g)"
proof
  note s = copier.axioms(1) [OF assms(1)] and t = copier.axioms(1) [OF assms(2)]
  fix h x
  assume ok: "shOk (both S T) h x"
  then show "shRefs (both S T) h x \<subseteq> dom (cells h)"
    using shaped.bounded [OF s] shaped.bounded [OF t] by (fastforce simp: both_def)
  {
    fix h' :: memory
    assume "\<forall>a \<in> shRefs (both S T) h x. cells h' a = cells h a"
    with ok shaped.frame [OF s, of h "fst x" h'] shaped.frame [OF t, of h "snd x" h'] show "shValue (both S T) h' x = shValue (both S T) h x
        \<and> shRefs (both S T) h' x = shRefs (both S T) h x \<and> shOk (both S T) h' x"
      by (simp add: both_def)
  }
  assume v: "valid h"
  have oks: "shOk S h (fst x)" "shOk T h (snd x)" using ok by (simp_all add: both_def)
  from copier.copies [OF assms(1) v oks(1)] obtain h1 a where f: "run_state (f (fst x)) h = (a, h1)"
    "copied S h (fst x) h1 a" by blast
  then have e: "extends h h1" by (simp add: copied_def)
  from copier.copies_later [OF assms(2) v oks(2) e] obtain h2 b where g: "run_state (g (snd x)) h1 = (b, h2)"
    "extends h1 h2" "copied T h (snd x) h2 b" by blast
  have "copied S h (fst x) h2 a" using shaped.later [OF s f(2) g(2)] .
  with g(3) have "copied (both S T) h x h2 (a, b)" by (auto simp: copied_def both_def)
  moreover have "run_state (copy_both f g x) h = ((a, b), h2)" by (simp add: copy_both_def f g)
  ultimately show "\<exists>h' y. run_state (copy_both f g x) h = (y, h') \<and> copied (both S T) h x h' y"
    by blast
qed

lemma copier_struct:
  assumes "copier S f" and "\<And>x. copy x = do { p \<leftarrow> f (parts x); State_Monad.return (upd p x) }"
    and "\<And>p x. parts (upd p x) = p" and "\<And>p x. rest (upd p x) = rest x"
  shows "copier (struct rest parts S) copy"
proof
  note s = copier.axioms(1) [OF assms(1)]
  note bounded = shaped.bounded [OF s] and frame = shaped.frame [OF s] and copies = copier.copies [OF assms(1)]
  fix h x
  assume ok: "shOk (struct rest parts S) h x"
  then show "shRefs (struct rest parts S) h x \<subseteq> dom (cells h)"
    using bounded by (fastforce simp: struct_def)
  {
    fix h' :: memory
    assume "\<forall>a \<in> shRefs (struct rest parts S) h x. cells h' a = cells h a"
    with ok frame [of h "parts x" h'] show "shValue (struct rest parts S) h' x = shValue (struct rest parts S) h x
        \<and> shRefs (struct rest parts S) h' x = shRefs (struct rest parts S) h x
        \<and> shOk (struct rest parts S) h' x"
      by (simp add: struct_def)
  }
  assume "valid h"
  then obtain h' p where "run_state (f (parts x)) h = (p, h')" "copied S h (parts x) h' p"
    using copies [of h "parts x"] ok by (auto simp: struct_def)
  then show "\<exists>h' y. run_state (copy x) h = (y, h') \<and> copied (struct rest parts S) h x h' y"
    by (intro exI [of _ h'] exI [of _ "upd p x"]) (simp add: assms(2-4) copied_def struct_def)
qed

section \<open>Copiers for references\<close>

lemma referred_copied:
  assumes "load T a h = Some x" and "extends h h'" and "load T b h' = Some y"
    and "b \<in> {next_addr h..<next_addr h'}" and "shValue S h' y = shValue S h x"
    and "shRefs S h' y \<subseteq> {next_addr h..<next_addr h'}" and "shOk S h' y"
  shows "copied (referred T S) h (Some a) h' (Some b)"
  using assms by (simp add: copied_def referred_def)

lemma referred_okD:
  assumes "shOk (referred T S) h (Some a)"
  obtains x where "load T a h = Some x" and "shOk S h x"
  using assms by (auto simp: referred_def split: option.splits)

lemma copied_nil:
  "valid h \<Longrightarrow> copied (referred T S) h None h None"
  by (simp add: copied_def referred_def extends_refl)

text \<open>A new cell at the end of the memory, and writing into it.\<close>

abbreviation with_new :: "'c cell_kind \<Rightarrow> 'c \<Rightarrow> memory \<Rightarrow> memory" where
  "with_new T x h \<equiv> h\<lparr>cells := (cells h)(next_addr h \<mapsto> wrap T x), next_addr := Suc (next_addr h)\<rparr>"

abbreviation with_cell :: "'c cell_kind \<Rightarrow> addr \<Rightarrow> 'c \<Rightarrow> memory \<Rightarrow> memory" where
  "with_cell T b x h \<equiv> h\<lparr>cells := (cells h)(b \<mapsto> wrap T x)\<rparr>"

lemma with_new_extends: "valid h \<Longrightarrow> extends h (with_new T x h)"
  by (auto simp: extends_def valid_def)

lemma load_with_cell: "kinded T \<Longrightarrow> load T b (with_cell T b x h) = Some x"
  by (simp add: load_def kinded_def)

lemma load_below: "valid h \<Longrightarrow> load T a h = Some x \<Longrightarrow> a < next_addr h"
  using load_dom [of T a h x] by (auto simp: valid_def)

lemma load_extends: "valid h \<Longrightarrow> load T a h = Some x \<Longrightarrow> extends h h' \<Longrightarrow> load T a h' = Some x"
  using load_below [of h T a x] load_same [of h' a h T] by (simp add: extends_def)

lemma copier_pointer:
  assumes "kinded T" and "copier S f"
  shows "copier (referred T S) (copy_pointer T zero f)"
proof (intro copier.intro copier_axioms.intro)
  note s = copier.axioms(1) [OF assms(2)]
  note frame = shaped.frame [OF s] and kept = shaped.kept [OF s] and copies = copier.copies [OF assms(2)]
  show "shaped (referred T S)" by (rule shaped_referred [OF s])
  fix h p
  assume v: "valid h" and ok: "shOk (referred T S) h p"
  show "\<exists>h' y. run_state (copy_pointer T zero f p) h = (y, h') \<and> copied (referred T S) h p h' y"
  proof (cases p)
    case None
    then show ?thesis using copied_nil [OF v] by (simp add: copy_pointer_def)
  next
    case (Some a)
    with ok obtain x where x: "load T a h = Some x" "shOk S h x" by (auto elim: referred_okD)
    let ?b = "next_addr h" and ?h1 = "with_new T zero h"
    have e1: "extends h ?h1" by (rule with_new_extends [OF v])
    have k: "shValue S ?h1 x = shValue S h x" "shOk S ?h1 x" using kept [OF v x(2) e1] by auto
    from copies [OF extends_valid [OF e1] k(2)] obtain h2 y where
      run: "run_state (f x) ?h1 = (y, h2)" and c: "copied S ?h1 x h2 y" by blast
    let ?h3 = "with_cell T ?b y h2"
    have e2: "extends ?h1 h2" using c by (simp add: copied_def)
    then have e3: "extends h ?h3" and b: "?b \<in> {next_addr h..<next_addr ?h3}"
      using e1 by (auto simp: extends_def valid_def)
    have y: "shRefs S h2 y \<subseteq> {next_addr ?h1..<next_addr h2}" "shOk S h2 y"
      "shValue S h2 y = shValue S h x" using c k(1) by (auto simp: copied_def)
    then have "shValue S ?h3 y = shValue S h2 y \<and> shRefs S ?h3 y = shRefs S h2 y \<and> shOk S ?h3 y"
      by (intro frame) auto
    with y have "copied (referred T S) h (Some a) ?h3 (Some ?b)"
      using load_with_cell [OF assms(1)]
      by (intro referred_copied [OF x(1) e3 _ b]) auto
    moreover have "run_state (copy_pointer T zero f p) h = (Some ?b, ?h3)"
      using load_extends [OF v x(1) e1]
      by (simp add: copy_pointer_def Some new_cell_def read_cell_def run write_cell_def)
    ultimately show ?thesis using Some by blast
  qed
qed

text \<open>
  The loop over the elements writes into its own new array, so what it leaves alone is everything
  else there was.
\<close>

definition extends_but :: "addr \<Rightarrow> memory \<Rightarrow> memory \<Rightarrow> bool" where
  "extends_but b h h' \<longleftrightarrow> next_addr h \<le> next_addr h' \<and> valid h'
     \<and> (\<forall>a < next_addr h. a \<noteq> b \<longrightarrow> cells h' a = cells h a)"

lemma extends_but_trans: "extends_but b h h1 \<Longrightarrow> extends_but b h1 h2 \<Longrightarrow> extends_but b h h2"
  by (auto simp: extends_but_def)

definition element_copied :: "('a, 'v) shape \<Rightarrow> addr \<Rightarrow> memory \<Rightarrow> memory \<Rightarrow> 'a \<Rightarrow> 'a \<Rightarrow> bool" where
  "element_copied S n h h' x y \<longleftrightarrow> shValue S h' y = shValue S h x
     \<and> shRefs S h' y \<subseteq> {n..<next_addr h'} \<and> shOk S h' y"

context copier
begin

lemma copy_elements_run:
  assumes "kinded T"
  shows "valid h \<Longrightarrow> load T b h = Some zs \<Longrightarrow> i + length xs \<le> length zs \<Longrightarrow>
     list_all (shOk S h) xs \<Longrightarrow> \<forall>x \<in> set xs. b \<notin> shRefs S h x \<Longrightarrow> b < n \<Longrightarrow> n \<le> next_addr h \<Longrightarrow>
     \<exists>h' ys. run_state (copy_elements T copy b i xs) h = ((), h') \<and> extends_but b h h'
       \<and> load T b h' = Some (take i zs @ ys @ drop (i + length xs) zs)
       \<and> list_all2 (element_copied S n h h') xs ys"
proof (induction xs arbitrary: h i zs)
  case Nil
  then show ?case by (auto simp: extends_but_def)
next
  case (Cons x xs)
  from Cons.prems(1,4) copies [of h x] obtain h1 y where
    run: "run_state (copy x) h = (y, h1)" and c: "copied S h x h1 y" by auto
  have e1: "extends h h1" using c by (simp add: copied_def)
  have zs: "load T b h1 = Some zs" using load_extends [OF Cons.prems(1,2) e1] .
  let ?h2 = "with_cell T b (zs[i := y]) h1"
  have e2: "extends_but b h ?h2"
    using e1 Cons.prems(6,7) by (auto simp: extends_but_def extends_def valid_def)
  have v2: "valid ?h2" using e2 by (simp add: extends_but_def)
  have same: "shValue S ?h2 x' = shValue S h x' \<and> shRefs S ?h2 x' = shRefs S h x' \<and> shOk S ?h2 x'"
    if "x' \<in> set xs" for x'
    using that Cons.prems(4,5) e2
    by (intro unchanged [OF Cons.prems(1)]) (auto simp: list_all_iff extends_but_def)
  have yb: "b \<notin> shRefs S h1 y" using c Cons.prems(6,7) by (auto simp: copied_def)
  have y2: "shValue S ?h2 y = shValue S h1 y \<and> shRefs S ?h2 y = shRefs S h1 y \<and> shOk S ?h2 y"
    using c yb by (intro frame) (auto simp: copied_def)
  have IH: "Suc i + length xs \<le> length (zs[i := y])" "list_all (shOk S ?h2) xs"
    "\<forall>x \<in> set xs. b \<notin> shRefs S ?h2 x" "n \<le> next_addr ?h2"
    using same Cons.prems(3,5,7) e1 by (simp_all add: list_all_iff extends_def)
  from Cons.IH [OF v2 load_with_cell [OF assms] IH(1-3) Cons.prems(6) IH(4)] obtain h' ys where
    r: "run_state (copy_elements T copy b (Suc i) xs) ?h2 = ((), h')" and e': "extends_but b ?h2 h'"
    and bs: "load T b h' = Some (take (Suc i) (zs[i := y]) @ ys @ drop (Suc i + length xs) (zs[i := y]))"
    and ys: "list_all2 (element_copied S n ?h2 h') xs ys"
    by blast
  have "run_state (copy_elements T copy b i (x # xs)) h = ((), h')"
    using r zs by (simp add: run write_element_def read_cell_def write_cell_def)
  moreover have "take (Suc i) (zs[i := y]) @ ys @ drop (Suc i + length xs) (zs[i := y])
      = take i zs @ (y # ys) @ drop (i + length (x # xs)) zs"
    using Cons.prems(3) by (simp add: take_Suc_conv_app_nth)
  moreover have "element_copied S n h h' x y"
  proof -
    have "shValue S h' y = shValue S ?h2 y \<and> shRefs S h' y = shRefs S ?h2 y \<and> shOk S h' y"
      using y2 yb e' by (intro unchanged [OF v2]) (auto simp: extends_but_def)
    with y2 c Cons.prems(7) e' show ?thesis
      by (auto simp: element_copied_def copied_def extends_but_def subset_iff)
  qed
  moreover have "list_all2 (element_copied S n h h') xs ys"
    using ys by (rule list.rel_mono_strong) (simp add: element_copied_def same)
  ultimately show ?case
    using extends_but_trans [OF e2 e'] bs by (intro exI [of _ h'] exI [of _ "y # ys"]) simp
qed

end

lemma elements_copied:
  assumes "list_all2 (element_copied S n h h') xs ys"
  shows "shValue (elements S) h' ys = shValue (elements S) h xs
    \<and> shRefs (elements S) h' ys \<subseteq> {n..<next_addr h'} \<and> shOk (elements S) h' ys"
  using assms
  by (induction rule: list_all2_induct) (auto simp: elements_def element_copied_def)

lemma copier_slice:
  assumes "kinded T" and "copier S f"
  shows "copier (referred T (elements S)) (copy_slice T zero f)"
proof (intro copier.intro copier_axioms.intro)
  note es = shaped_elements [OF copier.axioms(1) [OF assms(2)]]
  show "shaped (referred T (elements S))" by (rule shaped_referred [OF es])
  fix h p
  assume v: "valid h" and ok: "shOk (referred T (elements S)) h p"
  show "\<exists>h' y. run_state (copy_slice T zero f p) h = (y, h') \<and> copied (referred T (elements S)) h p h' y"
  proof (cases p)
    case None
    then show ?thesis using copied_nil [OF v] by (simp add: copy_slice_def)
  next
    case (Some a)
    with ok obtain xs where xs: "load T a h = Some xs" "shOk (elements S) h xs" by (auto elim: referred_okD)
    let ?b = "next_addr h" and ?zs = "replicate (length xs) zero"
    let ?h1 = "with_new T ?zs h"
    have e1: "extends h ?h1" by (rule with_new_extends [OF v])
    have k: "shValue (elements S) ?h1 xs = shValue (elements S) h xs"
      "shRefs (elements S) ?h1 xs = shRefs (elements S) h xs" "shOk (elements S) ?h1 xs"
      using shaped.kept [OF es v xs(2) e1] by auto
    have "\<forall>x \<in> set xs. ?b \<notin> shRefs S ?h1 x"
    proof
      fix x assume "x \<in> set xs"
      then have "shRefs S ?h1 x \<subseteq> shRefs (elements S) ?h1 xs" by (auto simp: elements_def)
      with shaped.below [OF es v xs(2)] k(2) show "?b \<notin> shRefs S ?h1 x" by auto
    qed
    moreover have "load T ?b ?h1 = Some ?zs" using assms(1) by (simp add: load_def kinded_def)
    ultimately obtain h' ys where run: "run_state (copy_elements T f ?b 0 xs) ?h1 = ((), h')"
      and e': "extends_but ?b ?h1 h'" and ys: "load T ?b h' = Some ys"
      "list_all2 (element_copied S (next_addr ?h1) ?h1 h') xs ys"
      using copier.copy_elements_run [OF assms(2,1) extends_valid [OF e1], of ?b ?zs 0 xs "next_addr ?h1"] k(3)
      by (auto simp: elements_def)
    have e: "extends h h'" and b: "?b \<in> {next_addr h..<next_addr h'}"
      using e' v by (auto simp: extends_but_def extends_def)
    have "copied (referred T (elements S)) h (Some a) h' (Some ?b)"
      using elements_copied [OF ys(2)] k(1)
      by (intro referred_copied [OF xs(1) e ys(1) b]) auto
    moreover have "run_state (copy_slice T zero f p) h = (Some ?b, h')"
      by (simp add: copy_slice_def Some read_cell_def xs(1) new_cell_def run)
    ultimately show ?thesis using Some by blast
  qed
qed

abbreviation put_all :: "(string \<times> 'c) list \<Rightarrow> (string \<times> 'c) list \<Rightarrow> (string \<times> 'c) list" where
  "put_all es m \<equiv> fold (\<lambda>(k, v). AList.update k v) es m"

lemma copy_entries_run:
  assumes "kinded T"
  shows "load T b h = Some m \<Longrightarrow>
     \<exists>h'. run_state (copy_entries T b es) h = ((), h') \<and> load T b h' = Some (put_all es m)
       \<and> next_addr h' = next_addr h \<and> (\<forall>a. a \<noteq> b \<longrightarrow> cells h' a = cells h a)"
proof (induction es arbitrary: h m)
  case (Cons e es)
  obtain k v where e: "e = (k, v)" by force
  let ?h1 = "with_cell T b (AList.update k v m) h"
  from Cons.IH [of ?h1 "AList.update k v m", OF load_with_cell [OF assms]] obtain h' where
    "run_state (copy_entries T b es) ?h1 = ((), h')" "load T b h' = Some (put_all es (AList.update k v m))"
    "next_addr h' = next_addr h" "\<forall>a. a \<noteq> b \<longrightarrow> cells h' a = cells h a"
    by auto
  with Cons.prems e show ?case
    by (intro exI [of _ h']) (simp add: write_entry_def read_cell_def write_cell_def)
qed simp

lemma put_all_map: "map_of (put_all es m) = map_of m ++ map_of (rev es)"
  by (induction es arbitrary: m) (auto simp: fun_eq_iff map_add_def split: option.splits)

lemma put_all_distinct: "distinct (map fst m) \<Longrightarrow> distinct (map fst (put_all es m))"
  by (induction es arbitrary: m) (auto simp: distinct_update)

lemma map_of_permuted:
  assumes "distinct (map fst m)"
  shows "map_of (rev (pick_order n m)) = map_of m"
proof
  fix k
  have d: "distinct (map fst (rev (pick_order n m)))"
    using assms by (simp add: distinct_map rev_map [symmetric])
  show "map_of (rev (pick_order n m)) k = map_of m k"
    by (rule option.expand; cases "map_of m k")
      (use d assms in \<open>auto simp: map_of_eq_None_iff dest: map_of_SomeD\<close>)
qed

lemma next_order_run: "\<exists>n h1. run_state next_order h = (n, h1) \<and> cells h1 = cells h \<and> next_addr h1 = next_addr h"
  by (cases "orders h") (auto simp: next_order_def)

lemma copier_map:
  assumes "kinded T"
  shows "copier (referred T entries) (copy_map T)"
proof (intro copier.intro copier_axioms.intro)
  show "shaped (referred T entries)" by (rule shaped_referred) (rule shaped_entries)
  fix h p
  assume v: "valid h" and ok: "shOk (referred T entries) h p"
  show "\<exists>h' y. run_state (copy_map T p) h = (y, h') \<and> copied (referred T entries) h p h' y"
  proof (cases p)
    case None
    then show ?thesis using copied_nil [OF v] by (simp add: copy_map_def)
  next
    case (Some a)
    with ok obtain m where m: "load T a h = Some m" "distinct (map fst m)"
      by (auto simp: entries_def elim!: referred_okD)
    let ?b = "next_addr h" and ?h1 = "with_new T [] h"
    have e1: "extends h ?h1" by (rule with_new_extends [OF v])
    obtain n h2 where n: "run_state next_order ?h1 = (n, h2)"
      and h2: "cells h2 = cells ?h1" "next_addr h2 = next_addr ?h1"
      using next_order_run [of ?h1] by blast
    have "load T ?b h2 = Some []" using assms by (simp add: load_def kinded_def h2)
    from copy_entries_run [OF assms this, of "pick_order n m"] obtain h' where
      run: "run_state (copy_entries T ?b (pick_order n m)) h2 = ((), h')"
      and b: "load T ?b h' = Some (put_all (pick_order n m) [])"
      and rest: "next_addr h' = next_addr h2" "\<forall>a. a \<noteq> ?b \<longrightarrow> cells h' a = cells h2 a"
      by blast
    have "a \<in> dom (cells h') \<Longrightarrow> a < next_addr h'" for a
      using v rest h2 by (cases "a = ?b") (auto simp: valid_def dom_def subset_iff less_Suc_eq)
    then have e: "extends h h'" using rest h2 by (auto simp: extends_def valid_def)
    have "copied (referred T entries) h (Some a) h' (Some ?b)"
      using put_all_map [of "pick_order n m" "[]"] put_all_distinct [of "[]" "pick_order n m"] rest h2
      by (intro referred_copied [OF m(1) e b]) (auto simp: entries_def map_of_permuted [OF m(2)])
    moreover have "run_state (copy_map T p) h = (Some ?b, h')"
      using load_extends [OF v m(1) e1]
      by (simp add: copy_map_def Some new_cell_def read_cell_def n run)
    ultimately show ?thesis using Some by blast
  qed
qed

section \<open>The generated functions are copiers\<close>

lemma copier_value:
  assumes "\<And>x. copy x = State_Monad.return x" shows "copier plain copy"
  using copier_plain ext [of copy State_Monad.return, OF assms] by simp

lemmas copier_pointer_plain = copier_pointer [OF _ copier_plain]
lemmas copier_slice_plain = copier_slice [OF _ copier_plain]

interpretation owner: copier owner_shape OwnerReference_DeepCopyInto
  unfolding owner_shape_def
  by (rule copier_struct [OF copier_both [OF copier_pointer_plain copier_pointer_plain],
        where upd = "\<lambda>p x. x\<lparr>orController := fst p, orBlockOwnerDeletion := snd p\<rparr>"])
    (simp_all add: OwnerReference_DeepCopyInto_def copy_both_def)

interpretation fields: copier fields_shape FieldsV1_DeepCopyInto
  unfolding fields_shape_def
  by (rule copier_struct [OF copier_slice_plain, where upd = "\<lambda>p x. x\<lparr>rawBytes := p\<rparr>"])
    (simp_all add: FieldsV1_DeepCopyInto_def)

interpretation entry: copier entry_shape ManagedFieldsEntry_DeepCopyInto
  unfolding entry_shape_def
  by (rule copier_struct [OF copier_both [OF copier_pointer [OF _ copier_value]
          copier_pointer [OF _ fields.copier_axioms]],
        where upd = "\<lambda>p x. x\<lparr>mfTime := fst p, mfFieldsV1 := snd p\<rparr>"])
    (simp_all add: ManagedFieldsEntry_DeepCopyInto_def copy_both_def Time_DeepCopyInto_def)

lemmas copier_meta_parts =
  copier_both [OF copier_pointer [OF _ copier_value] copier_both [OF copier_pointer_plain
    copier_both [OF copier_map copier_both [OF copier_map
      copier_both [OF copier_slice [OF _ owner.copier_axioms] copier_both [OF copier_slice_plain
        copier_slice [OF _ entry.copier_axioms]]]]]]]

interpretation meta: copier meta_shape ObjectMeta_DeepCopyInto
  unfolding meta_shape_def
  by (rule copier_struct [OF copier_meta_parts,
        where upd = "\<lambda>p x. case p of (deletion, grace, labels, annotations, owners, finalizers, managed) \<Rightarrow>
          x\<lparr>omDeletionTimestamp := deletion, omDeletionGracePeriodSeconds := grace, omLabels := labels,
            omAnnotations := annotations, omOwnerReferences := owners, omFinalizers := finalizers,
            omManagedFields := managed\<rparr>"])
    (simp_all add: ObjectMeta_DeepCopyInto_def copy_both_def Time_DeepCopyInto_def split: prod.split)

interpretation listmeta: copier listmeta_shape ListMeta_DeepCopyInto
  unfolding listmeta_shape_def
  by (rule copier_struct [OF copier_pointer_plain, where upd = "\<lambda>p x. x\<lparr>glRemainingItemCount := p\<rparr>"])
    (simp_all add: ListMeta_DeepCopyInto_def)

interpretation spec: copier spec_shape ComponentBuildSpec_DeepCopyInto
  unfolding spec_shape_def
  by (rule copier_struct [OF copier_slice_plain, where upd = "\<lambda>p x. x\<lparr>goArtifacts := p\<rparr>"])
    (simp_all add: ComponentBuildSpec_DeepCopyInto_def)

interpretation status: copier status_shape ComponentBuildStatus_DeepCopyInto
  unfolding status_shape_def
  by (rule copier_struct [OF copier_map, where upd = "\<lambda>p x. x\<lparr>goArtifactState := p\<rparr>"])
    (simp_all add: ComponentBuildStatus_DeepCopyInto_def)

interpretation build: copier build_shape ComponentBuild_DeepCopyInto
  unfolding build_shape_def
  by (rule copier_struct [OF copier_both [OF meta.copier_axioms
          copier_both [OF spec.copier_axioms status.copier_axioms]],
        where upd = "\<lambda>p x. case p of (m, sp, st) \<Rightarrow> x\<lparr>goMeta := m, goSpec := sp, goStatus := st\<rparr>"])
    (simp_all add: ComponentBuild_DeepCopyInto_def copy_both_def split: prod.split)

interpretation buildlist: copier list_shape ComponentBuildList_DeepCopyInto
  unfolding list_shape_def
  by (rule copier_struct [OF copier_both [OF listmeta.copier_axioms
          copier_slice [OF _ build.copier_axioms]],
        where upd = "\<lambda>p x. x\<lparr>goListMeta := fst p, goItems := snd p\<rparr>"])
    (simp_all add: ComponentBuildList_DeepCopyInto_def copy_both_def)

section \<open>Component builds\<close>

text \<open>The contents of a component build, the addresses it reaches, and that its references are good.\<close>

definition build_value where "build_value = shValue build_shape"
definition build_refs where "build_refs = shRefs build_shape"
definition defined_in where "defined_in = shOk build_shape"

text \<open>Among the addresses are all that the struct itself holds, and those behind its arrays.\<close>

lemma build_refs_direct:
  "set_option (omDeletionTimestamp (goMeta x)) \<union> set_option (omDeletionGracePeriodSeconds (goMeta x))
     \<union> set_option (omLabels (goMeta x)) \<union> set_option (omAnnotations (goMeta x))
     \<union> set_option (omOwnerReferences (goMeta x)) \<union> set_option (omFinalizers (goMeta x))
     \<union> set_option (omManagedFields (goMeta x))
     \<union> set_option (goArtifacts (goSpec x)) \<union> set_option (goArtifactState (goStatus x))
   \<subseteq> build_refs h x"
  by (auto simp: build_refs_def build_shape_def meta_shape_def spec_shape_def status_shape_def struct_def
      both_def referred_def)

lemma build_refs_owners:
  assumes "omOwnerReferences (goMeta x) = Some a" and "load owner_array a h = Some rs" and "r \<in> set rs"
  shows "set_option (orController r) \<union> set_option (orBlockOwnerDeletion r) \<subseteq> build_refs h x"
  using assms
  by (fastforce simp: build_refs_def build_shape_def meta_shape_def owner_shape_def struct_def both_def
      referred_def elements_def)

text \<open>\<open>overwrite A h h'\<close>: from \<open>h\<close> to \<open>h'\<close> only cells of \<open>A\<close> were written.\<close>

definition overwrite :: "addr set \<Rightarrow> memory \<Rightarrow> memory \<Rightarrow> bool" where
  "overwrite A h h' \<longleftrightarrow> (\<forall>a. a \<notin> A \<longrightarrow> cells h' a = cells h a)"

definition list_value where "list_value = shValue list_shape"
definition list_refs where "list_refs = shRefs list_shape"
definition list_defined_in where "list_defined_in = shOk list_shape"

end
