(* ===== verification/ClientInterface.thy ===== *)
theory ClientInterface
  imports ApiTypes "HOL-Library.Word"
begin

text \<open>
  The interface of the generated clients: the request options of
  \<open>k8s.io/apimachinery/pkg/apis/meta/v1/types.go\<close> and \<open>ComponentBuildInterface\<close>
  (\<open>pkg/client/clientset/versioned/typed/apheleia/v1alpha1/componentbuild.go\<close>) as a record of
  operations on a state of any type. A method returns a pointer and an error, either of which may
  be nil. The REST client (\<open>RestClient\<close>) and the fake one (\<open>FakeClientset\<close>) provide it.
\<close>

section \<open>Options\<close>

record GetOptions =
  goResourceVersion :: string

record ListOptions =
  loLabelSelector :: string
  loFieldSelector :: string
  loWatch :: bool
  loAllowWatchBookmarks :: bool
  loResourceVersion :: string
  loResourceVersionMatch :: string
  loTimeoutSeconds :: "64 word option"
  loLimit :: "64 word"
  loContinue :: string

definition emptyListOptions :: ListOptions where
  "emptyListOptions = \<lparr>loLabelSelector = '''', loFieldSelector = '''', loWatch = False,
     loAllowWatchBookmarks = False, loResourceVersion = '''', loResourceVersionMatch = '''',
     loTimeoutSeconds = None, loLimit = 0, loContinue = ''''\<rparr>"

record WriteOptions =
  woDryRun :: "string list"
  woFieldManager :: string
  woFieldValidation :: string

text \<open>\<open>CreateOptions\<close> and \<open>UpdateOptions\<close> have the same fields; \<open>PatchOptions\<close> has one more.\<close>

type_synonym CreateOptions = WriteOptions
type_synonym UpdateOptions = WriteOptions

record PatchOptions = WriteOptions +
  poForce :: "bool option"

record DeleteOptions =
  doGracePeriodSeconds :: "64 word option"
  doPreconditions :: "(string option \<times> string option) option"
  doOrphanDependents :: "bool option"
  doPropagationPolicy :: "string option"
  doDryRun :: "string list"

datatype PatchType = JSONPatchType | MergePatchType | StrategicMergePatchType | ApplyPatchType

fun patchContentType :: "PatchType \<Rightarrow> string" where
  "patchContentType JSONPatchType = ''application/json-patch+json''"
| "patchContentType MergePatchType = ''application/merge-patch+json''"
| "patchContentType StrategicMergePatchType = ''application/strategic-merge-patch+json''"
| "patchContentType ApplyPatchType = ''application/apply-patch+yaml''"

section \<open>The interface\<close>

record ListMeta =
  lmResourceVersion :: string
  lmContinue :: string
  lmRemainingItemCount :: "int option"

record BuildList =
  blMeta :: ListMeta
  blItems :: "ComponentBuild list"

definition emptyBuildList :: BuildList where
  "emptyBuildList =
     \<lparr>blMeta = \<lparr>lmResourceVersion = '''', lmContinue = '''', lmRemainingItemCount = None\<rparr>,
      blItems = []\<rparr>"

definition zeroComponentBuild :: ComponentBuild where
  "zeroComponentBuild = \<lparr>metadata = empty_meta,
     cbSpec = \<lparr>SCMURL = '''', PRURL = '''', Tag = '''', Artifacts = []\<rparr>,
     cbStatus = \<lparr>State = '''', Outstanding = 0, ArtifactStates = None, Message = '''',
       ResultNotified = False\<rparr>\<rparr>"

text \<open>The events of a watch that carry an object (\<open>k8s.io/apimachinery/pkg/watch\<close>).\<close>

datatype watch_event = AddedEvent ComponentBuild | ModifiedEvent ComponentBuild | DeletedEvent ComponentBuild

type_synonym ('s, 'o) answer = "('s, 'o option \<times> api_error option) state"

record ('s, 'w) ComponentBuildInterface =
  cbiCreate :: "ComponentBuild \<Rightarrow> CreateOptions \<Rightarrow> ('s, ComponentBuild) answer"
  cbiUpdate :: "ComponentBuild \<Rightarrow> UpdateOptions \<Rightarrow> ('s, ComponentBuild) answer"
  cbiUpdateStatus :: "ComponentBuild \<Rightarrow> UpdateOptions \<Rightarrow> ('s, ComponentBuild) answer"
  cbiDelete :: "string \<Rightarrow> DeleteOptions \<Rightarrow> ('s, api_error option) state"
  cbiDeleteCollection :: "DeleteOptions \<Rightarrow> ListOptions \<Rightarrow> ('s, api_error option) state"
  cbiGet :: "string \<Rightarrow> GetOptions \<Rightarrow> ('s, ComponentBuild) answer"
  cbiList :: "ListOptions \<Rightarrow> ('s, BuildList) answer"
  cbiWatch :: "ListOptions \<Rightarrow> ('s, 'w) answer"
  cbiPatch :: "string \<Rightarrow> PatchType \<Rightarrow> string \<Rightarrow> PatchOptions \<Rightarrow> string list \<Rightarrow> ('s, ComponentBuild) answer"

end
