(* ===== verification/GoPath.thy ===== *)
theory GoPath
  imports ClientCache
begin

text \<open>
  \<open>path.Clean\<close> and \<open>path.Join\<close> of Go's standard library, which the client builds its URLs with,
  and what they compute on the paths that occur: a rooted path of proper segments.
\<close>

section \<open>Clean and join\<close>

fun cleanLoop :: "bool \<Rightarrow> string list \<Rightarrow> string list \<Rightarrow> string list" where
  "cleanLoop rooted out [] = rev out"
| "cleanLoop rooted out (p # ps) =
     (if p = '''' \<or> p = ''.'' then cleanLoop rooted out ps
      else if p = ''..'' then
        (case out of
           [] \<Rightarrow> cleanLoop rooted (if rooted then [] else [p]) ps
         | q # qs \<Rightarrow> if q = ''..'' then cleanLoop rooted (p # out) ps else cleanLoop rooted qs ps)
      else cleanLoop rooted (p # out) ps)"

definition path_Clean :: "string \<Rightarrow> string" where
  "path_Clean path =
     (if path = '''' then ''.''
      else
        (let rooted = (hd path = CHR ''/'');
             clean = (if rooted then ''/'' else '''') @ Join (cleanLoop rooted [] (split_on CHR ''/'' path)) ''/''
         in if clean = '''' then ''.'' else clean))"

definition path_Join :: "string list \<Rightarrow> string" where
  "path_Join elems =
     (if list_all (\<lambda>e. e = '''') elems then ''''
      else path_Clean (Join (dropWhile (\<lambda>e. e = '''') elems) ''/''))"

section \<open>Rooted paths\<close>

text \<open>A segment that cleaning keeps.\<close>

definition segment :: "string \<Rightarrow> bool" where
  "segment s \<longleftrightarrow> s \<notin> {'''', ''.'', ''..''} \<and> CHR ''/'' \<notin> set s"

definition path_of :: "string list \<Rightarrow> string" where
  "path_of segs = ''/'' @ Join segs ''/''"

lemma split_on_join: "split_on c (a @ c # b) = split_on c a @ split_on c b"
  by (induction a) (auto split: list.split)

lemma split_on_Join:
  "ps \<noteq> [] \<Longrightarrow> split_on c (Join ps [c]) = concat (map (split_on c) ps)"
  by (induction ps "[c]" rule: Join.induct) (auto simp: split_on_join)

lemma cleanLoop_kept:
  "\<forall>p \<in> set ps. p \<noteq> ''.'' \<and> p \<noteq> ''..'' \<Longrightarrow> cleanLoop rooted out ps = rev out @ filter (\<lambda>p. p \<noteq> '''') ps"
  by (induction ps arbitrary: out) auto

lemma split_on_segment: "segment s \<Longrightarrow> split_on CHR ''/'' s = [s]"
  by (simp add: segment_def split_on_none)

lemma path_of_nonempty [simp]: "path_of segs \<noteq> ''''"
  by (simp add: path_of_def)

lemma split_on_path_of:
  assumes "list_all segment segs"
  shows "split_on CHR ''/'' (path_of segs) = '''' # (if segs = [] then [''''] else segs)"
proof (cases "segs = []")
  case False
  have "split_on CHR ''/'' (Join segs ''/'') = concat (map (split_on CHR ''/'') segs)"
    using split_on_Join [OF False] by simp
  also have "\<dots> = segs" using assms by (induction segs) (auto simp: split_on_segment)
  finally show ?thesis using False by (simp add: path_of_def)
qed (simp add: path_of_def)

lemma path_of_inject:
  "list_all segment as \<Longrightarrow> list_all segment bs \<Longrightarrow> path_of as = path_of bs \<Longrightarrow> as = bs"
  using split_on_path_of [of as] split_on_path_of [of bs]
  by (cases as; cases bs) (simp_all add: segment_def)

text \<open>Joining proper parts to a rooted path appends the parts that are not empty.\<close>

lemma path_Join_rooted:
  assumes "list_all segment segs"
    and "\<forall>e \<in> set es. \<forall>p \<in> set (split_on CHR ''/'' e). p \<noteq> ''.'' \<and> p \<noteq> ''..''"
  shows "path_Join (path_of segs # es) =
    path_of (segs @ filter (\<lambda>p. p \<noteq> '''') (concat (map (split_on CHR ''/'') es)))"
proof -
  let ?parts = "concat (map (split_on CHR ''/'') (path_of segs # es))"
  have J: "Join (path_of segs # es) ''/'' \<noteq> ''''" "hd (Join (path_of segs # es) ''/'') = CHR ''/''"
    by (cases es; simp add: path_of_def)+
  have "split_on CHR ''/'' (Join (path_of segs # es) ''/'') = ?parts"
    using split_on_Join [of "path_of segs # es" "CHR ''/''"] by simp
  moreover have "\<forall>p \<in> set ?parts. p \<noteq> ''.'' \<and> p \<noteq> ''..''"
    using assms by (auto simp: split_on_path_of list_all_iff segment_def)
  ultimately have loop: "cleanLoop True [] (split_on CHR ''/'' (Join (path_of segs # es) ''/''))
      = filter (\<lambda>p. p \<noteq> '''') ?parts"
    by (simp add: cleanLoop_kept)
  have "filter (\<lambda>p. p \<noteq> '''') ?parts
      = segs @ filter (\<lambda>p. p \<noteq> '''') (concat (map (split_on CHR ''/'') es))"
    using assms(1) by (auto simp: split_on_path_of list_all_iff segment_def intro: filter_True)
  with loop have "path_Clean (Join (path_of segs # es) ''/'')
      = path_of (segs @ filter (\<lambda>p. p \<noteq> '''') (concat (map (split_on CHR ''/'') es)))"
    using J by (simp add: path_Clean_def Let_def path_of_def)
  then show ?thesis by (simp add: path_Join_def)
qed

text \<open>Proper segments that are joined are a path of their own, without a root.\<close>

lemma split_on_segments_join:
  assumes "list_all segment segs" "segs \<noteq> []"
  shows "split_on CHR ''/'' (Join segs ''/'') = segs"
proof -
  have "concat (map (split_on CHR ''/'') segs) = segs"
    using assms(1) by (induction segs) (auto simp: split_on_segment)
  then show ?thesis using split_on_Join [OF assms(2), of "CHR ''/''"] by simp
qed

lemma parts_of_join:
  "list_all segment segs \<Longrightarrow> filter (\<lambda>p. p \<noteq> '''') (split_on CHR ''/'' (Join segs ''/'')) = segs"
  by (cases "segs = []") (auto simp: split_on_segments_join list_all_iff segment_def intro: filter_True)

lemma path_Join_relative:
  assumes "list_all segment segs"
  shows "path_Join segs = Join segs ''/''"
proof (cases segs)
  case (Cons a rest)
  have a: "a \<noteq> ''''" "hd a \<noteq> CHR ''/''" using assms Cons by (cases a; auto simp: segment_def)+
  have hd: "hd (Join segs ''/'') = hd a" "Join segs ''/'' \<noteq> ''''"
    using a Cons by (cases rest; simp)+
  have "cleanLoop False [] segs = segs"
    using assms by (auto simp: cleanLoop_kept list_all_iff segment_def intro: filter_True)
  then have "path_Clean (Join segs ''/'') = Join segs ''/''"
    using a hd Cons split_on_segments_join [OF assms] by (simp add: path_Clean_def Let_def)
  then show ?thesis using a Cons by (simp add: path_Join_def)
qed (simp add: path_Join_def)

end
