(* ===== verification/RestClient.thy ===== *)
theory RestClient
  imports Complex_Main ClientInterface GoPath Tracker
begin

text \<open>
  The typed client for component builds
  (\<open>pkg/client/clientset/versioned/typed/apheleia/v1alpha1/componentbuild.go\<close>) and the request
  builder it is written with (\<open>Request\<close> in the vendored \<open>k8s.io/client-go/rest/request.go\<close>,
  \<open>client.go\<close>, and the retries of \<open>with_retry.go\<close>). A request is built by a chain of setters that
  keep the first error, checked once more when it is done, and handed to the HTTP client, again
  when the answer asks for it. The HTTP client, the rate limiter, the context of a call and the
  encodings are not code of the repository: they are fields of the record \<open>RESTClient\<close>. An HTTP
  request holds the path and the query before they are escaped for the wire.
\<close>

section \<open>Requests\<close>

datatype ParamObject =
  GetParams GetOptions | ListParams ListOptions | CreateParams CreateOptions
| UpdateParams UpdateOptions | PatchParams PatchOptions

datatype BodyObject = BuildBody ComponentBuild | DeleteBody DeleteOptions | BytesBody string

type_synonym url_values = "(string \<times> string list) list"

record HttpRequest =
  hrMethod :: string
  hrPath :: string
  hrQuery :: url_values
  hrTimeout :: "64 word option"
  hrHeaders :: url_values
  hrBody :: "string option"

text \<open>A limiter made from a rate and a burst, or one that was given. Rates are finite floats.\<close>

datatype RateLimiter = TokenBucket rat int | GivenLimiter string

text \<open>
  What one exchange with the server comes to: a response, with its status code, its header
  \<open>Retry-After\<close> where that is a number, and the rest; or an error of the connection, with the error
  inside it where it is a \<open>url.Error\<close>, and what \<open>IsConnectionReset\<close>, \<open>IsProbableEOF\<close> and \<open>IsTimeout\<close>
  of \<open>k8s.io/apimachinery/pkg/util/net\<close> say of it. Never both: no policy on redirects is set.
\<close>

record net_error =
  neError :: api_error
  neUnwrapped :: "api_error option"
  neConnectionReset :: bool
  neProbableEOF :: bool
  neTimeout :: bool

record 'r http_response =
  hsStatusCode :: nat
  hsRetryAfter :: "int option"
  hsPayload :: 'r

datatype 'r exchanged = Answered "'r http_response" | Broken net_error

text \<open>
  \<open>rcContextErr\<close> is the error of a call's context, \<open>rcWait\<close> the wait of a limiter and \<open>rcExchange\<close>
  the HTTP client's \<open>Do\<close>, each under the timeout the context was given (0 for none). \<open>rcStream\<close> makes
  a watch of a response.
\<close>

record ('s, 'r, 'w) RESTClient =
  rcRateLimiter :: "RateLimiter option"
  rcBasePath :: string
  rcVersionedAPIPath :: string
  rcTimeout :: "64 word"
  rcAcceptContentTypes :: string
  rcContentType :: string
  rcEncodeParameters :: "ParamObject \<Rightarrow> api_error + url_values"
  rcEncodeBody :: "BodyObject \<Rightarrow> api_error + string"
  rcContextErr :: "64 word \<Rightarrow> ('s, net_error option) state"
  rcWait :: "RateLimiter \<Rightarrow> 64 word \<Rightarrow> ('s, api_error option) state"
  rcExchange :: "64 word \<Rightarrow> HttpRequest \<Rightarrow> ('s, 'r exchanged) state"
  rcURL :: "HttpRequest \<Rightarrow> string"
  rcStream :: "'r \<Rightarrow> 'w option \<times> api_error option"
  rcEmptyWatch :: 'w
  rcDecodeBuild :: "'r \<Rightarrow> ComponentBuild \<Rightarrow> ComponentBuild \<times> api_error option"
  rcDecodeList :: "'r \<Rightarrow> BuildList \<Rightarrow> BuildList \<times> api_error option"
  rcError :: "'r \<Rightarrow> api_error option"

record Request =
  rqRateLimiter :: "RateLimiter option"
  rqTimeout :: "64 word"
  rqMaxRetries :: int
  rqVerb :: string
  rqPathPrefix :: string
  rqParams :: url_values
  rqHeaders :: url_values
  rqNamespace :: string
  rqNamespaceSet :: bool
  rqResource :: string
  rqResourceName :: string
  rqSubresource :: string
  rqErr :: "api_error option"
  rqBody :: "string option"

definition SetHeader :: "string \<Rightarrow> string list \<Rightarrow> Request \<Rightarrow> Request" where
  "SetHeader key vals r =
     r\<lparr>rqHeaders := AList.delete key (rqHeaders r) @ (if vals = [] then [] else [(key, vals)])\<rparr>"

definition NewRequest :: "('s, 'r, 'w) RESTClient \<Rightarrow> Request" where
  "NewRequest c =
     (let r = \<lparr>rqRateLimiter = rcRateLimiter c, rqTimeout = rcTimeout c, rqMaxRetries = 10, rqVerb = '''',
                rqPathPrefix = path_Join [''/'', rcBasePath c, rcVersionedAPIPath c],
                rqParams = [], rqHeaders = [], rqNamespace = '''', rqNamespaceSet = False,
                rqResource = '''', rqResourceName = '''', rqSubresource = '''', rqErr = None,
                rqBody = None\<rparr>
      in if length (rcAcceptContentTypes c) > 0 then SetHeader ''Accept'' [rcAcceptContentTypes c] r
         else if length (rcContentType c) > 0
         then SetHeader ''Accept'' [rcContentType c @ '', */*''] r
         else r)"

definition Verb :: "string \<Rightarrow> ('s, 'r, 'w) RESTClient \<Rightarrow> Request" where
  "Verb verb c = (NewRequest c)\<lparr>rqVerb := verb\<rparr>"

definition Patch_request :: "PatchType \<Rightarrow> ('s, 'r, 'w) RESTClient \<Rightarrow> Request" where
  "Patch_request pt c = SetHeader ''Content-Type'' [patchContentType pt] (Verb ''PATCH'' c)"

definition NameMayNotBe :: "string list" where
  "NameMayNotBe = [''.'', ''..'']"

definition NameMayNotContain :: string where
  "NameMayNotContain = ''/%''"

definition IsValidPathSegmentName :: "string \<Rightarrow> string list" where
  "IsValidPathSegmentName name =
     (case find (\<lambda>illegalName. name = illegalName) NameMayNotBe of
        Some illegalName \<Rightarrow> [''may not be '' @ CHR 0x27 # illegalName @ [CHR 0x27]]
      | None \<Rightarrow>
          map (\<lambda>illegalContent. ''may not contain '' @ [CHR 0x27, illegalContent, CHR 0x27])
            (filter (\<lambda>illegalContent. illegalContent \<in> set name) NameMayNotContain))"

text \<open>The setters do nothing once there is an error.\<close>

definition setter :: "(Request \<Rightarrow> Request) \<Rightarrow> Request \<Rightarrow> Request" where
  "setter f r = (if rqErr r \<noteq> None then r else f r)"

definition failed :: "string \<Rightarrow> Request \<Rightarrow> Request" where
  "failed message r = r\<lparr>rqErr := Some (OtherError message)\<rparr>"

definition printed_list :: "string list \<Rightarrow> string" where
  "printed_list msgs = ''['' @ Join msgs '' '' @ '']''"

definition request_Resource :: "string \<Rightarrow> Request \<Rightarrow> Request" where
  "request_Resource resource = setter (\<lambda>r.
     if length (rqResource r) \<noteq> 0
     then failed (''resource already set to '' @ quoted (rqResource r) @ '', cannot change to ''
                    @ quoted resource) r
     else if length (IsValidPathSegmentName resource) \<noteq> 0
     then failed (''invalid resource '' @ quoted resource @ '': ''
                    @ printed_list (IsValidPathSegmentName resource)) r
     else r\<lparr>rqResource := resource\<rparr>)"

definition request_SubResource :: "string list \<Rightarrow> Request \<Rightarrow> Request" where
  "request_SubResource subresources = setter (\<lambda>r.
     let subresource = path_Join subresources in
     if length (rqSubresource r) \<noteq> 0
     then failed (''subresource already set to '' @ quoted (rqSubresource r)
                    @ '', cannot change to '' @ quoted subresource) r
     else (case find (\<lambda>s. length (IsValidPathSegmentName s) \<noteq> 0) subresources of
             Some s \<Rightarrow> failed (''invalid subresource '' @ quoted s @ '': ''
                                 @ printed_list (IsValidPathSegmentName s)) r
           | None \<Rightarrow> r\<lparr>rqSubresource := subresource\<rparr>))"

definition request_Name :: "string \<Rightarrow> Request \<Rightarrow> Request" where
  "request_Name resourceName = setter (\<lambda>r.
     if length resourceName = 0 then failed ''resource name may not be empty'' r
     else if length (rqResourceName r) \<noteq> 0
     then failed (''resource name already set to '' @ quoted (rqResourceName r)
                    @ '', cannot change to '' @ quoted resourceName) r
     else if length (IsValidPathSegmentName resourceName) \<noteq> 0
     then failed (''invalid resource name '' @ quoted resourceName @ '': ''
                    @ printed_list (IsValidPathSegmentName resourceName)) r
     else r\<lparr>rqResourceName := resourceName\<rparr>)"

definition request_Namespace :: "string \<Rightarrow> Request \<Rightarrow> Request" where
  "request_Namespace namespace = setter (\<lambda>r.
     if rqNamespaceSet r
     then failed (''namespace already set to '' @ quoted (rqNamespace r) @ '', cannot change to ''
                    @ quoted namespace) r
     else if length (IsValidPathSegmentName namespace) \<noteq> 0
     then failed (''invalid namespace '' @ quoted namespace @ '': ''
                    @ printed_list (IsValidPathSegmentName namespace)) r
     else r\<lparr>rqNamespaceSet := True, rqNamespace := namespace\<rparr>)"

definition append_values :: "url_values \<Rightarrow> url_values \<Rightarrow> url_values" where
  "append_values kvs params =
     fold (\<lambda>(k, v) ps. AList.update k ((case map_of ps k of None \<Rightarrow> [] | Some old \<Rightarrow> old) @ v) ps)
       kvs params"

definition request_VersionedParams ::
  "('s, 'r, 'w) RESTClient \<Rightarrow> ParamObject \<Rightarrow> Request \<Rightarrow> Request" where
  "request_VersionedParams c obj = setter (\<lambda>r.
     case rcEncodeParameters c obj of
       Inl err \<Rightarrow> r\<lparr>rqErr := Some err\<rparr>
     | Inr params \<Rightarrow> r\<lparr>rqParams := append_values params (rqParams r)\<rparr>)"

definition request_Timeout :: "64 word \<Rightarrow> Request \<Rightarrow> Request" where
  "request_Timeout d = setter (\<lambda>r. r\<lparr>rqTimeout := d\<rparr>)"

text \<open>Bytes are the body as they are; an object is encoded, and its content type noted.\<close>

definition request_Body :: "('s, 'r, 'w) RESTClient \<Rightarrow> BodyObject \<Rightarrow> Request \<Rightarrow> Request" where
  "request_Body c obj = setter (\<lambda>r.
     case obj of
       BytesBody data \<Rightarrow> r\<lparr>rqBody := Some data\<rparr>
     | _ \<Rightarrow> (case rcEncodeBody c obj of
               Inl err \<Rightarrow> r\<lparr>rqErr := Some err\<rparr>
             | Inr data \<Rightarrow> SetHeader ''Content-Type'' [rcContentType c] (r\<lparr>rqBody := Some data\<rparr>)))"

definition ToLower :: "string \<Rightarrow> string" where
  "ToLower s = map lower_byte s"

definition request_path :: "Request \<Rightarrow> string" where
  "request_path r =
     (let p = rqPathPrefix r;
          p = (if rqNamespaceSet r \<and> length (rqNamespace r) > 0
               then path_Join [p, ''namespaces'', rqNamespace r] else p);
          p = (if length (rqResource r) \<noteq> 0 then path_Join [p, ToLower (rqResource r)] else p)
      in if length (rqResourceName r) \<noteq> 0 \<or> length (rqSubresource r) \<noteq> 0
         then path_Join [p, rqResourceName r, rqSubresource r, ''''] else p)"

definition newHTTPRequest :: "Request \<Rightarrow> HttpRequest" where
  "newHTTPRequest r =
     \<lparr>hrMethod = rqVerb r, hrPath = request_path r, hrQuery = rqParams r,
      hrTimeout = (if rqTimeout r \<noteq> 0 then Some (rqTimeout r) else None),
      hrHeaders = rqHeaders r, hrBody = rqBody r\<rparr>"

definition requestPreflightCheck :: "Request \<Rightarrow> api_error option" where
  "requestPreflightCheck r =
     (if \<not> rqNamespaceSet r then None
      else if length (rqNamespace r) > 0 then None
      else if rqVerb r = ''POST''
      then Some (OtherError ''an empty namespace may not be set during creation'')
      else if (rqVerb r = ''GET'' \<or> rqVerb r = ''PUT'' \<or> rqVerb r = ''DELETE'')
              \<and> length (rqResourceName r) > 0
      then Some (OtherError ''an empty namespace may not be set when a resource name is provided'')
      else None)"

section \<open>Retries\<close>

record RetryAfter =
  raWait :: int
  raAttempt :: int

record withRetry =
  wrMaxRetries :: int
  wrAttempts :: int
  wrRetryAfter :: "RetryAfter option"
  wrPreviousErr :: "net_error option"
  wrCurrentErr :: "net_error option"

definition defaultRequestRetryFn :: "int \<Rightarrow> withRetry" where
  "defaultRequestRetryFn maxRetries =
     \<lparr>wrMaxRetries = maxRetries, wrAttempts = 0, wrRetryAfter = None, wrPreviousErr = None,
      wrCurrentErr = None\<rparr>"

definition trackPreviousError :: "net_error option \<Rightarrow> withRetry \<Rightarrow> withRetry" where
  "trackPreviousError err r =
     (let r = (if wrCurrentErr r \<noteq> None then r\<lparr>wrPreviousErr := wrCurrentErr r\<rparr> else r)
      in r\<lparr>wrCurrentErr := err\<rparr>)"

text \<open>The status code and the seconds of the header decide whether the server asked to wait.\<close>

definition checkWait :: "nat \<Rightarrow> int option \<Rightarrow> int \<times> bool" where
  "checkWait statusCode retryAfter =
     (if statusCode = 429 \<or> statusCode \<ge> 500
      then (case retryAfter of Some i \<Rightarrow> (i, True) | None \<Rightarrow> (0, False))
      else (0, False))"

text \<open>A retryable error counts as the response 500 that asks to wait a second.\<close>

definition IsNextRetry ::
  "(HttpRequest \<Rightarrow> net_error \<Rightarrow> bool) \<Rightarrow> HttpRequest \<Rightarrow> 'r exchanged \<Rightarrow> withRetry \<Rightarrow> bool \<times> withRetry" where
  "IsNextRetry isErrRetryable httpReq out r =
     (let err = (case out of Broken e \<Rightarrow> Some e | Answered resp \<Rightarrow> None);
          r = r\<lparr>wrAttempts := wrAttempts r + 1\<rparr>;
          r = r\<lparr>wrRetryAfter := Some \<lparr>raWait = 0, raAttempt = wrAttempts r\<rparr>\<rparr>
      in if wrAttempts r > wrMaxRetries r then (False, trackPreviousError err r)
         else (case out of
             Broken e \<Rightarrow>
               if \<not> isErrRetryable httpReq e then (False, trackPreviousError err r)
               else (case checkWait 500 (Some 1) of (seconds, wait) \<Rightarrow>
                 if \<not> wait then (False, trackPreviousError err r)
                 else (True, trackPreviousError err
                        (r\<lparr>wrRetryAfter := Some \<lparr>raWait = seconds, raAttempt = wrAttempts r\<rparr>\<rparr>)))
           | Answered resp \<Rightarrow>
               (case checkWait (hsStatusCode resp) (hsRetryAfter resp) of (seconds, wait) \<Rightarrow>
                 if \<not> wait then (False, trackPreviousError err r)
                 else (True, trackPreviousError err
                        (r\<lparr>wrRetryAfter := Some \<lparr>raWait = seconds, raAttempt = wrAttempts r\<rparr>\<rparr>)))))"

text \<open>\<open>After\<close>, less the manager of backoffs, which only sleeps.\<close>

definition retry_After :: "withRetry \<Rightarrow> withRetry" where
  "retry_After r = r\<lparr>wrRetryAfter := None\<rparr>"

text \<open>
  The wrapped error prints both and is, to \<open>errors.As\<close>, what the current one is: the status of one
  stays its status.
\<close>

definition wrapPreviousError :: "api_error \<Rightarrow> api_error \<Rightarrow> api_error" where
  "wrapPreviousError currentErr previousError =
     (let message = errorString currentErr @ '' - error from a previous attempt: '' @ errorString previousError
      in case currentErr of
           StatusError reason code m \<Rightarrow> StatusError reason code message
         | OtherError m \<Rightarrow> OtherError message)"

definition WrapPreviousError :: "withRetry \<Rightarrow> api_error \<Rightarrow> api_error" where
  "WrapPreviousError r currentErr =
     (case wrPreviousErr r of
        None \<Rightarrow> currentErr
      | Some previous \<Rightarrow>
          if errorString currentErr = errorString (neError previous) then currentErr
          else wrapPreviousError currentErr
                 (case neUnwrapped previous of Some e \<Rightarrow> e | None \<Rightarrow> neError previous))"

definition tryThrottle ::
  "('s, 'r, 'w) RESTClient \<Rightarrow> RateLimiter option \<Rightarrow> 64 word \<Rightarrow> ('s, api_error option) state" where
  "tryThrottle c rateLimiter timeout =
     (case rateLimiter of
        None \<Rightarrow> State_Monad.return None
      | Some limiter \<Rightarrow> do {
          err \<leftarrow> rcWait c limiter timeout;
          State_Monad.return (case err of
            None \<Rightarrow> None
          | Some e \<Rightarrow> Some (OtherError (''client rate limiter Wait returned an error: '' @ errorString e)))
        })"

text \<open>
  \<open>Before\<close> answers the error that ends the call, with the errors tracked by then. The body of a
  request is kept as a string, so setting it back to its start has no counterpart and no error.
\<close>

definition retry_Before ::
  "('s, 'r, 'w) RESTClient \<Rightarrow> RateLimiter option \<Rightarrow> 64 word \<Rightarrow> withRetry
     \<Rightarrow> ('s, (api_error \<times> withRetry) option) state" where
  "retry_Before c rateLimiter timeout r = do {
     ctxErr \<leftarrow> rcContextErr c timeout;
     (case ctxErr of
        Some e \<Rightarrow> State_Monad.return (Some (neError e, trackPreviousError ctxErr r))
      | None \<Rightarrow>
          if wrRetryAfter r = None then State_Monad.return None
          else do {
            err \<leftarrow> tryThrottle c rateLimiter timeout;
            (case err of
               None \<Rightarrow> State_Monad.return None
             | Some e \<Rightarrow> do {
                 ctxErr \<leftarrow> rcContextErr c timeout;
                 State_Monad.return (Some (e, trackPreviousError ctxErr r))
               })
          })
   }"

lemma IsNextRetry_counts:
  "IsNextRetry f h out r = (True, r') \<Longrightarrow>
   wrAttempts r' = wrAttempts r + 1 \<and> wrMaxRetries r' = wrMaxRetries r \<and> wrAttempts r < wrMaxRetries r"
  by (auto simp: IsNextRetry_def trackPreviousError_def Let_def split: if_splits exchanged.splits prod.splits)

text \<open>
  The loop of \<open>request\<close> and of \<open>Watch\<close>: attempts until one is not to be followed by another, or is what
  \<open>taken\<close> looks for; the error that kept an attempt from being made, or its outcome.
\<close>

function attempts ::
  "('s, 'r, 'w) RESTClient \<Rightarrow> RateLimiter option \<Rightarrow> 64 word \<Rightarrow> HttpRequest
     \<Rightarrow> (HttpRequest \<Rightarrow> net_error \<Rightarrow> bool) \<Rightarrow> ('r exchanged \<Rightarrow> bool) \<Rightarrow> withRetry
     \<Rightarrow> ('s, api_error + 'r exchanged \<times> withRetry) state" where
  "attempts c rateLimiter timeout req isErrRetryable taken retry = do {
     before \<leftarrow> retry_Before c rateLimiter timeout retry;
     (case before of
        Some (err, retry') \<Rightarrow> State_Monad.return (Inl (WrapPreviousError retry' err))
      | None \<Rightarrow> do {
          out \<leftarrow> rcExchange c timeout req;
          (if taken out then State_Monad.return (Inr (out, retry_After retry))
           else case IsNextRetry isErrRetryable req out (retry_After retry) of (next, retry') \<Rightarrow>
             if next then attempts c rateLimiter timeout req isErrRetryable taken retry'
             else State_Monad.return (Inr (out, retry')))
        })
   }"
  by pat_completeness auto
termination
  by (relation "measure (\<lambda>(c, l, d, h, f, t, r). nat (wrMaxRetries r - wrAttempts r))")
    (auto simp: retry_After_def dest!: IsNextRetry_counts [OF sym])

declare attempts.simps [simp del]

section \<open>Doing a request\<close>

text \<open>\<open>Do\<close> answers the error of the request, or what the server answered last.\<close>

datatype 'r rest_result = RequestError api_error | Responded 'r

text \<open>Only a reading request is made again after an error of the connection.\<close>

definition request_retryable :: "HttpRequest \<Rightarrow> net_error \<Rightarrow> bool" where
  "request_retryable req err =
     (if hrMethod req \<noteq> ''GET'' then False else neConnectionReset err \<or> neProbableEOF err)"

definition request_Do :: "('s, 'r, 'w) RESTClient \<Rightarrow> Request \<Rightarrow> ('s, 'r rest_result) state" where
  "request_Do c r =
     (case rqErr r of
        Some err \<Rightarrow> State_Monad.return (RequestError err)
      | None \<Rightarrow>
          (case requestPreflightCheck r of
             Some err \<Rightarrow> State_Monad.return (RequestError err)
           | None \<Rightarrow> do {
               throttled \<leftarrow> tryThrottle c (rqRateLimiter r) 0;
               (case throttled of
                  Some err \<Rightarrow> State_Monad.return (RequestError err)
                | None \<Rightarrow> do {
                    let timeout = (if sint (rqTimeout r) > 0 then rqTimeout r else 0);
                    last \<leftarrow> attempts c (rqRateLimiter r) timeout (newHTTPRequest r) request_retryable
                              (\<lambda>out. False) (defaultRequestRetryFn (rqMaxRetries r));
                    State_Monad.return (case last of
                        Inl err \<Rightarrow> RequestError err
                      | Inr (Answered resp, retry) \<Rightarrow> Responded (hsPayload resp)
                      | Inr (Broken e, retry) \<Rightarrow> RequestError (WrapPreviousError retry (neError e)))
                  })
             }))"

fun result_Into :: "('r \<Rightarrow> 'o \<Rightarrow> 'o \<times> api_error option) \<Rightarrow> 'o \<Rightarrow> 'r rest_result \<Rightarrow> 'o option \<times> api_error option" where
  "result_Into decode obj (RequestError err) = (Some obj, Some err)"
| "result_Into decode obj (Responded resp) = (case decode resp obj of (x, err) \<Rightarrow> (Some x, err))"

fun result_Error :: "('r \<Rightarrow> api_error option) \<Rightarrow> 'r rest_result \<Rightarrow> api_error option" where
  "result_Error errorOf (RequestError err) = Some err"
| "result_Error errorOf (Responded resp) = errorOf resp"

text \<open>
  A watch does not pass the preflight check and is not throttled at first. A response that is not OK
  is an error: the one it holds, or that of its status.
\<close>

definition watch_retryable :: "HttpRequest \<Rightarrow> net_error \<Rightarrow> bool" where
  "watch_retryable req err \<longleftrightarrow> neProbableEOF err \<or> neTimeout err"

definition response_ok :: "'r exchanged \<Rightarrow> bool" where
  "response_ok out = (case out of Answered resp \<Rightarrow> hsStatusCode resp = 200 | Broken e \<Rightarrow> False)"

definition statusError :: "('s, 'r, 'w) RESTClient \<Rightarrow> HttpRequest \<Rightarrow> 'r http_response \<Rightarrow> api_error" where
  "statusError c req resp =
     (case rcError c (hsPayload resp) of
        Some err \<Rightarrow> err
      | None \<Rightarrow> OtherError (''for request '' @ rcURL c req @ '', got status: '' @ format_nat (hsStatusCode resp)))"

definition request_Watch :: "('s, 'r, 'w) RESTClient \<Rightarrow> Request \<Rightarrow> ('s, 'w) answer" where
  "request_Watch c r =
     (case rqErr r of
        Some err \<Rightarrow> State_Monad.return (None, Some err)
      | None \<Rightarrow> do {
          let req = newHTTPRequest r;
          last \<leftarrow> attempts c (rqRateLimiter r) 0 req watch_retryable response_ok
                    (defaultRequestRetryFn (rqMaxRetries r));
          State_Monad.return (case last of
              Inl err \<Rightarrow> (None, Some err)
            | Inr (Answered resp, retry) \<Rightarrow>
                if hsStatusCode resp = 200 then rcStream c (hsPayload resp)
                else (None, Some (WrapPreviousError retry (statusError c req resp)))
            | Inr (Broken e, retry) \<Rightarrow>
                if watch_retryable req e then (Some (rcEmptyWatch c), None)
                else (None, Some (WrapPreviousError retry (neError e))))
        })"

end
