(* ===== verification/Retries.thy ===== *)
theory Retries
  imports RestClient
begin

text \<open>
  What the retries of a request come to: the request is sent, the same each time, until the server
  does not ask for another attempt, and eleven times at most. The specification names the outcomes
  of the exchanges and not the loop; it holds for \<open>request_Do\<close> and \<open>request_Watch\<close> where the
  context of the call lives on and the rate limiter lets the call through.
\<close>

section \<open>The specification\<close>

text \<open>An outcome after which there is another attempt, if there may be one.\<close>

definition asks_again :: "(HttpRequest \<Rightarrow> net_error \<Rightarrow> bool) \<Rightarrow> HttpRequest \<Rightarrow> 'r exchanged \<Rightarrow> bool" where
  "asks_again f h out \<longleftrightarrow>
     (case out of
        Answered resp \<Rightarrow> (hsStatusCode resp = 429 \<or> hsStatusCode resp \<ge> 500) \<and> hsRetryAfter resp \<noteq> None
      | Broken e \<Rightarrow> f h e)"

text \<open>The steps of a call that sends nothing but \<open>h\<close>, with the outcomes in their order.\<close>

inductive sends ::
  "('s, 'r, 'w) RESTClient \<Rightarrow> HttpRequest \<Rightarrow> 's \<Rightarrow> 'r exchanged list \<Rightarrow> 's \<Rightarrow> bool" for c h where
  ends: "sends c h s [] s"
| looks: "run_state (rcContextErr c d) s = (e, s1) \<Longrightarrow> sends c h s1 outs s2 \<Longrightarrow> sends c h s outs s2"
| waits: "run_state (rcWait c l d) s = (e, s1) \<Longrightarrow> sends c h s1 outs s2 \<Longrightarrow> sends c h s outs s2"
| exchanges: "run_state (rcExchange c d h) s = (out, s1) \<Longrightarrow> sends c h s1 outs s2 \<Longrightarrow>
    sends c h s (out # outs) s2"

definition patient :: "('s, 'r, 'w) RESTClient \<Rightarrow> bool" where
  "patient c \<longleftrightarrow> (\<forall>d s. fst (run_state (rcContextErr c d) s) = None)
     \<and> (\<forall>l d s. fst (run_state (rcWait c l d) s) = None)"

text \<open>The error a call answers: its own, or with that of an earlier attempt in its message.\<close>

definition told :: "'r exchanged list \<Rightarrow> api_error \<Rightarrow> api_error \<Rightarrow> bool" where
  "told outs err err' \<longleftrightarrow> err' = err \<or> (\<exists>e. Broken e \<in> set (butlast outs)
     \<and> err' = wrapPreviousError err (case neUnwrapped e of Some e' \<Rightarrow> e' | None \<Rightarrow> neError e))"

definition sends_only ::
  "('s, 'r, 'w) RESTClient \<Rightarrow> HttpRequest \<Rightarrow> ('r exchanged \<Rightarrow> bool) \<Rightarrow> ('r exchanged list \<Rightarrow> 'a \<Rightarrow> bool)
     \<Rightarrow> ('s, 'a) state \<Rightarrow> bool" where
  "sends_only c h again result m \<longleftrightarrow>
     (\<forall>s. \<exists>outs. outs \<noteq> [] \<and> length outs \<le> 11 \<and> sends c h s outs (snd (run_state m s))
        \<and> (\<forall>out \<in> set (butlast outs). again out) \<and> (length outs = 11 \<or> \<not> again (last outs))
        \<and> result outs (fst (run_state m s)))"

text \<open>A request that is done answers what the server did last, or the error of the connection.\<close>

definition does :: "('r \<Rightarrow> 'a) \<Rightarrow> (api_error \<Rightarrow> 'a) \<Rightarrow> 'r exchanged list \<Rightarrow> 'a \<Rightarrow> bool" where
  "does k fail outs x \<longleftrightarrow>
     (case last outs of Answered resp \<Rightarrow> x = k (hsPayload resp)
      | Broken e \<Rightarrow> (\<exists>err. told outs (neError e) err \<and> x = fail err))"

text \<open>
  A watch answers the stream of the first response that is OK; a connection that ended or timed out
  all the time is a watch without events.
\<close>

definition streams ::
  "('s, 'r, 'w) RESTClient \<Rightarrow> HttpRequest \<Rightarrow> 'r exchanged list \<Rightarrow> 'w option \<times> api_error option \<Rightarrow> bool" where
  "streams c h outs x \<longleftrightarrow>
     (case last outs of
        Answered resp \<Rightarrow>
          if hsStatusCode resp = 200 then x = rcStream c (hsPayload resp)
          else (\<exists>err. told outs (statusError c h resp) err \<and> x = (None, Some err))
      | Broken e \<Rightarrow>
          if watch_retryable h e then x = (Some (rcEmptyWatch c), None)
          else (\<exists>err. told outs (neError e) err \<and> x = (None, Some err)))"

section \<open>The loop\<close>

definition error_of :: "'r exchanged \<Rightarrow> net_error option" where
  "error_of out = (case out of Broken e \<Rightarrow> Some e | Answered resp \<Rightarrow> None)"

lemma IsNextRetry_next:
  assumes "IsNextRetry f h out r = (next, r')"
  shows "next \<longleftrightarrow> wrAttempts r < wrMaxRetries r \<and> asks_again f h out"
    and "wrAttempts r' = wrAttempts r + 1" "wrMaxRetries r' = wrMaxRetries r"
    and "wrCurrentErr r' = error_of out" "wrRetryAfter r' \<noteq> None"
    and "wrPreviousErr r' = (if wrCurrentErr r \<noteq> None then wrCurrentErr r else wrPreviousErr r)"
  using assms
  by (auto simp: IsNextRetry_def trackPreviousError_def asks_again_def checkWait_def error_of_def Let_def
      split: if_splits exchanged.splits prod.splits option.splits)

lemma retry_After_fields [simp]:
  "wrAttempts (retry_After r) = wrAttempts r" "wrMaxRetries (retry_After r) = wrMaxRetries r"
  "wrPreviousErr (retry_After r) = wrPreviousErr r" "wrCurrentErr (retry_After r) = wrCurrentErr r"
  by (simp_all add: retry_After_def)

lemma patient_throttle:
  assumes "patient c"
  obtains s' where "run_state (tryThrottle c l d) s = (None, s')"
    and "\<And>h outs s2. sends c h s' outs s2 \<Longrightarrow> sends c h s outs s2"
proof (cases l)
  case None
  then show thesis using that by (simp add: tryThrottle_def)
next
  case (Some limiter)
  obtain s' where "run_state (rcWait c limiter d) s = (None, s')"
    using assms by (metis patient_def prod.collapse)
  then show thesis using that [of s'] Some
    by (auto simp: tryThrottle_def intro: sends.waits)
qed

lemma patient_before:
  assumes "patient c"
  obtains s' where "run_state (retry_Before c l d r) s = (None, s')"
    and "\<And>h outs s2. sends c h s' outs s2 \<Longrightarrow> sends c h s outs s2"
proof -
  obtain s1 where s1: "run_state (rcContextErr c d) s = (None, s1)"
    using assms by (metis patient_def prod.collapse)
  obtain s' where s': "run_state (tryThrottle c l d) s1 = (None, s')"
    "\<And>h outs s2. sends c h s' outs s2 \<Longrightarrow> sends c h s1 outs s2"
    using patient_throttle [OF assms] by blast
  show thesis
  proof (cases "wrRetryAfter r = None")
    case True
    then show ?thesis using that [of s1] s1 by (simp add: retry_Before_def sends.looks)
  next
    case False
    then have "run_state (retry_Before c l d r) s = (None, s')"
      using s1 s'(1) False by (auto simp: retry_Before_def)
    then show ?thesis using that s' sends.looks [OF s1] by blast
  qed
qed

text \<open>The errors that are tracked are those of attempts that were made.\<close>

definition tracked :: "'r exchanged list \<Rightarrow> net_error option \<Rightarrow> bool" where
  "tracked outs err \<longleftrightarrow> (\<forall>e. err = Some e \<longrightarrow> Broken e \<in> set outs)"

lemma attempts_sends:
  assumes c: "patient c" and taken: "\<And>out. taken out \<Longrightarrow> \<not> asks_again f h out"
    and "wrAttempts retry \<le> wrMaxRetries retry"
    and "tracked past (wrPreviousErr retry)" "tracked past (wrCurrentErr retry)"
  shows "\<exists>outs retry' s'. run_state (attempts c l d h f taken retry) s = (Inr (last outs, retry'), s')
     \<and> outs \<noteq> [] \<and> sends c h s outs s' \<and> (\<forall>out \<in> set (butlast outs). asks_again f h out)
     \<and> int (length outs) \<le> wrMaxRetries retry - wrAttempts retry + 1
     \<and> (int (length outs) = wrMaxRetries retry - wrAttempts retry + 1 \<or> \<not> asks_again f h (last outs))
     \<and> tracked (past @ butlast outs) (wrPreviousErr retry')"
  using assms(3-5)
proof (induction "nat (wrMaxRetries retry - wrAttempts retry)" arbitrary: retry past s rule: less_induct)
  case less
  obtain s1 where s1: "run_state (retry_Before c l d retry) s = (None, s1)"
    "\<And>h outs s2. sends c h s1 outs s2 \<Longrightarrow> sends c h s outs s2"
    using patient_before [OF c] by blast
  obtain out s2 where s2: "run_state (rcExchange c d h) s1 = (out, s2)" by fastforce
  have one: "sends c h s [out] s2" using s1(2) s2 sends.ends sends.exchanges by metis
  obtain next1 r1 where r1: "IsNextRetry f h out (retry_After retry) = (next1, r1)" by fastforce
  note nxt = IsNextRetry_next [OF r1]
  show ?case
  proof (cases "\<not> taken out \<and> next1")
    case False
    then have "run_state (attempts c l d h f taken retry) s =
        (Inr (out, if taken out then retry_After retry else r1), s2)"
      using s1(1) s2 r1 by (subst attempts.simps) auto
    moreover have "asks_again f h out \<longrightarrow> wrAttempts retry = wrMaxRetries retry"
      using False taken nxt(1) less.prems(1) by auto
    moreover have "tracked past (wrPreviousErr (if taken out then retry_After retry else r1))"
      using less.prems(2,3) nxt(6) by simp
    ultimately show ?thesis using one less.prems(1)
      by (intro exI [of _ "[out]"] exI [of _ "if taken out then retry_After retry else r1"] exI [of _ s2])
        auto
  next
    case True
    have run: "run_state (attempts c l d h f taken retry) s = run_state (attempts c l d h f taken r1) s2"
      using s1(1) s2 r1 True by (subst attempts.simps) simp
    have pre: "tracked (past @ [out]) (wrPreviousErr r1)" "tracked (past @ [out]) (wrCurrentErr r1)"
      using less.prems(2,3) nxt(4,6) by (auto simp: tracked_def error_of_def split: exchanged.splits)
    have fewer: "nat (wrMaxRetries r1 - wrAttempts r1) < nat (wrMaxRetries retry - wrAttempts retry)"
      "wrAttempts r1 \<le> wrMaxRetries r1"
      using nxt(1-3) True by auto
    obtain outs retry' s' where later:
      "run_state (attempts c l d h f taken r1) s2 = (Inr (last outs, retry'), s')" "outs \<noteq> []"
      "sends c h s2 outs s'" "\<forall>out \<in> set (butlast outs). asks_again f h out"
      "int (length outs) \<le> wrMaxRetries r1 - wrAttempts r1 + 1"
      "int (length outs) = wrMaxRetries r1 - wrAttempts r1 + 1 \<or> \<not> asks_again f h (last outs)"
      "tracked ((past @ [out]) @ butlast outs) (wrPreviousErr retry')"
      using less.hyps [OF fewer pre] by blast
    have "sends c h s (out # outs) s'" using s1(2) s2 later(3) sends.exchanges by metis
    then show ?thesis using later nxt(1-3) True run
      by (intro exI [of _ "out # outs"] exI [of _ retry'] exI [of _ s']) auto
  qed
qed

lemma tracked_told:
  "tracked (butlast outs) (wrPreviousErr r) \<Longrightarrow> told outs err (WrapPreviousError r err)"
  by (auto simp: tracked_def told_def WrapPreviousError_def split: option.splits)

section \<open>Requests\<close>

lemma fresh_retry [simp]:
  "wrAttempts (defaultRequestRetryFn n) = 0" "wrMaxRetries (defaultRequestRetryFn n) = n"
  "tracked [] (wrPreviousErr (defaultRequestRetryFn n))" "tracked [] (wrCurrentErr (defaultRequestRetryFn n))"
  by (simp_all add: defaultRequestRetryFn_def tracked_def)

lemma request_Do_sends:
  assumes "patient c" "rqErr r = None" "requestPreflightCheck r = None" "rqMaxRetries r = 10"
  shows "sends_only c (newHTTPRequest r) (asks_again request_retryable (newHTTPRequest r))
    (does Responded RequestError) (request_Do c r)"
  unfolding sends_only_def
proof
  fix s
  define h where "h = newHTTPRequest r"
  obtain s1 where s1: "run_state (tryThrottle c (rqRateLimiter r) 0) s = (None, s1)"
    "\<And>h outs s2. sends c h s1 outs s2 \<Longrightarrow> sends c h s outs s2"
    using patient_throttle [OF assms(1)] by blast
  define d where "d = (if sint (rqTimeout r) > 0 then rqTimeout r else 0)"
  obtain outs retry s' where outs:
    "run_state (attempts c (rqRateLimiter r) d h request_retryable (\<lambda>out. False)
       (defaultRequestRetryFn 10)) s1 = (Inr (last outs, retry), s')" "outs \<noteq> []"
    "sends c h s1 outs s'" "\<forall>out \<in> set (butlast outs). asks_again request_retryable h out"
    "int (length outs) \<le> 11" "int (length outs) = 11 \<or> \<not> asks_again request_retryable h (last outs)"
    "tracked (butlast outs) (wrPreviousErr retry)"
    using attempts_sends [OF assms(1), of "\<lambda>out. False" request_retryable h "defaultRequestRetryFn 10" "[]"]
    by auto blast
  have run: "run_state (request_Do c r) s =
      (case last outs of Answered resp \<Rightarrow> Responded (hsPayload resp)
         | Broken e \<Rightarrow> RequestError (WrapPreviousError retry (neError e)), s')"
    using s1(1) outs(1)
    by (simp add: request_Do_def assms(2-4) d_def [symmetric] h_def [symmetric] Let_def split: exchanged.split)
  have "does Responded RequestError outs (fst (run_state (request_Do c r) s))"
    using tracked_told [OF outs(7)] by (auto simp: does_def run split: exchanged.split)
  then show "\<exists>outs. outs \<noteq> [] \<and> length outs \<le> 11 \<and> sends c (newHTTPRequest r) s outs (snd (run_state (request_Do c r) s))
      \<and> (\<forall>out \<in> set (butlast outs). asks_again request_retryable (newHTTPRequest r) out)
      \<and> (length outs = 11 \<or> \<not> asks_again request_retryable (newHTTPRequest r) (last outs))
      \<and> does Responded RequestError outs (fst (run_state (request_Do c r) s))"
    using outs s1(2) by (intro exI [of _ outs]) (auto simp: run h_def)
qed

lemma request_Watch_sends:
  assumes "patient c" "rqErr r = None" "rqMaxRetries r = 10"
  shows "sends_only c (newHTTPRequest r) (asks_again watch_retryable (newHTTPRequest r))
    (streams c (newHTTPRequest r)) (request_Watch c r)"
  unfolding sends_only_def
proof
  fix s
  define h where "h = newHTTPRequest r"
  have ok: "\<not> asks_again watch_retryable h out" if "response_ok out" for out
    using that by (auto simp: asks_again_def response_ok_def split: exchanged.splits)
  obtain outs retry s' where outs:
    "run_state (attempts c (rqRateLimiter r) 0 h watch_retryable response_ok
       (defaultRequestRetryFn 10)) s = (Inr (last outs, retry), s')" "outs \<noteq> []"
    "sends c h s outs s'" "\<forall>out \<in> set (butlast outs). asks_again watch_retryable h out"
    "int (length outs) \<le> 11" "int (length outs) = 11 \<or> \<not> asks_again watch_retryable h (last outs)"
    "tracked (butlast outs) (wrPreviousErr retry)"
    using attempts_sends [OF assms(1) ok, where retry = "defaultRequestRetryFn 10" and past = "[]"]
    by auto blast
  have run: "run_state (request_Watch c r) s =
      (case last outs of
         Answered resp \<Rightarrow>
           if hsStatusCode resp = 200 then rcStream c (hsPayload resp)
           else (None, Some (WrapPreviousError retry (statusError c h resp)))
       | Broken e \<Rightarrow>
           if watch_retryable h e then (Some (rcEmptyWatch c), None)
           else (None, Some (WrapPreviousError retry (neError e))), s')"
    using outs(1)
    by (simp add: request_Watch_def assms(2,3) h_def [symmetric] Let_def split: exchanged.split)
  have "streams c h outs (fst (run_state (request_Watch c r) s))"
    using tracked_told [OF outs(7)] by (auto simp: streams_def run split: exchanged.split)
  then show "\<exists>outs. outs \<noteq> [] \<and> length outs \<le> 11
      \<and> sends c (newHTTPRequest r) s outs (snd (run_state (request_Watch c r) s))
      \<and> (\<forall>out \<in> set (butlast outs). asks_again watch_retryable (newHTTPRequest r) out)
      \<and> (length outs = 11 \<or> \<not> asks_again watch_retryable (newHTTPRequest r) (last outs))
      \<and> streams c (newHTTPRequest r) outs (fst (run_state (request_Watch c r) s))"
    using outs by (intro exI [of _ outs]) (auto simp: run h_def)
qed

text \<open>Turning the answer of a request into a result.\<close>

lemma sends_only_return:
  assumes "sends_only c h again (does Responded RequestError) m"
  shows "sends_only c h again (does (\<lambda>resp. f (Responded resp)) (\<lambda>err. f (RequestError err)))
    (do { x \<leftarrow> m; State_Monad.return (f x) })"
  unfolding sends_only_def
proof
  fix s
  obtain outs where "outs \<noteq> []" "length outs \<le> 11" "sends c h s outs (snd (run_state m s))"
    "\<forall>out \<in> set (butlast outs). again out" "length outs = 11 \<or> \<not> again (last outs)"
    "does Responded RequestError outs (fst (run_state m s))"
    using assms unfolding sends_only_def by blast
  then show "\<exists>outs. outs \<noteq> [] \<and> length outs \<le> 11
      \<and> sends c h s outs (snd (run_state (do { x \<leftarrow> m; State_Monad.return (f x) }) s))
      \<and> (\<forall>out \<in> set (butlast outs). again out) \<and> (length outs = 11 \<or> \<not> again (last outs))
      \<and> does (\<lambda>resp. f (Responded resp)) (\<lambda>err. f (RequestError err)) outs
          (fst (run_state (do { x \<leftarrow> m; State_Monad.return (f x) }) s))"
    by (intro exI [of _ outs]) (auto simp: does_def split: exchanged.splits prod.split)
qed

end
