(* ===== verification/TypedClient.thy ===== *)
theory TypedClient
  imports Retries
begin

text \<open>
  The typed client for component builds: every method of \<open>componentBuilds\<close> in
  \<open>pkg/client/clientset/versioned/typed/apheleia/v1alpha1/componentbuild.go\<close> as the chain of
  setters it is, then the requests these chains send: which path they address, which names they
  refuse without sending anything, and how a timeout in seconds becomes one in nanoseconds.
\<close>

section \<open>Methods\<close>

record ('s, 'r, 'w) componentBuilds =
  clientOf :: "('s, 'r, 'w) RESTClient"
  nsName :: string

definition newComponentBuilds ::
  "('s, 'r, 'w) RESTClient \<Rightarrow> string \<Rightarrow> ('s, 'r, 'w) componentBuilds" where
  "newComponentBuilds client namespace = \<lparr>clientOf = client, nsName = namespace\<rparr>"

text \<open>The setters every method starts with.\<close>

definition in_namespace :: "('s, 'r, 'w) componentBuilds \<Rightarrow> Request \<Rightarrow> Request" where
  "in_namespace c r = request_Resource ''componentbuilds'' (request_Namespace (nsName c) r)"

text \<open>\<open>time.Duration(*opts.TimeoutSeconds) * time.Second\<close>, in 64 bits.\<close>

definition timeoutOf :: "64 word option \<Rightarrow> 64 word" where
  "timeoutOf seconds = (case seconds of None \<Rightarrow> 0 | Some s \<Rightarrow> s * 1000000000)"

definition builds_Get ::
  "('s, 'r, 'w) componentBuilds \<Rightarrow> string \<Rightarrow> GetOptions \<Rightarrow> ('s, ComponentBuild) answer" where
  "builds_Get c name options = do {
     let r = in_namespace c (Verb ''GET'' (clientOf c));
     let r = request_Name name r;
     let r = request_VersionedParams (clientOf c) (GetParams options) r;
     result \<leftarrow> request_Do (clientOf c) r;
     State_Monad.return (result_Into (rcDecodeBuild (clientOf c)) zeroComponentBuild result)
   }"

definition builds_List ::
  "('s, 'r, 'w) componentBuilds \<Rightarrow> ListOptions \<Rightarrow> ('s, BuildList) answer" where
  "builds_List c opts = do {
     let timeout = timeoutOf (loTimeoutSeconds opts);
     let r = in_namespace c (Verb ''GET'' (clientOf c));
     let r = request_VersionedParams (clientOf c) (ListParams opts) r;
     let r = request_Timeout timeout r;
     result \<leftarrow> request_Do (clientOf c) r;
     State_Monad.return (result_Into (rcDecodeList (clientOf c)) emptyBuildList result)
   }"

definition builds_Watch ::
  "('s, 'r, 'w) componentBuilds \<Rightarrow> ListOptions \<Rightarrow> ('s, 'w) answer" where
  "builds_Watch c opts =
     (let timeout = timeoutOf (loTimeoutSeconds opts);
          opts = opts\<lparr>loWatch := True\<rparr>;
          r = in_namespace c (Verb ''GET'' (clientOf c));
          r = request_VersionedParams (clientOf c) (ListParams opts) r;
          r = request_Timeout timeout r
      in request_Watch (clientOf c) r)"

definition builds_Create ::
  "('s, 'r, 'w) componentBuilds \<Rightarrow> ComponentBuild \<Rightarrow> CreateOptions \<Rightarrow> ('s, ComponentBuild) answer" where
  "builds_Create c componentBuild opts = do {
     let r = in_namespace c (Verb ''POST'' (clientOf c));
     let r = request_VersionedParams (clientOf c) (CreateParams opts) r;
     let r = request_Body (clientOf c) (BuildBody componentBuild) r;
     result \<leftarrow> request_Do (clientOf c) r;
     State_Monad.return (result_Into (rcDecodeBuild (clientOf c)) zeroComponentBuild result)
   }"

definition builds_Update ::
  "('s, 'r, 'w) componentBuilds \<Rightarrow> ComponentBuild \<Rightarrow> UpdateOptions \<Rightarrow> ('s, ComponentBuild) answer" where
  "builds_Update c componentBuild opts = do {
     let r = in_namespace c (Verb ''PUT'' (clientOf c));
     let r = request_Name (obj_name componentBuild) r;
     let r = request_VersionedParams (clientOf c) (UpdateParams opts) r;
     let r = request_Body (clientOf c) (BuildBody componentBuild) r;
     result \<leftarrow> request_Do (clientOf c) r;
     State_Monad.return (result_Into (rcDecodeBuild (clientOf c)) zeroComponentBuild result)
   }"

definition builds_UpdateStatus ::
  "('s, 'r, 'w) componentBuilds \<Rightarrow> ComponentBuild \<Rightarrow> UpdateOptions \<Rightarrow> ('s, ComponentBuild) answer" where
  "builds_UpdateStatus c componentBuild opts = do {
     let r = in_namespace c (Verb ''PUT'' (clientOf c));
     let r = request_Name (obj_name componentBuild) r;
     let r = request_SubResource [''status''] r;
     let r = request_VersionedParams (clientOf c) (UpdateParams opts) r;
     let r = request_Body (clientOf c) (BuildBody componentBuild) r;
     result \<leftarrow> request_Do (clientOf c) r;
     State_Monad.return (result_Into (rcDecodeBuild (clientOf c)) zeroComponentBuild result)
   }"

definition builds_Delete ::
  "('s, 'r, 'w) componentBuilds \<Rightarrow> string \<Rightarrow> DeleteOptions \<Rightarrow> ('s, api_error option) state" where
  "builds_Delete c name opts = do {
     let r = in_namespace c (Verb ''DELETE'' (clientOf c));
     let r = request_Name name r;
     let r = request_Body (clientOf c) (DeleteBody opts) r;
     result \<leftarrow> request_Do (clientOf c) r;
     State_Monad.return (result_Error (rcError (clientOf c)) result)
   }"

definition builds_DeleteCollection ::
  "('s, 'r, 'w) componentBuilds \<Rightarrow> DeleteOptions \<Rightarrow> ListOptions \<Rightarrow> ('s, api_error option) state" where
  "builds_DeleteCollection c opts listOpts = do {
     let timeout = timeoutOf (loTimeoutSeconds listOpts);
     let r = in_namespace c (Verb ''DELETE'' (clientOf c));
     let r = request_VersionedParams (clientOf c) (ListParams listOpts) r;
     let r = request_Timeout timeout r;
     let r = request_Body (clientOf c) (DeleteBody opts) r;
     result \<leftarrow> request_Do (clientOf c) r;
     State_Monad.return (result_Error (rcError (clientOf c)) result)
   }"

definition builds_Patch ::
  "('s, 'r, 'w) componentBuilds \<Rightarrow> string \<Rightarrow> PatchType \<Rightarrow> string \<Rightarrow> PatchOptions \<Rightarrow> string list
     \<Rightarrow> ('s, ComponentBuild) answer" where
  "builds_Patch c name pt data opts subresources = do {
     let r = in_namespace c (Patch_request pt (clientOf c));
     let r = request_Name name r;
     let r = request_SubResource subresources r;
     let r = request_VersionedParams (clientOf c) (PatchParams opts) r;
     let r = request_Body (clientOf c) (BytesBody data) r;
     result \<leftarrow> request_Do (clientOf c) r;
     State_Monad.return (result_Into (rcDecodeBuild (clientOf c)) zeroComponentBuild result)
   }"

definition builds_interface ::
  "('s, 'r, 'w) componentBuilds \<Rightarrow> ('s, 'w) ComponentBuildInterface" where
  "builds_interface c =
     \<lparr>cbiCreate = builds_Create c, cbiUpdate = builds_Update c, cbiUpdateStatus = builds_UpdateStatus c,
      cbiDelete = builds_Delete c, cbiDeleteCollection = builds_DeleteCollection c,
      cbiGet = builds_Get c, cbiList = builds_List c, cbiWatch = builds_Watch c,
      cbiPatch = builds_Patch c\<rparr>"

section \<open>Legal names\<close>

definition legal :: "string \<Rightarrow> bool" where
  "legal s \<longleftrightarrow> s \<noteq> ''.'' \<and> s \<noteq> ''..'' \<and> CHR ''/'' \<notin> set s \<and> CHR ''%'' \<notin> set s"

lemma IsValidPathSegmentName_legal: "IsValidPathSegmentName s = [] \<longleftrightarrow> legal s"
  by (auto simp: IsValidPathSegmentName_def NameMayNotBe_def NameMayNotContain_def legal_def)

lemma legal_segment: "legal s \<Longrightarrow> s \<noteq> '''' \<Longrightarrow> segment s"
  by (auto simp: legal_def segment_def)

lemma legal_segments: "list_all legal subs \<Longrightarrow> '''' \<notin> set subs \<Longrightarrow> list_all segment subs"
  by (metis legal_segment list_all_iff)

lemma legal_parts: "legal s \<Longrightarrow> split_on CHR ''/'' s = [s]"
  by (simp add: legal_def split_on_none)

section \<open>The chains\<close>

lemma SetHeader_fields [simp]:
  "rqErr (SetHeader k v r) = rqErr r" "rqVerb (SetHeader k v r) = rqVerb r"
  "rqPathPrefix (SetHeader k v r) = rqPathPrefix r" "rqNamespaceSet (SetHeader k v r) = rqNamespaceSet r"
  "rqNamespace (SetHeader k v r) = rqNamespace r" "rqResource (SetHeader k v r) = rqResource r"
  "rqResourceName (SetHeader k v r) = rqResourceName r"
  "rqSubresource (SetHeader k v r) = rqSubresource r" "rqTimeout (SetHeader k v r) = rqTimeout r"
  "rqParams (SetHeader k v r) = rqParams r" "rqMaxRetries (SetHeader k v r) = rqMaxRetries r"
  by (simp_all add: SetHeader_def)

definition prefix_path :: "('s, 'r, 'w) RESTClient \<Rightarrow> string" where
  "prefix_path c = path_Join [''/'', rcBasePath c, rcVersionedAPIPath c]"

lemma Verb_fields [simp]:
  "rqErr (Verb v c) = None" "rqVerb (Verb v c) = v" "rqPathPrefix (Verb v c) = prefix_path c"
  "rqNamespaceSet (Verb v c) = False" "rqResource (Verb v c) = ''''"
  "rqResourceName (Verb v c) = ''''" "rqSubresource (Verb v c) = ''''" "rqParams (Verb v c) = []"
  "rqMaxRetries (Verb v c) = 10"
  by (simp_all add: Verb_def NewRequest_def Let_def prefix_path_def)

text \<open>What a request is for: where it goes and what it names, and how often it may be repeated.\<close>

definition address :: "Request \<Rightarrow> string \<times> string \<times> string \<times> bool \<times> string \<times> string \<times> string \<times> int" where
  "address r = (rqVerb r, rqPathPrefix r, rqNamespace r, rqNamespaceSet r, rqResource r,
     rqResourceName r, rqSubresource r, rqMaxRetries r)"

lemma setter_sticky [simp]: "rqErr r = Some err \<Longrightarrow> setter f r = r"
  by (simp add: setter_def)

lemma failed_err [simp]: "rqErr (failed msg r) = Some (OtherError msg)"
  by (simp add: failed_def)

lemma in_namespace_legal:
  "legal (nsName c) \<Longrightarrow> rqErr r = None \<Longrightarrow> \<not> rqNamespaceSet r \<Longrightarrow> rqResource r = '''' \<Longrightarrow>
   in_namespace c r = r\<lparr>rqNamespaceSet := True, rqNamespace := nsName c, rqResource := ''componentbuilds''\<rparr>"
  by (simp add: in_namespace_def request_Namespace_def request_Resource_def setter_def
      IsValidPathSegmentName_legal) (simp add: legal_def)

lemma in_namespace_illegal:
  "\<not> legal (nsName c) \<Longrightarrow> rqErr r = None \<Longrightarrow> \<not> rqNamespaceSet r \<Longrightarrow> rqErr (in_namespace c r) \<noteq> None"
  by (simp add: in_namespace_def request_Namespace_def request_Resource_def setter_def
      IsValidPathSegmentName_legal)

lemma request_Name_legal:
  "legal name \<Longrightarrow> name \<noteq> '''' \<Longrightarrow> rqErr r = None \<Longrightarrow> rqResourceName r = '''' \<Longrightarrow>
   request_Name name r = r\<lparr>rqResourceName := name\<rparr>"
  by (simp add: request_Name_def setter_def IsValidPathSegmentName_legal)

lemma request_Name_illegal:
  "\<not> (legal name \<and> name \<noteq> '''') \<Longrightarrow> rqErr (request_Name name r) \<noteq> None"
  by (auto simp: request_Name_def setter_def IsValidPathSegmentName_legal)

lemma request_VersionedParams_ok:
  "rcEncodeParameters cl obj = Inr params \<Longrightarrow> rqErr r = None \<Longrightarrow>
   request_VersionedParams cl obj r = r\<lparr>rqParams := append_values params (rqParams r)\<rparr>"
  by (simp add: request_VersionedParams_def setter_def)

lemma request_SubResource_ok:
  "list_all legal subs \<Longrightarrow> rqErr r = None \<Longrightarrow> rqSubresource r = '''' \<Longrightarrow>
   request_SubResource subs r = r\<lparr>rqSubresource := path_Join subs\<rparr>"
  by (auto simp: request_SubResource_def setter_def IsValidPathSegmentName_legal find_Some_iff
      list_all_iff split: option.splits)

text \<open>An error set once stays; the setters of the parameters and the body keep the address.\<close>

lemma setters_keep_error:
  "rqErr r \<noteq> None \<Longrightarrow> rqErr (request_Name n r) \<noteq> None"
  "rqErr r \<noteq> None \<Longrightarrow> rqErr (request_SubResource subs r) \<noteq> None"
  "rqErr r \<noteq> None \<Longrightarrow> rqErr (request_VersionedParams cl obj r) \<noteq> None"
  "rqErr r \<noteq> None \<Longrightarrow> rqErr (request_Timeout d r) \<noteq> None"
  "rqErr r \<noteq> None \<Longrightarrow> rqErr (request_Body cl b r) \<noteq> None"
  by (auto simp: request_Name_def request_SubResource_def request_VersionedParams_def
      request_Timeout_def request_Body_def)

lemma setters_keep_address:
  "address (request_VersionedParams cl obj r) = address r"
  "address (request_Timeout d r) = address r"
  "address (request_Body cl b r) = address r"
  by (auto simp: request_VersionedParams_def request_Timeout_def request_Body_def setter_def
      address_def SetHeader_def split: sum.split BodyObject.split)

lemma request_path_address: "address r = address r' \<Longrightarrow> request_path r = request_path r'"
  by (auto simp: address_def request_path_def Let_def)

lemma preflight_address:
  "address r = address r' \<Longrightarrow> requestPreflightCheck r = requestPreflightCheck r'"
  by (simp add: address_def requestPreflightCheck_def)

section \<open>Paths\<close>

lemma lower_componentbuilds: "ToLower ''componentbuilds'' = ''componentbuilds''"
  by code_simp

text \<open>The segments of a request's path after those of the API's prefix.\<close>

definition request_segments :: "string \<Rightarrow> string \<Rightarrow> string list \<Rightarrow> string list" where
  "request_segments ns name subs =
     (if ns = '''' then [] else [''namespaces'', ns]) @ ''componentbuilds''
       # (if name = '''' then [] else [name]) @ subs"

lemma request_path_segments:
  assumes prefix: "rqPathPrefix r = path_of segs" "list_all segment segs"
    and ns: "rqNamespaceSet r" "legal (rqNamespace r)"
    and res: "rqResource r = ''componentbuilds''" and name: "legal (rqResourceName r)"
    and sub: "rqSubresource r = Join subs ''/''" "list_all segment subs"
  shows "request_path r = path_of (segs @ request_segments (rqNamespace r) (rqResourceName r) subs)"
proof -
  have cb: "segment ''componentbuilds''" "segment ''namespaces''"
    "split_on CHR ''/'' ''componentbuilds'' = [''componentbuilds'']"
    "split_on CHR ''/'' ''namespaces'' = [''namespaces'']"
    by (simp_all add: segment_def)
  define segs1 where "segs1 = segs @ (if rqNamespace r = '''' then [] else [''namespaces'', rqNamespace r])"
  have 1: "list_all segment segs1"
    using prefix(2) ns(2) cb by (simp add: segs1_def legal_segment)
  have p1: "(if rqNamespaceSet r \<and> length (rqNamespace r) > 0
      then path_Join [path_of segs, ''namespaces'', rqNamespace r] else path_of segs) = path_of segs1"
    using ns path_Join_rooted [OF prefix(2), of "[''namespaces'', rqNamespace r]"]
    by (auto simp: segs1_def cb legal_parts legal_def)
  have p2: "path_Join [path_of segs1, ''componentbuilds''] = path_of (segs1 @ [''componentbuilds''])"
    using path_Join_rooted [OF 1, of "[''componentbuilds'']"] by (simp add: cb)
  have 2: "list_all segment (segs1 @ [''componentbuilds''])" using 1 cb by simp
  have p3: "path_Join [path_of (segs1 @ [''componentbuilds'']), rqResourceName r, rqSubresource r, '''']
      = path_of (segs1 @ [''componentbuilds''] @ (if rqResourceName r = '''' then [] else [rqResourceName r]) @ subs)"
  proof -
    have name_parts: "split_on CHR ''/'' (rqResourceName r) = [rqResourceName r]"
      "rqResourceName r \<noteq> ''.''" "rqResourceName r \<noteq> ''..''"
      using name by (simp_all add: legal_parts) (simp_all add: legal_def)
    have sub_parts: "filter (\<lambda>p. p \<noteq> '''') (split_on CHR ''/'' (rqSubresource r)) = subs"
      using parts_of_join [OF sub(2)] by (simp add: sub(1))
    have sub_proper: "p \<noteq> ''.'' \<and> p \<noteq> ''..''" if "p \<in> set (split_on CHR ''/'' (rqSubresource r))" for p
      using that sub(2) sub_parts by (cases "p = ''''") (force simp: list_all_iff segment_def)+
    show ?thesis
      using path_Join_rooted [OF 2, of "[rqResourceName r, rqSubresource r, '''']"] sub_proper
      by (auto simp: name_parts sub_parts)
  qed
  have sub_parts_bare: "Join subs ''/'' = '''' \<longleftrightarrow> subs = []"
    using parts_of_join [OF sub(2)] by auto
  have bare: "rqSubresource r = '''' \<longleftrightarrow> subs = []"
    using sub sub_parts_bare by simp
  have "request_path r = (if rqResourceName r = '''' \<and> rqSubresource r = ''''
      then path_of (segs1 @ [''componentbuilds''])
      else path_Join [path_of (segs1 @ [''componentbuilds'']), rqResourceName r, rqSubresource r, ''''])"
    unfolding request_path_def Let_def prefix(1) p1 res lower_componentbuilds p2 [symmetric] by simp
  then show ?thesis
    using bare unfolding p3 by (auto simp: request_segments_def segs1_def)
qed

section \<open>Where a request arrives\<close>

text \<open>
  The API server's reading of a path below the API's prefix: the namespace (empty for all) and the
  names after the resource.
\<close>

definition route :: "string list \<Rightarrow> (string \<times> string list) option" where
  "route segs =
     (case segs of
        [] \<Rightarrow> None
      | a # rest \<Rightarrow>
          if a = ''componentbuilds'' then Some ('''', rest)
          else (case rest of ns # res # names \<Rightarrow>
                  if a = ''namespaces'' \<and> res = ''componentbuilds'' then Some (ns, names) else None
                | _ \<Rightarrow> None))"

definition routed :: "string list \<Rightarrow> string \<Rightarrow> (string \<times> string list) option" where
  "routed prefix path =
     (let segs = filter (\<lambda>p. p \<noteq> '''') (split_on CHR ''/'' path) in
      if take (length prefix) segs = prefix then route (drop (length prefix) segs) else None)"

definition api_prefix :: "('s, 'r, 'w) RESTClient \<Rightarrow> string list \<Rightarrow> bool" where
  "api_prefix c segs \<longleftrightarrow> prefix_path c = path_of segs \<and> list_all segment segs"

text \<open>
  The codecs encode what the methods pass; then nothing but the names decides about a request.
\<close>

definition encodable :: "('s, 'r, 'w) RESTClient \<Rightarrow> bool" where
  "encodable c \<longleftrightarrow> (\<forall>p. \<exists>v. rcEncodeParameters c p = Inr v) \<and> (\<forall>b. \<exists>d. rcEncodeBody c b = Inr d)"

text \<open>
  A call that sends one request, and sends it again only as long as the server or the connection
  asks for it; the answer to the last attempt is its result.
\<close>

definition sent_to ::
  "('s, 'r, 'w) RESTClient \<Rightarrow> string list \<Rightarrow> string \<Rightarrow> string \<times> string list
     \<Rightarrow> (HttpRequest \<Rightarrow> net_error \<Rightarrow> bool) \<Rightarrow> (HttpRequest \<Rightarrow> 'r exchanged list \<Rightarrow> 'a \<Rightarrow> bool)
     \<Rightarrow> ('s, 'a) state \<Rightarrow> bool" where
  "sent_to c prefix method tgt retryable result m \<longleftrightarrow>
     (\<exists>h. hrMethod h = method \<and> routed prefix (hrPath h) = Some tgt
        \<and> sends_only c h (asks_again retryable h) (result h) m)"

definition done_to ::
  "('s, 'r, 'w) RESTClient \<Rightarrow> string list \<Rightarrow> string \<Rightarrow> string \<times> string list
     \<Rightarrow> ('r rest_result \<Rightarrow> 'a) \<Rightarrow> ('s, 'a) state \<Rightarrow> bool" where
  "done_to c prefix method tgt into m \<longleftrightarrow>
     sent_to c prefix method tgt request_retryable
       (\<lambda>h. does (\<lambda>resp. into (Responded resp)) (\<lambda>err. into (RequestError err))) m"

definition watched_at ::
  "('s, 'r, 'w) RESTClient \<Rightarrow> string list \<Rightarrow> string \<times> string list \<Rightarrow> ('s, 'w) answer \<Rightarrow> bool" where
  "watched_at c prefix tgt m \<longleftrightarrow> sent_to c prefix ''GET'' tgt watch_retryable (streams c) m"

lemma routed_request:
  assumes "list_all segment segs" "legal ns" "legal name" "list_all segment subs"
  shows "routed segs (path_of (segs @ request_segments ns name subs)) =
    Some (ns, (if name = '''' then [] else [name]) @ subs)"
proof -
  have all: "list_all segment (segs @ request_segments ns name subs)"
    using assms by (auto simp: request_segments_def legal_segment) (simp_all add: segment_def)
  have ne: "segs @ request_segments ns name subs \<noteq> []" by (simp add: request_segments_def)
  have "filter (\<lambda>p. p \<noteq> '''') (split_on CHR ''/'' (path_of (segs @ request_segments ns name subs)))
      = segs @ request_segments ns name subs"
    unfolding split_on_path_of [OF all] using all ne
    by (auto simp: list_all_iff segment_def intro: filter_True)
  then show ?thesis by (simp add: routed_def Let_def route_def request_segments_def)
qed

lemma address_segments:
  assumes "address r = (v, prefix_path c, ns, True, ''componentbuilds'', name, sub, 10)"
    and "api_prefix c segs" "legal ns" "legal name"
    and "sub = Join subs ''/''" "list_all segment subs"
  shows "routed segs (hrPath (newHTTPRequest r)) = Some (ns, (if name = '''' then [] else [name]) @ subs)"
    "hrMethod (newHTTPRequest r) = v"
proof -
  have "request_path r = path_of (segs @ request_segments ns name subs)"
    using request_path_segments [of r segs subs] assms by (simp add: address_def api_prefix_def)
  then show "routed segs (hrPath (newHTTPRequest r)) = Some (ns, (if name = '''' then [] else [name]) @ subs)"
    using routed_request [of segs ns name subs] assms by (simp add: newHTTPRequest_def api_prefix_def)
  show "hrMethod (newHTTPRequest r) = v" using assms(1) by (simp add: address_def newHTTPRequest_def)
qed

lemma encodable_setters:
  assumes "encodable c" "rqErr r = None"
  shows "rqErr (request_VersionedParams c p r) = None" "rqErr (request_Body c b r) = None"
    "rqErr (request_Timeout d r) = None"
proof -
  obtain v d where "rcEncodeParameters c p = Inr v" "rcEncodeBody c b = Inr d"
    using assms(1) unfolding encodable_def by blast
  then show "rqErr (request_VersionedParams c p r) = None" "rqErr (request_Body c b r) = None"
    "rqErr (request_Timeout d' r) = None" for d'
    using assms(2)
    by (auto simp: request_VersionedParams_def request_Body_def request_Timeout_def setter_def
        split: BodyObject.split)
qed

lemma preflight_named:
  "address r = (v, p, ns, True, res, name, sub, 10) \<Longrightarrow> ns \<noteq> '''' \<Longrightarrow> requestPreflightCheck r = None"
  by (simp add: address_def requestPreflightCheck_def)

lemma address_in_namespace:
  assumes "legal ns"
  shows "address (in_namespace (newComponentBuilds c ns) (Verb v c)) =
      (v, prefix_path c, ns, True, ''componentbuilds'', '''', '''', 10)"
    "rqErr (in_namespace (newComponentBuilds c ns) (Verb v c)) = None"
  using assms by (simp_all add: in_namespace_legal newComponentBuilds_def address_def)

lemma address_named:
  assumes "legal ns" "legal name" "name \<noteq> ''''"
  shows "address (request_Name name (in_namespace (newComponentBuilds c ns) (Verb v c))) =
      (v, prefix_path c, ns, True, ''componentbuilds'', name, '''', 10)"
    "rqErr (request_Name name (in_namespace (newComponentBuilds c ns) (Verb v c))) = None"
  using assms by (simp_all add: in_namespace_legal request_Name_legal newComponentBuilds_def address_def)

lemma address_part:
  assumes "address r = (v, p, ns, True, res, name, '''', 10)" "rqErr r = None"
    and "list_all legal subs" "'''' \<notin> set subs"
  shows "address (request_SubResource subs r) = (v, p, ns, True, res, name, Join subs ''/'', 10)"
    "rqErr (request_SubResource subs r) = None"
proof -
  have "list_all segment subs" using assms(3,4) by (rule legal_segments)
  then show "address (request_SubResource subs r) = (v, p, ns, True, res, name, Join subs ''/'', 10)"
    "rqErr (request_SubResource subs r) = None"
    using assms by (simp_all add: address_def request_SubResource_ok path_Join_relative)
qed

text \<open>A request with an error, or one that fails the check, is answered without the server.\<close>

definition refused :: "('s, 'a) state \<Rightarrow> ('a \<Rightarrow> api_error option) \<Rightarrow> bool" where
  "refused m errorOf \<longleftrightarrow> (\<exists>r. m = State_Monad.return r \<and> errorOf r \<noteq> None)"

lemma request_Do_refused:
  "rqErr r \<noteq> None \<or> requestPreflightCheck r \<noteq> None \<Longrightarrow>
   \<exists>err. request_Do c r = State_Monad.return (RequestError err)"
  by (auto simp: request_Do_def split: option.split)

lemma named_refused:
  assumes "\<not> (legal ns \<and> legal name \<and> ns \<noteq> '''' \<and> name \<noteq> '''')" "v \<in> {''GET'', ''PUT'', ''DELETE''}"
  shows "rqErr (request_Name name (in_namespace (newComponentBuilds c ns) (Verb v c))) \<noteq> None
    \<or> requestPreflightCheck (request_Name name (in_namespace (newComponentBuilds c ns) (Verb v c))) \<noteq> None"
proof (cases "legal ns \<and> legal name \<and> name \<noteq> ''''")
  case True
  then show ?thesis
    using assms address_named(1) [of ns name c v] by (auto simp: address_def requestPreflightCheck_def)
next
  case False
  then show ?thesis
    using in_namespace_illegal [of "newComponentBuilds c ns" "Verb v c"] request_Name_illegal [of name]
      setters_keep_error(1)
    by (auto simp: newComponentBuilds_def)
qed

section \<open>Properties\<close>

abbreviation into_build ::
  "('s, 'r, 'w) RESTClient \<Rightarrow> 'r rest_result \<Rightarrow> ComponentBuild option \<times> api_error option" where
  "into_build c \<equiv> result_Into (rcDecodeBuild c) zeroComponentBuild"

abbreviation into_list ::
  "('s, 'r, 'w) RESTClient \<Rightarrow> 'r rest_result \<Rightarrow> BuildList option \<times> api_error option" where
  "into_list c \<equiv> result_Into (rcDecodeList c) emptyBuildList"

abbreviation into_error :: "('s, 'r, 'w) RESTClient \<Rightarrow> 'r rest_result \<Rightarrow> api_error option" where
  "into_error c \<equiv> result_Error (rcError c)"

text \<open>Doing a request that is in order sends it, and the answer is turned into the result.\<close>

lemma done_toI:
  assumes "patient c" "rqErr r = None" "requestPreflightCheck r = None" "rqMaxRetries r = 10"
    and "hrMethod (newHTTPRequest r) = method" "routed segs (hrPath (newHTTPRequest r)) = Some tgt"
  shows "done_to c segs method tgt f (do { result \<leftarrow> request_Do c r; State_Monad.return (f result) })"
  unfolding done_to_def sent_to_def
  using assms(5,6) sends_only_return [OF request_Do_sends [OF assms(1-4)]] by blast

lemma watched_atI:
  assumes "patient c" "rqErr r = None" "rqMaxRetries r = 10"
    and "hrMethod (newHTTPRequest r) = ''GET''" "routed segs (hrPath (newHTTPRequest r)) = Some tgt"
  shows "watched_at c segs tgt (request_Watch c r)"
  unfolding watched_at_def sent_to_def using assms(4,5) request_Watch_sends [OF assms(1-3)] by blast

lemma refusedI:
  assumes "rqErr r \<noteq> None \<or> requestPreflightCheck r \<noteq> None" "\<And>err. errorOf (f (RequestError err)) \<noteq> None"
  shows "refused (do { result \<leftarrow> request_Do c r; State_Monad.return (f result) }) errorOf"
  using request_Do_refused [OF assms(1), of c] assms(2) by (auto simp: refused_def)

text \<open>A request whose address, error and parameters are known.\<close>

lemmas request_rules =
  address_segments encodable_setters setters_keep_address setters_keep_error preflight_named

lemma collection_sent:
  assumes c: "api_prefix c segs" "legal ns" "ns \<noteq> ''''"
    and r: "address r = (v, prefix_path c, ns, True, ''componentbuilds'', '''', '''', 10)"
  shows "requestPreflightCheck r = None" "rqMaxRetries r = 10" "hrMethod (newHTTPRequest r) = v"
    "routed segs (hrPath (newHTTPRequest r)) = Some (ns, [])"
  using address_segments [OF r c(1,2), of "[]"] preflight_named [OF r c(3)] r
  by (simp_all add: address_def legal_def)

lemma object_sent:
  assumes c: "api_prefix c segs" "legal ns" "ns \<noteq> ''''" and name: "legal name" "name \<noteq> ''''"
    and r: "address r = (v, prefix_path c, ns, True, ''componentbuilds'', name, Join subs ''/'', 10)"
    and subs: "list_all legal subs" "'''' \<notin> set subs"
  shows "requestPreflightCheck r = None" "rqMaxRetries r = 10" "hrMethod (newHTTPRequest r) = v"
    "routed segs (hrPath (newHTTPRequest r)) = Some (ns, name # subs)"
proof -
  have "list_all segment subs" using subs by (rule legal_segments)
  then show "requestPreflightCheck r = None" "rqMaxRetries r = 10" "hrMethod (newHTTPRequest r) = v"
    "routed segs (hrPath (newHTTPRequest r)) = Some (ns, name # subs)"
    using address_segments [OF r c(1,2) name(1) refl] preflight_named [OF r c(3)] r name(2)
    by (simp_all add: address_def)
qed

text \<open>The verb and the content type of a patch.\<close>

lemma address_patch:
  "address (in_namespace b (Patch_request pt c)) = address (in_namespace b (Verb ''PATCH'' c))"
  "rqErr (in_namespace b (Patch_request pt c)) = rqErr (in_namespace b (Verb ''PATCH'' c))"
  by (simp_all add: Patch_request_def in_namespace_def request_Resource_def request_Namespace_def
      setter_def failed_def address_def)

lemma address_patch_named:
  assumes "legal ns" "legal name" "name \<noteq> ''''"
  shows "address (request_Name name (in_namespace (newComponentBuilds c ns) (Patch_request pt c))) =
      (''PATCH'', prefix_path c, ns, True, ''componentbuilds'', name, '''', 10)"
    "rqErr (request_Name name (in_namespace (newComponentBuilds c ns) (Patch_request pt c))) = None"
proof -
  let ?r = "in_namespace (newComponentBuilds c ns) (Patch_request pt c)"
  have "address ?r = (''PATCH'', prefix_path c, ns, True, ''componentbuilds'', '''', '''', 10)" "rqErr ?r = None"
    using address_patch [of "newComponentBuilds c ns" pt c] address_in_namespace [OF assms(1), of c "''PATCH''"]
    by simp_all
  then show "address (request_Name name ?r) =
      (''PATCH'', prefix_path c, ns, True, ''componentbuilds'', name, '''', 10)"
    "rqErr (request_Name name ?r) = None"
    using assms by (simp_all add: address_def request_Name_legal)
qed

section \<open>Methods\<close>

lemma methods_sent:
  assumes c: "patient c" "encodable c" "api_prefix c segs" "legal ns" "ns \<noteq> ''''"
    and name: "legal (obj_name cb)" "obj_name cb \<noteq> ''''"
    and subs: "list_all legal subs" "'''' \<notin> set subs"
    and b: "b = newComponentBuilds c ns"
  shows "done_to c segs ''GET'' (ns, [obj_name cb]) (into_build c) (builds_Get b (obj_name cb) go)"
    and "done_to c segs ''GET'' (ns, []) (into_list c) (builds_List b lo)"
    and "watched_at c segs (ns, []) (builds_Watch b lo)"
    and "done_to c segs ''POST'' (ns, []) (into_build c) (builds_Create b cb co)"
    and "done_to c segs ''PUT'' (ns, [obj_name cb]) (into_build c) (builds_Update b cb uo)"
    and "done_to c segs ''PUT'' (ns, [obj_name cb, ''status'']) (into_build c) (builds_UpdateStatus b cb uo)"
    and "done_to c segs ''DELETE'' (ns, [obj_name cb]) (into_error c) (builds_Delete b (obj_name cb) dopts)"
    and "done_to c segs ''DELETE'' (ns, []) (into_error c) (builds_DeleteCollection b dopts lo)"
    and "done_to c segs ''PATCH'' (ns, obj_name cb # subs) (into_build c)
           (builds_Patch b (obj_name cb) pt data po subs)"
proof -
  have client: "clientOf b = c" by (simp add: b newComponentBuilds_def)
  have status: "list_all legal [''status'']" "'''' \<notin> set [''status'']" by (simp_all add: legal_def)
  note ok = encodable_setters [OF c(2)] setters_keep_address
  note plain = address_in_namespace [OF c(4), of c, folded b]
    and named = address_named [OF c(4) name, of c, folded b]
    and patch = address_patch_named [OF c(4) name, of c, folded b]
  note whole = object_sent [OF c(3-5) name, where subs = "[]", simplified]
    and part = object_sent [OF c(3-5) name]
    and all = collection_sent [OF c(3-5)]
  note to = done_toI [OF c(1)] and at = watched_atI [OF c(1)]
  show "done_to c segs ''GET'' (ns, [obj_name cb]) (into_build c) (builds_Get b (obj_name cb) go)"
    unfolding builds_Get_def Let_def client by (rule to; (rule whole)?) (simp_all add: ok named)
  show "done_to c segs ''GET'' (ns, []) (into_list c) (builds_List b lo)"
    unfolding builds_List_def Let_def client by (rule to; (rule all)?) (simp_all add: ok plain)
  show "watched_at c segs (ns, []) (builds_Watch b lo)"
    unfolding builds_Watch_def Let_def client by (rule at; (rule all)?) (simp_all add: ok plain)
  show "done_to c segs ''POST'' (ns, []) (into_build c) (builds_Create b cb co)"
    unfolding builds_Create_def Let_def client by (rule to; (rule all)?) (simp_all add: ok plain)
  show "done_to c segs ''PUT'' (ns, [obj_name cb]) (into_build c) (builds_Update b cb uo)"
    unfolding builds_Update_def Let_def client by (rule to; (rule whole)?) (simp_all add: ok named)
  show "done_to c segs ''PUT'' (ns, [obj_name cb, ''status'']) (into_build c) (builds_UpdateStatus b cb uo)"
    unfolding builds_UpdateStatus_def Let_def client
    by (rule to; (rule part [OF _ status])?) (simp_all add: ok address_part [OF named status])
  show "done_to c segs ''DELETE'' (ns, [obj_name cb]) (into_error c) (builds_Delete b (obj_name cb) dopts)"
    unfolding builds_Delete_def Let_def client by (rule to; (rule whole)?) (simp_all add: ok named)
  show "done_to c segs ''DELETE'' (ns, []) (into_error c) (builds_DeleteCollection b dopts lo)"
    unfolding builds_DeleteCollection_def Let_def client by (rule to; (rule all)?) (simp_all add: ok plain)
  show "done_to c segs ''PATCH'' (ns, obj_name cb # subs) (into_build c)
      (builds_Patch b (obj_name cb) pt data po subs)"
    unfolding builds_Patch_def Let_def client
    by (rule to; (rule part [OF _ subs])?) (simp_all add: ok address_part [OF patch subs])
qed

section \<open>Timeouts\<close>

lemma sint_in_range: "sint (w :: 64 word) \<in> {- (2 ^ 63) ..< 2 ^ 63}"
  using sint_range_size [of w] by (simp add: word_size)

lemma timeoutOf_exact:
  "sint (timeoutOf (Some s)) = sint s * 1000000000 \<longleftrightarrow> \<bar>sint s\<bar> \<le> 9223372036"
proof
  assume "sint (timeoutOf (Some s)) = sint s * 1000000000"
  with sint_in_range [of "timeoutOf (Some s)"] show "\<bar>sint s\<bar> \<le> 9223372036" by auto
next
  assume "\<bar>sint s\<bar> \<le> 9223372036"
  then have range: "- (2 ^ 63) \<le> sint s * 1000000000" "sint s * 1000000000 < 2 ^ 63" by auto
  have "timeoutOf (Some s) = of_int (sint s * 1000000000)" by (simp add: timeoutOf_def)
  then show "sint (timeoutOf (Some s)) = sint s * 1000000000"
    using range by (simp only: signed_of_int) (simp add: signed_take_bit_int_eq_self)
qed

end
