(* ===== verification/Clientset.thy ===== *)
theory Clientset
  imports TypedClient Scheme
begin

text \<open>
  How a client of the generated clientset is made: the registration of its scheme
  (\<open>pkg/client/clientset/versioned/scheme/register.go\<close>, and the fake's own copy), the client of the
  API group (\<open>apheleia_client.go\<close>) and the clientset (\<open>clientset.go\<close>), with
  \<open>RESTClientForConfigAndClient\<close> and \<open>DefaultVersionedAPIPath\<close> of the vendored
  \<open>k8s.io/client-go/rest\<close>. Parsing the host, making the HTTP client, its transport and codecs, and
  the discovery client are arguments, held in the record \<open>runtime\<close>.
\<close>

section \<open>Schemes\<close>

definition localSchemeBuilder :: "(GroupVersion \<Rightarrow> Scheme \<Rightarrow> Scheme option) \<Rightarrow> SchemeBuilder" where
  "localSchemeBuilder addToGroupVersion = [AddToScheme addToGroupVersion]"

definition clientset_AddToScheme ::
  "(GroupVersion \<Rightarrow> Scheme \<Rightarrow> Scheme option) \<Rightarrow> Scheme \<Rightarrow> Scheme option" where
  "clientset_AddToScheme addToGroupVersion = BuilderAddToScheme (localSchemeBuilder addToGroupVersion)"

text \<open>\<open>init\<close>: the scheme the package starts with, or None for a panic.\<close>

definition clientset_Scheme :: "(GroupVersion \<Rightarrow> Scheme \<Rightarrow> Scheme option) \<Rightarrow> Scheme option" where
  "clientset_Scheme addToGroupVersion =
     Option.bind (addToGroupVersion (GroupVersion '''' ''v1'') NewScheme)
       (clientset_AddToScheme addToGroupVersion)"

definition fake_localSchemeBuilder :: "(GroupVersion \<Rightarrow> Scheme \<Rightarrow> Scheme option) \<Rightarrow> SchemeBuilder" where
  "fake_localSchemeBuilder addToGroupVersion = [AddToScheme addToGroupVersion]"

definition fake_AddToScheme ::
  "(GroupVersion \<Rightarrow> Scheme \<Rightarrow> Scheme option) \<Rightarrow> Scheme \<Rightarrow> Scheme option" where
  "fake_AddToScheme addToGroupVersion = BuilderAddToScheme (fake_localSchemeBuilder addToGroupVersion)"

definition fake_Scheme :: "(GroupVersion \<Rightarrow> Scheme \<Rightarrow> Scheme option) \<Rightarrow> Scheme option" where
  "fake_Scheme addToGroupVersion =
     Option.bind (addToGroupVersion (GroupVersion '''' ''v1'') NewScheme)
       (fake_AddToScheme addToGroupVersion)"

section \<open>Configurations\<close>

record Config =
  cfgHost :: string
  cfgAPIPath :: string
  cfgAcceptContentTypes :: string
  cfgContentType :: string
  cfgGroupVersion :: "GroupVersion option"
  cfgNegotiatedSerializer :: "Scheme option"
  cfgUserAgent :: string
  cfgTLS :: bool
  cfgQPS :: rat
  cfgBurst :: int
  cfgRateLimiter :: "RateLimiter option"

text \<open>
  \<open>cfgTLS\<close> is whether one of the fields that ask for TLS is set. What the rest of the program's
  environment provides: the default user agent, the codecs' scheme, the base path of a host's URL,
  the HTTP client with its timeout, the contexts of calls and the waits of rate limiters, one exchange
  over the HTTP client, the URLs below a host, the codecs, the discovery client.
\<close>

record ('s, 'r, 'w, 'h, 'd) runtime =
  rtUserAgent :: string
  rtScheme :: Scheme
  rtServerURL :: "string \<Rightarrow> bool \<Rightarrow> api_error + string"
  rtHTTPClientFor :: "Config \<Rightarrow> api_error + 'h"
  rtTimeout :: "'h \<Rightarrow> 64 word"
  rtEncodeParameters :: "Scheme \<Rightarrow> ParamObject \<Rightarrow> api_error + url_values"
  rtEncodeBody :: "Scheme \<Rightarrow> string \<Rightarrow> BodyObject \<Rightarrow> api_error + string"
  rtContextErr :: "64 word \<Rightarrow> ('s, net_error option) state"
  rtWait :: "RateLimiter \<Rightarrow> 64 word \<Rightarrow> ('s, api_error option) state"
  rtExchange :: "'h \<Rightarrow> 64 word \<Rightarrow> HttpRequest \<Rightarrow> ('s, 'r exchanged) state"
  rtURL :: "string \<Rightarrow> HttpRequest \<Rightarrow> string"
  rtStream :: "Scheme \<Rightarrow> 'r \<Rightarrow> 'w option \<times> api_error option"
  rtEmptyWatch :: 'w
  rtDecodeBuild :: "Scheme \<Rightarrow> 'r \<Rightarrow> ComponentBuild \<Rightarrow> ComponentBuild \<times> api_error option"
  rtDecodeList :: "Scheme \<Rightarrow> 'r \<Rightarrow> BuildList \<Rightarrow> BuildList \<times> api_error option"
  rtError :: "Scheme \<Rightarrow> 'r \<Rightarrow> api_error option"
  rtDiscovery :: "Config \<Rightarrow> 'h \<Rightarrow> api_error + 'd"

definition DefaultQPS :: rat where
  "DefaultQPS = 5"

definition DefaultBurst :: int where
  "DefaultBurst = 10"

definition DefaultVersionedAPIPath :: "string \<Rightarrow> GroupVersion \<Rightarrow> string" where
  "DefaultVersionedAPIPath apiPath gv =
     (let p = path_Join [''/'', apiPath] in
      if length (gvGroup gv) > 0 then path_Join [p, gvGroup gv, gvVersion gv]
      else path_Join [p, gvVersion gv])"

definition withSlash :: "string \<Rightarrow> string" where
  "withSlash p = (if p \<noteq> '''' \<and> last p = CHR ''/'' then p else p @ ''/'')"

definition RESTClientForConfigAndClient ::
  "('s, 'r, 'w, 'h, 'd) runtime \<Rightarrow> Config \<Rightarrow> 'h \<Rightarrow> api_error + ('s, 'r, 'w) RESTClient" where
  "RESTClientForConfigAndClient rt config h =
     (case cfgGroupVersion config of
        None \<Rightarrow> Inl (OtherError ''GroupVersion is required when initializing a RESTClient'')
      | Some gv \<Rightarrow>
     (case cfgNegotiatedSerializer config of
        None \<Rightarrow> Inl (OtherError ''NegotiatedSerializer is required when initializing a RESTClient'')
      | Some codecs \<Rightarrow>
     (case rtServerURL rt (if cfgHost config = '''' then ''localhost'' else cfgHost config) (cfgTLS config) of
        Inl err \<Rightarrow> Inl err
      | Inr basePath \<Rightarrow>
          (let qps = (if cfgQPS config = 0 then DefaultQPS else cfgQPS config);
               burst = (if cfgBurst config = 0 then DefaultBurst else cfgBurst config);
               rateLimiter =
                 (case cfgRateLimiter config of
                    Some l \<Rightarrow> Some l
                  | None \<Rightarrow> if qps > 0 then Some (TokenBucket qps burst) else None);
               contentType =
                 (if length (cfgContentType config) = 0 then ''application/json'' else cfgContentType config)
           in Inr \<lparr>rcRateLimiter = rateLimiter, rcBasePath = withSlash basePath,
                rcVersionedAPIPath = DefaultVersionedAPIPath (cfgAPIPath config) gv,
                rcTimeout = rtTimeout rt h, rcAcceptContentTypes = cfgAcceptContentTypes config,
                rcContentType = contentType,
                rcEncodeParameters = rtEncodeParameters rt codecs,
                rcEncodeBody = rtEncodeBody rt codecs contentType,
                rcContextErr = rtContextErr rt, rcWait = rtWait rt, rcExchange = rtExchange rt h,
                rcURL = rtURL rt (cfgHost config), rcStream = rtStream rt codecs,
                rcEmptyWatch = rtEmptyWatch rt,
                rcDecodeBuild = rtDecodeBuild rt codecs, rcDecodeList = rtDecodeList rt codecs,
                rcError = rtError rt codecs\<rparr>))))"

section \<open>The client of the group\<close>

text \<open>\<open>setConfigDefaults\<close> has an error in its type but returns none.\<close>

definition setConfigDefaults ::
  "('s, 'r, 'w, 'h, 'd) runtime \<Rightarrow> Config \<Rightarrow> api_error option \<times> Config" where
  "setConfigDefaults rt config =
     (let config = config\<lparr>cfgGroupVersion := Some SchemeGroupVersion, cfgAPIPath := ''/apis'',
            cfgNegotiatedSerializer := Some (rtScheme rt)\<rparr>;
          config = (if cfgUserAgent config = '''' then config\<lparr>cfgUserAgent := rtUserAgent rt\<rparr> else config)
      in (None, config))"

record ('s, 'r, 'w) ApheleiaV1alpha1Client =
  restClient :: "('s, 'r, 'w) RESTClient"

definition group_NewForConfigAndClient ::
  "('s, 'r, 'w, 'h, 'd) runtime \<Rightarrow> Config \<Rightarrow> 'h \<Rightarrow> api_error + ('s, 'r, 'w) ApheleiaV1alpha1Client" where
  "group_NewForConfigAndClient rt c h =
     (case setConfigDefaults rt c of
        (Some err, config) \<Rightarrow> Inl err
      | (None, config) \<Rightarrow>
          (case RESTClientForConfigAndClient rt config h of
             Inl err \<Rightarrow> Inl err | Inr client \<Rightarrow> Inr \<lparr>restClient = client\<rparr>))"

definition group_NewForConfig ::
  "('s, 'r, 'w, 'h, 'd) runtime \<Rightarrow> Config \<Rightarrow> api_error + ('s, 'r, 'w) ApheleiaV1alpha1Client" where
  "group_NewForConfig rt c =
     (case setConfigDefaults rt c of
        (Some err, config) \<Rightarrow> Inl err
      | (None, config) \<Rightarrow>
          (case rtHTTPClientFor rt config of
             Inl err \<Rightarrow> Inl err
           | Inr h \<Rightarrow> group_NewForConfigAndClient rt config h))"

text \<open>A panic is None.\<close>

definition group_NewForConfigOrDie ::
  "('s, 'r, 'w, 'h, 'd) runtime \<Rightarrow> Config \<Rightarrow> ('s, 'r, 'w) ApheleiaV1alpha1Client option" where
  "group_NewForConfigOrDie rt c =
     (case group_NewForConfig rt c of Inl err \<Rightarrow> None | Inr client \<Rightarrow> Some client)"

definition group_New :: "('s, 'r, 'w) RESTClient \<Rightarrow> ('s, 'r, 'w) ApheleiaV1alpha1Client" where
  "group_New c = \<lparr>restClient = c\<rparr>"

text \<open>A method of a nil receiver answers nil.\<close>

definition RESTClientOf ::
  "('s, 'r, 'w) ApheleiaV1alpha1Client option \<Rightarrow> ('s, 'r, 'w) RESTClient option" where
  "RESTClientOf c = (case c of None \<Rightarrow> None | Some c \<Rightarrow> Some (restClient c))"

text \<open>\<open>ComponentBuilds\<close> on a client that is not nil.\<close>

definition group_ComponentBuilds ::
  "('s, 'r, 'w) ApheleiaV1alpha1Client \<Rightarrow> string \<Rightarrow> ('s, 'r, 'w) componentBuilds" where
  "group_ComponentBuilds c namespace = newComponentBuilds (restClient c) namespace"

section \<open>The clientset\<close>

record ('s, 'r, 'w, 'd) Clientset =
  csDiscovery :: 'd
  csApheleiaV1alpha1 :: "('s, 'r, 'w) ApheleiaV1alpha1Client"

definition ApheleiaV1alpha1 ::
  "('s, 'r, 'w, 'd) Clientset \<Rightarrow> ('s, 'r, 'w) ApheleiaV1alpha1Client" where
  "ApheleiaV1alpha1 c = csApheleiaV1alpha1 c"

definition Discovery :: "('s, 'r, 'w, 'd) Clientset option \<Rightarrow> 'd option" where
  "Discovery c = (case c of None \<Rightarrow> None | Some c \<Rightarrow> Some (csDiscovery c))"

definition burstRequired :: api_error where
  "burstRequired = OtherError ''burst is required to be greater than 0 when RateLimiter is not set and QPS is set to greater than 0''"

definition NewForConfigAndClient ::
  "('s, 'r, 'w, 'h, 'd) runtime \<Rightarrow> Config \<Rightarrow> 'h \<Rightarrow> api_error + ('s, 'r, 'w, 'd) Clientset" where
  "NewForConfigAndClient rt c httpClient =
     (if cfgRateLimiter c = None \<and> cfgQPS c > 0 \<and> cfgBurst c \<le> 0 then Inl burstRequired
      else
        (let configShallowCopy =
               (if cfgRateLimiter c = None \<and> cfgQPS c > 0
                then c\<lparr>cfgRateLimiter := Some (TokenBucket (cfgQPS c) (cfgBurst c))\<rparr> else c)
         in case group_NewForConfigAndClient rt configShallowCopy httpClient of
              Inl err \<Rightarrow> Inl err
            | Inr apheleiaV1alpha1 \<Rightarrow>
                (case rtDiscovery rt configShallowCopy httpClient of
                   Inl err \<Rightarrow> Inl err
                 | Inr discovery \<Rightarrow>
                     Inr \<lparr>csDiscovery = discovery, csApheleiaV1alpha1 = apheleiaV1alpha1\<rparr>)))"

definition NewForConfig ::
  "('s, 'r, 'w, 'h, 'd) runtime \<Rightarrow> Config \<Rightarrow> api_error + ('s, 'r, 'w, 'd) Clientset" where
  "NewForConfig rt c =
     (let configShallowCopy =
            (if cfgUserAgent c = '''' then c\<lparr>cfgUserAgent := rtUserAgent rt\<rparr> else c)
      in case rtHTTPClientFor rt configShallowCopy of
           Inl err \<Rightarrow> Inl err
         | Inr httpClient \<Rightarrow> NewForConfigAndClient rt configShallowCopy httpClient)"

definition NewForConfigOrDie ::
  "('s, 'r, 'w, 'h, 'd) runtime \<Rightarrow> Config \<Rightarrow> ('s, 'r, 'w, 'd) Clientset option" where
  "NewForConfigOrDie rt c = (case NewForConfig rt c of Inl err \<Rightarrow> None | Inr cs \<Rightarrow> Some cs)"

definition clientset_New ::
  "(('s, 'r, 'w) RESTClient \<Rightarrow> 'd) \<Rightarrow> ('s, 'r, 'w) RESTClient \<Rightarrow> ('s, 'r, 'w, 'd) Clientset" where
  "clientset_New newDiscoveryClient c =
     \<lparr>csDiscovery = newDiscoveryClient c, csApheleiaV1alpha1 = group_New c\<rparr>"

section \<open>What a clientset's requests have in common\<close>

lemma split_on_segments: "s \<in> set (split_on c p) \<Longrightarrow> c \<notin> set s"
  by (induction p arbitrary: s) (auto split: if_splits list.splits)

text \<open>The versioned path of the group.\<close>

lemma versioned_path: "DefaultVersionedAPIPath ''/apis'' SchemeGroupVersion = ''/apis/apheleia.io/v1alpha1''"
  by code_simp

text \<open>A proper base path, with the slash the client adds, and the versioned path joined to it.\<close>

definition base_segments :: "string \<Rightarrow> string list \<Rightarrow> bool" where
  "base_segments p base \<longleftrightarrow>
     (\<forall>s \<in> set (split_on CHR ''/'' p). s \<noteq> ''.'' \<and> s \<noteq> ''..'')
     \<and> base = filter (\<lambda>s. s \<noteq> '''') (split_on CHR ''/'' p)"

lemma withSlash_parts:
  "filter (\<lambda>s. s \<noteq> '''') (split_on CHR ''/'' (withSlash p)) = filter (\<lambda>s. s \<noteq> '''') (split_on CHR ''/'' p)"
  "set (split_on CHR ''/'' (withSlash p)) \<subseteq> insert '''' (set (split_on CHR ''/'' p))"
  using split_on_join [of "CHR ''/''" p "''''"] by (auto simp: withSlash_def)

lemma prefix_of_base:
  assumes "base_segments p base" "rcBasePath c = withSlash p"
    and "rcVersionedAPIPath c = ''/apis/apheleia.io/v1alpha1''"
  shows "api_prefix c (base @ [''apis'', ''apheleia.io'', ''v1alpha1''])"
proof -
  have parts: "split_on CHR ''/'' ''/apis/apheleia.io/v1alpha1'' = ['''', ''apis'', ''apheleia.io'', ''v1alpha1'']"
    by code_simp
  have root: "''/'' = path_of []" by (simp add: path_of_def)
  have "path_Join (path_of [] # [withSlash p, ''/apis/apheleia.io/v1alpha1'']) =
      path_of ([] @ filter (\<lambda>s. s \<noteq> '''')
        (concat (map (split_on CHR ''/'') [withSlash p, ''/apis/apheleia.io/v1alpha1''])))"
    using assms(1) withSlash_parts(2) [of p]
    by (intro path_Join_rooted) (auto simp: parts base_segments_def)
  then have "prefix_path c = path_of (base @ [''apis'', ''apheleia.io'', ''v1alpha1''])"
    using assms withSlash_parts(1) [of p]
    by (simp add: prefix_path_def root [symmetric] parts base_segments_def)
  moreover have "list_all segment (base @ [''apis'', ''apheleia.io'', ''v1alpha1''])"
    using assms(1) split_on_segments [of _ "CHR ''/''" p]
    by (auto simp: base_segments_def list_all_iff segment_def)
  ultimately show ?thesis by (simp add: api_prefix_def)
qed

text \<open>A clientset that was made has a client with the group's path on the host's base path.\<close>

definition cfgServer :: "('s, 'r, 'w, 'h, 'd) runtime \<Rightarrow> Config \<Rightarrow> api_error + string" where
  "cfgServer rt c =
     rtServerURL rt (if cfgHost c = '''' then ''localhost'' else cfgHost c) (cfgTLS c)"

lemma setConfigDefaults_fields:
  "\<exists>c'. setConfigDefaults rt c = (None, c') \<and> cfgGroupVersion c' = Some SchemeGroupVersion
     \<and> cfgAPIPath c' = ''/apis'' \<and> cfgNegotiatedSerializer c' = Some (rtScheme rt)
     \<and> cfgHost c' = cfgHost c \<and> cfgTLS c' = cfgTLS c \<and> cfgRateLimiter c' = cfgRateLimiter c"
  by (simp add: setConfigDefaults_def Let_def)

lemma group_client:
  assumes "group_NewForConfigAndClient rt c h = Inr g"
  shows "\<exists>p. cfgServer rt c = Inr p \<and> rcBasePath (restClient g) = withSlash p
    \<and> rcVersionedAPIPath (restClient g) = ''/apis/apheleia.io/v1alpha1''
    \<and> rcEncodeParameters (restClient g) = rtEncodeParameters rt (rtScheme rt)
    \<and> rcEncodeBody (restClient g) = rtEncodeBody rt (rtScheme rt) (rcContentType (restClient g))
    \<and> rcContextErr (restClient g) = rtContextErr rt \<and> rcWait (restClient g) = rtWait rt
    \<and> (\<forall>l. cfgRateLimiter c = Some l \<longrightarrow> rcRateLimiter (restClient g) = Some l)"
proof -
  obtain c' where c': "setConfigDefaults rt c = (None, c')" "cfgGroupVersion c' = Some SchemeGroupVersion"
    "cfgAPIPath c' = ''/apis''" "cfgNegotiatedSerializer c' = Some (rtScheme rt)"
    "cfgHost c' = cfgHost c" "cfgTLS c' = cfgTLS c" "cfgRateLimiter c' = cfgRateLimiter c"
    using setConfigDefaults_fields by blast
  then obtain client where g: "g = \<lparr>restClient = client\<rparr>"
    "RESTClientForConfigAndClient rt c' h = Inr client"
    using assms by (auto simp: group_NewForConfigAndClient_def split: sum.splits)
  have server: "cfgServer rt c' = cfgServer rt c" by (simp add: cfgServer_def c'(5,6))
  note g(2) [unfolded RESTClientForConfigAndClient_def [folded cfgServer_def] server c'(2-4) option.case]
  note client = this
  show ?thesis
  proof (cases "cfgServer rt c")
    case (Inl err)
    with client show ?thesis by simp
  next
    case (Inr p)
    with client c'(7) show ?thesis by (clarsimp simp: g(1) Let_def versioned_path)
  qed
qed

lemma NewForConfigAndClient_group:
  assumes "NewForConfigAndClient rt c h = Inr cs"
    and c': "c' = (if cfgRateLimiter c = None \<and> cfgQPS c > 0
                   then c\<lparr>cfgRateLimiter := Some (TokenBucket (cfgQPS c) (cfgBurst c))\<rparr> else c)"
  shows "\<not> (cfgRateLimiter c = None \<and> cfgQPS c > 0 \<and> cfgBurst c \<le> 0)"
    "group_NewForConfigAndClient rt c' h = Inr (ApheleiaV1alpha1 cs)"
    "rtDiscovery rt c' h = Inr (csDiscovery cs)"
  using assms(1) unfolding NewForConfigAndClient_def Let_def c' [symmetric]
  by (auto simp: ApheleiaV1alpha1_def split: if_splits sum.splits)

lemma NewForConfig_group:
  assumes "NewForConfig rt c = Inr cs"
  shows "\<exists>c' h. group_NewForConfigAndClient rt c' h = Inr (ApheleiaV1alpha1 cs)
    \<and> cfgServer rt c' = cfgServer rt c
    \<and> (cfgQPS c > 0 \<and> cfgRateLimiter c = None \<longrightarrow>
         cfgBurst c > 0 \<and> cfgRateLimiter c' = Some (TokenBucket (cfgQPS c) (cfgBurst c)))
    \<and> rtDiscovery rt c' h = Inr (csDiscovery cs)"
proof -
  define c1 where "c1 = (if cfgUserAgent c = '''' then c\<lparr>cfgUserAgent := rtUserAgent rt\<rparr> else c)"
  define c2 where "c2 = (if cfgRateLimiter c1 = None \<and> cfgQPS c1 > 0
      then c1\<lparr>cfgRateLimiter := Some (TokenBucket (cfgQPS c1) (cfgBurst c1))\<rparr> else c1)"
  obtain h where h: "NewForConfigAndClient rt c1 h = Inr cs"
    using assms unfolding NewForConfig_def Let_def c1_def [symmetric] by (auto split: sum.splits)
  note group = NewForConfigAndClient_group [OF h c2_def]
  have c1: "cfgRateLimiter c1 = cfgRateLimiter c" "cfgQPS c1 = cfgQPS c" "cfgBurst c1 = cfgBurst c"
    "cfgServer rt c1 = cfgServer rt c"
    by (simp_all add: c1_def cfgServer_def)
  moreover have "cfgServer rt c2 = cfgServer rt c1" by (simp add: c2_def cfgServer_def)
  moreover have "cfgRateLimiter c2 = Some (TokenBucket (cfgQPS c) (cfgBurst c))"
    if "cfgQPS c > 0 \<and> cfgRateLimiter c = None"
    using that c1 by (simp add: c2_def)
  ultimately show ?thesis using group by (intro exI [of _ c2] exI [of _ h]) auto
qed

text \<open>With a rate and no limiter a burst is required, and both clients get the one limiter.\<close>

lemma NewForConfig_limiter:
  assumes "NewForConfig rt c = Inr cs" "cfgQPS c > 0" "cfgRateLimiter c = None"
  shows "cfgBurst c > 0"
    "rcRateLimiter (restClient (ApheleiaV1alpha1 cs)) = Some (TokenBucket (cfgQPS c) (cfgBurst c))"
    "\<exists>c' h. rtDiscovery rt c' h = Inr (csDiscovery cs)
       \<and> cfgRateLimiter c' = Some (TokenBucket (cfgQPS c) (cfgBurst c))"
proof -
  obtain c' h where c': "group_NewForConfigAndClient rt c' h = Inr (ApheleiaV1alpha1 cs)"
    "cfgBurst c > 0" "cfgRateLimiter c' = Some (TokenBucket (cfgQPS c) (cfgBurst c))"
    "rtDiscovery rt c' h = Inr (csDiscovery cs)"
    using NewForConfig_group [OF assms(1)] assms(2,3) by auto
  then show "cfgBurst c > 0" "\<exists>c' h. rtDiscovery rt c' h = Inr (csDiscovery cs)
       \<and> cfgRateLimiter c' = Some (TokenBucket (cfgQPS c) (cfgBurst c))"
    by blast+
  show "rcRateLimiter (restClient (ApheleiaV1alpha1 cs)) = Some (TokenBucket (cfgQPS c) (cfgBurst c))"
    using group_client [OF c'(1)] c'(3) by blast
qed

definition runtime_encodes :: "('s, 'r, 'w, 'h, 'd) runtime \<Rightarrow> bool" where
  "runtime_encodes rt \<longleftrightarrow>
     (\<forall>s p. \<exists>v. rtEncodeParameters rt s p = Inr v) \<and> (\<forall>s t b. \<exists>d. rtEncodeBody rt s t b = Inr d)"

text \<open>No context ends during a call, and no limiter refuses it.\<close>

definition runtime_patient :: "('s, 'r, 'w, 'h, 'd) runtime \<Rightarrow> bool" where
  "runtime_patient rt \<longleftrightarrow> (\<forall>d s. fst (run_state (rtContextErr rt d) s) = None)
     \<and> (\<forall>l d s. fst (run_state (rtWait rt l d) s) = None)"

lemma NewForConfig_patient:
  assumes "NewForConfig rt c = Inr cs" "runtime_patient rt"
  shows "patient (restClient (ApheleiaV1alpha1 cs))"
proof -
  obtain c' h where "group_NewForConfigAndClient rt c' h = Inr (ApheleiaV1alpha1 cs)"
    using NewForConfig_group [OF assms(1)] by blast
  from group_client [OF this] assms(2) show ?thesis by (auto simp: patient_def runtime_patient_def)
qed

lemma NewForConfig_client:
  assumes "NewForConfig rt c = Inr cs" "cfgServer rt c = Inr p" "base_segments p base" "runtime_encodes rt"
  shows "encodable (restClient (ApheleiaV1alpha1 cs))"
    "api_prefix (restClient (ApheleiaV1alpha1 cs)) (base @ [''apis'', ''apheleia.io'', ''v1alpha1''])"
proof -
  obtain c' h where "group_NewForConfigAndClient rt c' h = Inr (ApheleiaV1alpha1 cs)"
    "cfgServer rt c' = Inr p"
    using NewForConfig_group [OF assms(1)] assms(2) by auto
  note g = group_client [OF this(1)] this(2)
  show "encodable (restClient (ApheleiaV1alpha1 cs))"
    using g assms(4) by (auto simp: encodable_def runtime_encodes_def)
  show "api_prefix (restClient (ApheleiaV1alpha1 cs)) (base @ [''apis'', ''apheleia.io'', ''v1alpha1''])"
    using g by (intro prefix_of_base [OF assms(3)]) auto
qed

text \<open>
  C27. Each of the nine methods of a typed client made from a configuration sends one request, with
  its method, and the server reads off the request's path, below the API group's prefix on the
  configured host, the namespace of the client, the name the method was called with, and the part of
  the object it is for. The request is sent again, the same, only after an answer or an error of the
  connection that allows for it, and eleven times at most; the last answer becomes the result. The
  context of the call must not end, and the rate limiter must not refuse the call.
\<close>

theorem requests_addressed:
  assumes "NewForConfig rt c = Inr cs" "cfgServer rt c = Inr p" "base_segments p base" "runtime_encodes rt"
    and "runtime_patient rt" "legal ns" "ns \<noteq> ''''" "legal (obj_name cb)" "obj_name cb \<noteq> ''''"
    and "list_all legal subs" "'''' \<notin> set subs"
    and "g = restClient (ApheleiaV1alpha1 cs)" "b = group_ComponentBuilds (ApheleiaV1alpha1 cs) ns"
    and "segs = base @ [''apis'', ''apheleia.io'', ''v1alpha1'']"
  shows "done_to g segs ''GET'' (ns, [obj_name cb]) (into_build g) (builds_Get b (obj_name cb) go)
       \<and> done_to g segs ''GET'' (ns, []) (into_list g) (builds_List b lo)
       \<and> watched_at g segs (ns, []) (builds_Watch b lo)
       \<and> done_to g segs ''POST'' (ns, []) (into_build g) (builds_Create b cb co)
       \<and> done_to g segs ''PUT'' (ns, [obj_name cb]) (into_build g) (builds_Update b cb uo)
       \<and> done_to g segs ''PUT'' (ns, [obj_name cb, ''status'']) (into_build g) (builds_UpdateStatus b cb uo)
       \<and> done_to g segs ''DELETE'' (ns, [obj_name cb]) (into_error g) (builds_Delete b (obj_name cb) dopts)
       \<and> done_to g segs ''DELETE'' (ns, []) (into_error g) (builds_DeleteCollection b dopts lo)
       \<and> done_to g segs ''PATCH'' (ns, obj_name cb # subs) (into_build g)
           (builds_Patch b (obj_name cb) pt data po subs)"
proof -
  have b: "b = newComponentBuilds g ns" by (simp add: assms(12,13) group_ComponentBuilds_def)
  note client = NewForConfig_patient [OF assms(1,5), folded assms(12)]
    NewForConfig_client [OF assms(1-4), folded assms(12,14)]
  show ?thesis using methods_sent [OF client assms(6-11) b] by blast
qed

text \<open>
  An environment whose server answers each request with itself, on a host with a base path, but asks
  to wait a second the first time.
\<close>

definition noting_runtime :: "(HttpRequest list, HttpRequest, unit, unit, unit) runtime" where
  "noting_runtime =
     \<lparr>rtUserAgent = ''agent'', rtScheme = NewScheme,
      rtServerURL = (\<lambda>host tls. Inr ''/clusters/a''), rtHTTPClientFor = (\<lambda>c. Inr ()),
      rtTimeout = (\<lambda>h. 0), rtEncodeParameters = (\<lambda>s p. Inr []), rtEncodeBody = (\<lambda>s t b. Inr ''{}''),
      rtContextErr = (\<lambda>d. State_Monad.return None), rtWait = (\<lambda>l d. State_Monad.return None),
      rtExchange = (\<lambda>h d req. State_Monad.State (\<lambda>log.
        (Answered (if log = [] then \<lparr>hsStatusCode = 503, hsRetryAfter = Some 1, hsPayload = req\<rparr>
                   else \<lparr>hsStatusCode = 200, hsRetryAfter = None, hsPayload = req\<rparr>), log @ [req]))),
      rtURL = (\<lambda>host req. host @ hrPath req), rtStream = (\<lambda>s req. (Some (), None)), rtEmptyWatch = (),
      rtDecodeBuild = (\<lambda>s req cb. (cb\<lparr>metadata := (metadata cb)\<lparr>Name := hrPath req\<rparr>\<rparr>, None)),
      rtDecodeList = (\<lambda>s req l. (l, None)), rtError = (\<lambda>s req. None), rtDiscovery = (\<lambda>c h. Inr ())\<rparr>"

definition plain_config :: Config where
  "plain_config = \<lparr>cfgHost = ''example.org'', cfgAPIPath = '''', cfgAcceptContentTypes = '''',
     cfgContentType = '''', cfgGroupVersion = None, cfgNegotiatedSerializer = None,
     cfgUserAgent = '''', cfgTLS = True, cfgQPS = 0, cfgBurst = 0, cfgRateLimiter = None\<rparr>"

definition named_build :: "string \<Rightarrow> ComponentBuild" where
  "named_build name = zeroComponentBuild\<lparr>metadata := empty_meta\<lparr>Name := name\<rparr>\<rparr>"

lemma noting_clientset: "\<exists>cs. NewForConfig noting_runtime plain_config = Inr cs"
  by (simp add: NewForConfig_def NewForConfigAndClient_def group_NewForConfigAndClient_def
      setConfigDefaults_def RESTClientForConfigAndClient_def plain_config_def noting_runtime_def Let_def)

lemma noting_server: "cfgServer noting_runtime plain_config = Inr ''/clusters/a''"
  "base_segments ''/clusters/a'' [''clusters'', ''a'']" "runtime_encodes noting_runtime"
  "runtime_patient noting_runtime"
  by (simp_all add: cfgServer_def base_segments_def runtime_encodes_def runtime_patient_def noting_runtime_def)

theorem requests_addressed_witness:
  "\<exists>cs. NewForConfig noting_runtime plain_config = Inr cs \<and>
     done_to (restClient (ApheleiaV1alpha1 cs))
       [''clusters'', ''a'', ''apis'', ''apheleia.io'', ''v1alpha1''] ''PATCH'' (''ns1'', [''cb1'', ''status''])
       (into_build (restClient (ApheleiaV1alpha1 cs)))
       (builds_Patch (group_ComponentBuilds (ApheleiaV1alpha1 cs) ''ns1'') ''cb1'' MergePatchType ''{}''
          \<lparr>woDryRun = [], woFieldManager = '''', woFieldValidation = '''', poForce = None\<rparr> [''status''])"
proof -
  obtain cs where cs: "NewForConfig noting_runtime plain_config = Inr cs"
    using noting_clientset by blast
  have names: "legal ''ns1''" "''ns1'' \<noteq> ''''" "legal (obj_name (named_build ''cb1''))"
    "obj_name (named_build ''cb1'') \<noteq> ''''" "obj_name (named_build ''cb1'') = ''cb1''"
    "list_all legal [''status'']" "'''' \<notin> set [''status'']"
    by (simp_all add: legal_def named_build_def)
  from requests_addressed [OF cs noting_server names(1-4,6,7) refl refl refl] cs names(5)
  show ?thesis by simp
qed

text \<open>
  A namespace or name that is empty or illegal as a segment of a path is refused by every method
  that names one object, with an error and without a request.
\<close>

theorem illegal_names_refused:
  assumes "\<not> (legal ns \<and> ns \<noteq> '''' \<and> legal (obj_name cb) \<and> obj_name cb \<noteq> '''')"
  shows "refused (builds_Get (newComponentBuilds c ns) (obj_name cb) go) snd
       \<and> refused (builds_Update (newComponentBuilds c ns) cb uo) snd
       \<and> refused (builds_UpdateStatus (newComponentBuilds c ns) cb uo) snd
       \<and> refused (builds_Delete (newComponentBuilds c ns) (obj_name cb) dopts) (\<lambda>err. err)"
proof -
  have client [simp]: "clientOf (newComponentBuilds c ns) = c" by (simp add: newComponentBuilds_def)
  define r where "r v = request_Name (obj_name cb) (in_namespace (newComponentBuilds c ns) (Verb v c))" for v
  have bad: "rqErr (r v) \<noteq> None \<or> requestPreflightCheck (r v) \<noteq> None"
    if "v \<in> {''GET'', ''PUT'', ''DELETE''}" for v
    unfolding r_def using named_refused [OF _ that] assms by blast
  have later: "rqErr (request_VersionedParams c p q) \<noteq> None \<or> requestPreflightCheck (request_VersionedParams c p q) \<noteq> None"
    "rqErr (request_Body c b q) \<noteq> None \<or> requestPreflightCheck (request_Body c b q) \<noteq> None"
    if "rqErr q \<noteq> None \<or> requestPreflightCheck q \<noteq> None" for p b q
    using that setters_keep_error preflight_address [OF setters_keep_address(1), of c p q]
      preflight_address [OF setters_keep_address(3), of c b q] by metis+
  have status: "rqErr (request_SubResource subs q) \<noteq> None \<or> requestPreflightCheck (request_SubResource subs q) \<noteq> None"
    if "rqErr q \<noteq> None \<or> requestPreflightCheck q \<noteq> None" for subs q
    using that setters_keep_error(2) [of q subs]
    by (auto simp: request_SubResource_def setter_def requestPreflightCheck_def Let_def failed_def
        split: option.splits if_splits)
  show ?thesis
    unfolding builds_Get_def builds_Update_def builds_UpdateStatus_def builds_Delete_def Let_def client
      r_def [symmetric]
    by (intro conjI refusedI later status bad) simp_all
qed

definition noting_client :: "(HttpRequest list, HttpRequest, unit) RESTClient" where
  "noting_client =
     (case NewForConfig noting_runtime plain_config of Inr cs \<Rightarrow> restClient (ApheleiaV1alpha1 cs))"

text \<open>That server is sent the request twice, and its second answer is the result.\<close>

lemma noting_client_retries:
  "(case run_state (builds_Get (newComponentBuilds noting_client ''ns1'') ''cb1'' \<lparr>goResourceVersion = ''''\<rparr>) [] of
      (result, sent) \<Rightarrow> (map hrPath sent, Option.map_option obj_name (fst result), snd result))
   = (replicate 2 ''/clusters/a/apis/apheleia.io/v1alpha1/namespaces/ns1/componentbuilds/cb1'',
      Some ''/clusters/a/apis/apheleia.io/v1alpha1/namespaces/ns1/componentbuilds/cb1'', None)"
  by code_simp

theorem illegal_names_refused_witness:
  "refused (builds_Delete (newComponentBuilds noting_client ''ns1'') ''a/b''
     \<lparr>doGracePeriodSeconds = None, doPreconditions = None, doOrphanDependents = None,
      doPropagationPolicy = None, doDryRun = []\<rparr>) (\<lambda>err. err)"
proof -
  have "\<not> (legal ''ns1'' \<and> ''ns1'' \<noteq> '''' \<and> legal (obj_name (named_build ''a/b''))
      \<and> obj_name (named_build ''a/b'') \<noteq> '''')"
    by (simp add: legal_def named_build_def)
  from illegal_names_refused [OF this, of noting_client] show ?thesis by (simp add: named_build_def)
qed

text \<open>
  The timeout of a list request is the number of seconds of its options in nanoseconds exactly up
  to 9223372036 seconds either way; beyond that the product in 64 bits is another one.
\<close>

theorem list_timeout_exact:
  assumes "patient c" "encodable c" "legal ns" "ns \<noteq> ''''" "loTimeoutSeconds lo = Some s"
  shows "\<exists>h. sends_only c h (asks_again request_retryable h)
             (does (\<lambda>resp. into_list c (Responded resp)) (\<lambda>err. into_list c (RequestError err)))
             (builds_List (newComponentBuilds c ns) lo)
           \<and> ((case hrTimeout h of None \<Rightarrow> 0 | Some d \<Rightarrow> sint d) = sint s * 1000000000
              \<longleftrightarrow> \<bar>sint s\<bar> \<le> 9223372036)"
proof -
  have client [simp]: "clientOf (newComponentBuilds c ns) = c" by (simp add: newComponentBuilds_def)
  define r where "r = request_VersionedParams c (ListParams lo)
      (in_namespace (newComponentBuilds c ns) (Verb ''GET'' c))"
  define r' where "r' = request_Timeout (timeoutOf (Some s)) r"
  note plain = address_in_namespace [OF assms(3), of c "''GET''"]
  have "rqErr r = None" unfolding r_def using encodable_setters(1) [OF assms(2) plain(2)] .
  then have r': "rqErr r' = None" "rqTimeout r' = timeoutOf (Some s)"
    by (simp_all add: r'_def request_Timeout_def setter_def)
  have to: "address r' = (''GET'', prefix_path c, ns, True, ''componentbuilds'', '''', '''', 10)"
    by (simp add: r'_def r_def setters_keep_address plain(1))
  then have pre: "requestPreflightCheck r' = None" by (rule preflight_named) (rule assms(4))
  have "builds_List (newComponentBuilds c ns) lo =
      do { result \<leftarrow> request_Do c r'; State_Monad.return (into_list c result) }"
    unfolding builds_List_def Let_def client assms(5) r_def [symmetric] r'_def [symmetric] by simp
  moreover have "rqMaxRetries r' = 10" using to by (simp add: address_def)
  moreover have "(case hrTimeout (newHTTPRequest r') of None \<Rightarrow> 0 | Some d \<Rightarrow> sint d) = sint (timeoutOf (Some s))"
    by (simp add: newHTTPRequest_def r'(2))
  ultimately show ?thesis
    using timeoutOf_exact [of s]
      sends_only_return [OF request_Do_sends [OF assms(1) r'(1) pre], of "into_list c"]
    by (intro exI [of _ "newHTTPRequest r'"]) simp
qed

lemma noting_client_encodable: "encodable noting_client" "patient noting_client"
proof -
  obtain cs where cs: "NewForConfig noting_runtime plain_config = Inr cs"
    using noting_clientset by blast
  from NewForConfig_client(1) [OF cs noting_server(1-3)] NewForConfig_patient [OF cs noting_server(4)]
  show "encodable noting_client" "patient noting_client" by (simp_all add: noting_client_def cs)
qed

text \<open>Ten billion seconds become another timeout.\<close>

theorem list_timeout_exact_witness:
  "\<exists>h. sends_only noting_client h (asks_again request_retryable h)
         (does (\<lambda>resp. into_list noting_client (Responded resp)) (\<lambda>err. into_list noting_client (RequestError err)))
         (builds_List (newComponentBuilds noting_client ''ns1'')
           (emptyListOptions\<lparr>loTimeoutSeconds := Some 10000000000\<rparr>))
     \<and> (case hrTimeout h of None \<Rightarrow> 0 | Some d \<Rightarrow> sint d) \<noteq> 10000000000 * 1000000000"
proof -
  have "legal ''ns1''" "''ns1'' \<noteq> ''''" by (simp_all add: legal_def)
  from list_timeout_exact [OF noting_client_encodable(2,1) this, of
      "emptyListOptions\<lparr>loTimeoutSeconds := Some 10000000000\<rparr>" 10000000000]
  show ?thesis by (auto simp: signed_of_int)
qed

end
