(* ===== verification/DeltaFifo.thy ===== *)
theory DeltaFifo
  imports ClientCache
begin

text \<open>
  The queue between the reflector of an informer and its store: the vendored \<open>DeltaFIFO\<close> of
  \<open>k8s.io/client-go/tools/cache/delta_fifo.go\<close>, as \<open>sharedIndexInformer.Run\<close> sets it up: the key
  function is \<open>MetaNamespaceKeyFunc\<close>, the known objects are the informer's store, and relists are
  emitted as \<open>Replaced\<close>. An operation answers an error, if it has one, and the queue after it.
\<close>

section \<open>The queue\<close>

record 'a DeltaFIFO =
  fifoItems :: "(string \<times> 'a Delta list) list"
  fifoQueue :: "string list"
  populated :: bool
  initialPopulationCount :: nat

definition NewDeltaFIFO :: "'a DeltaFIFO" where
  "NewDeltaFIFO = \<lparr>fifoItems = [], fifoQueue = [], populated = False, initialPopulationCount = 0\<rparr>"

definition fifo_KeyOf :: "'a KeyFunc" where
  "fifo_KeyOf obj =
     (case obj of DeletedFinalStateUnknown key x \<Rightarrow> Inr key | _ \<Rightarrow> MetaNamespaceKeyFunc obj)"

definition fifo_HasSynced :: "'a DeltaFIFO \<Rightarrow> bool" where
  "fifo_HasSynced f \<longleftrightarrow> populated f \<and> initialPopulationCount f = 0"

text \<open>Two deletions in a row become one; the one that knows the object is kept.\<close>

definition isDeletionDup :: "'a Delta \<Rightarrow> 'a Delta \<Rightarrow> 'a Delta option" where
  "isDeletionDup a b =
     (if DeltaKind b \<noteq> Deleted \<or> DeltaKind a \<noteq> Deleted then None
      else (case DeltaObject b of DeletedFinalStateUnknown key x \<Rightarrow> Some a | _ \<Rightarrow> Some b))"

definition isDup :: "'a Delta \<Rightarrow> 'a Delta \<Rightarrow> 'a Delta option" where
  "isDup a b = (case isDeletionDup a b of Some out \<Rightarrow> Some out | None \<Rightarrow> None)"

definition dedupDeltas :: "'a Delta list \<Rightarrow> 'a Delta list" where
  "dedupDeltas deltas =
     (let n = length deltas in
      if n < 2 then deltas
      else (case isDup (deltas ! (n - 1)) (deltas ! (n - 2)) of
              Some out \<Rightarrow> take (n - 1) (deltas[n - 2 := out])
            | None \<Rightarrow> deltas))"

definition deltas_at :: "'a DeltaFIFO \<Rightarrow> string \<Rightarrow> 'a Delta list" where
  "deltas_at f key = (case map_of (fifoItems f) key of None \<Rightarrow> [] | Some ds \<Rightarrow> ds)"

definition queueActionLocked ::
  "DeltaType \<Rightarrow> 'a any \<Rightarrow> 'a DeltaFIFO \<Rightarrow> api_error option \<times> 'a DeltaFIFO" where
  "queueActionLocked actionType obj f =
     (case fifo_KeyOf obj of
        Inl err \<Rightarrow> (Some (KeyError err), f)
      | Inr key \<Rightarrow>
          (let oldDeltas = deltas_at f key;
               newDeltas = dedupDeltas (oldDeltas @ [\<lparr>DeltaKind = actionType, DeltaObject = obj\<rparr>])
           in if length newDeltas > 0
              then (None,
                    f\<lparr>fifoItems := AList.update key newDeltas (fifoItems f),
                      fifoQueue := (if map_of (fifoItems f) key = None then fifoQueue f @ [key]
                                    else fifoQueue f)\<rparr>)
              else if map_of (fifoItems f) key = None then (None, f)
              else (Some (OtherError ''Impossible dedupDeltas''),
                    f\<lparr>fifoItems := AList.update key newDeltas (fifoItems f)\<rparr>)))"

definition fifo_Add :: "'a any \<Rightarrow> 'a DeltaFIFO \<Rightarrow> api_error option \<times> 'a DeltaFIFO" where
  "fifo_Add obj f = queueActionLocked Added obj (f\<lparr>populated := True\<rparr>)"

definition fifo_Update :: "'a any \<Rightarrow> 'a DeltaFIFO \<Rightarrow> api_error option \<times> 'a DeltaFIFO" where
  "fifo_Update obj f = queueActionLocked Updated obj (f\<lparr>populated := True\<rparr>)"

text \<open>Deleting what neither the store nor the queue knows does nothing.\<close>

definition fifo_Delete :: "'a cache \<Rightarrow> 'a any \<Rightarrow> 'a DeltaFIFO \<Rightarrow> api_error option \<times> 'a DeltaFIFO" where
  "fifo_Delete known obj f =
     (case fifo_KeyOf obj of
        Inl err \<Rightarrow> (Some (KeyError err), f)
      | Inr key \<Rightarrow>
          (let f = f\<lparr>populated := True\<rparr> in
           case cache_GetByKey key known of (_, exists, err) \<Rightarrow>
             if err = None \<and> \<not> exists \<and> map_of (fifoItems f) key = None then (None, f)
             else queueActionLocked Deleted obj f))"

text \<open>\<open>Replace\<close>: the items of the list, then a deletion for each known key that is not among them.\<close>

fun replaceItems ::
  "'a any list \<Rightarrow> string list \<Rightarrow> 'a DeltaFIFO \<Rightarrow> api_error option \<times> string list \<times> 'a DeltaFIFO" where
  "replaceItems [] keys f = (None, keys, f)"
| "replaceItems (item # items) keys f =
     (case fifo_KeyOf item of
        Inl err \<Rightarrow> (Some (KeyError err), keys, f)
      | Inr key \<Rightarrow>
          (case queueActionLocked Replaced item f of
             (Some err, f') \<Rightarrow>
               (Some (OtherError ((''couldn'' @ CHR 0x27 # ''t enqueue object: '') @ errorString err)), List.insert key keys, f')
           | (None, f') \<Rightarrow> replaceItems items (List.insert key keys) f'))"

fun deleteMissing ::
  "'a cache \<Rightarrow> string list \<Rightarrow> string list \<Rightarrow> nat \<Rightarrow> 'a DeltaFIFO
     \<Rightarrow> api_error option \<times> nat \<times> 'a DeltaFIFO" where
  "deleteMissing known keys [] queuedDeletions f = (None, queuedDeletions, f)"
| "deleteMissing known keys (k # ks) queuedDeletions f =
     (if k \<in> set keys then deleteMissing known keys ks queuedDeletions f
      else (let deletedObj = (case cache_GetByKey k known of
                                (obj, exists, err) \<Rightarrow> if err \<noteq> None \<or> \<not> exists then NilValue else obj)
            in case queueActionLocked Deleted (DeletedFinalStateUnknown k deletedObj) f of
                 (Some err, f') \<Rightarrow> (Some err, queuedDeletions + 1, f')
               | (None, f') \<Rightarrow> deleteMissing known keys ks (queuedDeletions + 1) f'))"

definition cache_ListKeys :: "nat \<Rightarrow> 'a cache \<Rightarrow> string list" where
  "cache_ListKeys n c = store_ListKeys n (cacheStorage c)"

definition fifo_Replace ::
  "nat \<Rightarrow> 'a cache \<Rightarrow> 'a any list \<Rightarrow> 'a DeltaFIFO \<Rightarrow> api_error option \<times> 'a DeltaFIFO" where
  "fifo_Replace n known items f =
     (case replaceItems items [] f of
        (Some err, keys, f') \<Rightarrow> (Some err, f')
      | (None, keys, f') \<Rightarrow>
          (case deleteMissing known keys (cache_ListKeys n known) 0 f' of
             (Some err, q, f'') \<Rightarrow> (Some err, f'')
           | (None, q, f'') \<Rightarrow>
               (None, if \<not> populated f''
                      then f''\<lparr>populated := True, initialPopulationCount := length keys + q\<rparr>
                      else f'')))"

text \<open>\<open>Resync\<close>: every known object that has nothing pending is queued again.\<close>

definition syncKeyLocked ::
  "'a cache \<Rightarrow> string \<Rightarrow> 'a DeltaFIFO \<Rightarrow> api_error option \<times> 'a DeltaFIFO" where
  "syncKeyLocked known key f =
     (case cache_GetByKey key known of (obj, exists, err) \<Rightarrow>
        if err \<noteq> None \<or> \<not> exists then (None, f)
        else (case fifo_KeyOf obj of
                Inl err \<Rightarrow> (Some (KeyError err), f)
              | Inr key \<Rightarrow>
                  (if length (deltas_at f key) > 0 then (None, f)
                   else (case queueActionLocked Sync obj f of
                           (Some err, f') \<Rightarrow>
                             (Some (OtherError ((''couldn'' @ CHR 0x27 # ''t queue object: '') @ errorString err)), f')
                         | (None, f') \<Rightarrow> (None, f')))))"

fun syncKeys :: "'a cache \<Rightarrow> string list \<Rightarrow> 'a DeltaFIFO \<Rightarrow> api_error option \<times> 'a DeltaFIFO" where
  "syncKeys known [] f = (None, f)"
| "syncKeys known (k # ks) f =
     (case syncKeyLocked known k f of (Some err, f') \<Rightarrow> (Some err, f') | (None, f') \<Rightarrow> syncKeys known ks f')"

definition fifo_Resync :: "nat \<Rightarrow> 'a cache \<Rightarrow> 'a DeltaFIFO \<Rightarrow> api_error option \<times> 'a DeltaFIFO" where
  "fifo_Resync n known f = syncKeys known (cache_ListKeys n known) f"

text \<open>
  The head of the queue for \<open>Pop\<close> to process; None when it waits. A queued key without deltas is
  skipped. The requeue that \<open>Pop\<close> offers its processing function is never asked for by an informer.
\<close>

fun popLoop :: "string list \<Rightarrow> 'a DeltaFIFO \<Rightarrow> ('a Delta list \<times> 'a DeltaFIFO) option" where
  "popLoop [] f = None"
| "popLoop (key # queue) f =
     (let f = f\<lparr>fifoQueue := queue, initialPopulationCount := initialPopulationCount f - 1\<rparr> in
      case map_of (fifoItems f) key of
        None \<Rightarrow> popLoop queue f
      | Some item \<Rightarrow> Some (item, f\<lparr>fifoItems := AList.delete key (fifoItems f)\<rparr>))"

definition fifo_Pop :: "'a DeltaFIFO \<Rightarrow> ('a Delta list \<times> 'a DeltaFIFO) option" where
  "fifo_Pop f = popLoop (fifoQueue f) f"

section \<open>What is pending\<close>

text \<open>
  A good queue has each key with pending deltas once, and under a key only deltas of objects with
  that key.
\<close>

definition fifo_ok :: "'a DeltaFIFO \<Rightarrow> bool" where
  "fifo_ok f \<longleftrightarrow>
     distinct (fifoQueue f) \<and> set (fifoQueue f) = dom (map_of (fifoItems f))
     \<and> (\<forall>k ds. map_of (fifoItems f) k = Some ds \<longrightarrow>
          ds \<noteq> [] \<and> (\<forall>d \<in> set ds. fifo_KeyOf (DeltaObject d) = Inr k))"

definition delta_outcome :: "'a Delta \<Rightarrow> 'a any option" where
  "delta_outcome d = (if DeltaKind d = Deleted then None else Some (DeltaObject d))"

text \<open>
  The contents the store is on its way to: the newest pending delta of a key decides, else the
  store's own entry.
\<close>

definition mirror :: "'a DeltaFIFO \<Rightarrow> (string \<rightharpoonup> 'a any) \<Rightarrow> (string \<rightharpoonup> 'a any)" where
  "mirror f m = (\<lambda>k. case map_of (fifoItems f) k of None \<Rightarrow> m k | Some ds \<Rightarrow> delta_outcome (last ds))"

text \<open>Deltas that the store will take: no object that an index function refuses.\<close>

definition pending_fit :: "(string \<times> 'a IndexFunc) list \<Rightarrow> 'a DeltaFIFO \<Rightarrow> bool" where
  "pending_fit fs f \<longleftrightarrow>
     (\<forall>k ds. map_of (fifoItems f) k = Some ds \<longrightarrow>
        (\<forall>d \<in> set ds. DeltaKind d \<noteq> Deleted \<longrightarrow> indexable fs (DeltaObject d)))"

lemma KeyOf_DeletionHandling: "fifo_KeyOf = DeletionHandlingMetaNamespaceKeyFunc"
  by (rule ext) (simp add: fifo_KeyOf_def DeletionHandlingMetaNamespaceKeyFunc_def)

lemma NewDeltaFIFO_ok [simp]:
  "fifo_ok NewDeltaFIFO" "mirror NewDeltaFIFO m = m" "pending_fit fs NewDeltaFIFO"
  by (simp_all add: fifo_ok_def mirror_def pending_fit_def NewDeltaFIFO_def)

text \<open>Merging two deletions loses no delta that stores something, and never the last kind of change.\<close>

lemma dedup_last:
  assumes "ds \<noteq> []" "\<forall>d \<in> set ds. fifo_KeyOf (DeltaObject d) = Inr k"
  shows "dedupDeltas ds \<noteq> [] \<and> delta_outcome (last (dedupDeltas ds)) = delta_outcome (last ds)
    \<and> set (dedupDeltas ds) \<subseteq> set ds"
proof (cases "length ds < 2")
  case True
  with assms(1) show ?thesis by (simp add: dedupDeltas_def Let_def)
next
  case False
  obtain xs b a where ds: "ds = xs @ [b, a]"
  proof -
    obtain ys a where "ds = ys @ [a]" using assms(1) by (meson rev_exhaust)
    moreover from this False have "ys \<noteq> []" by auto
    then obtain xs b where "ys = xs @ [b]" by (meson rev_exhaust)
    ultimately show ?thesis using that by simp
  qed
  have at: "ds ! (length ds - 1) = a" "ds ! (length ds - 2) = b" by (simp_all add: ds nth_append)
  have merged: "take (length ds - 1) (ds[length ds - 2 := out]) = xs @ [out]" for out
    by (simp add: ds list_update_append)
  have "dedupDeltas ds = (case isDup a b of Some out \<Rightarrow> xs @ [out] | None \<Rightarrow> ds)"
    using False unfolding dedupDeltas_def Let_def at merged by simp
  then show ?thesis
    by (auto simp: isDup_def isDeletionDup_def delta_outcome_def ds split: option.splits any.splits if_splits)
qed

lemma queueAction_ok:
  assumes ok: "fifo_ok f" and key: "fifo_KeyOf obj = Inr k"
  shows "\<exists>f'. queueActionLocked kind obj f = (None, f') \<and> fifo_ok f'
    \<and> mirror f' m = (mirror f m)(k := delta_outcome \<lparr>DeltaKind = kind, DeltaObject = obj\<rparr>)
    \<and> dom (map_of (fifoItems f')) = insert k (dom (map_of (fifoItems f)))
    \<and> populated f' = populated f
    \<and> (pending_fit fs f \<longrightarrow> (kind \<noteq> Deleted \<longrightarrow> indexable fs obj) \<longrightarrow> pending_fit fs f')"
proof -
  define d where "d = \<lparr>DeltaKind = kind, DeltaObject = obj\<rparr>"
  define ds where "ds = dedupDeltas (deltas_at f k @ [d])"
  have own: "\<forall>d' \<in> set (deltas_at f k @ [d]). fifo_KeyOf (DeltaObject d') = Inr k"
    using ok key by (cases "map_of (fifoItems f) k") (simp_all add: fifo_ok_def deltas_at_def d_def)
  have ds: "ds \<noteq> []" "delta_outcome (last ds) = delta_outcome d" "set ds \<subseteq> insert d (set (deltas_at f k))"
    using dedup_last [OF _ own] by (auto simp: ds_def)
  define f' where "f' = f\<lparr>fifoItems := AList.update k ds (fifoItems f),
    fifoQueue := (if map_of (fifoItems f) k = None then fifoQueue f @ [k] else fifoQueue f)\<rparr>"
  have run: "queueActionLocked kind obj f = (None, f')"
    using ds(1) by (simp add: queueActionLocked_def key Let_def ds_def [symmetric] d_def [symmetric] f'_def)
  have items: "map_of (fifoItems f') = (map_of (fifoItems f))(k \<mapsto> ds)"
    by (simp add: f'_def update_conv')
  have "distinct (fifoQueue f') \<and> set (fifoQueue f') = insert k (dom (map_of (fifoItems f)))"
    using ok by (cases "map_of (fifoItems f) k") (auto simp: f'_def fifo_ok_def)
  then have "fifo_ok f'" using ok ds own by (auto simp: fifo_ok_def items)
  moreover have "mirror f' m = (mirror f m)(k := delta_outcome d)"
    using ds(2) by (auto simp: mirror_def items)
  moreover have "pending_fit fs f'" if "pending_fit fs f" "kind \<noteq> Deleted \<longrightarrow> indexable fs obj"
  proof -
    have "\<forall>d' \<in> set (deltas_at f k). DeltaKind d' \<noteq> Deleted \<longrightarrow> indexable fs (DeltaObject d')"
      using that(1) by (cases "map_of (fifoItems f) k") (simp_all add: pending_fit_def deltas_at_def)
    with that(2) have "\<forall>d' \<in> insert d (set (deltas_at f k)). DeltaKind d' \<noteq> Deleted \<longrightarrow> indexable fs (DeltaObject d')"
      by (simp add: d_def)
    with ds(3) that(1) show ?thesis by (auto simp: pending_fit_def items)
  qed
  ultimately show ?thesis using run by (auto simp: items d_def f'_def)
qed

section \<open>What the operations queue\<close>

text \<open>
  A step of the queue that succeeds: the queue is good again, and the store is on its way to
  other contents.
\<close>

definition queues ::
  "(string \<times> 'a IndexFunc) list \<Rightarrow> 'a DeltaFIFO \<Rightarrow> api_error option \<times> 'a DeltaFIFO
     \<Rightarrow> ((string \<rightharpoonup> 'a any) \<Rightarrow> (string \<rightharpoonup> 'a any)) \<Rightarrow> (string \<rightharpoonup> 'a any) \<Rightarrow> bool" where
  "queues fs f r change m \<longleftrightarrow>
     (\<exists>f'. r = (None, f') \<and> fifo_ok f' \<and> mirror f' m = change (mirror f m)
        \<and> (pending_fit fs f \<longrightarrow> pending_fit fs f'))"

lemma populated_irrelevant [simp]:
  "fifo_ok (f\<lparr>populated := b\<rparr>) = fifo_ok f" "mirror (f\<lparr>populated := b\<rparr>) m = mirror f m"
  "pending_fit fs (f\<lparr>populated := b\<rparr>) = pending_fit fs f"
  "fifo_ok (f\<lparr>populated := b, initialPopulationCount := n\<rparr>) = fifo_ok f"
  "mirror (f\<lparr>populated := b, initialPopulationCount := n\<rparr>) m = mirror f m"
  "pending_fit fs (f\<lparr>populated := b, initialPopulationCount := n\<rparr>) = pending_fit fs f"
  by (simp_all add: fifo_ok_def mirror_def pending_fit_def)

lemma fifo_Add_queues:
  assumes "fifo_ok f" "fifo_KeyOf obj = Inr k" "indexable fs obj"
  shows "queues fs f (fifo_Add obj f) (\<lambda>v. v(k \<mapsto> obj)) m"
    and "queues fs f (fifo_Update obj f) (\<lambda>v. v(k \<mapsto> obj)) m"
  using queueAction_ok [of "f\<lparr>populated := True\<rparr>" obj k Added m fs]
    queueAction_ok [of "f\<lparr>populated := True\<rparr>" obj k Updated m fs] assms
  by (auto simp: queues_def fifo_Add_def fifo_Update_def delta_outcome_def)

lemma fifo_Delete_queues:
  assumes "fifo_ok f" "fifo_KeyOf obj = Inr k"
  shows "queues fs f (fifo_Delete c obj f) (\<lambda>v. v(k := None)) (cached c)"
proof (cases "cached c k = None \<and> map_of (fifoItems f) k = None")
  case True
  then have "(mirror f (cached c))(k := None) = mirror f (cached c)"
    by (auto simp: mirror_def)
  with True assms show ?thesis
    by (simp add: queues_def fifo_Delete_def cache_GetByKey_def)
next
  case False
  then show ?thesis
    using queueAction_ok [of "f\<lparr>populated := True\<rparr>" obj k Deleted "cached c" fs] assms
    by (auto simp: queues_def fifo_Delete_def cache_GetByKey_def delta_outcome_def)
qed

section \<open>Relisting\<close>

definition put_item :: "'a any \<Rightarrow> (string \<rightharpoonup> 'a any) \<Rightarrow> (string \<rightharpoonup> 'a any)" where
  "put_item x v = (case fifo_KeyOf x of Inl err \<Rightarrow> v | Inr k \<Rightarrow> v(k \<mapsto> x))"

definition item_keys :: "'a any list \<Rightarrow> string set" where
  "item_keys xs = {k. \<exists>x \<in> set xs. fifo_KeyOf x = Inr k}"

definition listable :: "(string \<times> 'a IndexFunc) list \<Rightarrow> 'a any list \<Rightarrow> bool" where
  "listable fs xs \<longleftrightarrow> (\<forall>x \<in> set xs. (\<exists>k. fifo_KeyOf x = Inr k) \<and> indexable fs x)"

lemma put_item_key: "fifo_KeyOf x = Inr k \<Longrightarrow> put_item x v = v(k \<mapsto> x)"
  by (simp add: put_item_def)

lemma put_items_other: "k \<notin> item_keys xs \<Longrightarrow> fold put_item xs v k = v k"
  by (induction xs arbitrary: v) (auto simp: item_keys_def put_item_def split: sum.splits)

lemma put_items_in: "k \<in> item_keys xs \<Longrightarrow> fold put_item xs v k = fold put_item xs w k"
proof (induction xs arbitrary: v w)
  case (Cons x xs)
  show ?case
  proof (cases "k \<in> item_keys xs")
    case True
    then show ?thesis using Cons.IH by simp
  next
    case False
    with Cons.prems have "fifo_KeyOf x = Inr k" by (auto simp: item_keys_def)
    then show ?thesis using False by (simp add: put_items_other put_item_key)
  qed
qed (simp add: item_keys_def)

lemma replaceItems_ok:
  assumes "fifo_ok f" "listable fs xs" "pending_fit fs f"
  shows "\<exists>keys' f'. replaceItems xs keys f = (None, keys', f') \<and> fifo_ok f' \<and> pending_fit fs f'
    \<and> set keys' = set keys \<union> item_keys xs \<and> (distinct keys \<longrightarrow> distinct keys')
    \<and> mirror f' m = fold put_item xs (mirror f m) \<and> populated f' = populated f"
  using assms
proof (induction xs arbitrary: keys f)
  case Nil
  then show ?case by (simp add: item_keys_def)
next
  case (Cons x xs)
  then obtain k where k: "fifo_KeyOf x = Inr k" "indexable fs x" "listable fs xs"
    by (auto simp: listable_def)
  obtain f1 where f1: "queueActionLocked Replaced x f = (None, f1)" "fifo_ok f1" "pending_fit fs f1"
    "mirror f1 m = (mirror f m)(k \<mapsto> x)" "populated f1 = populated f"
    using queueAction_ok [OF Cons.prems(1) k(1), of Replaced m fs] Cons.prems(3) k(2)
    by (auto simp: delta_outcome_def)
  have keys: "set (List.insert k keys) \<union> item_keys xs = set keys \<union> item_keys (x # xs)"
    using k(1) by (auto simp: item_keys_def)
  from Cons.IH [OF f1(2) k(3) f1(3), of "List.insert k keys"] show ?case
    unfolding keys using f1(1,4,5) k(1) by (auto simp: put_item_key fun_upd_def)
qed

lemma deleteMissing_ok:
  assumes "fifo_ok f" "pending_fit fs f"
  shows "\<exists>f'. deleteMissing c keys ks q f = (None, q + length (filter (\<lambda>k. k \<notin> set keys) ks), f')
    \<and> fifo_ok f' \<and> pending_fit fs f' \<and> populated f' = populated f
    \<and> mirror f' m = (\<lambda>k. if k \<in> set ks \<and> k \<notin> set keys then None else mirror f m k)"
  using assms
proof (induction ks arbitrary: q f)
  case Nil
  then show ?case by simp
next
  case (Cons k ks)
  show ?case
  proof (cases "k \<in> set keys")
    case True
    have "(\<lambda>k'. if k' \<in> set ks \<and> k' \<notin> set keys then None else mirror f m k')
        = (\<lambda>k'. if k' \<in> set (k # ks) \<and> k' \<notin> set keys then None else mirror f m k')"
      using True by (intro ext) auto
    with Cons.IH [OF Cons.prems, of q] True show ?thesis by auto
  next
    case False
    define x where "x = DeletedFinalStateUnknown k
      (case cache_GetByKey k c of (obj, exists, err) \<Rightarrow> if err \<noteq> None \<or> \<not> exists then NilValue else obj)"
    have "fifo_KeyOf x = Inr k" by (simp add: x_def fifo_KeyOf_def)
    from queueAction_ok [OF Cons.prems(1) this, of Deleted m fs] Cons.prems(2)
    obtain f1 where f1: "queueActionLocked Deleted x f = (None, f1)" "fifo_ok f1" "pending_fit fs f1"
      "mirror f1 m = (mirror f m)(k := None)" "populated f1 = populated f"
      by (auto simp: delta_outcome_def)
    have "(\<lambda>k'. if k' \<in> set ks \<and> k' \<notin> set keys then None else mirror f1 m k')
        = (\<lambda>k'. if k' \<in> set (k # ks) \<and> k' \<notin> set keys then None else mirror f m k')"
      using False by (intro ext) (auto simp: f1(4))
    moreover have "deleteMissing c keys (k # ks) q f = deleteMissing c keys ks (q + 1) f1"
      using False f1(1) by (simp add: Let_def x_def)
    ultimately show ?thesis using Cons.IH [OF f1(2,3), of "q + 1"] False f1(5) by auto
  qed
qed

text \<open>
  After a relist the store is on its way to the list, except for keys that are pending and neither
  in the list nor yet in the store: for those no deletion is queued.
\<close>

lemma fifo_Replace_queues:
  assumes "fifo_ok f" "pending_fit fs f" "listable fs xs"
  shows "queues fs f (fifo_Replace n c xs f)
    (\<lambda>v k. if k \<in> item_keys xs then fold put_item xs Map.empty k
           else if cached c k \<noteq> None then None else v k) (cached c)"
proof -
  obtain keys f1 where f1: "replaceItems xs [] f = (None, keys, f1)" "fifo_ok f1" "pending_fit fs f1"
    "set keys = item_keys xs" "mirror f1 (cached c) = fold put_item xs (mirror f (cached c))"
    using replaceItems_ok [OF assms(1,3,2), of "[]" "cached c"] by auto
  obtain q f2 where f2: "deleteMissing c keys (cache_ListKeys n c) 0 f1 = (None, q, f2)" "fifo_ok f2"
    "pending_fit fs f2"
    "mirror f2 (cached c) = (\<lambda>k. if k \<in> set (cache_ListKeys n c) \<and> k \<notin> set keys then None
                                 else mirror f1 (cached c) k)"
    using deleteMissing_ok [OF f1(2,3), of c keys "cache_ListKeys n c" 0 "cached c"] by auto
  have "set (cache_ListKeys n c) = dom (cached c)"
    by (simp add: cache_ListKeys_def store_ListKeys_def dom_map_of_conv_image_fst)
  then have "mirror f2 (cached c) = (\<lambda>k. if k \<in> item_keys xs then fold put_item xs Map.empty k
      else if cached c k \<noteq> None then None else mirror f (cached c) k)"
    unfolding f2(4) f1(4,5)
    by (intro ext) (auto simp: put_items_other dest: put_items_in)
  with f1(1) f2 show ?thesis by (auto simp: queues_def fifo_Replace_def)
qed

section \<open>Resyncing\<close>

text \<open>A store that holds its objects under the keys the queue gives them.\<close>

definition informer_store :: "'a cache \<Rightarrow> bool" where
  "informer_store c \<longleftrightarrow> cache_ok c \<and> keyFunc c = DeletionHandlingMetaNamespaceKeyFunc"

lemma informer_store_item:
  assumes "informer_store c" "cached c k = Some x"
  shows "fifo_KeyOf x = Inr k \<and> indexable (cache_indexers c) x"
  using assms by (auto simp: informer_store_def cache_ok_def KeyOf_DeletionHandling intro: store_ok_item)

lemma syncKey_queues:
  assumes "fifo_ok f" "informer_store c"
  shows "queues (cache_indexers c) f (syncKeyLocked c k f) (\<lambda>v. v) (cached c)"
proof (cases "cached c k")
  case None
  with assms show ?thesis by (simp add: queues_def syncKeyLocked_def cache_GetByKey_def)
next
  case (Some x)
  note x = informer_store_item [OF assms(2) Some]
  have get: "cache_GetByKey k c = (x, True, None)"
    using Some by (simp add: cache_GetByKey_def item_at_def)
  show ?thesis
  proof (cases "length (deltas_at f k) > 0")
    case True
    with x assms get show ?thesis by (simp add: queues_def syncKeyLocked_def)
  next
    case False
    then have "map_of (fifoItems f) k = None"
      using assms(1) by (auto simp: deltas_at_def fifo_ok_def split: option.splits)
    then have "(mirror f (cached c))(k \<mapsto> x) = mirror f (cached c)"
      using Some by (auto simp: mirror_def)
    with queueAction_ok [OF assms(1), of x k Sync "cached c" "cache_indexers c"] x False get
    show ?thesis by (auto simp: queues_def syncKeyLocked_def delta_outcome_def)
  qed
qed

lemma syncKeys_queues:
  assumes "fifo_ok f" "informer_store c"
  shows "queues (cache_indexers c) f (syncKeys c ks f) (\<lambda>v. v) (cached c)"
  using assms(1)
proof (induction ks arbitrary: f)
  case Nil
  then show ?case by (simp add: queues_def)
next
  case (Cons k ks)
  from syncKey_queues [OF Cons.prems assms(2), of k]
  obtain f1 where f1: "syncKeyLocked c k f = (None, f1)" "fifo_ok f1"
    "mirror f1 (cached c) = mirror f (cached c)"
    "pending_fit (cache_indexers c) f \<longrightarrow> pending_fit (cache_indexers c) f1"
    by (auto simp: queues_def)
  with Cons.IH [OF f1(2)] show ?case by (auto simp: queues_def)
qed

lemma fifo_Resync_queues:
  "fifo_ok f \<Longrightarrow> informer_store c \<Longrightarrow>
   queues (cache_indexers c) f (fifo_Resync n c f) (\<lambda>v. v) (cached c)"
  unfolding fifo_Resync_def by (rule syncKeys_queues)

section \<open>Popping\<close>

text \<open>The head of a good queue has deltas, all for its key; without them the queue is good again.\<close>

lemma fifo_Pop_ok:
  assumes "fifo_ok f"
  shows "fifoQueue f = [] \<and> fifo_Pop f = None
    \<or> (\<exists>k ks ds f'. fifoQueue f = k # ks \<and> fifo_Pop f = Some (ds, f') \<and> fifo_ok f' \<and> fifoQueue f' = ks
         \<and> ds \<noteq> [] \<and> (\<forall>d \<in> set ds. fifo_KeyOf (DeltaObject d) = Inr k)
         \<and> (\<forall>m. mirror f' (m(k := delta_outcome (last ds))) = mirror f m)
         \<and> (\<forall>fs. pending_fit fs f \<longrightarrow> pending_fit fs f'
              \<and> (\<forall>d \<in> set ds. DeltaKind d \<noteq> Deleted \<longrightarrow> indexable fs (DeltaObject d))))"
proof (cases "fifoQueue f")
  case Nil
  then show ?thesis by (simp add: fifo_Pop_def)
next
  case (Cons k ks)
  have "set (fifoQueue f) = dom (map_of (fifoItems f))" using assms by (simp add: fifo_ok_def)
  with Cons have "k \<in> dom (map_of (fifoItems f))" by (metis list.set_intros(1))
  then obtain ds where ds: "map_of (fifoItems f) k = Some ds" by blast
  define f' where "f' = f\<lparr>fifoQueue := ks, initialPopulationCount := initialPopulationCount f - 1,
    fifoItems := AList.delete k (fifoItems f)\<rparr>"
  have pop: "fifo_Pop f = Some (ds, f')"
    using ds by (simp add: fifo_Pop_def Cons Let_def f'_def)
  have items: "map_of (fifoItems f') = (map_of (fifoItems f))(k := None)"
    by (simp add: f'_def delete_conv')
  have "fifo_ok f'"
    using assms Cons by (auto simp: fifo_ok_def items) (auto simp: f'_def)
  moreover have "mirror f' (m(k := delta_outcome (last ds))) = mirror f m" for m
    using ds by (intro ext) (auto simp: mirror_def items split: option.splits)
  moreover have "pending_fit fs f'" if "pending_fit fs f" for fs
    using that by (auto simp: pending_fit_def items)
  ultimately show ?thesis
    using pop ds Cons assms by (auto simp: f'_def fifo_ok_def pending_fit_def)
qed

text \<open>Playing the deltas of one key leaves the newest of them.\<close>

lemma play_one_key:
  assumes "ds \<noteq> []" "\<forall>d \<in> set ds. kf (DeltaObject d) = Inr k"
  shows "fold (play kf) ds m = m(k := delta_outcome (last ds))"
  using assms
proof (induction ds arbitrary: m)
  case (Cons d ds)
  then have "play kf d m = m(k := delta_outcome d)" by (simp add: play_def delta_outcome_def)
  with Cons show ?case by (cases "ds = []") (simp_all add: fun_eq_iff)
qed simp

end
