(* ===== verification/Listers.thy ===== *)
theory Listers
  imports ClientCache Scheme
begin

text \<open>
  The generated lister of component builds
  (\<open>pkg/client/listers/apheleia/v1alpha1/componentbuild.go\<close>) with the two loops it calls
  (\<open>ListAll\<close> and \<open>ListAllByNamespace\<close> of \<open>k8s.io/client-go/tools/cache/listers.go\<close>). A lister reads
  an indexer it is given, so the indexer is an interface: a record of operations, whose laws are
  the locale \<open>indexer_contract\<close>. The cache of \<open>ClientCache\<close> provides it.
\<close>

section \<open>The loops over an indexer\<close>

record ('s, 'a) Indexer =
  ixList :: "nat \<Rightarrow> 's \<Rightarrow> 'a any list"
  ixIndex :: "nat \<Rightarrow> string \<Rightarrow> 'a any \<Rightarrow> 's \<Rightarrow> api_error + 'a any list"
  ixGetByKey :: "string \<Rightarrow> 's \<Rightarrow> 'a any \<times> bool \<times> api_error option"

text \<open>The callback that appends a match to the caller's list; it may panic.\<close>

type_synonym ('a, 'b) AppendFunc = "'b \<Rightarrow> 'a any \<Rightarrow> 'b option"

fun listLoop ::
  "bool \<Rightarrow> (ObjectMeta \<Rightarrow> bool) \<Rightarrow> ('a, 'b) AppendFunc \<Rightarrow> 'a any list \<Rightarrow> 'b
     \<Rightarrow> ('b \<times> api_error option) option" where
  "listLoop selectAll matches appendFn [] ret = Some (ret, None)"
| "listLoop selectAll matches appendFn (m # ms) ret =
     (if selectAll
      then (case appendFn ret m of None \<Rightarrow> None
            | Some ret' \<Rightarrow> listLoop selectAll matches appendFn ms ret')
      else (case Accessor m of
              Inl err \<Rightarrow> Some (ret, Some err)
            | Inr md \<Rightarrow>
                (if matches md
                 then (case appendFn ret m of None \<Rightarrow> None
                       | Some ret' \<Rightarrow> listLoop selectAll matches appendFn ms ret')
                 else listLoop selectAll matches appendFn ms ret)))"

definition SelectorEmpty :: "Selector \<Rightarrow> bool" where
  "SelectorEmpty s \<longleftrightarrow> length s = 0"

definition ListAll ::
  "nat \<Rightarrow> ('s, 'a) Indexer \<Rightarrow> 's \<Rightarrow> Selector \<Rightarrow> ('a, 'b) AppendFunc \<Rightarrow> 'b
     \<Rightarrow> ('b \<times> api_error option) option" where
  "ListAll n ix s selector appendFn ret =
     listLoop (SelectorEmpty selector) (\<lambda>m. SelectorMatches selector (Labels m)) appendFn
       (ixList ix n s) ret"

definition NamespaceAll :: string where
  "NamespaceAll = ''''"

definition ListAllByNamespace ::
  "nat \<Rightarrow> ('s, 'a) Indexer \<Rightarrow> 's \<Rightarrow> string \<Rightarrow> Selector \<Rightarrow> ('a, 'b) AppendFunc \<Rightarrow> 'b
     \<Rightarrow> ('b \<times> api_error option) option" where
  "ListAllByNamespace n ix s namespace selector appendFn ret =
     (if namespace = NamespaceAll
      then listLoop (SelectorEmpty selector) (\<lambda>m. SelectorMatches selector (Labels m)) appendFn
             (ixList ix n s) ret
      else (case ixIndex ix n NamespaceIndex (MetaObject (empty_meta\<lparr>Namespace := namespace\<rparr>)) s of
              Inl err \<Rightarrow>
                listLoop False
                  (\<lambda>m. Namespace m = namespace \<and> SelectorMatches selector (Labels m)) appendFn
                  (ixList ix n s) ret
            | Inr items \<Rightarrow>
                listLoop (SelectorEmpty selector) (\<lambda>m. SelectorMatches selector (Labels m)) appendFn
                  items ret))"

section \<open>The lister\<close>

type_synonym build_ext = "unit ComponentBuild_ext"

text \<open>The type assertion \<open>m.(*v1alpha1.ComponentBuild)\<close>.\<close>

fun assert_build :: "build_ext any \<Rightarrow> ComponentBuild option" where
  "assert_build (ApiObject cb) = Some cb"
| "assert_build _ = None"

definition appendBuild :: "(build_ext, ComponentBuild list) AppendFunc" where
  "appendBuild ret m = map_option (\<lambda>cb. ret @ [cb]) (assert_build m)"

record 's componentBuildLister =
  ixOf :: "('s, build_ext) Indexer"

record 's componentBuildNamespaceLister =
  nsIxOf :: "('s, build_ext) Indexer"
  nsOf :: string

definition NewComponentBuildLister :: "('s, build_ext) Indexer \<Rightarrow> 's componentBuildLister" where
  "NewComponentBuildLister ix = \<lparr>ixOf = ix\<rparr>"

definition lister_List ::
  "nat \<Rightarrow> 's componentBuildLister \<Rightarrow> 's \<Rightarrow> Selector
     \<Rightarrow> (ComponentBuild list \<times> api_error option) option" where
  "lister_List n l s selector = ListAll n (ixOf l) s selector appendBuild []"

definition lister_ComponentBuilds ::
  "'s componentBuildLister \<Rightarrow> string \<Rightarrow> 's componentBuildNamespaceLister" where
  "lister_ComponentBuilds l namespace = \<lparr>nsIxOf = ixOf l, nsOf = namespace\<rparr>"

definition namespace_List ::
  "nat \<Rightarrow> 's componentBuildNamespaceLister \<Rightarrow> 's \<Rightarrow> Selector
     \<Rightarrow> (ComponentBuild list \<times> api_error option) option" where
  "namespace_List n l s selector = ListAllByNamespace n (nsIxOf l) s (nsOf l) selector appendBuild []"

definition namespace_Get ::
  "'s componentBuildNamespaceLister \<Rightarrow> 's \<Rightarrow> string \<Rightarrow> (api_error + ComponentBuild) option" where
  "namespace_Get l s name =
     (case ixGetByKey (nsIxOf l) (nsOf l @ ''/'' @ name) s of (obj, exists, err) \<Rightarrow>
        (case err of
           Some err \<Rightarrow> Some (Inl err)
         | None \<Rightarrow>
             (if \<not> exists then Some (Inl (NewNotFound (Resource ''componentbuild'') name))
              else map_option Inr (assert_build obj))))"

section \<open>What a lister relies on\<close>

locale indexer_contract =
  fixes ix :: "('s, build_ext) Indexer" and ok :: "'s \<Rightarrow> bool"
    and stored :: "'s \<Rightarrow> string \<rightharpoonup> build_ext any"
  assumes list_law:
    "ok s \<Longrightarrow> \<exists>ks. ixList ix n s = map (any_at (stored s)) ks \<and> distinct ks \<and> set ks = dom (stored s)"
    and index_law:
    "ok s \<Longrightarrow> ixIndex ix n NamespaceIndex (MetaObject m) s = Inr xs \<Longrightarrow>
       \<exists>ks. xs = map (any_at (stored s)) ks \<and> distinct ks
         \<and> set ks = {k. \<exists>x m'. stored s k = Some x \<and> Accessor x = Inr m' \<and> Namespace m' = Namespace m}"
    and get_law:
    "ok s \<Longrightarrow> ixGetByKey ix k s = (any_at (stored s) k, stored s k \<noteq> None, None)"

text \<open>
  A store of component builds holds each under its own key. \<open>stored_builds\<close> is the set it stands for.
\<close>

definition holds_builds :: "(string \<rightharpoonup> build_ext any) \<Rightarrow> bool" where
  "holds_builds m \<longleftrightarrow> (\<forall>k x. m k = Some x \<longrightarrow> (\<exists>cb. x = ApiObject cb \<and> k = metaKey (metadata cb)))"

definition stored_builds :: "(string \<rightharpoonup> build_ext any) \<Rightarrow> ComponentBuild set" where
  "stored_builds m = {cb. \<exists>k. m k = Some (ApiObject cb)}"

text \<open>
  A list holds the members of a set with a property, each once: what every listing must return.
\<close>

definition lists :: "'o list \<Rightarrow> 'o set \<Rightarrow> ('o \<Rightarrow> bool) \<Rightarrow> bool" where
  "lists xs A P \<longleftrightarrow> distinct xs \<and> set xs = {x \<in> A. P x}"

lemma listLoop_builds:
  assumes "\<forall>k \<in> set ks. \<exists>cb. m k = Some (ApiObject cb)"
  shows "listLoop sel P appendBuild (map (any_at m) ks) ret =
    Some (ret @ filter (\<lambda>cb. sel \<or> P (metadata cb))
           (map (\<lambda>k. case m k of Some (ApiObject cb) \<Rightarrow> cb) ks), None)"
  using assms
  by (induction ks arbitrary: ret) (auto simp: any_at_def appendBuild_def)

lemma listed_builds:
  assumes "holds_builds m" "distinct ks" "\<forall>k \<in> set ks. m k \<noteq> None"
  shows "\<exists>xs. listLoop sel P appendBuild (map (any_at m) ks) [] = Some (xs, None)
           \<and> lists xs {cb. metaKey (metadata cb) \<in> set ks \<and> cb \<in> stored_builds m} (\<lambda>cb. sel \<or> P (metadata cb))"
proof -
  define build where "build = (\<lambda>k. case m k of Some (ApiObject cb) \<Rightarrow> cb)"
  have at: "\<exists>cb. m k = Some (ApiObject cb) \<and> build k = cb \<and> k = metaKey (metadata cb)"
    if "k \<in> set ks" for k
    using that assms(1,3) unfolding holds_builds_def build_def by fastforce
  then have inj: "inj_on build (set ks)" by (metis inj_onI)
  have "build ` set ks = {cb. metaKey (metadata cb) \<in> set ks \<and> cb \<in> stored_builds m}" (is "_ = ?B")
  proof (intro subset_antisym subsetI)
    show "cb \<in> ?B" if "cb \<in> build ` set ks" for cb
      using that at by (fastforce simp: stored_builds_def)
    show "cb \<in> build ` set ks" if cb: "cb \<in> ?B" for cb
    proof -
      obtain k where k: "m k = Some (ApiObject cb)" using cb by (auto simp: stored_builds_def)
      with assms(1) have "k = metaKey (metadata cb)" by (auto simp: holds_builds_def)
      with k cb show ?thesis by (auto simp: build_def intro!: image_eqI [of _ _ k])
    qed
  qed
  then have "lists (filter (\<lambda>cb. sel \<or> P (metadata cb)) (map build ks)) ?B (\<lambda>cb. sel \<or> P (metadata cb))"
    using inj assms(2) by (auto simp: lists_def distinct_map)
  moreover have "listLoop sel P appendBuild (map (any_at m) ks) [] =
      Some (filter (\<lambda>cb. sel \<or> P (metadata cb)) (map build ks), None)"
    using at unfolding build_def by (subst listLoop_builds) auto
  ultimately show ?thesis by blast
qed

section \<open>Listers are exact over any such indexer\<close>

lemma SelectorEmpty_matches:
  "SelectorEmpty selector \<or> SelectorMatches selector ls \<longleftrightarrow> SelectorMatches selector ls"
  by (cases selector) (auto simp: SelectorEmpty_def)

lemma metaKey_namespace:
  assumes "ns @ ''/'' @ n = metaKey m" "CHR ''/'' \<notin> set (Namespace m)" "CHR ''/'' \<notin> set (Name m)"
    and "CHR ''/'' \<notin> set ns"
  shows "Namespace m = ns \<and> Name m = n"
proof -
  have eq: "split_on CHR ''/'' (metaKey m) = ns # split_on CHR ''/'' n"
    using assms(1,4) split_on_append [of "CHR ''/''" ns n] by simp
  show ?thesis
  proof (cases "Namespace m = ''''")
    case True
    then show ?thesis using eq assms(3) by (simp add: metaKey_def split_on_none split_on_nonempty)
  next
    case False
    then have "split_on CHR ''/'' (metaKey m) = [Namespace m, Name m]"
      using assms(2,3) by (simp add: metaKey_def split_on_none split_on_append)
    then have "Namespace m = ns" using eq by simp
    then show ?thesis using assms(1) False by (simp add: metaKey_def)
  qed
qed

context indexer_contract
begin

lemma lists_all_builds:
  assumes "ok s" "holds_builds (stored s)"
  shows "\<exists>xs. listLoop sel P appendBuild (ixList ix n s) [] = Some (xs, None)
           \<and> lists xs (stored_builds (stored s)) (\<lambda>cb. sel \<or> P (metadata cb))"
proof -
  obtain ks where ks: "ixList ix n s = map (any_at (stored s)) ks" "distinct ks" "set ks = dom (stored s)"
    using list_law [OF assms(1)] by blast
  have "{cb. metaKey (metadata cb) \<in> set ks \<and> cb \<in> stored_builds (stored s)} = stored_builds (stored s)"
    using assms(2) ks(3) by (fastforce simp: stored_builds_def holds_builds_def)
  with listed_builds [OF assms(2) ks(2), of sel P] ks show ?thesis by auto
qed

lemma lister_List_exact:
  assumes "ok s" "holds_builds (stored s)"
  shows "\<exists>xs. lister_List n (NewComponentBuildLister ix) s selector = Some (xs, None)
           \<and> lists xs (stored_builds (stored s)) (\<lambda>cb. SelectorMatches selector (Labels (metadata cb)))"
  using lists_all_builds [OF assms, of "SelectorEmpty selector" "\<lambda>m. SelectorMatches selector (Labels m)" n]
  by (simp add: lister_List_def NewComponentBuildLister_def ListAll_def SelectorEmpty_matches)

lemma namespace_List_exact:
  assumes "ok s" "holds_builds (stored s)"
  shows "\<exists>xs. namespace_List n (lister_ComponentBuilds (NewComponentBuildLister ix) ns) s selector
             = Some (xs, None)
           \<and> lists xs (stored_builds (stored s))
               (\<lambda>cb. (ns = NamespaceAll \<or> obj_ns cb = ns)
                  \<and> SelectorMatches selector (Labels (metadata cb)))"
proof (cases "ns = NamespaceAll")
  case True
  with lists_all_builds [OF assms, of "SelectorEmpty selector" "\<lambda>m. SelectorMatches selector (Labels m)" n]
  show ?thesis
    by (simp add: namespace_List_def lister_ComponentBuilds_def NewComponentBuildLister_def
        ListAllByNamespace_def SelectorEmpty_matches)
next
  case False
  let ?m = "empty_meta\<lparr>Namespace := ns\<rparr>"
  show ?thesis
  proof (cases "ixIndex ix n NamespaceIndex (MetaObject ?m) s")
    case (Inl err)
    then show ?thesis
      using lists_all_builds [OF assms, of False
          "\<lambda>m. Namespace m = ns \<and> SelectorMatches selector (Labels m)" n] False
      by (simp add: namespace_List_def lister_ComponentBuilds_def NewComponentBuildLister_def
          ListAllByNamespace_def)
  next
    case (Inr items)
    then obtain ks where ks: "items = map (any_at (stored s)) ks" "distinct ks"
      "set ks = {k. \<exists>x m'. stored s k = Some x \<and> Accessor x = Inr m' \<and> Namespace m' = ns}"
      using index_law [OF assms(1) Inr] by auto
    have "{cb. metaKey (metadata cb) \<in> set ks \<and> cb \<in> stored_builds (stored s)}
        = {cb \<in> stored_builds (stored s). obj_ns cb = ns}"
      using assms(2) ks(3) by (fastforce simp: stored_builds_def holds_builds_def)
    moreover have "\<forall>k \<in> set ks. stored s k \<noteq> None" using ks(3) by auto
    ultimately show ?thesis
      using listed_builds [OF assms(2) ks(2), of "SelectorEmpty selector"
          "\<lambda>m. SelectorMatches selector (Labels m)"] False Inr
      by (simp add: namespace_List_def lister_ComponentBuilds_def NewComponentBuildLister_def
          ListAllByNamespace_def ks(1) SelectorEmpty_matches lists_def conj_assoc)
  qed
qed

lemma namespace_Get_exact:
  assumes "ok s" "holds_builds (stored s)"
    and names: "\<forall>cb \<in> stored_builds (stored s). CHR ''/'' \<notin> set (obj_ns cb) \<and> CHR ''/'' \<notin> set (obj_name cb)"
    and ns: "ns \<noteq> ''''" "CHR ''/'' \<notin> set ns"
  shows "namespace_Get (lister_ComponentBuilds (NewComponentBuildLister ix) ns) s name =
    Some (if \<exists>cb \<in> stored_builds (stored s). obj_ns cb = ns \<and> obj_name cb = name
          then Inr (THE cb. cb \<in> stored_builds (stored s) \<and> obj_ns cb = ns \<and> obj_name cb = name)
          else Inl (NewNotFound (Resource ''componentbuild'') name))"
proof (cases "stored s (ns @ ''/'' @ name)")
  case None
  have "\<not> (\<exists>cb \<in> stored_builds (stored s). obj_ns cb = ns \<and> obj_name cb = name)"
    using None assms(2) ns(1) by (fastforce simp: stored_builds_def holds_builds_def metaKey_def)
  then show ?thesis
    using None
    by (auto simp: namespace_Get_def lister_ComponentBuilds_def NewComponentBuildLister_def
        get_law [OF assms(1)])
next
  case (Some x)
  then obtain cb where cb: "x = ApiObject cb" "ns @ ''/'' @ name = metaKey (metadata cb)"
    using assms(2) by (auto simp: holds_builds_def)
  then have in_builds: "cb \<in> stored_builds (stored s)" using Some by (auto simp: stored_builds_def)
  have key: "obj_ns cb = ns \<and> obj_name cb = name"
    using metaKey_namespace [OF cb(2)] names in_builds ns(2) by blast
  have only: "cb' = cb" if "cb' \<in> stored_builds (stored s)" "obj_ns cb' = ns" "obj_name cb' = name" for cb'
    using that assms(2) Some cb(1) ns(1) by (fastforce simp: stored_builds_def holds_builds_def metaKey_def)
  have "(THE cb. cb \<in> stored_builds (stored s) \<and> obj_ns cb = ns \<and> obj_name cb = name) = cb"
    "\<exists>cb \<in> stored_builds (stored s). obj_ns cb = ns \<and> obj_name cb = name"
    using in_builds key only by (blast intro: the_equality)+
  moreover have "ixGetByKey ix (ns @ ''/'' @ name) s = (ApiObject cb, True, None)"
    using get_law [OF assms(1), of "ns @ ''/'' @ name"] Some cb(1) by (simp add: any_at_def)
  ultimately show ?thesis
    by (simp add: namespace_Get_def lister_ComponentBuilds_def NewComponentBuildLister_def)
qed

end

section \<open>The cache as indexer\<close>

definition cache_indexer :: "(build_ext cache, build_ext) Indexer" where
  "cache_indexer =
     \<lparr>ixList = cache_List, ixIndex = cache_Index, ixGetByKey = cache_GetByKey\<rparr>"

text \<open>
  A correct cache whose index of namespaces, if it has one, is the informers' own.
\<close>

definition namespace_indexed :: "build_ext cache \<Rightarrow> bool" where
  "namespace_indexed c \<longleftrightarrow>
     cache_ok c \<and>
     (\<forall>f. map_of (cache_indexers c) NamespaceIndex = Some f \<longrightarrow> f = MetaNamespaceIndexFunc)"

lemma cache_Index_law:
  assumes "namespace_indexed c"
    and "cache_Index n NamespaceIndex (MetaObject m) c = Inr xs"
  shows "\<exists>ks. xs = map (any_at (cached c)) ks \<and> distinct ks
    \<and> set ks = {k. \<exists>x m'. cached c k = Some x \<and> Accessor x = Inr m' \<and> Namespace m' = Namespace m}"
proof -
  obtain f where f: "map_of (cache_indexers c) NamespaceIndex = Some f"
    using assms(2) by (auto simp: cache_Index_def store_Index_def split: option.splits)
  with assms(1) have "f = MetaNamespaceIndexFunc" "store_ok (cacheStorage c)"
    by (auto simp: namespace_indexed_def cache_ok_def)
  moreover from this have "f (MetaObject m) = Inr [Namespace m]" by (simp add: MetaNamespaceIndexFunc_def)
  ultimately show ?thesis
    using store_Index_exact [of "cacheStorage c" NamespaceIndex f "MetaObject m" "[Namespace m]" n] f assms(2)
    by (auto simp: cache_Index_def namespace_values item_at_any [abs_def])
qed

interpretation cache_ix: indexer_contract cache_indexer namespace_indexed cached
proof unfold_locales
  fix c :: "build_ext cache" and n k m xs
  assume ok: "namespace_indexed c"
  then have "store_ok (cacheStorage c)" by (simp add: namespace_indexed_def cache_ok_def)
  from store_List_exact [OF this, of n]
  show "\<exists>ks. ixList cache_indexer n c = map (any_at (cached c)) ks \<and> distinct ks \<and> set ks = dom (cached c)"
    by (simp add: cache_indexer_def cache_List_def item_at_any [abs_def])
  show "ixGetByKey cache_indexer k c = (any_at (cached c) k, cached c k \<noteq> None, None)"
    by (simp add: cache_indexer_def cache_GetByKey_def item_at_any)
  show "\<exists>ks. xs = map (any_at (cached c)) ks \<and> distinct ks \<and>
      set ks = {k. \<exists>x m'. cached c k = Some x \<and> Accessor x = Inr m' \<and> Namespace m' = Namespace m}"
    if "ixIndex cache_indexer n NamespaceIndex (MetaObject m) c = Inr xs"
    using that cache_Index_law [OF ok] by (simp add: cache_indexer_def)
qed

end
