(* ===== verification/SharedInformer.thy ===== *)
theory SharedInformer
  imports DeltaFifo Listers ClientInterface
begin

text \<open>
  The machinery that runs an informer, from the vendored \<open>k8s.io/client-go/tools/cache\<close>:
  \<open>sharedIndexInformer\<close> (\<open>shared_informer.go\<close>), its reflector (\<open>reflector.go\<close>), which lists and
  watches through the functions the informer was made with, and the process loop (\<open>controller.go\<close>),
  which moves the queued changes into the informer's store. The reflector and the loop run
  concurrently: their steps (\<open>informer_step\<close>) interleave freely with those of the other users of the
  API (\<open>run_step\<close>). A run is one of \<open>ListAndWatch\<close> from its list on, with one watch that goes on: that
  the watch ends, and that the reflector lists or watches again, is not modelled, nor are back-off, the
  choice of resource versions and the delivery to several handlers. The notifications are noted in the
  order of their distribution.
\<close>

section \<open>The informer\<close>

record informer =
  siIndexer :: "build_ext cache"
  siQueue :: "build_ext DeltaFIFO option"
  siNotified :: "build_ext handler_call list"

record ('s, 'w) sharedIndexInformer =
  listFunc :: "ListOptions \<Rightarrow> ('s, BuildList) answer"
  watchFunc :: "ListOptions \<Rightarrow> ('s, 'w) answer"
  objectType :: GoType
  resyncCheckPeriod :: "64 word"
  running :: informer

definition NewSharedIndexInformer ::
  "(ListOptions \<Rightarrow> ('s, BuildList) answer) \<Rightarrow> (ListOptions \<Rightarrow> ('s, 'w) answer) \<Rightarrow> GoType \<Rightarrow> 64 word
     \<Rightarrow> (string \<times> build_ext IndexFunc) list \<Rightarrow> ('s, 'w) sharedIndexInformer" where
  "NewSharedIndexInformer listF watchF exampleObject resyncPeriod fs =
     \<lparr>listFunc = listF, watchFunc = watchF, objectType = exampleObject,
      resyncCheckPeriod = resyncPeriod,
      running = \<lparr>siIndexer = NewIndexer DeletionHandlingMetaNamespaceKeyFunc fs,
                 siQueue = None, siNotified = []\<rparr>\<rparr>"

text \<open>\<open>Run\<close> makes the queue, once; \<open>HasSynced\<close> is false before.\<close>

definition informer_Run :: "informer \<Rightarrow> informer" where
  "informer_Run i = (case siQueue i of Some q \<Rightarrow> i | None \<Rightarrow> i\<lparr>siQueue := Some NewDeltaFIFO\<rparr>)"

definition informer_HasSynced :: "informer \<Rightarrow> bool" where
  "informer_HasSynced i = (case siQueue i of None \<Rightarrow> False | Some q \<Rightarrow> fifo_HasSynced q)"

section \<open>The reflector\<close>

definition on_queue ::
  "informer \<Rightarrow> (build_ext DeltaFIFO \<Rightarrow> api_error option \<times> build_ext DeltaFIFO)
     \<Rightarrow> api_error option \<times> informer" where
  "on_queue i op =
     (case siQueue i of None \<Rightarrow> (None, i) | Some q \<Rightarrow> (case op q of (err, q') \<Rightarrow> (err, i\<lparr>siQueue := Some q'\<rparr>)))"

definition syncWith :: "nat \<Rightarrow> ComponentBuild list \<Rightarrow> informer \<Rightarrow> api_error option \<times> informer" where
  "syncWith n items i = on_queue i (fifo_Replace n (siIndexer i) (map ApiObject items))"

text \<open>
  \<open>list\<close>: the items of the list function's answer go to \<open>Replace\<close>; an error leaves the queue alone.
  The messages do not name the type.
\<close>

definition reflector_list ::
  "nat \<Rightarrow> ('s, 'w) sharedIndexInformer \<Rightarrow> ListOptions \<Rightarrow> ('s, api_error option \<times> informer) state" where
  "reflector_list n r options = do {
     (l, err) \<leftarrow> listFunc r options;
     State_Monad.return
       (case err of
          Some err \<Rightarrow> (Some (OtherError (''failed to list: '' @ errorString err)), running r)
        | None \<Rightarrow>
            (case l of
               None \<Rightarrow> (Some (OtherError ''unable to understand list result''), running r)
             | Some l \<Rightarrow>
                (case syncWith n (blItems l) (running r) of (err, i) \<Rightarrow>
                   (map_option (\<lambda>err. OtherError (''unable to sync list result: '' @ errorString err)) err, i))))
   }"

text \<open>\<open>watchHandler\<close>: what the loop does with an event that carries an object.\<close>

definition handleEvent :: "watch_event \<Rightarrow> informer \<Rightarrow> api_error option \<times> informer" where
  "handleEvent ev i =
     on_queue i (case ev of
        AddedEvent cb \<Rightarrow> fifo_Add (ApiObject cb)
      | ModifiedEvent cb \<Rightarrow> fifo_Update (ApiObject cb)
      | DeletedEvent cb \<Rightarrow> fifo_Delete (siIndexer i) (ApiObject cb))"

definition forceResync :: "nat \<Rightarrow> informer \<Rightarrow> api_error option \<times> informer" where
  "forceResync n i = on_queue i (fifo_Resync n (siIndexer i))"

section \<open>The process loop\<close>

text \<open>
  One round: \<open>Pop\<close> with \<open>HandleDeltas\<close>. With an empty queue it waits, here without effect; None is a
  panic.
\<close>

definition waits :: "informer \<Rightarrow> bool" where
  "waits i \<longleftrightarrow> (case siQueue i of None \<Rightarrow> True | Some q \<Rightarrow> fifoQueue q = [])"

definition processNext :: "informer \<Rightarrow> (api_error option \<times> informer) option" where
  "processNext i =
     (case Option.bind (siQueue i) fifo_Pop of
        None \<Rightarrow> Some (None, i)
      | Some (ds, q) \<Rightarrow>
          (case processDeltas None ds (siNotified i) (siIndexer i) of
             None \<Rightarrow> None
           | Some (err, ns, c) \<Rightarrow> Some (err, i\<lparr>siIndexer := c, siQueue := Some q, siNotified := ns\<rparr>)))"

definition backlog :: "informer \<Rightarrow> nat" where
  "backlog i = (case siQueue i of None \<Rightarrow> 0 | Some q \<Rightarrow> length (fifoQueue q))"

lemma popLoop_shorter:
  "popLoop ks f = Some (ds, f') \<Longrightarrow> length (fifoQueue f') < length ks"
  by (induction ks arbitrary: f) (fastforce simp: Let_def split: option.splits)+

lemma processNext_shorter:
  "\<not> waits i \<Longrightarrow> processNext i = Some (err, i') \<Longrightarrow> i' = i \<or> backlog i' < backlog i"
  by (auto simp: processNext_def waits_def backlog_def fifo_Pop_def split: option.splits)
    (drule popLoop_shorter, simp)

text \<open>The loop until it waits, errors ignored as \<open>processLoop\<close> does.\<close>

function drain :: "informer \<Rightarrow> informer option" where
  "drain i =
     (case processNext i of
        None \<Rightarrow> None
      | Some (err, i') \<Rightarrow> if backlog i' < backlog i then drain i' else Some i')"
  by pat_completeness auto
termination by (relation "measure backlog") auto

section \<open>What the store is on its way to\<close>

definition namespace_index :: "(string \<times> build_ext IndexFunc) list" where
  "namespace_index = [(NamespaceIndex, MetaNamespaceIndexFunc)]"

definition informer_ok :: "informer \<Rightarrow> bool" where
  "informer_ok i \<longleftrightarrow>
     informer_store (siIndexer i) \<and> cache_indexers (siIndexer i) = namespace_index
     \<and> (case siQueue i of None \<Rightarrow> True | Some q \<Rightarrow> fifo_ok q \<and> pending_fit namespace_index q)"

definition target :: "informer \<Rightarrow> string \<rightharpoonup> build_ext any" where
  "target i =
     (case siQueue i of None \<Rightarrow> cached (siIndexer i) | Some q \<Rightarrow> mirror q (cached (siIndexer i)))"

fun put_event :: "watch_event \<Rightarrow> (string \<rightharpoonup> build_ext any) \<Rightarrow> (string \<rightharpoonup> build_ext any)" where
  "put_event (AddedEvent cb) v = v(metaKey (metadata cb) \<mapsto> ApiObject cb)"
| "put_event (ModifiedEvent cb) v = v(metaKey (metadata cb) \<mapsto> ApiObject cb)"
| "put_event (DeletedEvent cb) v = v(metaKey (metadata cb) := None)"

text \<open>A step of an informer that answers no error and takes its target from one map to another.\<close>

definition retargets ::
  "informer \<Rightarrow> api_error option \<times> informer \<Rightarrow> (string \<rightharpoonup> build_ext any) \<Rightarrow> bool" where
  "retargets i r v \<longleftrightarrow>
     fst r = None \<and> informer_ok (snd r) \<and> target (snd r) = v \<and> siIndexer (snd r) = siIndexer i
     \<and> (siQueue i \<noteq> None \<longrightarrow> siQueue (snd r) \<noteq> None)"

lemma on_queue_retargets:
  assumes "informer_ok i" "siQueue i = Some q"
    and "queues namespace_index q (op q) change (cached (siIndexer i))"
  shows "retargets i (on_queue i op) (change (target i))"
  using assms by (auto simp: on_queue_def queues_def retargets_def informer_ok_def target_def)

lemma build_key [simp]: "fifo_KeyOf (ApiObject cb) = Inr (metaKey (metadata cb))"
  by (simp add: KeyOf_DeletionHandling)

lemma build_indexable [simp]: "indexable namespace_index (ApiObject cb)"
  by (simp add: indexable_def namespace_index_def MetaNamespaceIndexFunc_def)

lemma handleEvent_retargets:
  assumes "informer_ok i" "siQueue i \<noteq> None"
  shows "retargets i (handleEvent ev i) (put_event ev (target i))"
proof -
  obtain q where q: "siQueue i = Some q" using assms(2) by blast
  with assms(1) have ok: "fifo_ok q" by (simp add: informer_ok_def)
  note step = on_queue_retargets [OF assms(1) q]
  show ?thesis
  proof (cases ev)
    case (AddedEvent cb)
    have "queues namespace_index q (fifo_Add (ApiObject cb) q)
        (\<lambda>v. v(metaKey (metadata cb) \<mapsto> ApiObject cb)) (cached (siIndexer i))"
      by (rule fifo_Add_queues(1)) (simp_all add: ok)
    from step [of "fifo_Add (ApiObject cb)", OF this] AddedEvent show ?thesis by (simp add: handleEvent_def)
  next
    case (ModifiedEvent cb)
    have "queues namespace_index q (fifo_Update (ApiObject cb) q)
        (\<lambda>v. v(metaKey (metadata cb) \<mapsto> ApiObject cb)) (cached (siIndexer i))"
      by (rule fifo_Add_queues(2)) (simp_all add: ok)
    from step [of "fifo_Update (ApiObject cb)", OF this] ModifiedEvent show ?thesis by (simp add: handleEvent_def)
  next
    case (DeletedEvent cb)
    have "queues namespace_index q (fifo_Delete (siIndexer i) (ApiObject cb) q)
        (\<lambda>v. v(metaKey (metadata cb) := None)) (cached (siIndexer i))"
      by (rule fifo_Delete_queues) (simp_all add: ok)
    from step [of "fifo_Delete (siIndexer i) (ApiObject cb)", OF this] DeletedEvent show ?thesis by (simp add: handleEvent_def)
  qed
qed

lemma forceResync_retargets:
  assumes "informer_ok i" "siQueue i \<noteq> None"
  shows "retargets i (forceResync n i) (target i)"
proof -
  obtain q where q: "siQueue i = Some q" using assms(2) by blast
  with assms(1) have "fifo_ok q" "informer_store (siIndexer i)" "cache_indexers (siIndexer i) = namespace_index"
    by (simp_all add: informer_ok_def)
  with fifo_Resync_queues [of q "siIndexer i" n] show ?thesis
    using on_queue_retargets [OF assms(1) q, of "fifo_Resync n (siIndexer i)" "\<lambda>v. v"]
    by (simp add: forceResync_def)
qed

text \<open>A round of the loop never panics or fails, and moves the store without moving its target.\<close>

lemma processNext_ok:
  assumes "informer_ok i"
  shows "\<exists>i'. processNext i = Some (None, i') \<and> informer_ok i' \<and> target i' = target i
    \<and> (siQueue i' = None \<longleftrightarrow> siQueue i = None) \<and> (\<not> waits i \<longrightarrow> backlog i' < backlog i)"
proof (cases "siQueue i")
  case None
  with assms show ?thesis by (simp add: processNext_def waits_def)
next
  case (Some q)
  let ?c = "siIndexer i"
  have ok: "fifo_ok q" "pending_fit namespace_index q" "cache_ok ?c" "cache_indexers ?c = namespace_index"
    and kf: "keyFunc ?c = fifo_KeyOf"
    using assms Some by (simp_all add: informer_ok_def informer_store_def KeyOf_DeletionHandling)
  show ?thesis
  proof (cases "fifoQueue q = []")
    case True
    with Some assms show ?thesis by (simp add: processNext_def waits_def fifo_Pop_def)
  next
    case False
    then obtain k ks ds q' where pop: "fifoQueue q = k # ks" "fifo_Pop q = Some (ds, q')" "fifo_ok q'"
      "fifoQueue q' = ks" "ds \<noteq> []" "\<forall>d \<in> set ds. fifo_KeyOf (DeltaObject d) = Inr k"
      "\<forall>m. mirror q' (m(k := delta_outcome (last ds))) = mirror q m" "pending_fit namespace_index q'"
      "\<forall>d \<in> set ds. DeltaKind d \<noteq> Deleted \<longrightarrow> indexable namespace_index (DeltaObject d)"
      using fifo_Pop_ok [OF ok(1)] ok(2) by auto
    then have "\<forall>d \<in> set ds. playable ?c d" by (simp add: playable_def kf ok(4))
    from processDeltas_plays [OF ok(3) this, of "siNotified i"] obtain ns c' where
      c': "processDeltas None ds (siNotified i) ?c = Some (None, ns, c')" "cache_ok c'"
      "cached c' = fold (play fifo_KeyOf) ds (cached ?c)" "keyFunc c' = keyFunc ?c"
      "cache_indexers c' = cache_indexers ?c"
      by (auto simp: turns_def kf)
    then have "cached c' = (cached ?c)(k := delta_outcome (last ds))"
      using play_one_key [OF pop(5,6)] by simp
    then show ?thesis
      using c'(1,2,4,5) pop(1-4,7,8) Some assms
      by (auto simp: processNext_def informer_ok_def informer_store_def target_def waits_def backlog_def)
  qed
qed

section \<open>Lists\<close>

definition put_listed :: "ComponentBuild \<Rightarrow> (string \<rightharpoonup> build_ext any) \<Rightarrow> (string \<rightharpoonup> build_ext any)" where
  "put_listed cb v = v(metaKey (metadata cb) \<mapsto> ApiObject cb)"

lemma put_item_build: "put_item (ApiObject cb) = put_listed cb"
  by (rule ext) (simp add: put_item_key put_listed_def)

lemma put_builds: "fold put_item (map ApiObject xs) v = fold put_listed xs v"
  by (induction xs arbitrary: v) (simp_all add: put_item_build)

text \<open>
  A list takes the informer to exactly the objects listed, unless an object is queued that is neither
  in the list nor yet in the store. Nothing is queued at the first list.
\<close>

lemma syncWith_retargets:
  assumes "informer_ok i" "siQueue i \<noteq> None"
    and unseen: "\<And>k. target i k \<noteq> None \<Longrightarrow> cached (siIndexer i) k \<noteq> None \<or> k \<in> item_keys (map ApiObject xs)"
  shows "retargets i (syncWith n xs i) (fold put_listed xs Map.empty)"
proof -
  obtain q where q: "siQueue i = Some q" using assms(2) by blast
  with assms(1) have ok: "fifo_ok q" "pending_fit namespace_index q" by (simp_all add: informer_ok_def)
  let ?items = "map ApiObject xs" and ?c = "siIndexer i"
  have "listable namespace_index ?items" by (auto simp: listable_def)
  note step = on_queue_retargets [OF assms(1) q, of "fifo_Replace n ?c ?items",
      OF fifo_Replace_queues [OF ok this]]
  have "(\<lambda>k. if k \<in> item_keys ?items then fold put_item ?items Map.empty k
             else if cached ?c k \<noteq> None then None else target i k) = fold put_listed xs Map.empty"
  proof
    fix k
    show "(if k \<in> item_keys ?items then fold put_item ?items Map.empty k
        else if cached ?c k \<noteq> None then None else target i k) = fold put_listed xs Map.empty k"
      using unseen [of k] put_items_other [of k ?items Map.empty]
      by (cases "target i k") (auto simp: put_builds)
  qed
  then show ?thesis using step by (simp add: syncWith_def)
qed

lemma informer_Run_ok:
  "informer_ok i \<Longrightarrow> informer_ok (informer_Run i) \<and> target (informer_Run i) = target i
    \<and> siQueue (informer_Run i) \<noteq> None \<and> siIndexer (informer_Run i) = siIndexer i"
  by (auto simp: informer_Run_def informer_ok_def target_def split: option.splits)

text \<open>A new informer starts with nothing.\<close>

lemma NewSharedIndexInformer_ok:
  "informer_ok (running (NewSharedIndexInformer l w ty resync namespace_index))"
  "target (running (NewSharedIndexInformer l w ty resync namespace_index)) = Map.empty"
  "cached (siIndexer (running (NewSharedIndexInformer l w ty resync namespace_index))) = Map.empty"
  by (simp_all add: NewSharedIndexInformer_def informer_ok_def informer_store_def NewIndexer_ok
      namespace_index_def target_def)
    (simp_all add: NewIndexer_def NewThreadSafeStore_def)

text \<open>Draining the queue brings the store to its target.\<close>

lemma waits_target: "informer_ok i \<Longrightarrow> waits i \<Longrightarrow> cached (siIndexer i) = target i"
proof (cases "siQueue i")
  case (Some q)
  moreover assume "informer_ok i" "waits i"
  ultimately have "dom (map_of (fifoItems q)) = {}"
    by (simp add: informer_ok_def fifo_ok_def waits_def)
  then have "map_of (fifoItems q) = Map.empty" by (simp only: dom_eq_empty_conv)
  with Some show ?thesis by (simp add: target_def mirror_def)
qed (simp add: target_def)

lemma drain_reaches:
  assumes "informer_ok i"
  shows "\<exists>i'. drain i = Some i' \<and> informer_ok i' \<and> waits i' \<and> cached (siIndexer i') = target i"
  using assms
proof (induction i rule: drain.induct)
  case (1 i)
  obtain i' where i': "processNext i = Some (None, i')" "informer_ok i'" "target i' = target i"
    "\<not> waits i \<longrightarrow> backlog i' < backlog i"
    using processNext_ok [OF "1.prems"] by blast
  show ?case
  proof (cases "backlog i' < backlog i")
    case True
    with 1 i' show ?thesis by (subst drain.simps) auto
  next
    case False
    then have w: "waits i" using i'(4) by blast
    then have "i' = i"
      using i'(1) "1.prems"
      by (auto simp: processNext_def waits_def fifo_Pop_def split: option.splits)
    with i' False w "1.prems" waits_target show ?thesis by (subst drain.simps) auto
  qed
qed

section \<open>An informer of an API that changes\<close>

text \<open>
  The steps of a running informer: an event read from the watch, a round of the loop, a resync. In a
  run they interleave with changes of the API by others.
\<close>

inductive informer_step ::
  "('s \<Rightarrow> watch_event list) \<Rightarrow> ('s \<Rightarrow> 's) \<Rightarrow> 's \<times> informer \<Rightarrow> 's \<times> informer \<Rightarrow> bool"
  for unread receive where
  step_event: "unread s = ev # evs \<Longrightarrow> handleEvent ev i = (err, i') \<Longrightarrow>
    informer_step unread receive (s, i) (receive s, i')"
| step_process: "processNext i = Some (err, i') \<Longrightarrow> informer_step unread receive (s, i) (s, i')"
| step_resync: "forceResync n i = (err, i') \<Longrightarrow> informer_step unread receive (s, i) (s, i')"

inductive run_step ::
  "('s \<Rightarrow> 's \<Rightarrow> bool) \<Rightarrow> ('s \<Rightarrow> watch_event list) \<Rightarrow> ('s \<Rightarrow> 's) \<Rightarrow> 's \<times> informer \<Rightarrow> 's \<times> informer \<Rightarrow> bool"
  for change unread receive where
  step_own: "informer_step unread receive si si' \<Longrightarrow> run_step change unread receive si si'"
| step_others: "change s s' \<Longrightarrow> run_step change unread receive (s, i) (s', i)"

lemma own_run:
  "(informer_step unread receive)\<^sup>*\<^sup>* si si' \<Longrightarrow> (run_step change unread receive)\<^sup>*\<^sup>* si si'"
  by (erule rtranclp_mono [THEN predicate2D, rotated]) (auto intro: step_own)

text \<open>While it has no watch, an informer keeps what it is on its way to.\<close>

abbreviation no_watch :: "'s \<Rightarrow> watch_event list" where
  "no_watch s \<equiv> []"

definition aims :: "(string \<rightharpoonup> build_ext any) \<Rightarrow> informer \<Rightarrow> bool" where
  "aims v i \<longleftrightarrow> informer_ok i \<and> siQueue i \<noteq> None \<and> target i = v"

lemma unwatched_step:
  assumes "run_step change no_watch receive (s, i) (s', i')" and "aims v i"
  shows "aims v i' \<and> (s' = s \<or> change s s')"
  using assms(1)
proof cases
  case step_own
  then show ?thesis
  proof cases
    case (step_process err)
    with assms(2) processNext_ok [of i] show ?thesis by (auto simp: aims_def)
  next
    case (step_resync n err)
    with assms(2) forceResync_retargets [of i n] show ?thesis by (auto simp: aims_def retargets_def)
  qed simp
qed (use assms(2) in simp_all)

lemma unwatched_run:
  assumes "(run_step change no_watch receive)\<^sup>*\<^sup>* (s, i) (s', i')" and "aims v i"
  shows "aims v i' \<and> change\<^sup>*\<^sup>* s s'"
  using assms
proof (induction "(s', i')" arbitrary: s' i' rule: rtranclp_induct)
  case (step si)
  obtain s1 i1 where si: "si = (s1, i1)" by (cases si)
  with step have "aims v i1 \<and> change\<^sup>*\<^sup>* s s1" by simp
  with step(2) unwatched_step [of change receive s1 i1 s' i' v] si show ?case
    by (auto intro: rtranclp.rtrancl_into_rtrancl)
qed simp

text \<open>
  What an informer relies on: a change of the API appears in the watch as events that describe it,
  and reading an event changes nothing but the watch.
\<close>

locale watched_api =
  fixes ok :: "'s \<Rightarrow> bool" and change :: "'s \<Rightarrow> 's \<Rightarrow> bool" and unread :: "'s \<Rightarrow> watch_event list"
    and receive :: "'s \<Rightarrow> 's" and view :: "'s \<Rightarrow> string \<rightharpoonup> build_ext any"
  assumes change_law: "ok s \<Longrightarrow> change s s' \<Longrightarrow>
      ok s' \<and> (\<exists>evs. unread s' = unread s @ evs \<and> view s' = fold put_event evs (view s))"
    and receive_law: "ok s \<Longrightarrow> unread s = ev # evs \<Longrightarrow>
      ok (receive s) \<and> unread (receive s) = evs \<and> view (receive s) = view s"
begin

definition informed :: "'s \<times> informer \<Rightarrow> bool" where
  "informed si \<longleftrightarrow>
     ok (fst si) \<and> informer_ok (snd si) \<and> siQueue (snd si) \<noteq> None
     \<and> fold put_event (unread (fst si)) (target (snd si)) = view (fst si)"

lemma informed_own:
  assumes "informer_step unread receive si si'" "informed si"
  shows "informed si' \<and> view (fst si') = view (fst si)"
  using assms(1)
proof cases
  case (step_event s ev evs i err i')
  then have i: "informer_ok i" "siQueue i \<noteq> None" "ok s" using assms(2) by (simp_all add: informed_def)
  from handleEvent_retargets [OF i(1,2), of ev] step_event(4) have "informer_ok i'"
    "target i' = put_event ev (target i)" "siQueue i' \<noteq> None"
    using i(2) by (simp_all add: retargets_def)
  with receive_law [OF i(3) step_event(3)] step_event assms(2) show ?thesis by (simp add: informed_def)
next
  case (step_process i err i' s)
  with assms(2) processNext_ok [of i] show ?thesis by (auto simp: informed_def)
next
  case (step_resync n i err i' s)
  with assms(2) forceResync_retargets [of i n] show ?thesis by (auto simp: informed_def retargets_def)
qed

lemma informed_step:
  assumes "run_step change unread receive si si'" "informed si"
  shows "informed si'"
  using assms(1)
proof cases
  case step_own
  with assms(2) show ?thesis using informed_own by blast
next
  case (step_others s s' i)
  with assms(2) change_law show ?thesis by (fastforce simp: informed_def)
qed

lemma informed_run:
  assumes "(run_step change unread receive)\<^sup>*\<^sup>* si si'" "informed si"
  shows "informed si'"
  using assms
proof (induction rule: rtranclp_induct)
  case (step si1 si2)
  then show ?case using informed_step by blast
qed

text \<open>
  Whatever has happened: when the informer has read its events and its queue is empty, its store holds
  exactly the objects of the API.
\<close>

lemma informer_converges:
  assumes "informed si" "(run_step change unread receive)\<^sup>*\<^sup>* si (s, i)"
    and "unread s = []" "waits i"
  shows "cached (siIndexer i) = view s"
  using informed_run [OF assms(2,1)] waits_target [OF _ assms(4)] assms(3) by (simp add: informed_def)

text \<open>
  By its own steps the informer can always get there: it reads what is unread, then its loop empties
  the queue.
\<close>

lemma reads_all:
  "informed (s, i) \<Longrightarrow> \<exists>s' i'. (informer_step unread receive)\<^sup>*\<^sup>* (s, i) (s', i')
     \<and> unread s' = [] \<and> view s' = view s"
proof (induction "length (unread s)" arbitrary: s i)
  case 0
  then show ?case by auto
next
  case (Suc n)
  then obtain ev evs where ev: "unread s = ev # evs" by (cases "unread s") auto
  obtain err i1 where "handleEvent ev i = (err, i1)" by (cases "handleEvent ev i")
  with ev have step: "informer_step unread receive (s, i) (receive s, i1)" by (rule step_event)
  have "ok s" using Suc.prems by (simp add: informed_def)
  then have r: "unread (receive s) = evs" "view (receive s) = view s" using receive_law ev by blast+
  then have "n = length (unread (receive s))" using Suc.hyps(2) ev by simp
  from Suc.hyps(1) [OF this conjunct1 [OF informed_own [OF step Suc.prems]]] r(2)
  show ?case using converse_rtranclp_into_rtranclp [of "informer_step unread receive", OF step] by metis
qed

lemma drains_all:
  "informer_ok i \<Longrightarrow> \<exists>i'. (informer_step unread receive)\<^sup>*\<^sup>* (s, i) (s, i') \<and> waits i'"
proof (induction "backlog i" arbitrary: i rule: less_induct)
  case less
  show ?case
  proof (cases "waits i")
    case False
    obtain i1 where i1: "processNext i = Some (None, i1)" "informer_ok i1" "backlog i1 < backlog i"
      using processNext_ok [OF less.prems] False by blast
    from step_process [OF i1(1)] less.hyps [OF i1(3,2)]
    show ?thesis by (meson converse_rtranclp_into_rtranclp)
  qed auto
qed

lemma informer_settles:
  assumes "informed (s, i)"
  shows "\<exists>s' i'. (informer_step unread receive)\<^sup>*\<^sup>* (s, i) (s', i') \<and> view s' = view s
    \<and> unread s' = [] \<and> waits i' \<and> cached (siIndexer i') = view s"
proof -
  obtain s' i1 where s': "(informer_step unread receive)\<^sup>*\<^sup>* (s, i) (s', i1)" "unread s' = []" "view s' = view s"
    using reads_all [OF assms] by blast
  have "informer_ok i1" using informed_run [OF own_run [OF s'(1)] assms] by (simp add: informed_def)
  then obtain i' where i': "(informer_step unread receive)\<^sup>*\<^sup>* (s', i1) (s', i')" "waits i'"
    using drains_all by blast
  with s' have run: "(informer_step unread receive)\<^sup>*\<^sup>* (s, i) (s', i')" by (meson rtranclp_trans)
  from informer_converges [OF assms own_run [OF run] s'(2) i'(2)] s' i' run show ?thesis by metis
qed

end

end
