(* ===== verification/InformerFactory.thy ===== *)
theory InformerFactory
  imports SharedInformer
begin

text \<open>
  The generated informers (\<open>pkg/client/informers/externalversions\<close>): the informer of component builds
  (\<open>apheleia/v1alpha1/componentbuild.go\<close>), its group and version (\<open>apheleia/interface.go\<close>,
  \<open>apheleia/v1alpha1/interface.go\<close>), the shared factory (\<open>factory.go\<close>) and its generic access
  (\<open>generic.go\<close>). Informers are shared by pointer, so they live in a list, and a pointer is a position
  in it. \<open>go informer.Run(stopCh)\<close> notes the pointer among the runs launched.
\<close>

section \<open>The informer of component builds\<close>

text \<open>A clientset, as far as informers use it: \<open>ApheleiaV1alpha1().ComponentBuilds(namespace)\<close>.\<close>

type_synonym ('s, 'w) versioned_Interface = "string \<Rightarrow> ('s, 'w) ComponentBuildInterface"

type_synonym TweakListOptionsFunc = "ListOptions \<Rightarrow> ListOptions"

type_synonym ('s, 'w) NewInformerFunc =
  "('s, 'w) versioned_Interface \<Rightarrow> 64 word \<Rightarrow> ('s, 'w) sharedIndexInformer"

definition tweaked :: "TweakListOptionsFunc option \<Rightarrow> ListOptions \<Rightarrow> ListOptions" where
  "tweaked tweakListOptions options =
     (case tweakListOptions of None \<Rightarrow> options | Some tweak \<Rightarrow> tweak options)"

definition NewFilteredComponentBuildInformer ::
  "('s, 'w) versioned_Interface \<Rightarrow> string \<Rightarrow> 64 word \<Rightarrow> (string \<times> build_ext IndexFunc) list
     \<Rightarrow> TweakListOptionsFunc option \<Rightarrow> ('s, 'w) sharedIndexInformer" where
  "NewFilteredComponentBuildInformer client namespace resyncPeriod fs tweakListOptions =
     NewSharedIndexInformer
       (\<lambda>options. cbiList (client namespace) (tweaked tweakListOptions options))
       (\<lambda>options. cbiWatch (client namespace) (tweaked tweakListOptions options))
       ComponentBuildType resyncPeriod fs"

definition NewComponentBuildInformer ::
  "('s, 'w) versioned_Interface \<Rightarrow> string \<Rightarrow> 64 word \<Rightarrow> (string \<times> build_ext IndexFunc) list
     \<Rightarrow> ('s, 'w) sharedIndexInformer" where
  "NewComponentBuildInformer client namespace resyncPeriod fs =
     NewFilteredComponentBuildInformer client namespace resyncPeriod fs None"

section \<open>The factory\<close>

record ('s, 'w) sharedInformerFactory =
  facClient :: "('s, 'w) versioned_Interface"
  facNamespace :: string
  facTweak :: "TweakListOptionsFunc option"
  defaultResync :: "64 word"
  customResync :: "(GoType \<times> 64 word) list"
  facInformers :: "(GoType \<times> nat) list"
  startedInformers :: "(GoType \<times> bool) list"

record ('s, 'w) shop =
  factory :: "('s, 'w) sharedInformerFactory"
  informerHeap :: "('s, 'w) sharedIndexInformer list"
  launched :: "nat list"

type_synonym ('s, 'w) SharedInformerOption =
  "('s, 'w) sharedInformerFactory \<Rightarrow> ('s, 'w) sharedInformerFactory"

text \<open>\<open>resyncConfig\<close> is a map from objects, of which only the types count, in the order of the loop.\<close>

definition WithCustomResyncConfig :: "(GoType \<times> 64 word) list \<Rightarrow> ('s, 'w) SharedInformerOption" where
  "WithCustomResyncConfig resyncConfig fac =
     fac\<lparr>customResync := fold (\<lambda>(k, v). AList.update k v) resyncConfig (customResync fac)\<rparr>"

definition WithTweakListOptions :: "TweakListOptionsFunc option \<Rightarrow> ('s, 'w) SharedInformerOption" where
  "WithTweakListOptions tweakListOptions fac = fac\<lparr>facTweak := tweakListOptions\<rparr>"

definition WithNamespace :: "string \<Rightarrow> ('s, 'w) SharedInformerOption" where
  "WithNamespace namespace fac = fac\<lparr>facNamespace := namespace\<rparr>"

definition NewSharedInformerFactoryWithOptions ::
  "('s, 'w) versioned_Interface \<Rightarrow> 64 word \<Rightarrow> ('s, 'w) SharedInformerOption list
     \<Rightarrow> ('s, 'w) sharedInformerFactory" where
  "NewSharedInformerFactoryWithOptions client resync options =
     fold (\<lambda>opt fac. opt fac) options
       \<lparr>facClient = client, facNamespace = NamespaceAll, facTweak = None, defaultResync = resync,
        customResync = [], facInformers = [], startedInformers = []\<rparr>"

definition NewSharedInformerFactory ::
  "('s, 'w) versioned_Interface \<Rightarrow> 64 word \<Rightarrow> ('s, 'w) sharedInformerFactory" where
  "NewSharedInformerFactory client resync = NewSharedInformerFactoryWithOptions client resync []"

definition NewFilteredSharedInformerFactory ::
  "('s, 'w) versioned_Interface \<Rightarrow> 64 word \<Rightarrow> string \<Rightarrow> TweakListOptionsFunc option
     \<Rightarrow> ('s, 'w) sharedInformerFactory" where
  "NewFilteredSharedInformerFactory client resync namespace tweakListOptions =
     NewSharedInformerFactoryWithOptions client resync
       [WithNamespace namespace, WithTweakListOptions tweakListOptions]"

text \<open>\<open>Start\<close>, over the map of informers in any order.\<close>

fun startLoop :: "(GoType \<times> nat) list \<Rightarrow> ('s, 'w) shop \<Rightarrow> ('s, 'w) shop" where
  "startLoop [] w = w"
| "startLoop ((informerType, informer) # rest) w =
     startLoop rest
       (if map_of (startedInformers (factory w)) informerType \<noteq> Some True
        then w\<lparr>launched := launched w @ [informer],
               factory := (factory w)\<lparr>startedInformers :=
                 AList.update informerType True (startedInformers (factory w))\<rparr>\<rparr>
        else w)"

definition factory_Start :: "nat \<Rightarrow> ('s, 'w) shop \<Rightarrow> ('s, 'w) shop" where
  "factory_Start n w = startLoop (pick_order n (facInformers (factory w))) w"

text \<open>
  \<open>WaitForCacheSync\<close> polls each started informer until it has synced or the channel is closed. The
  answers an informer gives until then are an argument.
\<close>

definition cache_WaitForCacheSync :: "bool list \<Rightarrow> bool" where
  "cache_WaitForCacheSync polls = list_ex (\<lambda>synced. synced) polls"

definition factory_WaitForCacheSync :: "(nat \<Rightarrow> bool list) \<Rightarrow> ('s, 'w) shop \<Rightarrow> (GoType \<times> bool) list" where
  "factory_WaitForCacheSync polls w =
     map (\<lambda>(informType, informer). (informType, cache_WaitForCacheSync (polls informer)))
       (filter (\<lambda>(informerType, informer).
           map_of (startedInformers (factory w)) informerType = Some True) (facInformers (factory w)))"

definition InformerFor :: "GoType \<Rightarrow> ('s, 'w) NewInformerFunc \<Rightarrow> ('s, 'w) shop \<Rightarrow> nat \<times> ('s, 'w) shop" where
  "InformerFor informerType newFunc w =
     (let f = factory w in
      case map_of (facInformers f) informerType of
        Some informer \<Rightarrow> (informer, w)
      | None \<Rightarrow>
          (let resyncPeriod = (case map_of (customResync f) informerType of
                                 None \<Rightarrow> defaultResync f | Some r \<Rightarrow> r);
               informer = length (informerHeap w)
           in (informer,
               w\<lparr>informerHeap := informerHeap w @ [newFunc (facClient f) resyncPeriod],
                 factory := f\<lparr>facInformers := AList.update informerType informer (facInformers f)\<rparr>\<rparr>)))"

section \<open>Groups, versions, resources\<close>

record informer_group =
  igNamespace :: string
  igTweak :: "TweakListOptionsFunc option"

record informer_version =
  ivNamespace :: string
  ivTweak :: "TweakListOptionsFunc option"

record componentBuildInformer =
  cbiNamespace :: string
  cbiTweak :: "TweakListOptionsFunc option"

definition group_New_informers :: "string \<Rightarrow> TweakListOptionsFunc option \<Rightarrow> informer_group" where
  "group_New_informers namespace tweakListOptions = \<lparr>igNamespace = namespace, igTweak = tweakListOptions\<rparr>"

definition version_New_informers :: "string \<Rightarrow> TweakListOptionsFunc option \<Rightarrow> informer_version" where
  "version_New_informers namespace tweakListOptions = \<lparr>ivNamespace = namespace, ivTweak = tweakListOptions\<rparr>"

definition group_V1alpha1 :: "informer_group \<Rightarrow> informer_version" where
  "group_V1alpha1 g = version_New_informers (igNamespace g) (igTweak g)"

definition version_ComponentBuilds :: "informer_version \<Rightarrow> componentBuildInformer" where
  "version_ComponentBuilds v = \<lparr>cbiNamespace = ivNamespace v, cbiTweak = ivTweak v\<rparr>"

definition factory_Apheleia :: "('s, 'w) shop \<Rightarrow> informer_group" where
  "factory_Apheleia w = group_New_informers (facNamespace (factory w)) (facTweak (factory w))"

definition defaultInformer :: "componentBuildInformer \<Rightarrow> ('s, 'w) NewInformerFunc" where
  "defaultInformer f client resyncPeriod =
     NewFilteredComponentBuildInformer client (cbiNamespace f) resyncPeriod
       [(NamespaceIndex, MetaNamespaceIndexFunc)] (cbiTweak f)"

definition builds_Informer :: "componentBuildInformer \<Rightarrow> ('s, 'w) shop \<Rightarrow> nat \<times> ('s, 'w) shop" where
  "builds_Informer f w = InformerFor ComponentBuildType (defaultInformer f) w"

text \<open>\<open>GetIndexer\<close> of a shared informer: the operations of the store it holds.\<close>

definition store_of :: "nat \<Rightarrow> ('s, 'w) shop \<Rightarrow> build_ext cache" where
  "store_of h w = siIndexer (running (informerHeap w ! h))"

definition GetIndexer :: "nat \<Rightarrow> (('s, 'w) shop, build_ext) Indexer" where
  "GetIndexer h =
     \<lparr>ixList = (\<lambda>n w. cache_List n (store_of h w)),
      ixIndex = (\<lambda>n name obj w. cache_Index n name obj (store_of h w)),
      ixGetByKey = (\<lambda>key w. cache_GetByKey key (store_of h w))\<rparr>"

definition builds_Lister ::
  "componentBuildInformer \<Rightarrow> ('s, 'w) shop \<Rightarrow> ('s, 'w) shop componentBuildLister \<times> ('s, 'w) shop" where
  "builds_Lister f w = (case builds_Informer f w of (h, w') \<Rightarrow> (NewComponentBuildLister (GetIndexer h), w'))"

record genericInformer =
  giInformer :: nat
  giResource :: GroupResource

definition generic_Informer :: "genericInformer \<Rightarrow> nat" where
  "generic_Informer g = giInformer g"

text \<open>The generic lister is its two parts: an indexer, and the resource it names in its errors.\<close>

definition generic_Lister :: "genericInformer \<Rightarrow> (('s, 'w) shop, build_ext) Indexer \<times> GroupResource" where
  "generic_Lister g = (GetIndexer (generic_Informer g), giResource g)"

definition gvrString :: "GroupVersionResource \<Rightarrow> string" where
  "gvrString gvr = gvrGroup gvr @ ''/'' @ gvrVersion gvr @ '', Resource='' @ gvrResource gvr"

definition ForResource ::
  "GroupVersionResource \<Rightarrow> ('s, 'w) shop \<Rightarrow> (api_error + genericInformer) \<times> ('s, 'w) shop" where
  "ForResource resource w =
     (if resource = WithResource SchemeGroupVersion ''componentbuilds''
      then (case builds_Informer (version_ComponentBuilds (group_V1alpha1 (factory_Apheleia w))) w of
              (h, w') \<Rightarrow>
                (Inr \<lparr>giInformer = h,
                      giResource = GroupResource (gvrGroup resource) (gvrResource resource)\<rparr>, w'))
      else (Inl (OtherError (''no informer found for '' @ gvrString resource)), w))"

section \<open>One informer per type, started once\<close>

definition open_shop :: "('s, 'w) sharedInformerFactory \<Rightarrow> ('s, 'w) shop" where
  "open_shop fac = \<lparr>factory = fac, informerHeap = [], launched = []\<rparr>"

inductive_set standard_options :: "('s, 'w) SharedInformerOption set" where
  "WithCustomResyncConfig cfg \<in> standard_options"
| "WithTweakListOptions tweak \<in> standard_options"
| "WithNamespace ns \<in> standard_options"

inductive factory_call :: "('s, 'w) shop \<Rightarrow> ('s, 'w) shop \<Rightarrow> bool" where
  call_InformerFor: "InformerFor ty newFunc w = (h, w') \<Longrightarrow> factory_call w w'"
| call_Informer: "builds_Informer f w = (h, w') \<Longrightarrow> factory_call w w'"
| call_Lister: "builds_Lister f w = (l, w') \<Longrightarrow> factory_call w w'"
| call_ForResource: "ForResource resource w = (r, w') \<Longrightarrow> factory_call w w'"
| call_Start: "factory_Start n w = w' \<Longrightarrow> factory_call w w'"

definition started :: "('s, 'w) shop \<Rightarrow> GoType \<Rightarrow> bool" where
  "started w ty \<longleftrightarrow> map_of (startedInformers (factory w)) ty = Some True"

abbreviation informer_at :: "('s, 'w) shop \<Rightarrow> GoType \<rightharpoonup> nat" where
  "informer_at w \<equiv> map_of (facInformers (factory w))"

text \<open>
  Each type has one informer, its own; the runs launched are those of the informers started, once each.
\<close>

definition shop_ok :: "('s, 'w) shop \<Rightarrow> bool" where
  "shop_ok w \<longleftrightarrow>
     distinct (map fst (facInformers (factory w))) \<and> distinct (map snd (facInformers (factory w)))
     \<and> (\<forall>h \<in> set (map snd (facInformers (factory w))). h < length (informerHeap w))
     \<and> distinct (launched w) \<and> set (launched w) = {h. \<exists>ty. informer_at w ty = Some h \<and> started w ty}
     \<and> (\<forall>ty. started w ty \<longrightarrow> informer_at w ty \<noteq> None)"

lemma AList_update_new: "k \<notin> set (map fst m) \<Longrightarrow> AList.update k v m = m @ [(k, v)]"
  by (induction m) auto

lemma InformerFor_ok:
  assumes "InformerFor ty newFunc w = (h, w')" "shop_ok w"
  shows "shop_ok w' \<and> informer_at w' ty = Some h \<and> launched w' = launched w
    \<and> (\<forall>ty'. ty' \<noteq> ty \<longrightarrow> informer_at w' ty' = informer_at w ty')"
proof (cases "informer_at w ty")
  case (Some h0)
  with assms show ?thesis by (simp add: InformerFor_def Let_def)
next
  case None
  then have new: "ty \<notin> set (map fst (facInformers (factory w)))" by (simp add: map_of_eq_None_iff)
  have w': "h = length (informerHeap w)"
    "facInformers (factory w') = facInformers (factory w) @ [(ty, length (informerHeap w))]"
    "informerHeap w' = informerHeap w @ [newFunc (facClient (factory w))
        (case map_of (customResync (factory w)) ty of None \<Rightarrow> defaultResync (factory w) | Some r \<Rightarrow> r)]"
    "launched w' = launched w" "startedInformers (factory w') = startedInformers (factory w)"
    using assms(1) None by (auto simp: InformerFor_def Let_def AList_update_new [OF new])
  have at: "informer_at w' = (informer_at w)(ty \<mapsto> h)"
    by (rule ext) (auto simp: w'(1,2) map_add_def None split: option.splits)
  have "started w' = started w" by (rule ext) (simp add: started_def w'(5))
  have "\<not> started w ty" using assms(2) None by (auto simp: shop_ok_def)
  then have launched: "{h'. \<exists>ty'. informer_at w' ty' = Some h' \<and> started w' ty'}
      = {h'. \<exists>ty'. informer_at w ty' = Some h' \<and> started w ty'}"
    unfolding at \<open>started w' = started w\<close> by (auto split: if_splits)
  have "\<forall>h' \<in> set (map snd (facInformers (factory w))). h' < length (informerHeap w)"
    using assms(2) by (simp add: shop_ok_def)
  then have "distinct (map snd (facInformers (factory w')))"
    "\<forall>h' \<in> set (map snd (facInformers (factory w'))). h' < length (informerHeap w')"
    using assms(2) by (auto simp: w'(2,3) shop_ok_def)
  moreover have "distinct (map fst (facInformers (factory w')))"
    using assms(2) new by (simp add: w'(2) shop_ok_def)
  moreover have "distinct (launched w')"
    "set (launched w') = {h'. \<exists>ty'. informer_at w' ty' = Some h' \<and> started w' ty'}"
    using assms(2) unfolding w'(4) at \<open>started w' = started w\<close>
    by (simp_all only: shop_ok_def launched [unfolded at \<open>started w' = started w\<close>])
  moreover have "\<forall>ty'. started w' ty' \<longrightarrow> informer_at w' ty' \<noteq> None"
    using assms(2) unfolding at \<open>started w' = started w\<close> by (auto simp: shop_ok_def)
  ultimately have "shop_ok w'" unfolding shop_ok_def by blast
  then show ?thesis using at w'(4) by simp
qed

text \<open>The other calls that make informers are \<open>InformerFor\<close>.\<close>

lemma ForResource_cases:
  "ForResource resource w = (r, w') \<Longrightarrow>
   w' = w \<or> (\<exists>f h. builds_Informer f w = (h, w') \<and> (\<exists>g. r = Inr g \<and> giInformer g = h))"
  by (auto simp: ForResource_def split: if_splits prod.splits)

lemma startLoop_ok:
  assumes "shop_ok w" "distinct (map fst ts)" "set ts \<subseteq> set (facInformers (factory w))"
  shows "shop_ok (startLoop ts w) \<and> facInformers (factory (startLoop ts w)) = facInformers (factory w)
    \<and> informerHeap (startLoop ts w) = informerHeap w
    \<and> started (startLoop ts w) = (\<lambda>ty. started w ty \<or> ty \<in> set (map fst ts))
    \<and> (\<exists>more. launched (startLoop ts w) = launched w @ more)"
  using assms
proof (induction ts arbitrary: w)
  case Nil
  then show ?case by (simp add: fun_eq_iff)
next
  case (Cons t ts)
  obtain ty h where t: "t = (ty, h)" by (cases t)
  have at: "informer_at w ty = Some h"
    using Cons.prems(1,3) t by (auto simp: shop_ok_def)
  show ?case
  proof (cases "started w ty")
    case True
    then have "startLoop (t # ts) w = startLoop ts w" by (simp add: t started_def)
    moreover have "(\<lambda>ty'. started w ty' \<or> ty' \<in> set (map fst (t # ts)))
        = (\<lambda>ty'. started w ty' \<or> ty' \<in> set (map fst ts))"
      using True t by (intro ext) auto
    ultimately show ?thesis using Cons by simp
  next
    case False
    define w1 where "w1 = w\<lparr>launched := launched w @ [h], factory := (factory w)\<lparr>startedInformers :=
      AList.update ty True (startedInformers (factory w))\<rparr>\<rparr>"
    have run: "startLoop (t # ts) w = startLoop ts w1"
      using False by (simp add: t started_def w1_def)
    have fields: "facInformers (factory w1) = facInformers (factory w)" "informerHeap w1 = informerHeap w"
      "launched w1 = launched w @ [h]"
      by (simp_all add: w1_def)
    have st: "started w1 = (\<lambda>ty'. started w ty' \<or> ty' = ty)"
      by (rule ext) (simp add: started_def w1_def update_conv')
    have fresh: "h \<notin> set (launched w)"
    proof
      assume "h \<in> set (launched w)"
      then obtain ty' where ty': "informer_at w ty' = Some h" "started w ty'"
        using Cons.prems(1) by (auto simp: shop_ok_def)
      have "distinct (map snd (facInformers (factory w)))" using Cons.prems(1) by (simp add: shop_ok_def)
      then have "ty' = ty"
        using map_of_SomeD [OF ty'(1)] map_of_SomeD [OF at] by (metis distinct_map inj_onD prod.inject snd_conv)
      with ty'(2) False show False by simp
    qed
    have "set (launched w1) = {h'. \<exists>ty'. informer_at w1 ty' = Some h' \<and> started w1 ty'}"
      using Cons.prems(1) at unfolding fields st
      by (auto simp: shop_ok_def simp del: map_of_eq_Some_iff)
    with Cons.prems(1) fresh at have "shop_ok w1"
      unfolding shop_ok_def fields st by (auto simp del: map_of_eq_Some_iff)
    from Cons.IH [OF this] Cons.prems(2,3) have "shop_ok (startLoop ts w1)
      \<and> facInformers (factory (startLoop ts w1)) = facInformers (factory w1)
      \<and> informerHeap (startLoop ts w1) = informerHeap w1
      \<and> started (startLoop ts w1) = (\<lambda>ty. started w1 ty \<or> ty \<in> set (map fst ts))
      \<and> (\<exists>more. launched (startLoop ts w1) = launched w1 @ more)"
      by (simp add: fields)
    then show ?thesis unfolding run fields st by (auto simp: t)
  qed
qed

lemma factory_Start_ok:
  assumes "shop_ok w"
  shows "shop_ok (factory_Start n w)
    \<and> facInformers (factory (factory_Start n w)) = facInformers (factory w)
    \<and> started (factory_Start n w) = (\<lambda>ty. informer_at w ty \<noteq> None)
    \<and> (\<exists>more. launched (factory_Start n w) = launched w @ more)"
proof -
  let ?ts = "pick_order n (facInformers (factory w))"
  have "mset (map fst ?ts) = mset (map fst (facInformers (factory w)))" by simp
  then have "distinct (map fst ?ts)" "set ?ts \<subseteq> set (facInformers (factory w))"
    using assms unfolding shop_ok_def by (metis mset_eq_imp_distinct_iff, simp)
  note loop = startLoop_ok [OF assms this]
  have "(\<lambda>ty. started w ty \<or> ty \<in> set (map fst ?ts)) = (\<lambda>ty. informer_at w ty \<noteq> None)"
    using assms by (intro ext) (auto simp: shop_ok_def map_of_eq_None_iff)
  with loop show ?thesis unfolding factory_Start_def by simp
qed

text \<open>Starting again does nothing.\<close>

lemma startLoop_started: "\<forall>ty \<in> set (map fst ts). started w ty \<Longrightarrow> startLoop ts w = w"
  by (induction ts) (auto simp: started_def)

lemma factory_Start_again: "shop_ok w \<Longrightarrow> factory_Start m (factory_Start n w) = factory_Start n w"
  using factory_Start_ok [of w n]
  by (subst factory_Start_def) (auto simp: map_of_eq_None_iff intro: startLoop_started)

lemma factory_call_ok:
  assumes "factory_call w w'" "shop_ok w"
  shows "shop_ok w' \<and> (\<exists>more. launched w' = launched w @ more)"
  using assms(1)
proof cases
  case (call_InformerFor ty newFunc h)
  from InformerFor_ok [OF this assms(2)] show ?thesis by simp
next
  case (call_Informer f h)
  from InformerFor_ok [OF this [unfolded builds_Informer_def] assms(2)] show ?thesis by simp
next
  case (call_Lister f l)
  then obtain h where "builds_Informer f w = (h, w')" by (auto simp: builds_Lister_def split: prod.splits)
  from InformerFor_ok [OF this [unfolded builds_Informer_def] assms(2)] show ?thesis by simp
next
  case (call_ForResource resource r)
  then consider "w' = w" | f h where "builds_Informer f w = (h, w')" using ForResource_cases by blast
  then show ?thesis
  proof cases
    case 2
    from InformerFor_ok [OF this [unfolded builds_Informer_def] assms(2)] show ?thesis by simp
  qed (simp add: assms(2))
next
  case (call_Start n)
  with factory_Start_ok [OF assms(2), of n] show ?thesis by simp
qed

lemma factory_calls_ok: "factory_call\<^sup>*\<^sup>* w w' \<Longrightarrow> shop_ok w \<Longrightarrow> shop_ok w'"
  by (induction rule: rtranclp_induct) (auto dest: factory_call_ok)

lemma started_fresh:
  "set opts \<subseteq> standard_options \<Longrightarrow> shop_ok (open_shop (NewSharedInformerFactoryWithOptions client resync opts))"
proof -
  assume opts: "set opts \<subseteq> standard_options"
  have keep: "facInformers (opt fac) = facInformers fac \<and> startedInformers (opt fac) = startedInformers fac"
    if "opt \<in> standard_options" for opt :: "('a, 'b) SharedInformerOption" and fac
    using that by cases (simp_all add: WithCustomResyncConfig_def WithTweakListOptions_def WithNamespace_def)
  have "facInformers (fold (\<lambda>opt. opt) opts fac) = facInformers fac
      \<and> startedInformers (fold (\<lambda>opt. opt) opts fac) = startedInformers fac" for fac
    using opts by (induction opts arbitrary: fac) (simp_all add: keep)
  then show ?thesis
    by (simp add: shop_ok_def open_shop_def NewSharedInformerFactoryWithOptions_def started_def)
qed

lemma InformerFor_again:
  "InformerFor ty f w = (h, w') \<Longrightarrow> shop_ok w \<Longrightarrow> InformerFor ty g w' = (h, w')"
  using InformerFor_ok [of ty f w h w'] by (simp add: InformerFor_def Let_def)

lemma Start_launches_all:
  assumes "shop_ok w"
  shows "set (launched (factory_Start n w)) = ran (informer_at w)"
  using factory_Start_ok [OF assms, of n] by (auto simp: shop_ok_def ran_def simp del: map_of_eq_Some_iff)

section \<open>The informer the factory makes\<close>

text \<open>
  A new informer of component builds lists and watches the factory's namespace with its tweak, and its
  store has the index of namespaces. Its resync period is the factory's, unless one was set for the type.
\<close>

lemma builds_Informer_new:
  assumes "informer_at w ComponentBuildType = None" "builds_Informer f w = (h, w')"
  shows "informerHeap w' ! h = NewFilteredComponentBuildInformer (facClient (factory w)) (cbiNamespace f)
    (case map_of (customResync (factory w)) ComponentBuildType of None \<Rightarrow> defaultResync (factory w) | Some r \<Rightarrow> r)
    namespace_index (cbiTweak f)"
  using assms
  by (auto simp: builds_Informer_def InformerFor_def Let_def defaultInformer_def namespace_index_def)

lemma ForResource_builds:
  "ForResource (WithResource SchemeGroupVersion ''componentbuilds'') w = (Inr g, w') \<Longrightarrow>
   builds_Informer \<lparr>cbiNamespace = facNamespace (factory w), cbiTweak = facTweak (factory w)\<rparr> w
     = (generic_Informer g, w')"
  by (auto simp: ForResource_def version_ComponentBuilds_def group_V1alpha1_def factory_Apheleia_def
      group_New_informers_def version_New_informers_def generic_Informer_def split: prod.splits)

section \<open>Listers of a factory's informer\<close>

definition shelved :: "nat \<Rightarrow> ('s, 'w) shop \<Rightarrow> bool" where
  "shelved h w \<longleftrightarrow> namespace_indexed (store_of h w)"

interpretation shop_ix: indexer_contract "GetIndexer h" "shelved h" "\<lambda>w. cached (store_of h w)" for h
proof unfold_locales
  fix w :: "('s, 'w) shop" and n m k xs
  assume ok: "shelved h w"
  then have "namespace_indexed (store_of h w)" by (simp add: shelved_def)
  from cache_ix.list_law [OF this, of n]
  show "\<exists>ks. ixList (GetIndexer h) n w = map (any_at (cached (store_of h w))) ks \<and> distinct ks
      \<and> set ks = dom (cached (store_of h w))"
    by (simp add: GetIndexer_def cache_indexer_def)
  from cache_ix.get_law [OF \<open>namespace_indexed (store_of h w)\<close>, of k]
  show "ixGetByKey (GetIndexer h) k w
      = (any_at (cached (store_of h w)) k, cached (store_of h w) k \<noteq> None, None)"
    by (simp add: GetIndexer_def cache_indexer_def)
  show "\<exists>ks. xs = map (any_at (cached (store_of h w))) ks \<and> distinct ks
      \<and> set ks = {k. \<exists>x m'. cached (store_of h w) k = Some x \<and> Accessor x = Inr m' \<and> Namespace m' = Namespace m}"
    if "ixIndex (GetIndexer h) n NamespaceIndex (MetaObject m) w = Inr xs"
    using that cache_ix.index_law [OF \<open>namespace_indexed (store_of h w)\<close>, of n m xs]
    by (simp add: GetIndexer_def cache_indexer_def)
qed

text \<open>The store of an informer in good order is one that listers read right.\<close>

lemma informer_ok_indexed: "informer_ok i \<Longrightarrow> namespace_indexed (siIndexer i)"
  by (simp add: informer_ok_def informer_store_def namespace_indexed_def namespace_index_def)

end
