(* ===== verification/SelectorText.thy ===== *)
theory SelectorText
  imports Labels
begin

text \<open>
  Label selectors as text, from the vendored \<open>k8s.io/apimachinery/pkg/labels/selector.go\<close>: the printed
  form of a selector, in which it is sent to the API server, the lexer and the recursive-descent
  parser that reads it back. What is shown is that reading a printed selector gives the selector.
\<close>

section \<open>Printing\<close>

definition safeSort :: "string list \<Rightarrow> string list" where
  "safeSort xs = (if sorted xs then xs else sort xs)"

definition requirement_String :: "Requirement \<Rightarrow> string" where
  "requirement_String r =
     (let key = (if operator r = DoesNotExist then ''!'' else '''') @ reqKey r;
          values = (if length (strValues r) = 1 then strValues r ! 0 else Join (safeSort (strValues r)) '','')
      in case operator r of
           Equals \<Rightarrow> key @ ''='' @ values
         | DoubleEquals \<Rightarrow> key @ ''=='' @ values
         | NotEquals \<Rightarrow> key @ ''!='' @ values
         | In \<Rightarrow> key @ '' in '' @ ''('' @ values @ '')''
         | NotIn \<Rightarrow> key @ '' notin '' @ ''('' @ values @ '')''
         | GreaterThan \<Rightarrow> key @ ''>'' @ values
         | LessThan \<Rightarrow> key @ ''<'' @ values
         | Exists \<Rightarrow> key
         | DoesNotExist \<Rightarrow> key)"

definition selector_String :: "Selector \<Rightarrow> string" where
  "selector_String s = Join (map requirement_String s) '',''"

section \<open>The lexer\<close>

datatype Token =
  ErrorToken | EndOfStringToken | ClosedParToken | CommaToken | DoesNotExistToken | DoubleEqualsToken
| EqualsToken | GreaterThanToken | IdentifierToken | InToken | LessThanToken | NotEqualsToken
| NotInToken | OpenParToken

definition string2token :: "string \<Rightarrow> Token option" where
  "string2token = map_of
     [('')'', ClosedParToken), ('','', CommaToken), (''!'', DoesNotExistToken), (''=='', DoubleEqualsToken),
      (''='', EqualsToken), (''>'', GreaterThanToken), (''in'', InToken), (''<'', LessThanToken),
      (''!='', NotEqualsToken), (''notin'', NotInToken), (''('', OpenParToken)]"

type_synonym ScannedItem = "Token \<times> string"

definition isWhitespace :: "char \<Rightarrow> bool" where
  "isWhitespace ch \<longleftrightarrow> ch = CHR '' '' \<or> ch = CHR 0x09 \<or> ch = CHR 0x0D \<or> ch = CHR 0x0A"

definition isSpecialSymbol :: "char \<Rightarrow> bool" where
  "isSpecialSymbol ch \<longleftrightarrow> ch \<in> {CHR ''='', CHR ''!'', CHR ''('', CHR '')'', CHR '','', CHR ''>'', CHR ''<''}"

text \<open>
  A lexer is the rest of its string. Reading a NUL byte is taken for the end of the string, but passes
  the byte.
\<close>

type_synonym Lexer = string

fun idLoop :: "Lexer \<Rightarrow> string \<times> Lexer" where
  "idLoop [] = ([], [])"
| "idLoop (ch # l) =
     (if ch = CHR 0x00 then ([], l)
      else if isSpecialSymbol ch \<or> isWhitespace ch then ([], ch # l)
      else (case idLoop l of (buffer, l') \<Rightarrow> (ch # buffer, l')))"

definition scanIDOrKeyword :: "Lexer \<Rightarrow> ScannedItem \<times> Lexer" where
  "scanIDOrKeyword l =
     (case idLoop l of (s, l') \<Rightarrow>
        ((case string2token s of Some val \<Rightarrow> (val, s) | None \<Rightarrow> (IdentifierToken, s)), l'))"

fun symbolLoop :: "string \<Rightarrow> ScannedItem \<Rightarrow> Lexer \<Rightarrow> (string \<times> ScannedItem) \<times> Lexer" where
  "symbolLoop buffer lastItem [] = ((buffer, lastItem), [])"
| "symbolLoop buffer lastItem (ch # l) =
     (if ch = CHR 0x00 then ((buffer, lastItem), l)
      else if isSpecialSymbol ch
      then (let buffer' = buffer @ [ch] in
            case string2token buffer' of
              Some token \<Rightarrow> symbolLoop buffer' (token, buffer') l
            | None \<Rightarrow>
                (if fst lastItem \<noteq> ErrorToken then ((buffer', lastItem), ch # l)
                 else symbolLoop buffer' lastItem l))
      else ((buffer, lastItem), ch # l))"

definition scanSpecialSymbol :: "Lexer \<Rightarrow> ScannedItem \<times> Lexer" where
  "scanSpecialSymbol l =
     (case symbolLoop [] (ErrorToken, '''') l of ((buffer, lastItem), l') \<Rightarrow>
        (if fst lastItem = ErrorToken
         then ((ErrorToken, ''error expected: keyword found '' @ CHR 0x27 # buffer @ [CHR 0x27]), l')
         else (lastItem, l')))"

fun skipWhiteSpaces :: "Lexer \<Rightarrow> Lexer" where
  "skipWhiteSpaces [] = []"
| "skipWhiteSpaces (ch # l) = (if \<not> isWhitespace ch then ch # l else skipWhiteSpaces l)"

definition Lex :: "Lexer \<Rightarrow> ScannedItem \<times> Lexer" where
  "Lex l =
     (case skipWhiteSpaces l of
        [] \<Rightarrow> ((EndOfStringToken, ''''), [])
      | ch # l' \<Rightarrow>
          (if ch = CHR 0x00 then ((EndOfStringToken, ''''), l')
           else if isSpecialSymbol ch then scanSpecialSymbol (ch # l')
           else scanIDOrKeyword (ch # l')))"

text \<open>Every token but the last takes at least one character.\<close>

lemma idLoop_length: "length (snd (idLoop l)) \<le> length l"
  by (induction l) (auto split: prod.splits)

lemma symbolLoop_length: "length (snd (symbolLoop buffer i l)) \<le> length l"
  by (induction buffer i l rule: symbolLoop.induct) (auto simp: Let_def le_SucI split: option.splits)

lemma skipWhiteSpaces_length: "length (skipWhiteSpaces l) \<le> length l"
  by (induction l) auto

lemma string2token_ErrorToken: "string2token s \<noteq> Some ErrorToken"
  by (auto simp: string2token_def split: if_splits)

lemma symbolLoop_takes:
  "isSpecialSymbol ch \<Longrightarrow> length (snd (symbolLoop [] (ErrorToken, '''') (ch # l))) \<le> length l"
  using symbolLoop_length [of "[ch]" _ l]
  by (auto simp: isSpecialSymbol_def Let_def split: option.splits)

lemma Lex_length:
  assumes "Lex l = (i, l')" "fst i \<noteq> EndOfStringToken" shows "length l' < length l"
proof -
  obtain ch r where r: "skipWhiteSpaces l = ch # r" "ch \<noteq> CHR 0x00"
    using assms by (cases "skipWhiteSpaces l") (auto simp: Lex_def split: if_splits)
  then have w: "\<not> isWhitespace ch" by (induction l) (auto split: if_splits)
  have "length l' \<le> length r"
  proof (cases "isSpecialSymbol ch")
    case True
    with assms(1) r symbolLoop_takes [OF True, of r] show ?thesis
      by (auto simp: Lex_def scanSpecialSymbol_def split: prod.splits if_splits)
  next
    case False
    with assms(1) r w idLoop_length [of r] show ?thesis
      by (auto simp: Lex_def scanIDOrKeyword_def split: prod.splits option.splits)
  qed
  with skipWhiteSpaces_length [of l] r(1) show ?thesis by simp
qed

function scan :: "Lexer \<Rightarrow> ScannedItem list" where
  "scan l =
     (case Lex l of (item, l') \<Rightarrow>
        item # (if fst item = EndOfStringToken then [] else scan l'))"
  by auto

termination
  by (relation "measure length") (auto intro: Lex_length [OF sym])

declare scan.simps [simp del]

section \<open>The parser\<close>

datatype ParserContext = KeyAndOperator | Values

definition in_context :: "ParserContext \<Rightarrow> ScannedItem \<Rightarrow> ScannedItem" where
  "in_context context item =
     (if context = Values \<and> fst item \<in> {InToken, NotInToken} then (IdentifierToken, snd item) else item)"

text \<open>
  The parser's position is the list of the items that are left. The last is the end of the string,
  and the parser does not look behind it.
\<close>

fun lookahead :: "ParserContext \<Rightarrow> ScannedItem list \<Rightarrow> ScannedItem" where
  "lookahead context [] = (EndOfStringToken, '''')"
| "lookahead context (item # items) = in_context context item"

definition consume :: "ParserContext \<Rightarrow> ScannedItem list \<Rightarrow> ScannedItem \<times> ScannedItem list" where
  "consume context items = (lookahead context items, tl items)"

definition quoted :: "string \<Rightarrow> string" where
  "quoted s = CHR 0x27 # s @ [CHR 0x27]"

definition unexpected :: "string \<Rightarrow> string \<Rightarrow> api_error" where
  "unexpected lit expected = OtherError (''found '' @ quoted lit @ '', expected: '' @ expected)"

text \<open>A requirement that is refused is reported by the fields at fault, as \<open>NewRequirement\<close> lists them.\<close>

definition invalid :: "string list \<Rightarrow> api_error" where
  "invalid errs = OtherError (Join errs ''; '')"

definition checked_requirement ::
  "string \<Rightarrow> Operator \<Rightarrow> string list \<Rightarrow> 'i \<Rightarrow> api_error + (Requirement \<times> 'i)" where
  "checked_requirement key op vals items =
     (case NewRequirement key op vals of Inl errs \<Rightarrow> Inl (invalid errs) | Inr r \<Rightarrow> Inr (r, items))"

text \<open>An operator that is not inferred is the empty string in the source.\<close>

definition parseKeyAndInferOperator ::
  "ScannedItem list \<Rightarrow> api_error + ((string \<times> Operator option) \<times> ScannedItem list)" where
  "parseKeyAndInferOperator items0 =
     (let (item1, items1) = consume Values items0;
          inferred = (if fst item1 = DoesNotExistToken then Some DoesNotExist else None);
          (item, items) = (if fst item1 = DoesNotExistToken then consume Values items1 else (item1, items1));
          literal = snd item
      in if fst item \<noteq> IdentifierToken then Inl (unexpected literal ''identifier'')
         else if \<not> IsQualifiedName literal then Inl (invalid [''key''])
         else (let t = fst (lookahead Values items) in
               Inr ((literal,
                     if (t = EndOfStringToken \<or> t = CommaToken) \<and> inferred \<noteq> Some DoesNotExist
                     then Some Exists else inferred), items)))"

definition operatorOf :: "Token \<Rightarrow> Operator option" where
  "operatorOf tok =
     (case tok of InToken \<Rightarrow> Some In | EqualsToken \<Rightarrow> Some Equals | DoubleEqualsToken \<Rightarrow> Some DoubleEquals
      | GreaterThanToken \<Rightarrow> Some GreaterThan | LessThanToken \<Rightarrow> Some LessThan | NotInToken \<Rightarrow> Some NotIn
      | NotEqualsToken \<Rightarrow> Some NotEquals | _ \<Rightarrow> None)"

definition parseOperator :: "ScannedItem list \<Rightarrow> api_error + (Operator \<times> ScannedItem list)" where
  "parseOperator items0 =
     (let (item, items) = consume KeyAndOperator items0 in
      case operatorOf (fst item) of
        None \<Rightarrow> Inl (unexpected (snd item) ''in, notin, =, ==, !=, gt, lt'')
      | Some op \<Rightarrow> Inr (op, items))"

text \<open>A set of strings is a list without repetitions.\<close>

fun parseIdentifiersList ::
  "string list \<Rightarrow> ScannedItem list \<Rightarrow> api_error + (string list \<times> ScannedItem list)" where
  "parseIdentifiersList s [] = Inl (unexpected '''' (quoted '','' @ '', or identifier''))"
| "parseIdentifiersList s (item # items) =
     (let (tok, lit) = in_context Values item in
      case tok of
        IdentifierToken \<Rightarrow>
          (let s' = List.insert lit s; item2 = lookahead Values items in
           if fst item2 = CommaToken then parseIdentifiersList s' items
           else if fst item2 = ClosedParToken then Inr (s', items)
           else Inl (unexpected (snd item2) (quoted '','' @ '' or '' @ quoted '')'')))
      | CommaToken \<Rightarrow>
          (let s' = (if length s = 0 then List.insert '''' s else s); tok2 = fst (lookahead Values items) in
           if tok2 = ClosedParToken then Inr (List.insert '''' s', items)
           else if tok2 = CommaToken then parseIdentifiersList (List.insert '''' s') (tl items)
           else parseIdentifiersList s' items)
      | _ \<Rightarrow> Inl (unexpected lit (quoted '','' @ '', or identifier'')))"

definition parseValues :: "ScannedItem list \<Rightarrow> api_error + (string list \<times> ScannedItem list)" where
  "parseValues items0 =
     (let (item, items) = consume Values items0 in
      if fst item \<noteq> OpenParToken then Inl (OtherError (''found '' @ quoted (snd item) @ '' expected: '' @ quoted ''(''))
      else
        (let (tok, lit) = lookahead Values items in
         if tok = IdentifierToken \<or> tok = CommaToken
         then (case parseIdentifiersList [] items of
                 Inl err \<Rightarrow> Inl err
               | Inr (s, items') \<Rightarrow>
                   (let (item', items'') = consume Values items' in
                    if fst item' \<noteq> ClosedParToken then Inl (unexpected lit (quoted '')'')) else Inr (s, items'')))
         else if tok = ClosedParToken then Inr ([''''], snd (consume Values items))
         else Inl (unexpected lit (quoted '','' @ '', '' @ quoted '')'' @ '' or identifier''))))"

definition parseExactValue :: "ScannedItem list \<Rightarrow> api_error + (string list \<times> ScannedItem list)" where
  "parseExactValue items0 =
     (let tok = fst (lookahead Values items0) in
      if tok = EndOfStringToken \<or> tok = CommaToken then Inr ([''''], items0)
      else (let (item, items) = consume Values items0 in
            if fst item = IdentifierToken then Inr ([snd item], items)
            else Inl (unexpected (snd item) ''identifier'')))"

definition parseRequirement :: "ScannedItem list \<Rightarrow> api_error + (Requirement \<times> ScannedItem list)" where
  "parseRequirement items0 =
     (case parseKeyAndInferOperator items0 of
        Inl err \<Rightarrow> Inl err
      | Inr ((key, inferred), items1) \<Rightarrow>
          (if inferred = Some Exists \<or> inferred = Some DoesNotExist
           then checked_requirement key (the inferred) [] items1
           else (case parseOperator items1 of
                   Inl err \<Rightarrow> Inl err
                 | Inr (op, items2) \<Rightarrow>
                     (case (if op \<in> {In, NotIn} then parseValues items2 else parseExactValue items2) of
                        Inl err \<Rightarrow> Inl err
                      | Inr (values, items3) \<Rightarrow> checked_requirement key op (sort values) items3))))"

lemma lookahead_length: "items \<noteq> [] \<Longrightarrow> length (snd (consume c items)) < length items"
  by (simp add: consume_def)

lemma parseKey_length:
  assumes "parseKeyAndInferOperator items = Inr (r, items')" "items \<noteq> []"
  shows "length items' < length items"
  using assms by (cases items)
    (auto simp: parseKeyAndInferOperator_def consume_def Let_def split: if_splits)

lemma parseOperator_length:
  "parseOperator items = Inr (r, items') \<Longrightarrow> length items' \<le> length items"
  by (auto simp: parseOperator_def consume_def split: option.splits)

lemma parseIdentifiersList_length:
  "parseIdentifiersList s items = Inr (r, items') \<Longrightarrow> length items' \<le> length items"
proof (induction s items rule: parseIdentifiersList.induct)
  case (2 s item items)
  show ?case
  proof (cases "in_context Values item")
    case (Pair tok lit)
    then show ?thesis
    proof (cases tok)
      case IdentifierToken
      with Pair 2 show ?thesis
        by (cases "lookahead Values items") (auto simp: Let_def le_SucI split: if_splits)
    next
      case CommaToken
      with Pair 2 show ?thesis
        by (cases "lookahead Values items") (fastforce simp: Let_def split: if_splits)
    qed (use Pair 2 in auto)
  qed
qed simp

lemma parseValues_length:
  "parseValues items = Inr (r, items') \<Longrightarrow> length items' \<le> length items"
  by (auto simp: parseValues_def consume_def Let_def dest!: parseIdentifiersList_length
      split: if_splits sum.splits prod.splits)

lemma parseExactValue_length:
  "parseExactValue items = Inr (r, items') \<Longrightarrow> length items' \<le> length items"
  by (auto simp: parseExactValue_def consume_def Let_def split: if_splits)

lemma parseRequirement_length:
  assumes "parseRequirement items = Inr (r, items')" "items \<noteq> []"
  shows "length items' < length items"
proof -
  from assms(1) obtain key op items1 where k: "parseKeyAndInferOperator items = Inr ((key, op), items1)"
    by (auto simp: parseRequirement_def split: sum.splits)
  have "length items' \<le> length items1"
    using assms(1) k
    by (auto simp: parseRequirement_def checked_requirement_def split: sum.splits if_splits
        dest!: parseOperator_length parseValues_length parseExactValue_length)
  with parseKey_length [OF k assms(2)] show ?thesis by simp
qed

function parseLoop :: "Selector \<Rightarrow> ScannedItem list \<Rightarrow> api_error + Selector" where
  "parseLoop requirements items =
     (let (tok, lit) = lookahead Values items in
      if tok = IdentifierToken \<or> tok = DoesNotExistToken
      then (case parseRequirement items of
              Inl err \<Rightarrow> Inl (OtherError (''unable to parse requirement: '' @ errorString err))
            | Inr (r, items1) \<Rightarrow>
                (let requirements' = requirements @ [r]; (item, items2) = consume Values items1 in
                 if fst item = EndOfStringToken then Inr requirements'
                 else if fst item = CommaToken
                 then (let (t2, l2) = lookahead Values items2 in
                       if t2 \<noteq> IdentifierToken \<and> t2 \<noteq> DoesNotExistToken
                       then Inl (unexpected l2 (''identifier after '' @ quoted '',''))
                       else parseLoop requirements' items2)
                 else Inl (unexpected (snd item) (quoted '','' @ '' or '' @ quoted ''end of string''))))
      else if tok = EndOfStringToken then Inr requirements
      else Inl (unexpected lit (''!, identifier, or '' @ quoted ''end of string'')))"
  by auto

termination
proof (relation "measure (\<lambda>(requirements, items). length items)", goal_cases)
  case (2 requirements items x tok lit y r items1 requirements' xa item items2 xb t2 l2)
  then have "items \<noteq> []" by (cases items) auto
  with 2 parseRequirement_length [of items r items1] show ?case
    by (cases items1) (auto simp: consume_def)
qed auto

declare parseLoop.simps [simp del]

text \<open>The number is the draw of \<open>sort.Sort\<close>, which leaves the order of equal keys open.\<close>

definition Parse :: "nat \<Rightarrow> string \<Rightarrow> api_error + Selector" where
  "Parse n selector =
     (case parseLoop [] (scan selector) of
        Inl err \<Rightarrow> Inl err
      | Inr items \<Rightarrow> Inr (ByKey_Sort n items))"


section \<open>Scanning what was printed\<close>

definition ordinary :: "char \<Rightarrow> bool" where
  "ordinary ch \<longleftrightarrow> ch \<noteq> CHR 0x00 \<and> \<not> isSpecialSymbol ch \<and> \<not> isWhitespace ch"

definition word :: "string \<Rightarrow> bool" where
  "word w \<longleftrightarrow> w \<noteq> [] \<and> list_all ordinary w"

definition ends_word :: "string \<Rightarrow> bool" where
  "ends_word rest \<longleftrightarrow> rest = [] \<or> isSpecialSymbol (hd rest) \<or> isWhitespace (hd rest)"

definition ends_symbol :: "string \<Rightarrow> bool" where
  "ends_symbol rest \<longleftrightarrow> rest = [] \<or> hd rest \<noteq> CHR 0x00 \<and> hd rest \<noteq> CHR ''=''"

definition word_item :: "string \<Rightarrow> ScannedItem" where
  "word_item w = ((case string2token w of Some val \<Rightarrow> val | None \<Rightarrow> IdentifierToken), w)"

lemma not_NUL: "isSpecialSymbol ch \<or> isWhitespace ch \<Longrightarrow> ch \<noteq> CHR 0x00"
  by (auto simp: isSpecialSymbol_def isWhitespace_def)

lemma special_not_white: "isSpecialSymbol ch \<Longrightarrow> \<not> isWhitespace ch"
  by (auto simp: isSpecialSymbol_def isWhitespace_def)

lemma idLoop_word: "list_all ordinary w \<Longrightarrow> ends_word rest \<Longrightarrow> idLoop (w @ rest) = (w, rest)"
proof (induction w)
  case Nil
  then show ?case using not_NUL by (cases rest) (auto simp: ends_word_def)
qed (auto simp: ordinary_def)

lemma string2token_cases:
  assumes "string2token s = Some t"
  shows "t \<in> {InToken, NotInToken} \<or> (\<exists>c cs. s = c # cs \<and> isSpecialSymbol c \<and> cs \<in> {[], ''=''})"
  using map_of_SomeD [OF assms [unfolded string2token_def]] by (auto simp: isSpecialSymbol_def)

lemma word_token:
  assumes "word w" shows "string2token w \<in> {None, Some InToken, Some NotInToken}"
  using assms string2token_cases [of w] by (cases "string2token w") (auto simp: word_def ordinary_def)

lemma word_in_context [simp]: "word w \<Longrightarrow> in_context Values (word_item w) = (IdentifierToken, w)"
  using word_token [of w] by (auto simp: word_item_def in_context_def)

lemma scan_word:
  assumes "word w" "ends_word rest" shows "scan (w @ rest) = word_item w # scan rest"
proof -
  obtain ch cs where w: "w = ch # cs" "ordinary ch" using assms(1) by (cases w) (auto simp: word_def)
  then have "Lex (w @ rest) = scanIDOrKeyword (w @ rest)" by (simp add: Lex_def ordinary_def)
  moreover have "idLoop (w @ rest) = (w, rest)" using idLoop_word assms by (simp add: word_def)
  ultimately have "Lex (w @ rest) = (word_item w, rest)"
    by (simp add: scanIDOrKeyword_def word_item_def split: option.split)
  moreover have "fst (word_item w) \<noteq> EndOfStringToken"
    using word_token [OF assms(1)] by (auto simp: word_item_def)
  ultimately show ?thesis by (subst scan.simps) simp
qed

lemma scan_space [simp]: "scan (CHR '' '' # rest) = scan rest"
proof -
  have "Lex (CHR '' '' # rest) = Lex rest" by (simp add: Lex_def isWhitespace_def)
  then show ?thesis by (subst (1 2) scan.simps) simp
qed

lemma scan_end [simp]: "scan [] = [(EndOfStringToken, '''')]"
  by (subst scan.simps) (simp add: Lex_def)

lemma pair_token: "string2token [c, d] = Some t \<Longrightarrow> isSpecialSymbol c \<Longrightarrow> d = CHR ''=''"
proof -
  assume t: "string2token [c, d] = Some t" and c: "isSpecialSymbol c"
  show "d = CHR ''=''"
    using map_of_SomeD [OF t [unfolded string2token_def]] c by (auto simp: isSpecialSymbol_def)
qed

lemma scan_symbol:
  assumes "isSpecialSymbol c" "ends_symbol rest" "string2token [c] = Some t"
  shows "scan (c # rest) = (t, [c]) # scan rest"
proof -
  have t: "t \<noteq> ErrorToken" "t \<noteq> EndOfStringToken"
    using assms(3) by (auto simp: string2token_def split: if_splits)
  have c: "c \<noteq> CHR 0x00" "\<not> isWhitespace c"
    using assms(1) not_NUL special_not_white by auto
  have "fst (snd (fst (symbolLoop [c] (t, [c]) rest))) = t \<and> snd (snd (fst (symbolLoop [c] (t, [c]) rest))) = [c]
      \<and> snd (symbolLoop [c] (t, [c]) rest) = rest"
  proof (cases rest)
    case (Cons d ds)
    then have "d \<noteq> CHR 0x00" "d \<noteq> CHR ''=''" using assms(2) by (auto simp: ends_symbol_def)
    moreover from this have "string2token [c, d] = None"
      using pair_token [OF _ assms(1)] by (cases "string2token [c, d]") auto
    ultimately show ?thesis using Cons t by (simp add: Let_def)
  qed simp
  then have "scanSpecialSymbol (c # rest) = ((t, [c]), rest)"
    using assms(1,3) c t by (auto simp: scanSpecialSymbol_def Let_def split: prod.splits)
  then have "Lex (c # rest) = ((t, [c]), rest)" using assms(1) c by (simp add: Lex_def)
  then show ?thesis using t by (subst scan.simps) simp
qed

lemma symbol_tokens [simp]:
  "string2token '')'' = Some ClosedParToken" "string2token '','' = Some CommaToken"
  "string2token ''!'' = Some DoesNotExistToken" "string2token ''='' = Some EqualsToken"
  "string2token ''>'' = Some GreaterThanToken" "string2token ''<'' = Some LessThanToken"
  "string2token ''('' = Some OpenParToken" "string2token ''=='' = Some DoubleEqualsToken"
  "string2token ''!='' = Some NotEqualsToken"
  by (simp_all add: string2token_def)

lemma special_symbols [simp]:
  "isSpecialSymbol CHR '')''" "isSpecialSymbol CHR '',''" "isSpecialSymbol CHR ''!''"
  "isSpecialSymbol CHR ''=''" "isSpecialSymbol CHR ''>''" "isSpecialSymbol CHR ''<''"
  "isSpecialSymbol CHR ''(''"
  by (simp_all add: isSpecialSymbol_def)

text \<open>The two symbols of two characters.\<close>

lemma scan_double:
  assumes "c = CHR ''='' \<and> t = DoubleEqualsToken \<or> c = CHR ''!'' \<and> t = NotEqualsToken" "ends_symbol rest"
  shows "scan (c # CHR ''='' # rest) = (t, [c, CHR ''='']) # scan rest"
proof -
  have "fst (snd (fst (symbolLoop [c, CHR ''=''] (t, [c, CHR ''='']) rest))) = t
      \<and> snd (snd (fst (symbolLoop [c, CHR ''=''] (t, [c, CHR ''='']) rest))) = [c, CHR ''='']
      \<and> snd (symbolLoop [c, CHR ''=''] (t, [c, CHR ''='']) rest) = rest"
  proof (cases rest)
    case (Cons d ds)
    then have "d \<noteq> CHR 0x00" using assms(2) by (auto simp: ends_symbol_def)
    moreover have "string2token [c, CHR ''='', d] = None" using assms(1) by (auto simp: string2token_def)
    ultimately show ?thesis using Cons assms(1) by (auto simp: Let_def)
  qed simp
  then have "scanSpecialSymbol (c # CHR ''='' # rest) = ((t, [c, CHR ''='']), rest)"
    using assms(1) by (auto simp: scanSpecialSymbol_def Let_def split: prod.splits)
  then have "Lex (c # CHR ''='' # rest) = ((t, [c, CHR ''='']), rest)"
    using assms(1) special_not_white [of c] by (auto simp: Lex_def)
  then show ?thesis using assms(1) by (subst scan.simps) auto
qed

section \<open>A printed requirement\<close>

text \<open>
  A requirement that \<open>NewRequirement\<close> accepts, and what it is after it was printed and read: the same,
  with its values in order.
\<close>

definition checked :: "Requirement \<Rightarrow> bool" where
  "checked r \<longleftrightarrow> NewRequirement (reqKey r) (operator r) (strValues r) = Inr r"

definition normal :: "Requirement \<Rightarrow> Requirement" where
  "normal r = r\<lparr>strValues := sort (strValues r)\<rparr>"

definition value_items :: "string \<Rightarrow> ScannedItem list" where
  "value_items v = (if v = '''' then [] else [word_item v])"

fun list_items :: "string list \<Rightarrow> ScannedItem list" where
  "list_items [] = []"
| "list_items [v] = value_items v"
| "list_items (v # w # vs) = value_items v @ (CommaToken, '','') # list_items (w # vs)"

definition set_items :: "string list \<Rightarrow> ScannedItem list" where
  "set_items vs = (OpenParToken, ''('') # list_items vs @ [(ClosedParToken, '')'')]"

definition items_of :: "Requirement \<Rightarrow> ScannedItem list" where
  "items_of r =
     (let key = word_item (reqKey r); vs = sort (strValues r) in
      case operator r of
        Exists \<Rightarrow> [key]
      | DoesNotExist \<Rightarrow> [(DoesNotExistToken, ''!''), key]
      | Equals \<Rightarrow> key # (EqualsToken, ''='') # list_items vs
      | DoubleEquals \<Rightarrow> key # (DoubleEqualsToken, ''=='') # list_items vs
      | NotEquals \<Rightarrow> key # (NotEqualsToken, ''!='') # list_items vs
      | GreaterThan \<Rightarrow> key # (GreaterThanToken, ''>'') # list_items vs
      | LessThan \<Rightarrow> key # (LessThanToken, ''<'') # list_items vs
      | In \<Rightarrow> key # (InToken, ''in'') # set_items vs
      | NotIn \<Rightarrow> key # (NotInToken, ''notin'') # set_items vs)"

lemma alnum_ordinary: "is_alnum c \<or> c \<in> {CHR ''-'', CHR ''_'', CHR ''.'', CHR ''/''} \<Longrightarrow> ordinary c"
  by (auto simp: is_alnum_def is_lower_alnum_def between_def ordinary_def isSpecialSymbol_def
      isWhitespace_def)

lemma qualifiedName_word: "qualifiedName n \<Longrightarrow> word n"
  by (auto simp: qualifiedName_def word_def list_all_iff intro!: alnum_ordinary)

lemma label_value_word: "IsValidLabelValue v \<Longrightarrow> v \<noteq> '''' \<Longrightarrow> word v"
  by (auto simp: IsValidLabelValue_def intro: qualifiedName_word)

lemma split_on_parts: "split_on c xs \<noteq> [] \<and> set xs \<subseteq> insert c (\<Union> (set ` set (split_on c xs)))"
  by (induction xs) (auto split: list.splits, blast)

lemma subdomain_ordinary:
  "IsDNS1123Subdomain s \<Longrightarrow> list_all ordinary s"
proof -
  assume s: "IsDNS1123Subdomain s"
  have "ordinary c" if "c \<in> set s" for c
  proof (cases "c = CHR ''.''")
    case False
    with that split_on_parts [of "CHR ''.''" s] obtain l where "l \<in> set (split_on (CHR ''.'') s)" "c \<in> set l"
      by auto
    with s show ?thesis
      by (intro alnum_ordinary)
        (auto simp: IsDNS1123Subdomain_def IsDNS1123Label_def list_all_iff is_alnum_def)
  qed (auto intro: alnum_ordinary)
  then show ?thesis by (simp add: list_all_iff)
qed

lemma IsQualifiedName_word:
  assumes "IsQualifiedName k" shows "word k"
proof -
  obtain ps where ps: "split_on (CHR ''/'') k = ps" "\<forall>p \<in> set ps. list_all ordinary p" "\<exists>p \<in> set ps. p \<noteq> ''''"
    using assms by (auto simp: IsQualifiedName_def split: list.splits
        dest!: qualifiedName_word subdomain_ordinary simp: word_def)
  have "ordinary c" if "c \<in> set k" for c
  proof (cases "c = CHR ''/''")
    case False
    with that split_on_parts [of "CHR ''/''" k] ps(1,2) show ?thesis by (auto simp: list_all_iff)
  qed (auto intro: alnum_ordinary)
  moreover have "k \<noteq> []" using ps by auto
  ultimately show ?thesis by (simp add: word_def list_all_iff)
qed


lemma checked_iff:
  "checked r \<longleftrightarrow>
     IsQualifiedName (reqKey r) \<and> list_all IsValidLabelValue (strValues r) \<and>
     (if operator r \<in> {In, NotIn} then strValues r \<noteq> []
      else if operator r \<in> {Exists, DoesNotExist} then strValues r = []
      else length (strValues r) = 1 \<and>
        (operator r \<in> {GreaterThan, LessThan} \<longrightarrow> (\<forall>v \<in> set (strValues r). ParseInt64 v \<noteq> None)))"
  by (cases "operator r") (auto simp: checked_def NewRequirement_def Let_def list_all_iff filter_empty_conv)

lemma checked_key: "checked r \<Longrightarrow> word (reqKey r)"
  by (auto simp: checked_iff intro: IsQualifiedName_word)

lemma checked_values: "checked r \<Longrightarrow> list_all IsValidLabelValue (sort (strValues r))"
  by (simp add: checked_iff list_all_iff)

lemma checked_normal:
  assumes "checked r"
  shows "NewRequirement (reqKey r) (operator r) (sort (strValues r)) = Inr (normal r)"
proof -
  have "length (sort (strValues r)) = length (strValues r)" "set (sort (strValues r)) = set (strValues r)"
    by simp_all
  moreover have "sort (strValues r) = [] \<longleftrightarrow> strValues r = []" by (metis length_0_conv length_sort)
  ultimately have "checked (normal r)" using assms by (simp add: checked_iff normal_def list_all_iff)
  then show ?thesis by (simp add: checked_def normal_def)
qed

lemma printed_values:
  "(if length vs = 1 then vs ! 0 else Join (safeSort vs) '','') = Join (sort vs) '',''"
proof (cases "length vs = 1")
  case True
  then obtain v where "vs = [v]" by (auto simp: length_Suc_conv)
  then show ?thesis by simp
qed (simp add: safeSort_def sort_key_id_if_sorted)

text \<open>What follows a requirement: nothing, or the comma before the next one.\<close>

definition before_comma :: "string \<Rightarrow> bool" where
  "before_comma rest \<longleftrightarrow> rest = [] \<or> hd rest = CHR '',''"

lemma before_comma_ends: "before_comma rest \<Longrightarrow> ends_word rest" "before_comma rest \<Longrightarrow> ends_symbol rest"
  by (auto simp: before_comma_def ends_word_def ends_symbol_def)

lemma word_ends_symbol: "word w \<Longrightarrow> ends_symbol (w @ rest)"
  by (cases w) (auto simp: word_def ordinary_def ends_symbol_def isSpecialSymbol_def)

lemma scan_value:
  assumes "IsValidLabelValue v" "ends_word rest" shows "scan (v @ rest) = value_items v @ scan rest"
  using assms scan_word [OF label_value_word] by (auto simp: value_items_def)

lemma value_ends_symbol: "IsValidLabelValue v \<Longrightarrow> ends_symbol rest \<Longrightarrow> ends_symbol (v @ rest)"
  using word_ends_symbol [OF label_value_word] by (cases "v = ''''") auto

lemma values_ends_symbol:
  "list_all IsValidLabelValue vs \<Longrightarrow> ends_symbol rest \<Longrightarrow> ends_symbol (Join vs '','' @ rest)"
proof (induction vs rule: list_items.induct)
  case (3 v w vs)
  moreover have "ends_symbol (CHR '','' # Join (w # vs) '','' @ rest)" by (simp add: ends_symbol_def)
  ultimately show ?case using value_ends_symbol [of v] by simp
qed (auto intro: value_ends_symbol)

lemma scan_values:
  assumes "list_all IsValidLabelValue vs" "ends_word rest" "ends_symbol rest"
  shows "scan (Join vs '','' @ rest) = list_items vs @ scan rest"
  using assms
proof (induction vs rule: list_items.induct)
  case (3 v w vs)
  have "ends_symbol (Join (w # vs) '','' @ rest)" using 3 values_ends_symbol [of "w # vs"] by simp
  then have "scan (CHR '','' # Join (w # vs) '','' @ rest) =
      (CommaToken, '','') # list_items (w # vs) @ scan rest"
    using 3 scan_symbol [of "CHR '',''"] by simp
  moreover have "scan (v @ CHR '','' # Join (w # vs) '','' @ rest) =
      value_items v @ scan (CHR '','' # Join (w # vs) '','' @ rest)"
    using 3 by (intro scan_value) (auto simp: ends_word_def)
  ultimately show ?case by simp
qed (auto simp: scan_value)

lemma scan_set:
  assumes "list_all IsValidLabelValue vs" "before_comma rest"
  shows "scan (CHR ''('' # Join vs '','' @ CHR '')'' # rest) = set_items vs @ scan rest"
proof -
  have "scan (CHR '')'' # rest) = (ClosedParToken, '')'') # scan rest"
    using assms before_comma_ends by (intro scan_symbol) auto
  moreover have e: "ends_word (CHR '')'' # rest)" "ends_symbol (CHR '')'' # rest)"
    by (simp_all add: ends_word_def ends_symbol_def)
  ultimately have "scan (Join vs '','' @ CHR '')'' # rest) = list_items vs @ (ClosedParToken, '')'') # scan rest"
    using scan_values [OF assms(1) e] by simp
  moreover have "ends_symbol (Join vs '','' @ CHR '')'' # rest)" using values_ends_symbol assms(1) e by simp
  ultimately show ?thesis using scan_symbol [of "CHR ''(''"] by (simp add: set_items_def)
qed


lemma scan_key:
  "checked r \<Longrightarrow> ends_word rest \<Longrightarrow> scan (reqKey r @ rest) = word_item (reqKey r) # scan rest"
  by (intro scan_word checked_key)

lemma scan_keyword:
  assumes "k = ''in'' \<or> k = ''notin''"
  shows "scan (CHR '' '' # k @ CHR '' '' # rest) = word_item k # scan rest"
proof -
  have "word k" using assms by (auto simp: word_def ordinary_def isSpecialSymbol_def isWhitespace_def)
  then have "scan (k @ CHR '' '' # rest) = word_item k # scan (CHR '' '' # rest)"
    by (intro scan_word) (simp_all add: ends_word_def isWhitespace_def)
  then show ?thesis by simp
qed

lemma keyword_items [simp]:
  "word_item ''in'' = (InToken, ''in'')" "word_item ''notin'' = (NotInToken, ''notin'')"
  by (simp_all add: word_item_def string2token_def)

lemma requirement_String_sorted:
  "requirement_String r =
     (let key = reqKey r; vals = Join (sort (strValues r)) '','' in
      case operator r of
        Exists \<Rightarrow> key | DoesNotExist \<Rightarrow> CHR ''!'' # key
      | Equals \<Rightarrow> key @ CHR ''='' # vals | DoubleEquals \<Rightarrow> key @ CHR ''='' # CHR ''='' # vals
      | NotEquals \<Rightarrow> key @ CHR ''!'' # CHR ''='' # vals
      | GreaterThan \<Rightarrow> key @ CHR ''>'' # vals | LessThan \<Rightarrow> key @ CHR ''<'' # vals
      | In \<Rightarrow> key @ CHR '' '' # ''in'' @ CHR '' '' # CHR ''('' # vals @ '')''
      | NotIn \<Rightarrow> key @ CHR '' '' # ''notin'' @ CHR '' '' # CHR ''('' # vals @ '')'')"
  unfolding requirement_String_def Let_def printed_values by (simp split: Operator.split)

lemma no_values: "checked r \<Longrightarrow> operator r = Exists \<or> operator r = DoesNotExist \<Longrightarrow> strValues r = []"
  by (auto simp: checked_iff)

lemma scan_assignment:
  assumes r: "checked r" and rest: "before_comma rest"
    and op: "isSpecialSymbol c" "string2token [c] = Some t"
  shows "scan (reqKey r @ c # Join (sort (strValues r)) '','' @ rest) =
    word_item (reqKey r) # (t, [c]) # list_items (sort (strValues r)) @ scan rest"
proof -
  let ?vs = "Join (sort (strValues r)) '','' @ rest"
  have "scan (reqKey r @ c # ?vs) = word_item (reqKey r) # scan (c # ?vs)"
    using r op by (intro scan_key) (auto simp: ends_word_def)
  moreover have "scan (c # ?vs) = (t, [c]) # scan ?vs"
    using op values_ends_symbol [OF checked_values [OF r]] before_comma_ends [OF rest] by (intro scan_symbol) auto
  ultimately show ?thesis
    using scan_values [OF checked_values [OF r]] before_comma_ends [OF rest] by simp
qed

lemma scan_assignment2:
  assumes r: "checked r" and rest: "before_comma rest"
    and op: "c = CHR ''='' \<and> t = DoubleEqualsToken \<or> c = CHR ''!'' \<and> t = NotEqualsToken"
  shows "scan (reqKey r @ c # CHR ''='' # Join (sort (strValues r)) '','' @ rest) =
    word_item (reqKey r) # (t, [c, CHR ''='']) # list_items (sort (strValues r)) @ scan rest"
proof -
  let ?vs = "Join (sort (strValues r)) '','' @ rest"
  have "scan (reqKey r @ c # CHR ''='' # ?vs) = word_item (reqKey r) # scan (c # CHR ''='' # ?vs)"
    using r op by (intro scan_key) (auto simp: ends_word_def)
  moreover have "scan (c # CHR ''='' # ?vs) = (t, [c, CHR ''='']) # scan ?vs"
    using op values_ends_symbol [OF checked_values [OF r]] before_comma_ends [OF rest] by (intro scan_double) auto
  ultimately show ?thesis
    using scan_values [OF checked_values [OF r]] before_comma_ends [OF rest] by simp
qed

lemma scan_membership:
  assumes r: "checked r" and rest: "before_comma rest" and k: "k = ''in'' \<or> k = ''notin''"
  shows "scan (reqKey r @ CHR '' '' # k @ CHR '' '' # CHR ''('' # Join (sort (strValues r)) '','' @ CHR '')'' # rest) =
    word_item (reqKey r) # word_item k # set_items (sort (strValues r)) @ scan rest"
proof -
  let ?vs = "CHR ''('' # Join (sort (strValues r)) '','' @ CHR '')'' # rest"
  have "scan (reqKey r @ CHR '' '' # k @ CHR '' '' # ?vs) =
      word_item (reqKey r) # scan (CHR '' '' # k @ CHR '' '' # ?vs)"
    using r by (intro scan_key) (auto simp: ends_word_def isWhitespace_def)
  then show ?thesis using scan_keyword [OF k] scan_set [OF checked_values [OF r] rest] by simp
qed

lemma scan_requirement:
  assumes r: "checked r" and rest: "before_comma rest"
  shows "scan (requirement_String r @ rest) = items_of r @ scan rest"
proof (cases "operator r")
  case DoesNotExist
  have "scan (CHR ''!'' # reqKey r @ rest) = (DoesNotExistToken, ''!'') # scan (reqKey r @ rest)"
    using word_ends_symbol [OF checked_key [OF r]] by (intro scan_symbol) auto
  then show ?thesis using scan_key [OF r] before_comma_ends [OF rest] DoesNotExist
    by (simp add: requirement_String_sorted items_of_def)
next
  case Exists
  then show ?thesis using scan_key [OF r] before_comma_ends [OF rest]
    by (simp add: requirement_String_sorted items_of_def)
qed (use scan_assignment [OF assms] scan_assignment2 [OF assms]
      scan_membership [OF assms, of "''in''"] scan_membership [OF assms, of "''notin''"]
      in \<open>simp_all add: requirement_String_sorted items_of_def\<close>)

text \<open>The items of a printed selector.\<close>

fun selector_items :: "Selector \<Rightarrow> ScannedItem list" where
  "selector_items [] = [(EndOfStringToken, '''')]"
| "selector_items [r] = items_of r @ [(EndOfStringToken, '''')]"
| "selector_items (r # q # s) = items_of r @ (CommaToken, '','') # selector_items (q # s)"

lemma requirement_ends_symbol: "checked r \<Longrightarrow> ends_symbol (requirement_String r @ rest)"
proof -
  assume "checked r"
  then obtain c cs where k: "reqKey r = c # cs" "c \<noteq> CHR 0x00" "c \<noteq> CHR ''=''"
    using checked_key [of r] by (cases "reqKey r") (auto simp: word_def ordinary_def isSpecialSymbol_def)
  then show ?thesis
    by (cases "operator r") (simp_all add: requirement_String_sorted ends_symbol_def)
qed

lemma scan_selector: "list_all checked s \<Longrightarrow> scan (selector_String s) = selector_items s"
proof (induction s rule: selector_items.induct)
  case (2 r)
  then show ?case using scan_requirement [of r "''''"] by (simp add: selector_String_def before_comma_def)
next
  case (3 r q s)
  have "ends_symbol (selector_String (q # s))"
    using 3 requirement_ends_symbol [of q] requirement_ends_symbol [of q "''''"] by (cases s) (auto simp: selector_String_def)
  then have "scan (CHR '','' # selector_String (q # s)) = (CommaToken, '','') # scan (selector_String (q # s))"
    by (intro scan_symbol) auto
  moreover have "selector_String (r # q # s) = requirement_String r @ CHR '','' # selector_String (q # s)"
    by (simp add: selector_String_def)
  ultimately show ?case using 3 scan_requirement [of r "CHR '','' # selector_String (q # s)"]
    by (simp add: before_comma_def)
qed (simp add: selector_String_def)


section \<open>Reading what was printed\<close>

lemma lookahead_word [simp]: "word w \<Longrightarrow> lookahead Values (word_item w # items) = (IdentifierToken, w)"
  by simp

lemma in_context_punctuation [simp]:
  "fst item \<notin> {InToken, NotInToken} \<Longrightarrow> in_context c item = item"
  "in_context KeyAndOperator item = item"
  by (simp_all add: in_context_def)

lemma parse_words:
  assumes "list_all word vs" "vs \<noteq> []" "distinct vs" "set vs \<inter> set s = {}"
  shows "parseIdentifiersList s (list_items vs @ (ClosedParToken, l) # rest) =
    Inr (rev vs @ s, (ClosedParToken, l) # rest)"
  using assms
proof (induction vs arbitrary: s rule: list_items.induct)
  case (2 v)
  then have "v \<noteq> ''''" by (auto simp: word_def)
  with 2 show ?case by (simp add: value_items_def)
next
  case (3 v w vs)
  then have v: "word v" "word w" "v \<noteq> ''''" "w \<noteq> ''''" "v \<notin> set s" by (auto simp: word_def)
  obtain items where items: "list_items (w # vs) @ (ClosedParToken, l) # rest = word_item w # items"
    using v by (cases vs) (auto simp: value_items_def)
  have "parseIdentifiersList (v # s) (word_item w # items) =
      Inr (rev (w # vs) @ v # s, (ClosedParToken, l) # rest)"
    using 3 v by (simp only: items [symmetric]) (intro "3.IH", auto)
  moreover have "parseIdentifiersList s (list_items (v # w # vs) @ (ClosedParToken, l) # rest) =
      parseIdentifiersList (v # s) (word_item w # items)"
    using v items by (simp add: value_items_def)
  ultimately show ?case by simp
qed simp

text \<open>The values of a set, which \<open>NewRequirement\<close> accepts, are read in some order.\<close>

lemma sort_rev: "sort (rev xs) = sort xs"
  by (rule properties_for_sort) simp_all

lemma parse_set:
  assumes vs: "list_all IsValidLabelValue vs" "vs \<noteq> []" "distinct vs" "sorted vs"
  shows "\<exists>xs. parseValues (set_items vs @ rest) = Inr (xs, rest) \<and> sort xs = vs"
proof (cases "hd vs = ''''")
  case False
  have "'''' \<notin> set vs" using vs False by (cases vs) auto
  then have w: "list_all word vs" using vs(1) by (auto simp: list_all_iff intro: label_value_word)
  obtain v items where items: "list_items vs @ (ClosedParToken, '')'') # rest = word_item v # items" "word v"
    using w vs(2) by (cases vs rule: list_items.cases) (auto simp: value_items_def word_def)
  have "parseIdentifiersList [] (word_item v # items) = Inr (rev vs, (ClosedParToken, '')'') # rest)"
    using parse_words [OF w vs(2,3), of "[]" "'')''" rest] by (simp add: items)
  then show ?thesis using vs(4) items
    by (simp add: parseValues_def consume_def set_items_def sort_rev sort_key_id_if_sorted)
next
  case True
  then obtain vs' where vs': "vs = '''' # vs'" using vs(2) by (cases vs) auto
  show ?thesis
  proof (cases vs')
    case Nil
    then show ?thesis by (simp add: vs' parseValues_def consume_def set_items_def value_items_def)
  next
    case (Cons v ws)
    then have "'''' \<notin> set vs'" using vs(3) vs' by simp
    then have w: "list_all word vs'" using vs(1) vs' by (auto simp: list_all_iff intro: label_value_word)
    obtain items where items: "list_items vs' @ (ClosedParToken, '')'') # rest = word_item v # items" "word v"
      using w Cons by (cases ws) (auto simp: value_items_def word_def)
    have "parseIdentifiersList [''''] (word_item v # items) = Inr (rev vs' @ [''''], (ClosedParToken, '')'') # rest)"
      using parse_words [OF w, of "['''']" "'')''" rest] vs(3) vs' Cons
      unfolding items(1) by (simp del: parseIdentifiersList.simps)
    moreover have "sort (rev vs' @ ['''']) = vs"
      using vs(4) vs' by (intro properties_for_sort) auto
    ultimately show ?thesis using items
      by (simp add: vs' Cons parseValues_def consume_def set_items_def value_items_def)
  qed
qed


lemma parse_exact:
  assumes "IsValidLabelValue v" "fst t \<in> {EndOfStringToken, CommaToken}"
  shows "parseExactValue (value_items v @ t # rest) = Inr ([v], t # rest)"
  using assms label_value_word [of v]
  by (cases "v = ''''") (auto simp: parseExactValue_def consume_def value_items_def Let_def)

text \<open>A key, then its operator.\<close>

lemma parse_key:
  assumes "checked r" "fst t \<notin> {EndOfStringToken, CommaToken}"
  shows "parseKeyAndInferOperator (word_item (reqKey r) # t # rest) = Inr ((reqKey r, None), t # rest)"
proof -
  have "fst (in_context Values t) \<notin> {EndOfStringToken, CommaToken}" using assms(2) by (auto simp: in_context_def)
  with assms(1) checked_key [OF assms(1)] show ?thesis
    by (simp add: parseKeyAndInferOperator_def consume_def checked_iff)
qed

lemma parse_operator:
  "operatorOf (fst t) = Some op \<Longrightarrow> parseOperator (t # items) = Inr (op, items)"
  by (cases t) (auto simp: parseOperator_def consume_def)

lemma checked_requirement_normal:
  "checked r \<Longrightarrow> checked_requirement (reqKey r) (operator r) (sort (strValues r)) items = Inr (normal r, items)"
  by (simp add: checked_requirement_def checked_normal)

lemma parse_existence:
  assumes r: "checked r" and e: "fst t \<in> {EndOfStringToken, CommaToken}"
    and op: "operator r = Exists \<or> operator r = DoesNotExist"
  shows "parseRequirement (items_of r @ t # rest) = Inr (normal r, t # rest)"
proof -
  have "parseKeyAndInferOperator (items_of r @ t # rest) = Inr ((reqKey r, Some (operator r)), t # rest)"
    using r e op checked_key [OF r]
    by (auto simp: items_of_def parseKeyAndInferOperator_def consume_def checked_iff)
  then show ?thesis using op checked_requirement_normal [OF r] no_values [OF r op]
    by (auto simp: parseRequirement_def)
qed

text \<open>A requirement whose operator stands behind its key.\<close>

lemma parse_with_operator:
  assumes r: "checked r"
    and items: "items_of r @ rest = word_item (reqKey r) # t # vals"
    and op: "operatorOf (fst t) = Some (operator r)"
    and vals: "(if operator r \<in> {In, NotIn} then parseValues vals else parseExactValue vals) = Inr (vs, rest)"
    and sorted: "sort vs = sort (strValues r)"
  shows "parseRequirement (items_of r @ rest) = Inr (normal r, rest)"
proof -
  have "parseKeyAndInferOperator (items_of r @ rest) = Inr ((reqKey r, None), t # vals)"
    unfolding items using op by (intro parse_key [OF r]) (auto simp: operatorOf_def)
  moreover have "parseOperator (t # vals) = Inr (operator r, vals)" by (rule parse_operator [OF op])
  ultimately show ?thesis
    using vals checked_requirement_normal [OF r] by (simp add: parseRequirement_def sorted)
qed

lemma single_value:
  assumes "checked r" "operator r \<notin> {In, NotIn, Exists, DoesNotExist}"
  obtains v where "strValues r = [v]" "IsValidLabelValue v"
  using assms by (cases "strValues r") (auto simp: checked_iff)

lemma parse_requirement:
  assumes r: "checked r" "distinct (strValues r)" and e: "fst t \<in> {EndOfStringToken, CommaToken}"
  shows "parseRequirement (items_of r @ t # rest) = Inr (normal r, t # rest)"
proof -
  consider "operator r = Exists \<or> operator r = DoesNotExist" | "operator r \<in> {In, NotIn}"
    | "operator r \<notin> {In, NotIn, Exists, DoesNotExist}"
    by (cases "operator r") auto
  then show ?thesis
  proof cases
    case 1
    then show ?thesis using parse_existence r(1) e by blast
  next
    case 2
    then have "strValues r \<noteq> []" using r(1) by (auto simp: checked_iff)
    then have "sort (strValues r) \<noteq> []" by (metis length_0_conv length_sort)
    then obtain xs where xs: "parseValues (set_items (sort (strValues r)) @ t # rest) = Inr (xs, t # rest)"
        "sort xs = sort (strValues r)"
      using parse_set [OF checked_values [OF r(1)]] r(2) by auto
    define k where "k = (if operator r = In then (InToken, ''in'') else (NotInToken, ''notin''))"
    show ?thesis
      using 2 xs by (intro parse_with_operator [OF r(1), of _ k _ xs]) (auto simp: items_of_def k_def operatorOf_def)
  next
    case 3
    then obtain v where v: "strValues r = [v]" "IsValidLabelValue v" using single_value r(1) by blast
    define k where "k = (case operator r of Equals \<Rightarrow> (EqualsToken, ''='')
        | DoubleEquals \<Rightarrow> (DoubleEqualsToken, ''=='') | NotEquals \<Rightarrow> (NotEqualsToken, ''!='')
        | GreaterThan \<Rightarrow> (GreaterThanToken, ''>'') | _ \<Rightarrow> (LessThanToken, ''<''))"
    show ?thesis
      using 3 v parse_exact [OF v(2) e]
      by (intro parse_with_operator [OF r(1), of _ k _ "[v]"])
        (auto simp: items_of_def k_def operatorOf_def split: Operator.splits)
  qed
qed


lemma items_of_head:
  assumes "checked r" shows "\<exists>l. lookahead Values (items_of r @ rest) \<in> {(IdentifierToken, l), (DoesNotExistToken, l)}"
  using checked_key [OF assms] by (auto simp: items_of_def Let_def split: Operator.split)

lemma selector_items_head:
  "list_all checked (r # s) \<Longrightarrow>
     \<exists>l. lookahead Values (selector_items (r # s)) \<in> {(IdentifierToken, l), (DoesNotExistToken, l)}"
  using items_of_head [of r] by (cases s) auto

lemma parse_selector_items:
  assumes "list_all checked s" "list_all (\<lambda>r. distinct (strValues r)) s"
  shows "parseLoop acc (selector_items s) = Inr (acc @ map normal s)"
  using assms
proof (induction s arbitrary: acc rule: selector_items.induct)
  case 1
  show ?case by (subst parseLoop.simps) simp
next
  case (2 r)
  then obtain l where l: "lookahead Values (items_of r @ [(EndOfStringToken, '''')])
      \<in> {(IdentifierToken, l), (DoesNotExistToken, l)}" using items_of_head by fastforce
  then show ?case
    using 2 parse_requirement [of r "(EndOfStringToken, '''')" "[]"]
    by (subst parseLoop.simps) (auto simp: consume_def)
next
  case (3 r q s)
  let ?rest = "selector_items (q # s)"
  obtain l l' where l: "lookahead Values (items_of r @ (CommaToken, '','') # ?rest)
      \<in> {(IdentifierToken, l), (DoesNotExistToken, l)}"
    and l': "lookahead Values ?rest \<in> {(IdentifierToken, l'), (DoesNotExistToken, l')}"
    using 3 items_of_head selector_items_head by fastforce
  have "parseLoop acc (selector_items (r # q # s)) = parseLoop (acc @ [normal r]) ?rest"
    using l l' 3 parse_requirement [of r "(CommaToken, '','')" ?rest]
    by (subst parseLoop.simps) (auto simp: consume_def)
  then show ?case using 3 by simp
qed

lemma Parse_selector_String:
  assumes "list_all checked s" "list_all (\<lambda>r. distinct (strValues r)) s"
  shows "Parse n (selector_String s) = Inr (ByKey_Sort n (map normal s))"
  using parse_selector_items [OF assms, of "[]"] scan_selector [OF assms(1)] by (simp add: Parse_def)

lemma normal_matches:
  assumes "checked r" shows "RequirementMatches (normal r) ls = RequirementMatches r ls"
proof (cases "operator r \<in> {GreaterThan, LessThan}")
  case True
  then obtain v where "strValues r = [v]" using single_value [OF assms] by (cases "operator r") auto
  then have "normal r = r" by (simp add: normal_def)
  then show ?thesis by simp
next
  case False
  have "hasValue (normal r) v = hasValue r v" for v by (simp add: hasValue_def normal_def list_ex_iff)
  with False show ?thesis by (cases "operator r") (simp_all add: RequirementMatches_def normal_def)
qed

lemma normal_selector_matches:
  "list_all checked s \<Longrightarrow> SelectorMatches (map normal s) ls = SelectorMatches s ls"
  by (auto simp: SelectorMatches_iff list_all_iff normal_matches)


section \<open>The round trip\<close>

text \<open>
  C26. A selector whose requirements \<open>NewRequirement\<close> accepts, without repeated values (as a set keeps
  them), is read back from its printed form, however the sort orders equal keys: reading does not fail,
  gives the same requirements, each with its values sorted, in an order by key, and the selector read
  matches the same labels. When the keys were in order and distinct, their order is the same too.
\<close>

theorem selector_roundtrip:
  assumes "list_all checked s" "list_all (\<lambda>r. distinct (strValues r)) s"
  shows "\<exists>rs. Parse n (selector_String s) = Inr rs
    \<and> mset rs = mset (map normal s) \<and> sorted (map reqKey rs)
    \<and> (\<forall>ls. SelectorMatches rs ls = SelectorMatches s ls)
    \<and> (sorted (map reqKey s) \<and> distinct (map reqKey s) \<longrightarrow> rs = map normal s)"
proof (intro exI conjI)
  show "Parse n (selector_String s) = Inr (ByKey_Sort n (map normal s))"
    using Parse_selector_String [OF assms] .
  show "\<forall>ls. SelectorMatches (ByKey_Sort n (map normal s)) ls = SelectorMatches s ls"
    using normal_selector_matches [OF assms(1)] by (simp add: SelectorMatches_iff)
  show "sorted (map reqKey s) \<and> distinct (map reqKey s) \<longrightarrow> ByKey_Sort n (map normal s) = map normal s"
    using ByKey_Sort_distinct [of "map normal s" n] by (simp add: normal_def comp_def)
qed (rule mset_ByKey_Sort sorted_ByKey_Sort)+

definition example_selector :: Selector where
  "example_selector =
     [\<lparr>reqKey = ''apheleia.io/deploy'', operator = Exists, strValues = []\<rparr>,
      \<lparr>reqKey = ''in'', operator = In, strValues = [''notin'', '''', ''in'']\<rparr>,
      \<lparr>reqKey = ''level'', operator = GreaterThan, strValues = [''10'']\<rparr>,
      \<lparr>reqKey = ''name'', operator = Equals, strValues = ['''']\<rparr>,
      \<lparr>reqKey = ''zone'', operator = DoesNotExist, strValues = []\<rparr>]"

theorem selector_roundtrip_witness:
  "\<forall>n. selector_String example_selector = ''apheleia.io/deploy,in in (,in,notin),level>10,name=,!zone''
   \<and> Parse n ''apheleia.io/deploy,in in (,in,notin),level>10,name=,!zone'' = Inr (map normal example_selector)"
proof -
  have p: "selector_String example_selector = ''apheleia.io/deploy,in in (,in,notin),level>10,name=,!zone''"
    by code_simp
  have "list_all checked example_selector" "list_all (\<lambda>r. distinct (strValues r)) example_selector"
    "sorted (map reqKey example_selector)" "distinct (map reqKey example_selector)"
    by code_simp+
  with selector_roundtrip [OF this(1,2)] p show ?thesis by simp
qed

end
