(* ===== verification/FakeClientset.thy ===== *)
theory FakeClientset
  imports ClientInterface GoPath Scheme Tracker SelectorText
begin

text \<open>
  The generated fake clientset (\<open>pkg/client/clientset/versioned/fake/clientset_generated.go\<close> and
  \<open>typed/apheleia/v1alpha1/fake/*.go\<close>) on the vendored object tracker with watches
  (\<open>k8s.io/client-go/testing/fixture.go\<close>, \<open>fake.go\<close>, \<open>actions.go\<close>). A call notes an action and asks the
  chain of reactors; the reactor of a new clientset applies the action to the tracker. An operation
  that panics has the value None: a full channel of a watcher, a selector that does not parse, a
  type assertion. Label selectors are read by the parser of \<open>SelectorText\<close>; parsing field selectors and
  applying patches are arguments, in the record \<open>helpers\<close>.
\<close>

section \<open>The tracker\<close>

type_synonym build_store = "unit ComponentBuild_ext store"

record fakeWatcher =
  fwResource :: GroupVersionResource
  fwNamespace :: string
  fwStopped :: bool
  fwResult :: "watch_event list"

record objectTracker =
  otObjects :: "(GroupVersionResource \<times> build_store) list"
  otWatchers :: "fakeWatcher list"

definition NewObjectTracker :: objectTracker where
  "NewObjectTracker = \<lparr>otObjects = [], otWatchers = []\<rparr>"

definition DefaultChanSize :: nat where
  "DefaultChanSize = 100"

definition objects_at :: "objectTracker \<Rightarrow> GroupVersionResource \<Rightarrow> build_store" where
  "objects_at t gvr = (case map_of (otObjects t) gvr of None \<Rightarrow> [] | Some objs \<Rightarrow> objs)"

definition gvr_resource :: "GroupVersionResource \<Rightarrow> GroupResource" where
  "gvr_resource gvr = GroupResource (gvrGroup gvr) (gvrResource gvr)"

text \<open>\<open>getWatches\<close>: the watchers of the namespace and those of all namespaces.\<close>

definition watches :: "GroupVersionResource \<Rightarrow> string \<Rightarrow> fakeWatcher \<Rightarrow> bool" where
  "watches gvr ns w \<longleftrightarrow>
     fwResource w = gvr \<and> (fwNamespace w = ns \<or> ns \<noteq> '''' \<and> fwNamespace w = '''')"

text \<open>A watcher takes an event unless it was stopped, and panics when its channel is full.\<close>

definition send_event :: "watch_event \<Rightarrow> fakeWatcher \<Rightarrow> fakeWatcher option" where
  "send_event ev w =
     (if fwStopped w then Some w
      else if length (fwResult w) < DefaultChanSize then Some (w\<lparr>fwResult := fwResult w @ [ev]\<rparr>)
      else None)"

fun broadcast ::
  "GroupVersionResource \<Rightarrow> string \<Rightarrow> watch_event \<Rightarrow> fakeWatcher list \<Rightarrow> fakeWatcher list option" where
  "broadcast gvr ns ev [] = Some []"
| "broadcast gvr ns ev (w # ws) =
     (case (if watches gvr ns w then send_event ev w else Some w) of
        None \<Rightarrow> None
      | Some w' \<Rightarrow> map_option (\<lambda>ws'. w' # ws') (broadcast gvr ns ev ws))"

text \<open>\<open>add\<close>, with the two uses it has.\<close>

definition ot_add ::
  "GroupVersionResource \<Rightarrow> ComponentBuild \<Rightarrow> string \<Rightarrow> bool \<Rightarrow> objectTracker
     \<Rightarrow> (api_error option \<times> objectTracker) option" where
  "ot_add gvr obj ns replaceExisting t =
     (let newMeta = (if length (obj_ns obj) = 0 then SetNamespace ns obj else obj) in
      case tracker_add (gvr_resource gvr) (objects_at t gvr) obj ns replaceExisting of
        Inl err \<Rightarrow> Some (Some err, t)
      | Inr objs \<Rightarrow>
          (case broadcast gvr ns (if replaceExisting then ModifiedEvent newMeta else AddedEvent newMeta)
                  (otWatchers t) of
             None \<Rightarrow> None
           | Some ws \<Rightarrow>
               Some (None, t\<lparr>otObjects := AList.update gvr objs (otObjects t), otWatchers := ws\<rparr>)))"

definition ot_Create ::
  "GroupVersionResource \<Rightarrow> ComponentBuild \<Rightarrow> string \<Rightarrow> objectTracker
     \<Rightarrow> (api_error option \<times> objectTracker) option" where
  "ot_Create gvr obj ns t = ot_add gvr obj ns False t"

definition ot_Update ::
  "GroupVersionResource \<Rightarrow> ComponentBuild \<Rightarrow> string \<Rightarrow> objectTracker
     \<Rightarrow> (api_error option \<times> objectTracker) option" where
  "ot_Update gvr obj ns t = ot_add gvr obj ns True t"

definition ot_Get ::
  "GroupVersionResource \<Rightarrow> string \<Rightarrow> string \<Rightarrow> objectTracker \<Rightarrow> api_error + ComponentBuild" where
  "ot_Get gvr ns name t = tracker_Get (gvr_resource gvr) (objects_at t gvr) ns name"

definition ot_Delete ::
  "GroupVersionResource \<Rightarrow> string \<Rightarrow> string \<Rightarrow> objectTracker
     \<Rightarrow> (api_error option \<times> objectTracker) option" where
  "ot_Delete gvr ns name t =
     (case map_of (objects_at t gvr) (NamespacedName ns name) of
        None \<Rightarrow> Some (Some (NewNotFound (gvr_resource gvr) name), t)
      | Some obj \<Rightarrow>
          (case broadcast gvr ns (DeletedEvent obj) (otWatchers t) of
             None \<Rightarrow> None
           | Some ws \<Rightarrow>
               Some (None,
                 t\<lparr>otObjects := AList.update gvr (AList.delete (NamespacedName ns name) (objects_at t gvr))
                      (otObjects t), otWatchers := ws\<rparr>)))"

text \<open>\<open>List\<close> makes a list of the kind's list type, which the scheme must know.\<close>

definition ot_List ::
  "Scheme \<Rightarrow> GroupVersionResource \<Rightarrow> GroupVersionKind \<Rightarrow> string \<Rightarrow> objectTracker
     \<Rightarrow> api_error + BuildList" where
  "ot_List sch gvr gvk ns t =
     (let version = (if gvkVersion gvk = '''' then ''__internal'' else gvkVersion gvk);
          listGVK = GroupVersionKind (gvkGroup gvk) version (gvkKind gvk @ ''List'')
      in case map_of (gvkToType sch) listGVK of
           None \<Rightarrow> Inl (OtherError ''no kind is registered'')
         | Some listType \<Rightarrow> Inr (emptyBuildList\<lparr>blItems := filterByNamespace (objects_at t gvr) ns\<rparr>))"

definition ot_Watch :: "GroupVersionResource \<Rightarrow> string \<Rightarrow> objectTracker \<Rightarrow> nat \<times> objectTracker" where
  "ot_Watch gvr ns t =
     (length (otWatchers t),
      t\<lparr>otWatchers := otWatchers t
           @ [\<lparr>fwResource = gvr, fwNamespace = ns, fwStopped = False, fwResult = []\<rparr>]\<rparr>)"

text \<open>
  \<open>Add\<close> of an initial object: a component build goes under the resource guessed from each of its
  kinds (\<open>UnsafeGuessKindToResource\<close>), a list item by item.
\<close>

definition guessResource :: "GroupVersionKind \<Rightarrow> GroupVersionResource" where
  "guessResource gvk =
     (let singularName = map lower_byte (gvkKind gvk);
          gvr = (\<lambda>r. GroupVersionResource (gvkGroup gvk) (gvkVersion gvk) r)
      in if length (gvkKind gvk) = 0 then GroupVersionResource '''' '''' ''''
         else if drop (length singularName - length ''endpoints'') singularName = ''endpoints''
         then gvr singularName
         else if last singularName = CHR ''s'' then gvr (singularName @ ''es'')
         else if last singularName = CHR ''y'' then gvr (butlast singularName @ ''ies'')
         else gvr (singularName @ ''s''))"

fun add_kinds ::
  "GroupVersionKind list \<Rightarrow> ComponentBuild \<Rightarrow> objectTracker
     \<Rightarrow> (api_error option \<times> objectTracker) option" where
  "add_kinds [] obj t = Some (None, t)"
| "add_kinds (gvk # gvks) obj t =
     (let gvr = guessResource gvk;
          gvr = (if gvrVersion gvr = ''__internal''
                 then GroupVersionResource (gvrGroup gvr) '''' (gvrResource gvr) else gvr)
      in case ot_add gvr obj (obj_ns obj) False t of
           None \<Rightarrow> None
         | Some (Some err, t') \<Rightarrow> Some (Some err, t')
         | Some (None, t') \<Rightarrow> add_kinds gvks obj t')"

definition ot_Add_build ::
  "Scheme \<Rightarrow> ComponentBuild \<Rightarrow> objectTracker \<Rightarrow> (api_error option \<times> objectTracker) option" where
  "ot_Add_build sch obj t =
     (case ObjectKinds sch ComponentBuildType of
        Inl err \<Rightarrow> Some (Some err, t)
      | Inr (gvks, isUnversioned) \<Rightarrow>
          (if length gvks = 0 then Some (Some (OtherError ''no registered kinds''), t)
           else add_kinds gvks obj t))"

fun ot_addList ::
  "Scheme \<Rightarrow> ComponentBuild list \<Rightarrow> objectTracker \<Rightarrow> (api_error option \<times> objectTracker) option" where
  "ot_addList sch [] t = Some (None, t)"
| "ot_addList sch (obj # objs) t =
     (case ot_Add_build sch obj t of
        None \<Rightarrow> None
      | Some (Some err, t') \<Rightarrow> Some (Some err, t')
      | Some (None, t') \<Rightarrow> ot_addList sch objs t')"

datatype fake_object = NilObject | BuildObject ComponentBuild | ListObject BuildList

definition ot_Add ::
  "Scheme \<Rightarrow> fake_object \<Rightarrow> objectTracker \<Rightarrow> (api_error option \<times> objectTracker) option" where
  "ot_Add sch obj t =
     (case obj of
        NilObject \<Rightarrow> Some (Some errNotObject, t)
      | BuildObject cb \<Rightarrow> ot_Add_build sch cb t
      | ListObject l \<Rightarrow> ot_addList sch (blItems l) t)"

section \<open>Actions and reactors\<close>

datatype action_kind =
  GetAction string | ListAction GroupVersionKind Selector string | CreateAction ComponentBuild
| UpdateAction ComponentBuild | DeleteAction string DeleteOptions
| DeleteCollectionAction Selector string | PatchAction string PatchType string
| WatchAction Selector string string

record action =
  acNamespace :: string
  acResource :: GroupVersionResource
  acSubresource :: string
  acKind :: action_kind

fun GetVerb :: "action_kind \<Rightarrow> string" where
  "GetVerb (GetAction n) = ''get''"
| "GetVerb (ListAction gvk l f) = ''list''"
| "GetVerb (CreateAction obj) = ''create''"
| "GetVerb (UpdateAction obj) = ''update''"
| "GetVerb (DeleteAction n opts) = ''delete''"
| "GetVerb (DeleteCollectionAction l f) = ''delete-collection''"
| "GetVerb (PatchAction n pt data) = ''patch''"
| "GetVerb (WatchAction l f rv) = ''watch''"

definition resourceCovers :: "string \<Rightarrow> action \<Rightarrow> bool" where
  "resourceCovers resource a \<longleftrightarrow>
     resource = ''*'' \<or> resource = gvrResource (acResource a)
     \<or> (let parts = split_on CHR ''/'' resource in
         length parts > 1 \<and> hd parts = gvrResource (acResource a)
         \<and> Join (tl parts) ''/'' = acSubresource a)"

type_synonym 'r reaction =
  "action \<Rightarrow> objectTracker \<Rightarrow> ((bool \<times> 'r \<times> api_error option) \<times> objectTracker) option"

record SimpleReactor =
  srVerb :: string
  srResource :: string
  srReaction :: "fake_object reaction"

record SimpleWatchReactor =
  swResource :: string
  swReaction :: "nat option reaction"

definition Handles :: "SimpleReactor \<Rightarrow> action \<Rightarrow> bool" where
  "Handles r a \<longleftrightarrow>
     (srVerb r = ''*'' \<or> srVerb r = GetVerb (acKind a)) \<and> resourceCovers (srResource r) a"

record Fake =
  fkActions :: "action list"
  fkReactionChain :: "SimpleReactor list"
  fkWatchReactionChain :: "SimpleWatchReactor list"
  fkTracker :: objectTracker

definition AddReactor :: "string \<Rightarrow> string \<Rightarrow> fake_object reaction \<Rightarrow> Fake \<Rightarrow> Fake" where
  "AddReactor verb resource reaction f =
     f\<lparr>fkReactionChain := fkReactionChain f
          @ [\<lparr>srVerb = verb, srResource = resource, srReaction = reaction\<rparr>]\<rparr>"

definition AddWatchReactor :: "string \<Rightarrow> nat option reaction \<Rightarrow> Fake \<Rightarrow> Fake" where
  "AddWatchReactor resource reaction f =
     f\<lparr>fkWatchReactionChain := fkWatchReactionChain f
          @ [\<lparr>swResource = resource, swReaction = reaction\<rparr>]\<rparr>"

text \<open>The loop over a chain of reactions: the first that handles the action answers.\<close>

fun invokeChain ::
  "'r reaction list \<Rightarrow> action \<Rightarrow> objectTracker
     \<Rightarrow> (('r \<times> api_error option) option \<times> objectTracker) option" where
  "invokeChain [] a t = Some (None, t)"
| "invokeChain (react # rs) a t =
     (case react a t of
        None \<Rightarrow> None
      | Some ((handled, ret, err), t') \<Rightarrow>
          (if \<not> handled then invokeChain rs a t' else Some (Some (ret, err), t')))"

definition Invokes ::
  "action \<Rightarrow> fake_object \<Rightarrow> Fake \<Rightarrow> ((fake_object \<times> api_error option) \<times> Fake) option" where
  "Invokes a defaultReturnObj f =
     (let f = f\<lparr>fkActions := fkActions f @ [a]\<rparr> in
      case invokeChain (map srReaction (filter (\<lambda>r. Handles r a) (fkReactionChain f))) a (fkTracker f) of
        None \<Rightarrow> None
      | Some (Some (ret, err), t) \<Rightarrow> Some ((ret, err), f\<lparr>fkTracker := t\<rparr>)
      | Some (None, t) \<Rightarrow> Some ((defaultReturnObj, None), f\<lparr>fkTracker := t\<rparr>))"

definition InvokesWatch :: "action \<Rightarrow> Fake \<Rightarrow> ((nat option \<times> api_error option) \<times> Fake) option" where
  "InvokesWatch a f =
     (let f = f\<lparr>fkActions := fkActions f @ [a]\<rparr> in
      case invokeChain
             (map swReaction (filter (\<lambda>r. resourceCovers (swResource r) a) (fkWatchReactionChain f)))
             a (fkTracker f) of
        None \<Rightarrow> None
      | Some (Some (ret, err), t) \<Rightarrow> Some ((ret, err), f\<lparr>fkTracker := t\<rparr>)
      | Some (None, t) \<Rightarrow> Some ((None, Some (OtherError ''unhandled watch'')), f\<lparr>fkTracker := t\<rparr>))"

section \<open>The reactor of a new clientset\<close>

record helpers =
  hpSortDraw :: nat
  hpParseFields :: "string \<Rightarrow> api_error + string"
  hpApplyPatch :: "PatchType \<Rightarrow> string \<Rightarrow> ComponentBuild \<Rightarrow> api_error + ComponentBuild"

definition ExtractFromListOptions ::
  "helpers \<Rightarrow> ListOptions \<Rightarrow> (Selector \<times> string \<times> string) option" where
  "ExtractFromListOptions hp opts =
     (case Parse (hpSortDraw hp) (loLabelSelector opts) of
        Inl err \<Rightarrow> None
      | Inr labelSelector \<Rightarrow>
          (case hpParseFields hp (loFieldSelector opts) of
             Inl err \<Rightarrow> None
           | Inr fieldSelector \<Rightarrow> Some (labelSelector, fieldSelector, loResourceVersion opts)))"

text \<open>
  After a write the stored object is read back; an object whose write failed is not returned.
\<close>

definition written ::
  "GroupVersionResource \<Rightarrow> string \<Rightarrow> string \<Rightarrow> (api_error option \<times> objectTracker) option
     \<Rightarrow> ((bool \<times> fake_object \<times> api_error option) \<times> objectTracker) option" where
  "written gvr ns name r =
     (case r of
        None \<Rightarrow> None
      | Some (Some err, t) \<Rightarrow> Some ((True, NilObject, Some err), t)
      | Some (None, t) \<Rightarrow>
          (case ot_Get gvr ns name t of
             Inl err \<Rightarrow> Some ((True, NilObject, Some err), t)
           | Inr obj \<Rightarrow> Some ((True, BuildObject obj, None), t)))"

definition ObjectReaction :: "Scheme \<Rightarrow> helpers \<Rightarrow> fake_object reaction" where
  "ObjectReaction sch hp a t =
     (let ns = acNamespace a; gvr = acResource a in
      case acKind a of
        ListAction gvk l f \<Rightarrow>
          (case ot_List sch gvr gvk ns t of
             Inl err \<Rightarrow> Some ((True, NilObject, Some err), t)
           | Inr items \<Rightarrow> Some ((True, ListObject items, None), t))
      | GetAction name \<Rightarrow>
          (case ot_Get gvr ns name t of
             Inl err \<Rightarrow> Some ((True, NilObject, Some err), t)
           | Inr obj \<Rightarrow> Some ((True, BuildObject obj, None), t))
      | CreateAction obj \<Rightarrow>
          (if acSubresource a = '''' then written gvr ns (obj_name obj) (ot_Create gvr obj ns t)
           else (case ot_Get gvr ns (obj_name obj) t of
                   Inl err \<Rightarrow> Some ((True, NilObject, Some err), t)
                 | Inr oldObj \<Rightarrow> written gvr ns (obj_name obj) (ot_Update gvr obj ns t)))
      | UpdateAction obj \<Rightarrow> written gvr ns (obj_name obj) (ot_Update gvr obj ns t)
      | DeleteAction name opts \<Rightarrow>
          (case ot_Delete gvr ns name t of
             None \<Rightarrow> None | Some (err, t') \<Rightarrow> Some ((True, NilObject, err), t'))
      | PatchAction name pt data \<Rightarrow>
          (case ot_Get gvr ns name t of
             Inl err \<Rightarrow> Some ((True, NilObject, Some err), t)
           | Inr obj \<Rightarrow>
               (case (if pt = ApplyPatchType then Inl (OtherError ''PatchType is not supported'')
                      else hpApplyPatch hp pt data obj) of
                  Inl err \<Rightarrow> Some ((True, NilObject, Some err), t)
                | Inr modified \<Rightarrow>
                    (case ot_Update gvr modified ns t of
                       None \<Rightarrow> None
                     | Some (Some err, t') \<Rightarrow> Some ((True, NilObject, Some err), t')
                     | Some (None, t') \<Rightarrow> Some ((True, BuildObject modified, None), t'))))
      | _ \<Rightarrow> Some ((False, NilObject, Some (OtherError ''no reaction implemented'')), t))"

definition watchReaction :: "nat option reaction" where
  "watchReaction a t =
     (case ot_Watch (acResource a) (acNamespace a) t of (w, t') \<Rightarrow> Some ((True, Some w, None), t'))"

text \<open>\<open>NewSimpleClientset\<close>; an object that cannot be added panics.\<close>

fun addObjects :: "Scheme \<Rightarrow> fake_object list \<Rightarrow> objectTracker \<Rightarrow> objectTracker option" where
  "addObjects sch [] o' = Some o'"
| "addObjects sch (obj # objs) o' =
     (case ot_Add sch obj o' of
        None \<Rightarrow> None
      | Some (Some err, o'') \<Rightarrow> None
      | Some (None, o'') \<Rightarrow> addObjects sch objs o'')"

definition NewSimpleClientset :: "Scheme \<Rightarrow> helpers \<Rightarrow> fake_object list \<Rightarrow> Fake option" where
  "NewSimpleClientset sch hp objects =
     (case addObjects sch objects NewObjectTracker of
        None \<Rightarrow> None
      | Some o' \<Rightarrow>
          (let cs = \<lparr>fkActions = [], fkReactionChain = [], fkWatchReactionChain = [], fkTracker = o'\<rparr>;
               cs = AddReactor ''*'' ''*'' (ObjectReaction sch hp) cs
           in Some (AddWatchReactor ''*'' watchReaction cs)))"

section \<open>The fake client of component builds\<close>

definition componentbuildsResource :: GroupVersionResource where
  "componentbuildsResource = GroupVersionResource ''apheleia.io'' ''v1alpha1'' ''componentbuilds''"

definition componentbuildsKind :: GroupVersionKind where
  "componentbuildsKind = GroupVersionKind ''apheleia.io'' ''v1alpha1'' ''ComponentBuild''"

definition actionOn :: "string \<Rightarrow> string \<Rightarrow> action_kind \<Rightarrow> action" where
  "actionOn ns subresource kind =
     \<lparr>acNamespace = ns, acResource = componentbuildsResource, acSubresource = subresource, acKind = kind\<rparr>"

text \<open>The result of a call for one object: nil, or asserted to be a component build.\<close>

definition as_build ::
  "((fake_object \<times> api_error option) \<times> Fake) option
     \<Rightarrow> ((ComponentBuild option \<times> api_error option) \<times> Fake) option" where
  "as_build r =
     (case r of
        Some ((NilObject, err), f) \<Rightarrow> Some ((None, err), f)
      | Some ((BuildObject cb, err), f) \<Rightarrow> Some ((Some cb, err), f)
      | _ \<Rightarrow> None)"

definition fake_builds_Get ::
  "string \<Rightarrow> string \<Rightarrow> GetOptions \<Rightarrow> Fake \<Rightarrow> ((ComponentBuild option \<times> api_error option) \<times> Fake) option" where
  "fake_builds_Get ns name options f =
     as_build (Invokes (actionOn ns '''' (GetAction name)) (BuildObject zeroComponentBuild) f)"

definition fake_builds_List ::
  "helpers \<Rightarrow> string \<Rightarrow> ListOptions \<Rightarrow> Fake \<Rightarrow> ((BuildList option \<times> api_error option) \<times> Fake) option" where
  "fake_builds_List hp ns opts f =
     (case ExtractFromListOptions hp opts of
        None \<Rightarrow> None
      | Some (label, field, rv) \<Rightarrow>
          (case Invokes (actionOn ns '''' (ListAction componentbuildsKind label field))
                  (ListObject emptyBuildList) f of
             Some ((NilObject, err), f') \<Rightarrow> Some ((None, err), f')
           | Some ((ListObject obj, err), f') \<Rightarrow>
               Some ((Some \<lparr>blMeta = blMeta obj,
                            blItems = filter (\<lambda>item. SelectorMatches label (Labels (metadata item)))
                              (blItems obj)\<rparr>, err), f')
           | _ \<Rightarrow> None))"

definition fake_builds_Watch ::
  "helpers \<Rightarrow> string \<Rightarrow> ListOptions \<Rightarrow> Fake \<Rightarrow> ((nat option \<times> api_error option) \<times> Fake) option" where
  "fake_builds_Watch hp ns opts f =
     (case ExtractFromListOptions hp opts of
        None \<Rightarrow> None
      | Some (label, field, rv) \<Rightarrow> InvokesWatch (actionOn ns '''' (WatchAction label field rv)) f)"

definition fake_builds_Create ::
  "string \<Rightarrow> ComponentBuild \<Rightarrow> CreateOptions \<Rightarrow> Fake
     \<Rightarrow> ((ComponentBuild option \<times> api_error option) \<times> Fake) option" where
  "fake_builds_Create ns componentBuild opts f =
     as_build (Invokes (actionOn ns '''' (CreateAction componentBuild)) (BuildObject zeroComponentBuild) f)"

definition fake_builds_Update ::
  "string \<Rightarrow> ComponentBuild \<Rightarrow> UpdateOptions \<Rightarrow> Fake
     \<Rightarrow> ((ComponentBuild option \<times> api_error option) \<times> Fake) option" where
  "fake_builds_Update ns componentBuild opts f =
     as_build (Invokes (actionOn ns '''' (UpdateAction componentBuild)) (BuildObject zeroComponentBuild) f)"

definition fake_builds_UpdateStatus ::
  "string \<Rightarrow> ComponentBuild \<Rightarrow> UpdateOptions \<Rightarrow> Fake
     \<Rightarrow> ((ComponentBuild option \<times> api_error option) \<times> Fake) option" where
  "fake_builds_UpdateStatus ns componentBuild opts f =
     as_build (Invokes (actionOn ns ''status'' (UpdateAction componentBuild)) (BuildObject zeroComponentBuild) f)"

definition fake_builds_Delete ::
  "string \<Rightarrow> string \<Rightarrow> DeleteOptions \<Rightarrow> Fake \<Rightarrow> (api_error option \<times> Fake) option" where
  "fake_builds_Delete ns name opts f =
     map_option (\<lambda>((obj, err), f'). (err, f'))
       (Invokes (actionOn ns '''' (DeleteAction name opts)) (BuildObject zeroComponentBuild) f)"

definition fake_builds_DeleteCollection ::
  "helpers \<Rightarrow> string \<Rightarrow> DeleteOptions \<Rightarrow> ListOptions \<Rightarrow> Fake \<Rightarrow> (api_error option \<times> Fake) option" where
  "fake_builds_DeleteCollection hp ns opts listOpts f =
     (case ExtractFromListOptions hp listOpts of
        None \<Rightarrow> None
      | Some (label, field, rv) \<Rightarrow>
          map_option (\<lambda>((obj, err), f'). (err, f'))
            (Invokes (actionOn ns '''' (DeleteCollectionAction label field)) (ListObject emptyBuildList) f))"

definition fake_builds_Patch ::
  "string \<Rightarrow> string \<Rightarrow> PatchType \<Rightarrow> string \<Rightarrow> PatchOptions \<Rightarrow> string list \<Rightarrow> Fake
     \<Rightarrow> ((ComponentBuild option \<times> api_error option) \<times> Fake) option" where
  "fake_builds_Patch ns name pt data opts subresources f =
     as_build (Invokes (actionOn ns (path_Join subresources) (PatchAction name pt data))
       (BuildObject zeroComponentBuild) f)"

text \<open>
  The interface \<open>ComponentBuildInterface\<close> on a program that may have panicked, which is the state None.
\<close>

definition or_panic :: "'a \<Rightarrow> (Fake \<Rightarrow> ('a \<times> Fake) option) \<Rightarrow> (Fake option, 'a) state" where
  "or_panic none op = State_Monad.State (\<lambda>s.
     case Option.bind s op of None \<Rightarrow> (none, None) | Some (r, f) \<Rightarrow> (r, Some f))"

definition fake_ComponentBuilds ::
  "helpers \<Rightarrow> string \<Rightarrow> (Fake option, nat) ComponentBuildInterface" where
  "fake_ComponentBuilds hp ns =
     \<lparr>cbiCreate = (\<lambda>cb o'. or_panic (None, None) (fake_builds_Create ns cb o')),
      cbiUpdate = (\<lambda>cb o'. or_panic (None, None) (fake_builds_Update ns cb o')),
      cbiUpdateStatus = (\<lambda>cb o'. or_panic (None, None) (fake_builds_UpdateStatus ns cb o')),
      cbiDelete = (\<lambda>name o'. or_panic None (fake_builds_Delete ns name o')),
      cbiDeleteCollection = (\<lambda>o' lo. or_panic None (fake_builds_DeleteCollection hp ns o' lo)),
      cbiGet = (\<lambda>name o'. or_panic (None, None) (fake_builds_Get ns name o')),
      cbiList = (\<lambda>lo. or_panic (None, None) (fake_builds_List hp ns lo)),
      cbiWatch = (\<lambda>lo. or_panic (None, None) (fake_builds_Watch hp ns lo)),
      cbiPatch = (\<lambda>name pt data o' subs. or_panic (None, None) (fake_builds_Patch ns name pt data o' subs))\<rparr>"

text \<open>
  The accessors of the fake clientset: its tracker, its client of the group, whose only resource
  \<open>ComponentBuilds\<close> shares the clientset's actions and reactors, and the REST client, a nil pointer.
\<close>

definition fake_Tracker :: "Fake \<Rightarrow> objectTracker" where
  "fake_Tracker f = fkTracker f"

definition fake_ApheleiaV1alpha1 ::
  "helpers \<Rightarrow> string \<Rightarrow> (Fake option, nat) ComponentBuildInterface" where
  "fake_ApheleiaV1alpha1 hp = fake_ComponentBuilds hp"


definition fake_RESTClient :: "'a option" where
  "fake_RESTClient = None"

section \<open>What the calls do to the objects\<close>

definition standard :: "Scheme \<Rightarrow> helpers \<Rightarrow> Fake \<Rightarrow> bool" where
  "standard sch hp f \<longleftrightarrow>
     fkReactionChain f = [\<lparr>srVerb = ''*'', srResource = ''*'', srReaction = ObjectReaction sch hp\<rparr>]
     \<and> fkWatchReactionChain f = [\<lparr>swResource = ''*'', swReaction = watchReaction\<rparr>]"

definition current :: "objectTracker \<Rightarrow> NamespacedName \<rightharpoonup> ComponentBuild" where
  "current t = map_of (objects_at t componentbuildsResource)"

definition keyed_objects :: "objectTracker \<Rightarrow> bool" where
  "keyed_objects t \<longleftrightarrow> (\<forall>k cb. current t k = Some cb \<longrightarrow> obj_key cb = k)"

text \<open>
  An event changes a map of objects; a watcher of a namespace sees the events of the keys in it.
\<close>

fun play_event :: "watch_event \<Rightarrow> (NamespacedName \<rightharpoonup> ComponentBuild) \<Rightarrow> (NamespacedName \<rightharpoonup> ComponentBuild)" where
  "play_event (AddedEvent cb) m = m(obj_key cb \<mapsto> cb)"
| "play_event (ModifiedEvent cb) m = m(obj_key cb \<mapsto> cb)"
| "play_event (DeletedEvent cb) m = m(obj_key cb := None)"

fun event_key :: "watch_event \<Rightarrow> NamespacedName" where
  "event_key (AddedEvent cb) = obj_key cb"
| "event_key (ModifiedEvent cb) = obj_key cb"
| "event_key (DeletedEvent cb) = obj_key cb"

definition in_ns :: "string \<Rightarrow> NamespacedName \<Rightarrow> bool" where
  "in_ns ns k \<longleftrightarrow> ns = '''' \<or> nnNamespace k = ns"

definition ns_view :: "string \<Rightarrow> (NamespacedName \<rightharpoonup> 'o) \<Rightarrow> (NamespacedName \<rightharpoonup> 'o)" where
  "ns_view ns m = (\<lambda>k. if in_ns ns k then m k else None)"

text \<open>
  The transitions of the tracker: nothing, a new watcher, or one event that changes the objects and
  reaches the watchers of its namespace.
\<close>

definition delivered :: "watch_event \<Rightarrow> fakeWatcher \<Rightarrow> fakeWatcher" where
  "delivered ev w =
     (if fwResource w = componentbuildsResource \<and> in_ns (fwNamespace w) (event_key ev) \<and> \<not> fwStopped w
      then w\<lparr>fwResult := fwResult w @ [ev]\<rparr> else w)"

definition changed_by :: "watch_event \<Rightarrow> objectTracker \<Rightarrow> objectTracker \<Rightarrow> bool" where
  "changed_by ev t t' \<longleftrightarrow>
     current t' = play_event ev (current t) \<and> otWatchers t' = map (delivered ev) (otWatchers t)
     \<and> (\<forall>cb. ev = DeletedEvent cb \<longrightarrow> current t (obj_key cb) = Some cb)"

definition tracker_step :: "objectTracker \<Rightarrow> objectTracker \<Rightarrow> bool" where
  "tracker_step t t' \<longleftrightarrow>
     t' = t \<or> (\<exists>w. t' = t\<lparr>otWatchers := otWatchers t @ [w]\<rparr>)
     \<or> (\<exists>ev. changed_by ev t t' \<and> (keyed_objects t \<longrightarrow> keyed_objects t'))"

lemma watches_key:
  "watches gvr (nnNamespace k) w \<longleftrightarrow> fwResource w = gvr \<and> in_ns (fwNamespace w) k"
  by (auto simp: watches_def in_ns_def)

lemma broadcast_delivers:
  assumes "broadcast componentbuildsResource (nnNamespace (event_key ev)) ev ws = Some ws'"
  shows "ws' = map (delivered ev) ws"
  using assms
proof (induction ws arbitrary: ws')
  case (Cons w ws)
  then obtain w' ws'' where w': "(if watches componentbuildsResource (nnNamespace (event_key ev)) w
      then send_event ev w else Some w) = Some w'" "ws' = w' # ws''"
    and "broadcast componentbuildsResource (nnNamespace (event_key ev)) ev ws = Some ws''"
    by (auto split: option.splits)
  with Cons.IH have "ws'' = map (delivered ev) ws" by blast
  moreover have "w' = delivered ev w"
    using w'(1) by (auto simp: watches_key delivered_def send_event_def split: if_splits)
  ultimately show ?case using w'(2) by simp
qed simp

lemma objects_at_update [simp]:
  "objects_at (t\<lparr>otObjects := AList.update gvr objs (otObjects t), otWatchers := ws\<rparr>) gvr = objs"
  by (simp add: objects_at_def)

lemma ot_add_step:
  assumes "ot_add componentbuildsResource obj ns b t = Some (err, t')"
  shows "tracker_step t t'"
proof -
  define new where "new = (if length (obj_ns obj) = 0 then SetNamespace ns obj else obj)"
  define ev where "ev = (if b then ModifiedEvent new else AddedEvent new)"
  show ?thesis
  proof (cases "tracker_add (gvr_resource componentbuildsResource) (objects_at t componentbuildsResource) obj ns b")
    case (Inl e)
    with assms show ?thesis by (simp add: ot_add_def Let_def tracker_step_def)
  next
    case (Inr objs)
    have objs: "objs = AList.update (obj_key new) new (objects_at t componentbuildsResource)" "obj_ns new = ns"
      using Inr unfolding tracker_add_def Let_def new_def [symmetric]
      by (auto split: option.splits if_splits)
    have key: "event_key ev = obj_key new" "play_event ev m = m(obj_key new \<mapsto> new)"
      "\<forall>cb. ev \<noteq> DeletedEvent cb" for m
      by (simp_all add: ev_def)
    obtain ws where "broadcast componentbuildsResource ns ev (otWatchers t) = Some ws"
      "t' = t\<lparr>otObjects := AList.update componentbuildsResource objs (otObjects t), otWatchers := ws\<rparr>"
      using assms Inr unfolding ot_add_def Let_def new_def [symmetric] ev_def [symmetric]
      by (auto split: option.splits)
    moreover from this have "ws = map (delivered ev) (otWatchers t)"
      using broadcast_delivers [of ev "otWatchers t" ws] key objs(2) by simp
    ultimately have "changed_by ev t t'"
      by (simp add: changed_by_def key current_def objs(1))
    moreover have "keyed_objects t'" if "keyed_objects t"
      using that \<open>changed_by ev t t'\<close> by (auto simp: keyed_objects_def changed_by_def key split: if_splits)
    ultimately show ?thesis by (auto simp: tracker_step_def)
  qed
qed

lemma ot_Delete_step:
  assumes "ot_Delete componentbuildsResource ns name t = Some (err, t')"
    and keyed: "keyed_objects t"
  shows "tracker_step t t'"
proof (cases "map_of (objects_at t componentbuildsResource) (NamespacedName ns name)")
  case None
  with assms show ?thesis by (simp add: ot_Delete_def tracker_step_def)
next
  case (Some obj)
  then have key: "obj_key obj = NamespacedName ns name"
    using keyed by (simp add: keyed_objects_def current_def)
  obtain ws where "broadcast componentbuildsResource ns (DeletedEvent obj) (otWatchers t) = Some ws"
    "t' = t\<lparr>otObjects := AList.update componentbuildsResource
        (AList.delete (NamespacedName ns name) (objects_at t componentbuildsResource)) (otObjects t),
      otWatchers := ws\<rparr>"
    using assms(1) Some by (auto simp: ot_Delete_def split: option.splits)
  moreover from this have "ws = map (delivered (DeletedEvent obj)) (otWatchers t)"
    using broadcast_delivers [of "DeletedEvent obj" "otWatchers t" ws] key by simp
  ultimately have "changed_by (DeletedEvent obj) t t'"
    using Some by (simp add: changed_by_def key current_def delete_conv')
  moreover have "keyed_objects t'"
    using keyed \<open>changed_by (DeletedEvent obj) t t'\<close>
    by (auto simp: keyed_objects_def changed_by_def split: if_splits)
  ultimately show ?thesis by (auto simp: tracker_step_def)
qed

lemma tracker_step_refl [simp]: "tracker_step t t"
  by (simp add: tracker_step_def)

lemma written_step:
  "written gvr ns name r = Some (x, t') \<Longrightarrow> (\<And>err t''. r = Some (err, t'') \<Longrightarrow> tracker_step t t'') \<Longrightarrow>
   tracker_step t t'"
  by (auto simp: written_def split: option.splits sum.splits)

text \<open>Whatever the action, the reactor makes one transition of the tracker.\<close>

lemma ObjectReaction_step:
  assumes "ObjectReaction sch hp a t = Some (r, t')" "acResource a = componentbuildsResource"
    and "keyed_objects t"
  shows "tracker_step t t'"
proof (cases "acKind a")
  case (CreateAction obj)
  with assms show ?thesis
    by (auto simp: ObjectReaction_def Let_def ot_Create_def ot_Update_def split: if_splits sum.splits
        elim!: written_step intro: ot_add_step)
next
  case (UpdateAction obj)
  with assms show ?thesis
    by (auto simp: ObjectReaction_def Let_def ot_Update_def elim!: written_step intro: ot_add_step)
next
  case (DeleteAction name opts)
  with assms show ?thesis
    by (auto simp: ObjectReaction_def Let_def split: option.splits intro: ot_Delete_step)
next
  case (PatchAction name pt data)
  with assms show ?thesis
    by (auto simp: ObjectReaction_def Let_def ot_Update_def split: option.splits sum.splits if_splits
        intro: ot_add_step)
qed (use assms in \<open>auto simp: ObjectReaction_def Let_def split: sum.splits\<close>)

text \<open>A call on a clientset as it was made: one action is noted, and the reactor answers.\<close>

lemma Invokes_standard:
  assumes "standard sch hp f"
  shows "Invokes a d f =
    (case ObjectReaction sch hp a (fkTracker f) of
       None \<Rightarrow> None
     | Some ((handled, ret, err), t) \<Rightarrow>
         Some (if handled then (ret, err) else (d, None),
               f\<lparr>fkActions := fkActions f @ [a], fkTracker := t\<rparr>))"
  using assms
  by (auto simp: Invokes_def Let_def standard_def Handles_def resourceCovers_def split: option.splits)

lemma InvokesWatch_standard:
  assumes "standard sch hp f"
  shows "InvokesWatch a f =
    Some ((Some (length (otWatchers (fkTracker f))), None),
          f\<lparr>fkActions := fkActions f @ [a],
             fkTracker := snd (ot_Watch (acResource a) (acNamespace a) (fkTracker f))\<rparr>)"
  using assms
  by (simp add: InvokesWatch_def Let_def standard_def resourceCovers_def watchReaction_def ot_Watch_def)

definition moves :: "Scheme \<Rightarrow> helpers \<Rightarrow> Fake \<Rightarrow> Fake \<Rightarrow> bool" where
  "moves sch hp f f' \<longleftrightarrow>
     standard sch hp f' \<and> tracker_step (fkTracker f) (fkTracker f')
     \<and> (\<exists>a. fkActions f' = fkActions f @ [a] \<and> acResource a = componentbuildsResource)"

lemma Invokes_moves:
  assumes "standard sch hp f" "keyed_objects (fkTracker f)" "Invokes (actionOn ns sub kind) d f = Some (r, f')"
  shows "moves sch hp f f'"
  using assms(2,3) unfolding Invokes_standard [OF assms(1)]
  by (auto simp: moves_def actionOn_def split: option.splits
      dest: ObjectReaction_step) (use assms(1) in \<open>simp_all add: standard_def\<close>)

lemma InvokesWatch_moves:
  assumes "standard sch hp f" "InvokesWatch (actionOn ns sub kind) f = Some (r, f')"
  shows "moves sch hp f f'"
  using assms unfolding InvokesWatch_standard [OF assms(1)]
  by (auto simp: moves_def actionOn_def tracker_step_def ot_Watch_def standard_def)

text \<open>The calls a test can make.\<close>

inductive fake_call :: "helpers \<Rightarrow> Fake \<Rightarrow> Fake \<Rightarrow> bool" for hp where
  call_Get: "fake_builds_Get ns name go f = Some (r, f') \<Longrightarrow> fake_call hp f f'"
| call_List: "fake_builds_List hp ns lo f = Some (l, f') \<Longrightarrow> fake_call hp f f'"
| call_Watch: "fake_builds_Watch hp ns lo f = Some (w, f') \<Longrightarrow> fake_call hp f f'"
| call_Create: "fake_builds_Create ns cb co f = Some (r, f') \<Longrightarrow> fake_call hp f f'"
| call_Update: "fake_builds_Update ns cb uo f = Some (r, f') \<Longrightarrow> fake_call hp f f'"
| call_UpdateStatus: "fake_builds_UpdateStatus ns cb uo f = Some (r, f') \<Longrightarrow> fake_call hp f f'"
| call_Delete: "fake_builds_Delete ns name dopts f = Some (e, f') \<Longrightarrow> fake_call hp f f'"
| call_DeleteCollection: "fake_builds_DeleteCollection hp ns dopts lo f = Some (e, f') \<Longrightarrow> fake_call hp f f'"
| call_Patch: "fake_builds_Patch ns name pt data po subs f = Some (r, f') \<Longrightarrow> fake_call hp f f'"

lemma as_build_moves: "as_build x = Some (r, f') \<Longrightarrow> \<exists>ret. x = Some (ret, f')"
  by (auto simp: as_build_def split: option.splits fake_object.splits)

lemma fake_call_moves:
  assumes "fake_call hp f f'" "standard sch hp f" "keyed_objects (fkTracker f)"
  shows "moves sch hp f f'"
  using assms(1)
proof cases
  case (call_List ns lo l)
  then obtain kind d ret where "Invokes (actionOn ns '''' kind) d f = Some (ret, f')"
    by (auto simp: fake_builds_List_def split: option.splits fake_object.splits)
  then show ?thesis by (rule Invokes_moves [OF assms(2,3)])
next
  case (call_Watch ns lo w)
  then show ?thesis
    by (auto simp: fake_builds_Watch_def split: option.splits intro: InvokesWatch_moves [OF assms(2)])
qed (auto simp: fake_builds_Get_def fake_builds_Create_def fake_builds_Update_def
    fake_builds_UpdateStatus_def fake_builds_Patch_def fake_builds_Delete_def
    fake_builds_DeleteCollection_def split: option.splits
    dest!: as_build_moves intro: Invokes_moves [OF assms(2,3)])

section \<open>Watching\<close>

text \<open>
  A watcher has followed the objects since they were \<open>m0\<close> when the events in its channel lead from
  \<open>m0\<close> to what its namespace holds now.
\<close>

definition follows :: "(NamespacedName \<rightharpoonup> ComponentBuild) \<Rightarrow> nat \<Rightarrow> objectTracker \<Rightarrow> bool" where
  "follows m0 i t \<longleftrightarrow>
     i < length (otWatchers t) \<and>
     (let w = otWatchers t ! i in
      fwResource w = componentbuildsResource \<and> \<not> fwStopped w
      \<and> fold play_event (fwResult w) m0 = ns_view (fwNamespace w) (current t))"

lemma play_event_ns_view:
  "ns_view ns (play_event ev m) =
     (if in_ns ns (event_key ev) then play_event ev (ns_view ns m) else ns_view ns m)"
  by (cases ev) (auto simp: ns_view_def)

lemma current_watchers [simp]: "current (t\<lparr>otWatchers := ws\<rparr>) = current t"
  by (simp add: current_def objects_at_def)

lemma tracker_step_follows:
  assumes "tracker_step t t'" "follows m0 i t"
  shows "follows m0 i t' \<and> fwNamespace (otWatchers t' ! i) = fwNamespace (otWatchers t ! i)"
proof -
  consider "t' = t" | w where "t' = t\<lparr>otWatchers := otWatchers t @ [w]\<rparr>" | ev where "changed_by ev t t'"
    using assms(1) by (auto simp: tracker_step_def)
  then show ?thesis
  proof cases
    case 1
    then show ?thesis using assms(2) by simp
  next
    case 2
    then show ?thesis using assms(2) by (auto simp: follows_def Let_def nth_append)
  next
    case 3
    then have i: "i < length (otWatchers t)" "otWatchers t' ! i = delivered ev (otWatchers t ! i)"
      "length (otWatchers t') = length (otWatchers t)" "current t' = play_event ev (current t)"
      using assms(2) by (simp_all add: changed_by_def follows_def)
    show ?thesis
      using assms(2) i
      by (auto simp: follows_def Let_def delivered_def play_event_ns_view)
  qed
qed

lemma tracker_step_keyed: "tracker_step t t' \<Longrightarrow> keyed_objects t \<Longrightarrow> keyed_objects t'"
  by (auto simp: tracker_step_def keyed_objects_def)

text \<open>A new clientset is a standard one with the objects under their keys.\<close>

lemma ot_add_keyed_other:
  assumes "ot_add gvr obj ns b t = Some (err, t')" "keyed_objects t"
  shows "keyed_objects t'"
proof (cases "gvr = componentbuildsResource")
  case True
  with assms ot_add_step tracker_step_keyed show ?thesis by blast
next
  case False
  with assms show ?thesis
    by (auto simp: ot_add_def Let_def keyed_objects_def current_def objects_at_def
        split: sum.splits option.splits)
qed

lemma add_kinds_Cons:
  assumes "add_kinds (gvk # gvks) obj t = Some (err, t')"
  shows "\<exists>gvr err1 t1. ot_add gvr obj (obj_ns obj) False t = Some (err1, t1)
    \<and> (t' = t1 \<or> add_kinds gvks obj t1 = Some (err, t'))"
proof -
  obtain gvr where "(case ot_add gvr obj (obj_ns obj) False t of
      None \<Rightarrow> None | Some (Some err, t') \<Rightarrow> Some (Some err, t')
    | Some (None, t') \<Rightarrow> add_kinds gvks obj t') = Some (err, t')"
    using assms unfolding add_kinds.simps Let_def by blast
  then show ?thesis by (auto split: option.splits prod.splits)
qed

lemma add_kinds_keyed:
  "add_kinds gvks obj t = Some (err, t') \<Longrightarrow> keyed_objects t \<Longrightarrow> keyed_objects t'"
proof (induction gvks arbitrary: t)
  case (Cons gvk gvks)
  then show ?case using add_kinds_Cons [OF Cons.prems(1)] ot_add_keyed_other by blast
qed simp

lemma ot_Add_build_keyed:
  "ot_Add_build sch obj t = Some (err, t') \<Longrightarrow> keyed_objects t \<Longrightarrow> keyed_objects t'"
  by (auto simp: ot_Add_build_def split: sum.splits if_splits dest: add_kinds_keyed)

lemma ot_addList_keyed:
  "ot_addList sch objs t = Some (err, t') \<Longrightarrow> keyed_objects t \<Longrightarrow> keyed_objects t'"
  by (induction sch objs t rule: ot_addList.induct)
    (auto split: option.splits dest: ot_Add_build_keyed)

lemma addObjects_keyed:
  "addObjects sch objs t = Some t' \<Longrightarrow> keyed_objects t \<Longrightarrow> keyed_objects t'"
  by (induction sch objs t rule: addObjects.induct)
    (auto simp: ot_Add_def split: option.splits fake_object.splits dest: ot_Add_build_keyed ot_addList_keyed)

lemma NewSimpleClientset_standard:
  assumes "NewSimpleClientset sch hp objs = Some f"
  shows "standard sch hp f" "keyed_objects (fkTracker f)"
proof -
  have "keyed_objects NewObjectTracker"
    by (simp add: keyed_objects_def current_def objects_at_def NewObjectTracker_def)
  then show "standard sch hp f" "keyed_objects (fkTracker f)"
    using assms
    by (auto simp: NewSimpleClientset_def Let_def standard_def AddReactor_def AddWatchReactor_def
        split: option.splits dest: addObjects_keyed)
qed

text \<open>Over any number of calls.\<close>

lemma fake_calls_standard:
  assumes "(fake_call hp)\<^sup>*\<^sup>* f f'" "standard sch hp f" "keyed_objects (fkTracker f)"
  shows "standard sch hp f' \<and> keyed_objects (fkTracker f')"
  using assms
proof (induction rule: rtranclp_induct)
  case (step f1 f2)
  then have "moves sch hp f1 f2" using fake_call_moves by blast
  with step show ?case by (auto simp: moves_def dest: tracker_step_keyed)
qed simp

lemma fake_calls_follow:
  assumes "(fake_call hp)\<^sup>*\<^sup>* f f'" "standard sch hp f" "keyed_objects (fkTracker f)"
    and "follows m0 i (fkTracker f)"
  shows "follows m0 i (fkTracker f')
    \<and> fwNamespace (otWatchers (fkTracker f') ! i) = fwNamespace (otWatchers (fkTracker f) ! i)"
  using assms(1)
proof (induction rule: rtranclp_induct)
  case base
  then show ?case using assms(4) by simp
next
  case (step f1 f2)
  then have "standard sch hp f1 \<and> keyed_objects (fkTracker f1)"
    using fake_calls_standard [OF step.hyps(1) assms(2,3)] by blast
  then have "tracker_step (fkTracker f1) (fkTracker f2)"
    using fake_call_moves [OF step.hyps(2)] by (auto simp: moves_def)
  with step.IH show ?case using tracker_step_follows by metis
qed

section \<open>Listing\<close>

text \<open>The items of a list are the objects of the namespace that the selector matches, once each.\<close>

lemma filterByNamespace_view:
  "list_ok (\<lambda>_. True) ns m (Inr xs) \<Longrightarrow> (\<forall>k x. m k = Some x \<longrightarrow> obj_key x = k) \<Longrightarrow>
   distinct (map (\<lambda>x. obj_key x) xs) \<and> set xs = {x. \<exists>k. ns_view ns m k = Some x}"
proof -
  assume keyed: "\<forall>k x. m k = Some x \<longrightarrow> obj_key x = k"
  assume "list_ok (\<lambda>_. True) ns m (Inr xs)"
  then obtain ks where ks: "distinct ks" "set ks = selected (\<lambda>_. True) ns m" "xs = map (\<lambda>k. the (m k)) ks"
    by (auto simp: list_ok_def)
  have key: "obj_key (the (m k)) = k" if "k \<in> set ks" for k
    using that keyed by (auto simp: ks(2) selected_def)
  then have "map (\<lambda>x. obj_key x) xs = ks" unfolding ks(3) map_map comp_def by (rule map_idI)
  moreover have "nnNamespace k = obj_ns a" if "m k = Some a" for k a
  proof -
    have "obj_key a = k" using keyed that by blast
    then show ?thesis by (cases k) simp
  qed
  then have selected: "k \<in> selected (\<lambda>_. True) ns m \<longleftrightarrow> ns_view ns m k = m k \<and> m k \<noteq> None" for k
    by (cases "m k") (simp_all add: selected_def ns_view_def in_ns_def)
  have "x \<in> set xs \<longleftrightarrow> (\<exists>k. ns_view ns m k = Some x)" for x
  proof
    assume "x \<in> set xs"
    then obtain k where "k \<in> selected (\<lambda>_. True) ns m" "x = the (m k)" unfolding ks(3) set_map ks(2) by blast
    then have "ns_view ns m k = Some x" unfolding selected by (cases "m k") simp_all
    then show "\<exists>k. ns_view ns m k = Some x" ..
  next
    assume "\<exists>k. ns_view ns m k = Some x"
    then obtain k where k: "ns_view ns m k = Some x" ..
    then have "m k = Some x" by (simp add: ns_view_def split: if_splits)
    with k have "k \<in> selected (\<lambda>_. True) ns m" "x = the (m k)" by (simp_all add: selected)
    then show "x \<in> set xs" unfolding ks(3) set_map ks(2) by blast
  qed
  then have "set xs = {x. \<exists>k. ns_view ns m k = Some x}" by blast
  ultimately show ?thesis using ks(1) by simp
qed

definition knows_lists :: "Scheme \<Rightarrow> bool" where
  "knows_lists sch \<longleftrightarrow> map_of (gvkToType sch) (WithKind SchemeGroupVersion ''ComponentBuildList'') \<noteq> None"

lemma fake_List_standard:
  assumes "standard sch hp f" "keyed_objects (fkTracker f)" "knows_lists sch"
    and "ExtractFromListOptions hp lo = Some (sel, fs, rv)"
  shows "\<exists>l f'. fake_builds_List hp ns lo f = Some ((Some l, None), f') \<and> fkTracker f' = fkTracker f
    \<and> distinct (map (\<lambda>cb. obj_key cb) (blItems l))
    \<and> set (blItems l) = {cb. (\<exists>k. ns_view ns (current (fkTracker f)) k = Some cb)
                             \<and> SelectorMatches sel (Labels (metadata cb))}"
proof -
  let ?t = "fkTracker f"
  let ?xs = "filterByNamespace (objects_at ?t componentbuildsResource) ns"
  have kind: "GroupVersionKind ''apheleia.io'' ''v1alpha1'' ''ComponentBuildList''
      = WithKind SchemeGroupVersion ''ComponentBuildList''"
    by (simp add: WithKind_def SchemeGroupVersion_def)
  obtain ty where ty: "map_of (gvkToType sch) (WithKind SchemeGroupVersion ''ComponentBuildList'') = Some ty"
    using assms(3) by (auto simp: knows_lists_def)
  have lists: "ot_List sch componentbuildsResource componentbuildsKind ns ?t = Inr (emptyBuildList\<lparr>blItems := ?xs\<rparr>)"
    by (simp add: ot_List_def Let_def componentbuildsKind_def kind ty)
  let ?l = "\<lparr>blMeta = blMeta emptyBuildList,
      blItems = filter (\<lambda>item. SelectorMatches sel (Labels (metadata item))) ?xs\<rparr>"
  let ?f' = "f\<lparr>fkActions := fkActions f @ [actionOn ns '''' (ListAction componentbuildsKind sel fs)], fkTracker := ?t\<rparr>"
  from lists have run: "fake_builds_List hp ns lo f = Some ((Some ?l, None), ?f')"
    by (simp add: fake_builds_List_def assms(4) Invokes_standard [OF assms(1)] ObjectReaction_def Let_def
        actionOn_def)
  have "?xs = FilterWithLabels NewSelector ?xs" by (simp add: FilterWithLabels_def)
  then have "list_ok (\<lambda>_. True) ns (current ?t) (Inr ?xs)"
    using tracker_List_all [of ns "objects_at ?t componentbuildsResource"] by (simp add: current_def)
  with assms(2) have "distinct (map (\<lambda>x. obj_key x) ?xs) \<and> set ?xs = {x. \<exists>k. ns_view ns (current ?t) k = Some x}"
    by (intro filterByNamespace_view) (auto simp: keyed_objects_def)
  then have "distinct (map (\<lambda>cb. obj_key cb) (filter P ?xs))
      \<and> set (filter P ?xs) = {cb. (\<exists>k. ns_view ns (current ?t) k = Some cb) \<and> P cb}" for P
    by (auto simp: distinct_map_filter)
  from this [of "\<lambda>item. SelectorMatches sel (Labels (metadata item))"]
  have "distinct (map (\<lambda>cb. obj_key cb) (blItems ?l))"
    "set (blItems ?l) = {cb. (\<exists>k. ns_view ns (current ?t) k = Some cb) \<and> SelectorMatches sel (Labels (metadata cb))}"
    by simp_all
  moreover have "fkTracker ?f' = ?t" by simp
  ultimately show ?thesis using run by blast
qed

text \<open>
  A list with the printed form of a selector answers exactly the objects the selector matches.
\<close>

lemma fake_List_by_text:
  assumes "standard sch hp f" "keyed_objects (fkTracker f)" "knows_lists sch"
    and "list_all checked s" "list_all (\<lambda>r. distinct (strValues r)) s"
    and "loLabelSelector lo = selector_String s" "hpParseFields hp (loFieldSelector lo) = Inr fs"
  shows "\<exists>l f'. fake_builds_List hp ns lo f = Some ((Some l, None), f') \<and> fkTracker f' = fkTracker f
    \<and> set (blItems l) = {cb. (\<exists>k. ns_view ns (current (fkTracker f)) k = Some cb)
                             \<and> SelectorMatches s (Labels (metadata cb))}"
proof -
  have opts: "ExtractFromListOptions hp lo =
      Some (ByKey_Sort (hpSortDraw hp) (map normal s), fs, loResourceVersion lo)"
    using Parse_selector_String [OF assms(4,5)] assms(6,7) by (simp add: ExtractFromListOptions_def)
  have same: "SelectorMatches (ByKey_Sort (hpSortDraw hp) (map normal s)) ls = SelectorMatches s ls" for ls
    using normal_selector_matches [OF assms(4)] by (simp add: SelectorMatches_iff)
  from fake_List_standard [OF assms(1-3) opts, of ns] show ?thesis unfolding same by blast
qed

section \<open>A list followed by a watch\<close>

lemma map_eqI: "(\<And>k v. m k = Some v \<longleftrightarrow> m' k = Some v) \<Longrightarrow> m = m'"
  by (rule ext) (metis not_Some_eq)

lemma fake_List_everything:
  assumes "standard sch hp f" "keyed_objects (fkTracker f)" "knows_lists sch"
    and "ExtractFromListOptions hp lo = Some (NewSelector, fs, rv)"
    and "fake_builds_List hp ns lo f = Some ((Some l, err), f')"
  shows "fkTracker f' = fkTracker f
    \<and> map_of (map (\<lambda>cb. (obj_key cb, cb)) (blItems l)) = ns_view ns (current (fkTracker f))"
proof -
  note listed = fake_List_standard [OF assms(1-4), of ns, unfolded assms(5)]
  then have tr: "fkTracker f' = fkTracker f" and keys: "distinct (map (\<lambda>cb. obj_key cb) (blItems l))"
    and items: "set (blItems l) = {cb. \<exists>k. ns_view ns (current (fkTracker f)) k = Some cb}"
    by auto
  have own: "obj_key cb = k" if "ns_view ns (current (fkTracker f)) k = Some cb" for k cb
    using that assms(2) by (auto simp: ns_view_def keyed_objects_def split: if_splits)
  have "map_of (map (\<lambda>cb. (obj_key cb, cb)) (blItems l)) k = Some cb
      \<longleftrightarrow> ns_view ns (current (fkTracker f)) k = Some cb" for k cb
  proof -
    have "distinct (map fst (map (\<lambda>cb. (obj_key cb, cb)) (blItems l)))" using keys by (simp add: comp_def)
    then have "map_of (map (\<lambda>cb. (obj_key cb, cb)) (blItems l)) k = Some cb
        \<longleftrightarrow> cb \<in> set (blItems l) \<and> obj_key cb = k" by (simp add: image_iff) blast
    also have "\<dots> \<longleftrightarrow> ns_view ns (current (fkTracker f)) k = Some cb" unfolding items using own by blast
    finally show ?thesis .
  qed
  then have "map_of (map (\<lambda>cb. (obj_key cb, cb)) (blItems l)) = ns_view ns (current (fkTracker f))"
    by (rule map_eqI)
  with tr show ?thesis ..
qed

lemma fake_Watch_follows:
  assumes "standard sch hp f" "fake_builds_Watch hp ns lo f = Some ((Some w, err), f')"
  shows "follows (ns_view ns (current (fkTracker f))) w (fkTracker f')
    \<and> fwNamespace (otWatchers (fkTracker f') ! w) = ns"
  using assms(2) unfolding fake_builds_Watch_def InvokesWatch_standard [OF assms(1)]
  by (auto simp: actionOn_def ot_Watch_def follows_def Let_def split: option.splits)

text \<open>
  C38. Whatever calls are made on the fake clientset, a list of a namespace and a watch of it after the
  list agree: the events in the watcher's channel, played on the objects listed, give exactly the objects
  that the clientset holds in that namespace.
\<close>

theorem fake_watch_coherent:
  assumes "NewSimpleClientset sch hp objs = Some f0" "knows_lists sch"
    and "(fake_call hp)\<^sup>*\<^sup>* f0 f1"
    and "ExtractFromListOptions hp lo = Some (NewSelector, fs, rv)"
    and "fake_builds_List hp ns lo f1 = Some ((Some l, err), f2)"
    and "fake_builds_Watch hp ns lo f2 = Some ((Some w, werr), f3)"
    and "(fake_call hp)\<^sup>*\<^sup>* f3 f4"
  shows "fold play_event (fwResult (otWatchers (fkTracker f4) ! w))
           (map_of (map (\<lambda>cb. (obj_key cb, cb)) (blItems l)))
         = ns_view ns (current (fkTracker f4))"
proof -
  note start = NewSimpleClientset_standard [OF assms(1)]
  have f1: "standard sch hp f1 \<and> keyed_objects (fkTracker f1)"
    using fake_calls_standard [OF assms(3) start] .
  have f2: "standard sch hp f2 \<and> keyed_objects (fkTracker f2)"
    using fake_calls_standard [OF r_into_rtranclp [of "fake_call hp", OF call_List [OF assms(5)]]] f1 by blast
  have f3: "standard sch hp f3 \<and> keyed_objects (fkTracker f3)"
    using fake_calls_standard [OF r_into_rtranclp [of "fake_call hp", OF call_Watch [OF assms(6)]]] f2 by blast
  have listed: "map_of (map (\<lambda>cb. (obj_key cb, cb)) (blItems l)) = ns_view ns (current (fkTracker f2))"
    using fake_List_everything [OF _ _ assms(2,4,5)] f1 by simp
  have w: "follows (ns_view ns (current (fkTracker f2))) w (fkTracker f3)"
    "fwNamespace (otWatchers (fkTracker f3) ! w) = ns"
    using fake_Watch_follows [OF _ assms(6)] f2 by blast+
  have "follows (ns_view ns (current (fkTracker f2))) w (fkTracker f4)
      \<and> fwNamespace (otWatchers (fkTracker f4) ! w) = ns"
    using fake_calls_follow [OF assms(7) _ _ w(1)] f3 w(2) by auto
  then show ?thesis unfolding listed follows_def Let_def by simp
qed

text \<open>
  A small run: one object is there before the watch, a second is created and the first is deleted after
  it, and one in another namespace is not seen.
\<close>

definition plain_helpers :: helpers where
  "plain_helpers =
     \<lparr>hpSortDraw = 0, hpParseFields = (\<lambda>s. Inr s), hpApplyPatch = (\<lambda>pt data cb. Inr cb)\<rparr>"

definition build_in :: "string \<Rightarrow> string \<Rightarrow> ComponentBuild" where
  "build_in ns n =
     zeroComponentBuild\<lparr>metadata := (metadata zeroComponentBuild)\<lparr>Namespace := ns, Name := n\<rparr>\<rparr>"

definition deleteNow :: DeleteOptions where
  "deleteNow = \<lparr>doGracePeriodSeconds = None, doPreconditions = None, doOrphanDependents = None,
     doPropagationPolicy = None, doDryRun = []\<rparr>"

definition plain_write :: WriteOptions where
  "plain_write = \<lparr>woDryRun = [], woFieldManager = '''', woFieldValidation = ''''\<rparr>"

definition group_scheme :: Scheme where
  "group_scheme = the (AddToScheme (\<lambda>gv s. Some s) NewScheme)"

definition run0 :: Fake where
  "run0 = the (NewSimpleClientset group_scheme plain_helpers [BuildObject (build_in ''ns1'' ''a'')])"

definition run1 :: "(BuildList option \<times> api_error option) \<times> Fake" where
  "run1 = the (fake_builds_List plain_helpers ''ns1'' emptyListOptions run0)"

definition run2 :: "(nat option \<times> api_error option) \<times> Fake" where
  "run2 = the (fake_builds_Watch plain_helpers ''ns1'' emptyListOptions (snd run1))"

definition run3 :: Fake where
  "run3 = snd (the (fake_builds_Create ''ns1'' (build_in ''ns1'' ''b'') plain_write (snd run2)))"

definition run4 :: Fake where
  "run4 = snd (the (fake_builds_Create ''ns2'' (build_in ''ns2'' ''c'') plain_write run3))"

definition run5 :: Fake where
  "run5 = snd (the (fake_builds_Delete ''ns1'' ''a'' deleteNow run4))"

lemma some_the: "\<not> Option.is_none x \<Longrightarrow> x = Some (the x)"
  by (cases x) simp_all

lemma some_the_pair: "\<not> Option.is_none x \<Longrightarrow> x = Some (fst (the x), snd (the x))"
  by (cases x) simp_all

lemma run_answers:
  "\<not> Option.is_none (NewSimpleClientset group_scheme plain_helpers [BuildObject (build_in ''ns1'' ''a'')])"
  "\<not> Option.is_none (fake_builds_List plain_helpers ''ns1'' emptyListOptions run0)"
  "\<not> Option.is_none (fake_builds_Watch plain_helpers ''ns1'' emptyListOptions (snd run1))"
  "\<not> Option.is_none (fake_builds_Create ''ns1'' (build_in ''ns1'' ''b'') plain_write (snd run2))"
  "\<not> Option.is_none (fake_builds_Create ''ns2'' (build_in ''ns2'' ''c'') plain_write run3)"
  "\<not> Option.is_none (fake_builds_Delete ''ns1'' ''a'' deleteNow run4)"
  by code_simp+

lemma run_values: "\<not> Option.is_none (fst (fst run1))" "fst run2 = (Some 0, None)" "knows_lists group_scheme"
  by code_simp+

theorem fake_watch_coherent_witness:
  "fold play_event (fwResult (otWatchers (fkTracker run5) ! 0))
     (map_of (map (\<lambda>cb. (obj_key cb, cb)) (blItems (the (fst (fst run1))))))
     = ns_view ''ns1'' (current (fkTracker run5))
   \<and> fwResult (otWatchers (fkTracker run5) ! 0)
     = [AddedEvent (build_in ''ns1'' ''b''), DeletedEvent (build_in ''ns1'' ''a'')]"
proof
  have list: "fake_builds_List plain_helpers ''ns1'' emptyListOptions run0 =
      Some ((Some (the (fst (fst run1))), snd (fst run1)), snd run1)"
    using some_the [OF run_answers(2), folded run1_def]
    unfolding some_the [OF run_values(1), symmetric] prod.collapse .
  have watch: "fake_builds_Watch plain_helpers ''ns1'' emptyListOptions (snd run1) = Some ((Some 0, None), snd run2)"
    using some_the [OF run_answers(3), folded run2_def]
    unfolding run_values(2) [symmetric] prod.collapse .
  have c1: "fake_call plain_helpers (snd run2) run3"
    unfolding run3_def by (rule call_Create [OF some_the_pair [OF run_answers(4)]])
  have c2: "fake_call plain_helpers run3 run4"
    unfolding run4_def by (rule call_Create [OF some_the_pair [OF run_answers(5)]])
  have c3: "fake_call plain_helpers run4 run5"
    unfolding run5_def by (rule call_Delete [OF some_the_pair [OF run_answers(6)]])
  have calls: "(fake_call plain_helpers)\<^sup>*\<^sup>* (snd run2) run5"
    by (rule converse_rtranclp_into_rtranclp, rule c1, rule converse_rtranclp_into_rtranclp, rule c2,
        rule r_into_rtranclp, rule c3)
  have parsed: "ExtractFromListOptions plain_helpers emptyListOptions = Some (NewSelector, '''', '''')"
    by code_simp
  have start: "NewSimpleClientset group_scheme plain_helpers [BuildObject (build_in ''ns1'' ''a'')] = Some run0"
    unfolding run0_def by (rule some_the [OF run_answers(1)])
  show "fold play_event (fwResult (otWatchers (fkTracker run5) ! 0))
     (map_of (map (\<lambda>cb. (obj_key cb, cb)) (blItems (the (fst (fst run1))))))
     = ns_view ''ns1'' (current (fkTracker run5))"
    by (rule fake_watch_coherent [OF start run_values(3) rtranclp.rtrancl_refl parsed list watch calls])
  show "fwResult (otWatchers (fkTracker run5) ! 0)
     = [AddedEvent (build_in ''ns1'' ''b''), DeletedEvent (build_in ''ns1'' ''a'')]"
    by code_simp
qed

section \<open>Deleting a collection\<close>

text \<open>
  The reactor of a new clientset has no case for deleting a collection: the action is noted, the call
  reports no error, and the objects stay.
\<close>

lemma fake_DeleteCollection_ignored:
  assumes "standard sch hp f" "ExtractFromListOptions hp lo = Some (sel, fs, rv)"
  shows "fake_builds_DeleteCollection hp ns dopts lo f =
    Some (None, f\<lparr>fkActions := fkActions f @ [actionOn ns '''' (DeleteCollectionAction sel fs)],
                  fkTracker := fkTracker f\<rparr>)"
  using assms(2)
  by (simp add: fake_builds_DeleteCollection_def Invokes_standard [OF assms(1)] ObjectReaction_def
      actionOn_def Let_def)

end
