(* ===== verification/InformedLister.thy ===== *)
theory InformedLister
  imports InformerFactory FakeClientset
begin

text \<open>
  The generated client code put together: an informer made by the shared factory on the fake
  clientset, and a lister that reads its store. The fake clientset is an API in the sense of
  \<open>watched_api\<close>, so an informer of it converges, and the listers are exact on what it converges to:
  provided that nothing in its namespace has changed between its list and the begin of its watch, since
  the fake clientset does not look at the version from which a watch is to start.
\<close>

section \<open>The fake clientset as an API\<close>

text \<open>The objects of a map under the keys an informer gives them; names have no slash.\<close>

definition by_key :: "(NamespacedName \<rightharpoonup> ComponentBuild) \<Rightarrow> string \<rightharpoonup> build_ext any" where
  "by_key m key =
     (case SplitMetaNamespaceKey key of
        Inl err \<Rightarrow> None
      | Inr (ns, name) \<Rightarrow>
          (case m (NamespacedName ns name) of
             None \<Rightarrow> None
           | Some cb \<Rightarrow> if metaKey (metadata cb) = key then Some (ApiObject cb) else None))"

definition plain_name :: "ComponentBuild \<Rightarrow> bool" where
  "plain_name cb \<longleftrightarrow> CHR ''/'' \<notin> set (obj_ns cb) \<and> CHR ''/'' \<notin> set (obj_name cb)"

definition plain_objects :: "objectTracker \<Rightarrow> bool" where
  "plain_objects t \<longleftrightarrow> (\<forall>k cb. current t k = Some cb \<longrightarrow> plain_name cb)"

text \<open>A call on the fake clientset that leaves only objects with names the API server admits.\<close>

definition api_call :: "helpers \<Rightarrow> Fake \<Rightarrow> Fake \<Rightarrow> bool" where
  "api_call hp f f' \<longleftrightarrow> fake_call hp f f' \<and> plain_objects (fkTracker f')"

definition unread :: "nat \<Rightarrow> Fake \<Rightarrow> watch_event list" where
  "unread w f = fwResult (otWatchers (fkTracker f) ! w)"

text \<open>Receiving from the channel of a watcher.\<close>

definition receive :: "nat \<Rightarrow> Fake \<Rightarrow> Fake" where
  "receive w f =
     f\<lparr>fkTracker := (fkTracker f)\<lparr>otWatchers :=
         (otWatchers (fkTracker f))[w := (otWatchers (fkTracker f) ! w)\<lparr>fwResult := tl (unread w f)\<rparr>]\<rparr>\<rparr>"

definition watching :: "Scheme \<Rightarrow> helpers \<Rightarrow> string \<Rightarrow> nat \<Rightarrow> Fake \<Rightarrow> bool" where
  "watching sch hp ns w f \<longleftrightarrow>
     standard sch hp f \<and> keyed_objects (fkTracker f) \<and> plain_objects (fkTracker f)
     \<and> w < length (otWatchers (fkTracker f))
     \<and> (let fw = otWatchers (fkTracker f) ! w in
        fwResource fw = componentbuildsResource \<and> fwNamespace fw = ns \<and> \<not> fwStopped fw)"

definition api_view :: "string \<Rightarrow> Fake \<Rightarrow> string \<rightharpoonup> build_ext any" where
  "api_view ns f = by_key (ns_view ns (current (fkTracker f)))"

lemma by_key_Some:
  assumes "\<And>k cb. m k = Some cb \<Longrightarrow> obj_key cb = k \<and> plain_name cb"
  shows "by_key m key = Some x \<longleftrightarrow>
    (\<exists>cb. m (obj_key cb) = Some cb \<and> x = ApiObject cb \<and> key = metaKey (metadata cb))"
proof
  assume "by_key m key = Some x"
  then show "\<exists>cb. m (obj_key cb) = Some cb \<and> x = ApiObject cb \<and> key = metaKey (metadata cb)"
    using assms by (fastforce simp: by_key_def split: sum.splits prod.splits option.splits if_splits)
next
  assume "\<exists>cb. m (obj_key cb) = Some cb \<and> x = ApiObject cb \<and> key = metaKey (metadata cb)"
  then obtain cb where cb: "m (obj_key cb) = Some cb" "x = ApiObject cb" "key = metaKey (metadata cb)"
    by blast
  then have "SplitMetaNamespaceKey key = Inr (obj_ns cb, obj_name cb)"
    using assms SplitMetaNamespaceKey_metaKey by (auto simp: plain_name_def)
  with cb show "by_key m key = Some x" by (simp add: by_key_def)
qed

text \<open>Plain names have different keys.\<close>

lemma metaKey_inject:
  assumes "plain_name a" "plain_name b" "metaKey (metadata a) = metaKey (metadata b)"
  shows "obj_key a = obj_key b"
  using SplitMetaNamespaceKey_metaKey [of "metadata a"] SplitMetaNamespaceKey_metaKey [of "metadata b"] assms
  by (simp add: plain_name_def)

fun event_object :: "watch_event \<Rightarrow> ComponentBuild" where
  "event_object (AddedEvent cb) = cb"
| "event_object (ModifiedEvent cb) = cb"
| "event_object (DeletedEvent cb) = cb"

lemma by_key_update:
  assumes m: "\<And>k cb. m k = Some cb \<Longrightarrow> obj_key cb = k \<and> plain_name cb"
    and e: "plain_name e" and v: "v = None \<or> v = Some e"
  shows "by_key (m(obj_key e := v)) = (by_key m)(metaKey (metadata e) := map_option ApiObject v)"
proof
  fix k
  have split: "SplitMetaNamespaceKey (metaKey (metadata e)) = Inr (obj_ns e, obj_name e)"
    using e SplitMetaNamespaceKey_metaKey by (simp add: plain_name_def)
  show "by_key (m(obj_key e := v)) k = ((by_key m)(metaKey (metadata e) := map_option ApiObject v)) k"
  proof (cases "k = metaKey (metadata e)")
    case True
    then show ?thesis using split v by (auto simp: by_key_def)
  next
    case False
    have "by_key (m(obj_key e := v)) k = by_key m k"
    proof (cases "SplitMetaNamespaceKey k")
      case (Inr p)
      obtain a b where p: "p = (a, b)" by (cases p)
      show ?thesis
      proof (cases "NamespacedName a b = obj_key e")
        case True
        have "metaKey (metadata cb) \<noteq> k" if "m (NamespacedName a b) = Some cb" for cb
          using m [OF that] True False by (auto simp: metaKey_def)
        then show ?thesis using Inr p True False v by (auto simp: by_key_def split: option.splits)
      qed (auto simp: by_key_def Inr p)
    qed (simp add: by_key_def)
    with False show ?thesis by simp
  qed
qed

lemma by_key_play:
  assumes "\<And>k cb. m k = Some cb \<Longrightarrow> obj_key cb = k \<and> plain_name cb" "plain_name (event_object ev)"
  shows "by_key (play_event ev m) = put_event ev (by_key m)"
  using by_key_update [of m "event_object ev" "Some (event_object ev)", OF assms]
    by_key_update [of m "event_object ev" None, OF assms]
  by (cases ev) simp_all

lemma api_change:
  assumes "watching sch hp ns w f" "api_call hp f f'"
  shows "watching sch hp ns w f' \<and>
    (\<exists>evs. unread w f' = unread w f @ evs \<and> api_view ns f' = fold put_event evs (api_view ns f))"
proof -
  let ?t = "fkTracker f" and ?t' = "fkTracker f'"
  have w: "standard sch hp f" "keyed_objects ?t" "plain_objects ?t" "w < length (otWatchers ?t)"
    "fwResource (otWatchers ?t ! w) = componentbuildsResource" "fwNamespace (otWatchers ?t ! w) = ns"
    "\<not> fwStopped (otWatchers ?t ! w)"
    using assms(1) by (simp_all add: watching_def Let_def)
  have m: "standard sch hp f'" "tracker_step ?t ?t'" "plain_objects ?t'"
    using fake_call_moves [OF _ w(1,2)] assms(2) by (auto simp: moves_def api_call_def)
  have keyed: "keyed_objects ?t'" using tracker_step_keyed [OF m(2) w(2)] .
  consider "?t' = ?t" | fw where "?t' = ?t\<lparr>otWatchers := otWatchers ?t @ [fw]\<rparr>"
    | ev where "changed_by ev ?t ?t'"
    using m(2) by (auto simp: tracker_step_def)
  then show ?thesis
  proof cases
    case 1
    with w m keyed show ?thesis by (auto simp: watching_def Let_def unread_def api_view_def)
  next
    case 2
    with w m keyed show ?thesis
      by (auto simp: watching_def Let_def unread_def api_view_def nth_append)
  next
    case (3 ev)
    have at: "w < length (otWatchers ?t')" "otWatchers ?t' ! w = delivered ev (otWatchers ?t ! w)"
      "current ?t' = play_event ev (current ?t)"
      "\<forall>cb. ev = DeletedEvent cb \<longrightarrow> current ?t (obj_key cb) = Some cb"
      using 3 w(4) by (simp_all add: changed_by_def)
    have watched: "watching sch hp ns w f'"
      using w m keyed at(1) unfolding watching_def Let_def at(2) by (simp add: delivered_def)
    let ?e = "event_object ev"
    have "current ?t' (obj_key ?e) = Some ?e \<or> current ?t (obj_key ?e) = Some ?e"
      using at(3,4) by (cases ev) simp_all
    then have plain: "plain_name ?e" using m(3) w(3) unfolding plain_objects_def by blast
    have own: "obj_key cb = k \<and> plain_name cb" if "ns_view ns (current ?t) k = Some cb" for k cb
      using that w(2,3) by (auto simp: ns_view_def keyed_objects_def plain_objects_def split: if_splits)
    show ?thesis
    proof (cases "in_ns ns (event_key ev)")
      case True
      then have "unread w f' = unread w f @ [ev]"
        using w by (simp add: unread_def at(2) delivered_def)
      moreover have "api_view ns f' = put_event ev (api_view ns f)"
        using True by_key_play [OF own plain] by (simp add: api_view_def at(3) play_event_ns_view)
      ultimately show ?thesis using watched by (intro conjI exI [of _ "[ev]"]) simp_all
    next
      case False
      then have "unread w f' = unread w f" "api_view ns f' = api_view ns f"
        using w by (simp_all add: unread_def at(2,3) delivered_def api_view_def play_event_ns_view)
      then show ?thesis using watched by (intro conjI exI [of _ "[]"]) simp_all
    qed
  qed
qed

lemma current_receive [simp]: "current (fkTracker (receive w f)) = current (fkTracker f)"
  by (simp add: receive_def)

lemma api_receive:
  assumes "watching sch hp ns w f" "unread w f = ev # evs"
  shows "watching sch hp ns w (receive w f) \<and> unread w (receive w f) = evs
    \<and> api_view ns (receive w f) = api_view ns f"
  using assms
  by (auto simp: watching_def Let_def api_view_def keyed_objects_def plain_objects_def standard_def)
    (auto simp: receive_def unread_def)

interpretation fake_api: watched_api "watching sch hp ns w" "api_call hp" "unread w" "receive w" "api_view ns"
  for sch hp ns w
  by unfold_locales (use api_change api_receive in blast)+

section \<open>From the list to the lister\<close>

lemma put_builds_by_key:
  assumes "distinct (map (\<lambda>cb. obj_key cb) xs)" "\<forall>cb \<in> set xs. plain_name cb"
  shows "fold put_listed xs Map.empty = by_key (map_of (map (\<lambda>cb. (obj_key cb, cb)) xs))"
  using assms
proof (induction xs rule: rev_induct)
  case Nil
  then show ?case by (rule_tac map_eqI) (simp add: by_key_def split: sum.splits prod.splits)
next
  case (snoc x xs)
  let ?m = "map_of (map (\<lambda>cb. (obj_key cb, cb)) xs)"
  have new: "obj_key x \<notin> set (map (\<lambda>cb. obj_key cb) xs)" using snoc.prems(1) by simp
  then have upd: "map_of (map (\<lambda>cb. (obj_key cb, cb)) (xs @ [x])) = ?m(obj_key x := Some x)"
    by (intro ext) (auto simp: map_add_def split: option.splits dest!: map_of_SomeD)
  have own: "obj_key cb = k \<and> plain_name cb" if "?m k = Some cb" for k cb
    using map_of_SomeD [OF that] snoc.prems(2) by auto
  have "by_key (?m(obj_key x := Some x)) = (by_key ?m)(metaKey (metadata x) := Some (ApiObject x))"
    using by_key_update [of ?m x "Some x", OF own] snoc.prems(2) by simp
  moreover have "fold put_listed (xs @ [x]) Map.empty = (fold put_listed xs Map.empty)(metaKey (metadata x) := Some (ApiObject x))"
    by (simp add: put_listed_def [of x])
  moreover have "fold put_listed xs Map.empty = by_key ?m" using snoc by simp
  ultimately show ?case unfolding upd by (simp only:)
qed

lemma own_objects:
  assumes "keyed_objects t" "plain_objects t" "ns_view ns (current t) k = Some cb"
  shows "obj_key cb = k \<and> plain_name cb"
  using assms by (auto simp: ns_view_def keyed_objects_def plain_objects_def split: if_splits)

text \<open>An informer that has listed a clientset is on its way to what the clientset holds.\<close>

lemma listed_informer:
  assumes "standard sch hp f" "keyed_objects (fkTracker f)" "plain_objects (fkTracker f)" "knows_lists sch"
    and shared: "shared = NewFilteredComponentBuildInformer (fake_ComponentBuilds hp) ns resync namespace_index tweak"
    and opts: "ExtractFromListOptions hp (tweaked tweak lo) = Some (NewSelector, fs, rv)"
    and list: "run_state (reflector_list n (shared\<lparr>running := informer_Run (running shared)\<rparr>) lo) (Some f)
      = ((None, i), Some f')"
  shows "fkTracker f' = fkTracker f \<and> fake_call hp f f' \<and> informer_ok i \<and> siQueue i \<noteq> None
    \<and> target i = api_view ns f"
proof -
  let ?t = "fkTracker f" and ?i0 = "informer_Run (running shared)"
  obtain l f1 where l: "fake_builds_List hp ns (tweaked tweak lo) f = Some ((Some l, None), f1)" "fkTracker f1 = ?t"
    "distinct (map (\<lambda>cb. obj_key cb) (blItems l))"
    "set (blItems l) = {cb. \<exists>k. ns_view ns (current ?t) k = Some cb}"
    using fake_List_standard [OF assms(1,2,4) opts, of ns] by auto
  have "listFunc (shared\<lparr>running := ?i0\<rparr>) lo = cbiList (fake_ComponentBuilds hp ns) (tweaked tweak lo)"
    by (simp add: shared NewFilteredComponentBuildInformer_def NewSharedIndexInformer_def)
  then have f': "f' = f1" and sync: "syncWith n (blItems l) ?i0 = (None, i)"
    using list by (simp_all add: reflector_list_def fake_ComponentBuilds_def or_panic_def l(1) split: prod.splits)
  have i0: "informer_ok ?i0" "siQueue ?i0 \<noteq> None" "target ?i0 = Map.empty"
  proof -
    have "informer_ok (running shared)" "target (running shared) = Map.empty"
      by (simp_all add: shared NewFilteredComponentBuildInformer_def NewSharedIndexInformer_ok)
    from informer_Run_ok [OF this(1)] this(2)
    show "informer_ok ?i0" "siQueue ?i0 \<noteq> None" "target ?i0 = Map.empty" by simp_all
  qed
  have "retargets ?i0 (syncWith n (blItems l) ?i0) (fold put_listed (blItems l) Map.empty)"
    by (rule syncWith_retargets [OF i0(1,2)]) (simp add: i0(3))
  then have i: "informer_ok i" "siQueue i \<noteq> None" "target i = fold put_listed (blItems l) Map.empty"
    using i0(2) by (simp_all add: retargets_def sync)
  have plain: "\<forall>cb \<in> set (blItems l). plain_name cb"
    using own_objects [OF assms(2,3)] unfolding l(4) by blast
  have "map_of (map (\<lambda>cb. (obj_key cb, cb)) (blItems l)) = ns_view ns (current ?t)"
    using fake_List_everything [OF assms(1,2,4) opts l(1)] by simp
  then have "target i = api_view ns f"
    unfolding i(3) put_builds_by_key [OF l(3) plain] api_view_def by simp
  with i l(2) f' call_List [OF l(1)] show ?thesis by blast
qed

lemma watched_informer:
  assumes "standard sch hp f" "keyed_objects (fkTracker f)" "plain_objects (fkTracker f)"
    and shared: "shared = NewFilteredComponentBuildInformer (fake_ComponentBuilds hp) ns resync namespace_index tweak"
    and watch: "run_state (watchFunc shared wo) (Some f) = ((Some w, err), Some f')"
  shows "watching sch hp ns w f' \<and> unread w f' = [] \<and> api_view ns f' = api_view ns f"
proof -
  have "watchFunc shared wo = cbiWatch (fake_ComponentBuilds hp ns) (tweaked tweak wo)"
    by (simp add: shared NewFilteredComponentBuildInformer_def NewSharedIndexInformer_def)
  then have "fake_builds_Watch hp ns (tweaked tweak wo) f = Some ((Some w, err), f')"
    using watch by (auto simp: fake_ComponentBuilds_def or_panic_def split: option.splits)
  then have "w = length (otWatchers (fkTracker f))" "fkTracker f' = snd (ot_Watch componentbuildsResource ns (fkTracker f))"
    "standard sch hp f'"
    using assms(1) unfolding fake_builds_Watch_def InvokesWatch_standard [OF assms(1)]
    by (auto simp: actionOn_def standard_def split: option.splits)
  with assms(2,3) show ?thesis
    by (simp add: watching_def Let_def unread_def ot_Watch_def api_view_def keyed_objects_def plain_objects_def)
qed

section \<open>What a lister of a running informer returns\<close>

text \<open>The objects the API holds in a namespace, or in all of them.\<close>

definition api_builds :: "string \<Rightarrow> Fake \<Rightarrow> ComponentBuild set" where
  "api_builds ns f = {cb. \<exists>k. ns_view ns (current (fkTracker f)) k = Some cb}"

text \<open>
  \<open>ListAndWatch\<close> up to its watch, on a clientset that has been used for a while: the informer lists
  (\<open>listed\<close> is the clientset then), and asks for a watch later (on the clientset \<open>watched\<close>). In
  between others make calls, and the informer's loop and its resync go on, without events.
\<close>

inductive informer_begins ::
  "Scheme \<Rightarrow> helpers \<Rightarrow> string \<Rightarrow> TweakListOptionsFunc option \<Rightarrow> nat \<Rightarrow> Fake \<Rightarrow> Fake
     \<Rightarrow> Fake \<times> informer \<Rightarrow> bool"
  for sch hp ns tweak where
  "NewSimpleClientset sch hp objs = Some f0 \<Longrightarrow> plain_objects (fkTracker f0) \<Longrightarrow> (api_call hp)\<^sup>*\<^sup>* f0 listed \<Longrightarrow>
   shared = NewFilteredComponentBuildInformer (fake_ComponentBuilds hp) ns resync namespace_index tweak \<Longrightarrow>
   ExtractFromListOptions hp (tweaked tweak lo) = Some (NewSelector, fs, rv) \<Longrightarrow>
   run_state (reflector_list n (shared\<lparr>running := informer_Run (running shared)\<rparr>) lo) (Some listed)
     = ((None, i1), Some f1) \<Longrightarrow>
   (run_step (api_call hp) no_watch (\<lambda>f. f))\<^sup>*\<^sup>* (f1, i1) (watched, i) \<Longrightarrow>
   run_state (watchFunc shared wo) (Some watched) = ((Some w, err), Some f2) \<Longrightarrow>
   informer_begins sch hp ns tweak w listed watched (f2, i)"

lemma api_calls_standard:
  assumes "(api_call hp)\<^sup>*\<^sup>* f f'" "standard sch hp f" "keyed_objects (fkTracker f)" "plain_objects (fkTracker f)"
  shows "standard sch hp f' \<and> keyed_objects (fkTracker f') \<and> plain_objects (fkTracker f')"
  using assms
proof (induction rule: rtranclp_induct)
  case (step f1 f2)
  then have "moves sch hp f1 f2" "plain_objects (fkTracker f2)"
    using fake_call_moves by (auto simp: api_call_def)
  with step show ?case by (auto simp: moves_def dest: tracker_step_keyed)
qed simp

lemma informer_begins_aims:
  assumes "informer_begins sch hp ns tweak w listed watched fi" "knows_lists sch"
  shows "watching sch hp ns w (fst fi) \<and> unread w (fst fi) = [] \<and> aims (api_view ns listed) (snd fi)
    \<and> api_view ns (fst fi) = api_view ns watched
    \<and> keyed_objects (fkTracker listed) \<and> plain_objects (fkTracker listed)
    \<and> keyed_objects (fkTracker watched) \<and> plain_objects (fkTracker watched)"
  using assms(1)
proof cases
  case (1 objs f0 shared resync lo fs rv n i1 f1 i wo err f2)
  have f0: "standard sch hp listed" "keyed_objects (fkTracker listed)" "plain_objects (fkTracker listed)"
    using api_calls_standard [OF 1(4) NewSimpleClientset_standard [OF 1(2)] 1(3)] by simp_all
  have f1: "fkTracker f1 = fkTracker listed" "fake_call hp listed f1" and i1: "aims (api_view ns listed) i1"
    using listed_informer [OF f0 assms(2) 1(5,6,7)] by (simp_all add: aims_def)
  have s1: "standard sch hp f1"
    using fake_call_moves [OF f1(2) f0(1,2)] by (simp add: moves_def)
  have i: "aims (api_view ns listed) i" and calls: "(api_call hp)\<^sup>*\<^sup>* f1 watched"
    using unwatched_run [OF 1(8) i1] by simp_all
  have watched: "standard sch hp watched" "keyed_objects (fkTracker watched)" "plain_objects (fkTracker watched)"
    using api_calls_standard [OF calls s1] f0(2,3) by (simp_all add: f1(1))
  show ?thesis
    using watched_informer [OF watched 1(5,9)] i f0 watched by (simp add: 1(1))
qed

lemma view_builds:
  assumes "keyed_objects (fkTracker f)" "plain_objects (fkTracker f)"
  shows "holds_builds (api_view ns f)" "stored_builds (api_view ns f) = api_builds ns f"
proof -
  note by_view = by_key_Some [of "ns_view ns (current (fkTracker f))", OF own_objects [OF assms]]
  show "holds_builds (api_view ns f)"
    unfolding holds_builds_def api_view_def by (auto simp: by_view)
  have "ns_view ns (current (fkTracker f)) (obj_key cb) = Some cb
      \<longleftrightarrow> (\<exists>k. ns_view ns (current (fkTracker f)) k = Some cb)" for cb
    using own_objects [OF assms] by blast
  then show "stored_builds (api_view ns f) = api_builds ns f"
    unfolding stored_builds_def api_view_def api_builds_def by (auto simp: by_view)
qed

lemma view_of_builds:
  assumes "keyed_objects (fkTracker f)" "plain_objects (fkTracker f)"
    and "keyed_objects (fkTracker f')" "plain_objects (fkTracker f')" "api_builds ns f' = api_builds ns f"
  shows "api_view ns f' = api_view ns f"
proof -
  have "ns_view ns (current (fkTracker g)) k = Some cb \<longleftrightarrow> cb \<in> api_builds ns g \<and> obj_key cb = k"
    if "keyed_objects (fkTracker g)" "plain_objects (fkTracker g)" for g k cb
    using own_objects [OF that] by (auto simp: api_builds_def)
  then have "ns_view ns (current (fkTracker f')) = ns_view ns (current (fkTracker f))"
    using assms by (intro map_eqI) simp
  then show ?thesis by (simp add: api_view_def)
qed

lemma informer_begins_informed:
  assumes "informer_begins sch hp ns tweak w listed watched fi" "knows_lists sch"
    and "api_builds ns watched = api_builds ns listed"
  shows "fake_api.informed sch hp ns w fi"
  using informer_begins_aims [OF assms(1,2)] view_of_builds [of listed watched ns] assms(3)
  by (simp add: fake_api.informed_def aims_def)

lemma settled_store:
  assumes "informer_begins sch hp ns tweak w listed watched fi" "knows_lists sch"
    and "api_builds ns watched = api_builds ns listed"
    and "(run_step (api_call hp) (unread w) (receive w))\<^sup>*\<^sup>* fi (f, i)"
    and "unread w f = []" "waits i"
  shows "namespace_indexed (siIndexer i)" "holds_builds (cached (siIndexer i))"
    "stored_builds (cached (siIndexer i)) = api_builds ns f" "\<forall>cb \<in> api_builds ns f. plain_name cb"
proof -
  note begins = informer_begins_informed [OF assms(1-3)]
  have end_state: "informer_ok i" "keyed_objects (fkTracker f)" "plain_objects (fkTracker f)"
    using fake_api.informed_run [OF assms(4) begins] by (simp_all add: fake_api.informed_def watching_def)
  have store: "cached (siIndexer i) = api_view ns f"
    by (rule fake_api.informer_converges [OF begins assms(4-6)])
  show "namespace_indexed (siIndexer i)" by (rule informer_ok_indexed [OF end_state(1)])
  show "holds_builds (cached (siIndexer i))" "stored_builds (cached (siIndexer i)) = api_builds ns f"
    unfolding store by (rule view_builds [OF end_state(2,3)])+
  show "\<forall>cb \<in> api_builds ns f. plain_name cb"
    using own_objects [OF end_state(2,3)] unfolding api_builds_def by blast
qed

text \<open>
  C36. A lister of an informer's store is exact: an informer lists the clientset and begins to watch it
  later, when the component builds of its namespace are what they were at the list. Whatever calls are
  made on the clientset after that and however they interleave with the informer's own steps, when its
  events are read and its queue is empty every list of a namespace with a selector returns the matching
  objects of the clientset, each once, and a get returns exactly the object of that name, if there is one.
\<close>

theorem lister_exact:
  assumes "informer_begins sch hp ns tweak w listed watched fi" "knows_lists sch"
    and "api_builds ns watched = api_builds ns listed"
    and "(run_step (api_call hp) (unread w) (receive w))\<^sup>*\<^sup>* fi (f, i)"
    and "unread w f = []" "waits i"
  shows "(\<exists>xs. namespace_List m (lister_ComponentBuilds (NewComponentBuildLister cache_indexer) ns')
             (siIndexer i) selector = Some (xs, None)
           \<and> lists xs (api_builds ns f)
               (\<lambda>cb. (ns' = NamespaceAll \<or> obj_ns cb = ns') \<and> SelectorMatches selector (Labels (metadata cb))))
    \<and> (\<forall>name cb. ns' \<noteq> '''' \<and> CHR ''/'' \<notin> set ns' \<longrightarrow>
         (namespace_Get (lister_ComponentBuilds (NewComponentBuildLister cache_indexer) ns')
            (siIndexer i) name = Some (Inr cb)
          \<longleftrightarrow> cb \<in> api_builds ns f \<and> obj_ns cb = ns' \<and> obj_name cb = name))"
proof -
  note store = settled_store [OF assms]
  have at: "cached (siIndexer i) (metaKey (metadata cb)) = Some (ApiObject cb)" if "cb \<in> api_builds ns f" for cb
    using that store(2) unfolding store(3) [symmetric] by (auto simp: stored_builds_def holds_builds_def)
  have one: "cb = cb'" if "cb \<in> api_builds ns f" "cb' \<in> api_builds ns f" "obj_key cb = obj_key cb'" for cb cb'
  proof -
    have same: "metaKey (metadata cb) = metaKey (metadata cb')" using that(3) by (simp add: metaKey_def)
    have "Some (ApiObject cb) = Some (ApiObject cb')"
      by (rule trans [OF at [OF that(1), symmetric, unfolded same] at [OF that(2)]])
    then show ?thesis by (simp only: option.inject any.inject)
  qed
  have get: "namespace_Get (lister_ComponentBuilds (NewComponentBuildLister cache_indexer) ns')
        (siIndexer i) name = Some (Inr cb)
      \<longleftrightarrow> cb \<in> api_builds ns f \<and> obj_ns cb = ns' \<and> obj_name cb = name"
    if ns': "ns' \<noteq> ''''" "CHR ''/'' \<notin> set ns'" for name cb
  proof -
    let ?here = "\<lambda>cb. cb \<in> api_builds ns f \<and> obj_ns cb = ns' \<and> obj_name cb = name"
    have "(THE cb. ?here cb) = cb'" if "?here cb'" for cb'
      using that one by (intro the_equality) auto
    then show ?thesis
      using cache_ix.namespace_Get_exact [OF store(1,2) _ ns', of name] store(4)
      unfolding store(3) plain_name_def by auto
  qed
  show ?thesis using cache_ix.namespace_List_exact [OF store(1,2), of m ns' selector] get
    unfolding store(3) by blast
qed

text \<open>The run of \<open>FakeClientset\<close> with an informer beside it.\<close>

definition plain_informer :: "(Fake option, nat) sharedIndexInformer" where
  "plain_informer =
     NewFilteredComponentBuildInformer (fake_ComponentBuilds plain_helpers) ''ns1'' 0 namespace_index None"

definition begun :: "(api_error option \<times> informer) \<times> Fake option" where
  "begun = run_state (reflector_list 0 (plain_informer\<lparr>running := informer_Run (running plain_informer)\<rparr>)
     emptyListOptions) (Some run0)"

definition begun_watch :: "(nat option \<times> api_error option) \<times> Fake option" where
  "begun_watch = run_state (watchFunc plain_informer emptyListOptions) (snd begun)"

definition begun_create :: Fake where
  "begun_create = snd (the (fake_builds_Create ''ns1'' (build_in ''ns1'' ''b'') plain_write (the (snd begun_watch))))"

definition begun_read :: informer where
  "begun_read = snd (handleEvent (AddedEvent (build_in ''ns1'' ''b'')) (snd (fst begun)))"

definition begun_once :: informer where
  "begun_once = snd (the (processNext begun_read))"

definition begun_twice :: informer where
  "begun_twice = snd (the (processNext begun_once))"

lemma chain4: "R a b \<Longrightarrow> R b c \<Longrightarrow> R c d \<Longrightarrow> R d e \<Longrightarrow> R\<^sup>*\<^sup>* a e"
  by (auto intro: rtranclp.rtrancl_into_rtrancl)

lemma begun_values:
  "fst (fst begun) = None" "\<not> Option.is_none (snd begun)" "fst begun_watch = (Some 0, None)"
  "\<not> Option.is_none (snd begun_watch)"
  "\<not> Option.is_none (fake_builds_Create ''ns1'' (build_in ''ns1'' ''b'') plain_write (the (snd begun_watch)))"
  "\<not> Option.is_none (processNext begun_read)" "\<not> Option.is_none (processNext begun_once)"
  "unread 0 begun_create = [AddedEvent (build_in ''ns1'' ''b'')]" "unread 0 (receive 0 begun_create) = []"
  "waits begun_twice"
  by code_simp+

lemma begun_objects:
  "objects_at (fkTracker run0) componentbuildsResource = [(NamespacedName ''ns1'' ''a'', build_in ''ns1'' ''a'')]"
  "objects_at (fkTracker begun_create) componentbuildsResource
     = [(NamespacedName ''ns1'' ''a'', build_in ''ns1'' ''a''), (NamespacedName ''ns1'' ''b'', build_in ''ns1'' ''b'')]"
  by code_simp+

lemma plain_builds: "plain_name (build_in ''ns1'' ''a'')" "plain_name (build_in ''ns1'' ''b'')"
  by code_simp+

lemma begun_plain: "plain_objects (fkTracker run0)" "plain_objects (fkTracker begun_create)"
  unfolding plain_objects_def current_def begun_objects by (simp_all add: plain_builds)

lemma begun_begins:
  "informer_begins group_scheme plain_helpers ''ns1'' None 0 run0 (the (snd begun))
     (the (snd begun_watch), snd (fst begun))"
proof (rule informer_begins.intros)
  show "NewSimpleClientset group_scheme plain_helpers [BuildObject (build_in ''ns1'' ''a'')] = Some run0"
    unfolding run0_def by (rule some_the [OF run_answers(1)])
  show "plain_objects (fkTracker run0)" by (rule begun_plain)
  show "(api_call plain_helpers)\<^sup>*\<^sup>* run0 run0" by (rule rtranclp.rtrancl_refl)
  show "plain_informer =
      NewFilteredComponentBuildInformer (fake_ComponentBuilds plain_helpers) ''ns1'' 0 namespace_index None"
    by (rule plain_informer_def)
  show "ExtractFromListOptions plain_helpers (tweaked None emptyListOptions) = Some (NewSelector, '''', '''')"
    by code_simp
  show "run_state (reflector_list 0 (plain_informer\<lparr>running := informer_Run (running plain_informer)\<rparr>)
      emptyListOptions) (Some run0) = ((None, snd (fst begun)), Some (the (snd begun)))"
    unfolding begun_def [symmetric] some_the [OF begun_values(2), symmetric] begun_values(1) [symmetric] prod.collapse
    by (rule refl)
  show "(run_step (api_call plain_helpers) no_watch (\<lambda>f. f))\<^sup>*\<^sup>* (the (snd begun), snd (fst begun))
      (the (snd begun), snd (fst begun))" by (rule rtranclp.rtrancl_refl)
  show "run_state (watchFunc plain_informer emptyListOptions) (Some (the (snd begun)))
      = ((Some 0, None), Some (the (snd begun_watch)))"
    unfolding some_the [OF begun_values(2), symmetric] some_the [OF begun_values(4), symmetric]
      begun_values(3) [symmetric] prod.collapse
    by (rule begun_watch_def [symmetric])
qed

lemma begun_quiet: "api_builds ''ns1'' (the (snd begun)) = api_builds ''ns1'' run0"
proof -
  have "objects_at (fkTracker (the (snd begun))) componentbuildsResource
      = objects_at (fkTracker run0) componentbuildsResource"
    by code_simp
  then show ?thesis by (simp add: api_builds_def current_def)
qed

lemma begun_runs:
  "(run_step (api_call plain_helpers) (unread 0) (receive 0))\<^sup>*\<^sup>*
     (the (snd begun_watch), snd (fst begun)) (receive 0 begun_create, begun_twice)"
proof -
  let ?step = "run_step (api_call plain_helpers) (unread 0) (receive 0)"
  have "fake_call plain_helpers (the (snd begun_watch)) begun_create"
    unfolding begun_create_def by (rule call_Create [OF some_the_pair [OF begun_values(5)]])
  then have "?step (the (snd begun_watch), snd (fst begun)) (begun_create, snd (fst begun))"
    using begun_plain(2) by (intro step_others) (simp add: api_call_def)
  moreover have "?step (begun_create, snd (fst begun)) (receive 0 begun_create, begun_read)"
    unfolding begun_read_def
    by (rule step_own, rule step_event, rule begun_values(8), rule prod.collapse [symmetric])
  moreover have "?step (receive 0 begun_create, begun_read) (receive 0 begun_create, begun_once)"
    unfolding begun_once_def by (rule step_own, rule step_process [OF some_the_pair [OF begun_values(6)]])
  moreover have "?step (receive 0 begun_create, begun_once) (receive 0 begun_create, begun_twice)"
    unfolding begun_twice_def by (rule step_own, rule step_process [OF some_the_pair [OF begun_values(7)]])
  ultimately show ?thesis by (rule chain4)
qed

theorem lister_exact_witness:
  "(\<exists>xs. namespace_List 0 (lister_ComponentBuilds (NewComponentBuildLister cache_indexer) ''ns1'')
          (siIndexer begun_twice) NewSelector = Some (xs, None)
        \<and> lists xs (api_builds ''ns1'' (receive 0 begun_create))
            (\<lambda>cb. (''ns1'' = NamespaceAll \<or> obj_ns cb = ''ns1'') \<and> SelectorMatches NewSelector (Labels (metadata cb))))
   \<and> namespace_Get (lister_ComponentBuilds (NewComponentBuildLister cache_indexer) ''ns1'')
       (siIndexer begun_twice) ''b'' = Some (Inr (build_in ''ns1'' ''b''))"
proof
  note exact = lister_exact [OF begun_begins run_values(3) begun_quiet begun_runs begun_values(9,10)]
  from exact show "\<exists>xs. namespace_List 0 (lister_ComponentBuilds (NewComponentBuildLister cache_indexer) ''ns1'')
          (siIndexer begun_twice) NewSelector = Some (xs, None)
        \<and> lists xs (api_builds ''ns1'' (receive 0 begun_create))
            (\<lambda>cb. (''ns1'' = NamespaceAll \<or> obj_ns cb = ''ns1'') \<and> SelectorMatches NewSelector (Labels (metadata cb)))"
    by blast
  show "namespace_Get (lister_ComponentBuilds (NewComponentBuildLister cache_indexer) ''ns1'')
       (siIndexer begun_twice) ''b'' = Some (Inr (build_in ''ns1'' ''b''))"
    by code_simp
qed

text \<open>
  C39. The informer can always catch up by itself: from every state that a run of it and of the
  clientset's users can reach, after a begin as above, steps of the informer alone lead to a state in
  which its events are read, its queue is empty, and its store holds exactly the objects of the
  clientset, which those steps leave alone.
\<close>

theorem informer_catches_up:
  assumes "informer_begins sch hp ns tweak w listed watched fi" "knows_lists sch"
    and "api_builds ns watched = api_builds ns listed"
    and "(run_step (api_call hp) (unread w) (receive w))\<^sup>*\<^sup>* fi (f, i)"
  shows "\<exists>f' i'. (informer_step (unread w) (receive w))\<^sup>*\<^sup>* (f, i) (f', i')
    \<and> unread w f' = [] \<and> waits i' \<and> api_view ns f' = api_view ns f
    \<and> stored_builds (cached (siIndexer i')) = api_builds ns f"
proof -
  have "fake_api.informed sch hp ns w (f, i)"
    by (rule fake_api.informed_run [OF assms(4) informer_begins_informed [OF assms(1-3)]])
  moreover from this have "keyed_objects (fkTracker f)" "plain_objects (fkTracker f)"
    by (simp_all add: fake_api.informed_def watching_def)
  ultimately show ?thesis using fake_api.informer_settles view_builds(2) by metis
qed

theorem informer_catches_up_witness:
  "\<exists>f' i'. (informer_step (unread 0) (receive 0))\<^sup>*\<^sup>* (begun_create, snd (fst begun)) (f', i')
    \<and> unread 0 f' = [] \<and> waits i' \<and> api_view ''ns1'' f' = api_view ''ns1'' begun_create
    \<and> stored_builds (cached (siIndexer i')) = api_builds ''ns1'' begun_create"
proof (rule informer_catches_up [OF begun_begins run_values(3) begun_quiet])
  have "fake_call plain_helpers (the (snd begun_watch)) begun_create"
    unfolding begun_create_def by (rule call_Create [OF some_the_pair [OF begun_values(5)]])
  then show "(run_step (api_call plain_helpers) (unread 0) (receive 0))\<^sup>*\<^sup>*
      (the (snd begun_watch), snd (fst begun)) (begun_create, snd (fst begun))"
    using begun_plain(2) by (intro r_into_rtranclp step_others) (simp add: api_call_def)
qed

lemma quiet_run:
  assumes "(informer_step pending take_one)\<^sup>*\<^sup>* (s, i) (s', i')" and "pending s = []" and "aims v i"
  shows "s' = s \<and> aims v i'"
  using assms
proof (induction "(s', i')" arbitrary: s' i' rule: rtranclp_induct)
  case (step si)
  obtain s1 i1 where si: "si = (s1, i1)" by (cases si)
  with step have same: "s1 = s" "aims v i1" by auto
  from step(2) [unfolded si] show ?case
  proof cases
    case (step_process err)
    with same processNext_ok [of i1] show ?thesis by (auto simp: aims_def)
  next
    case (step_resync n err)
    with same forceResync_retargets [of i1 n] show ?thesis by (auto simp: aims_def retargets_def)
  qed (use same step.prems(1) in simp)
qed simp

text \<open>
  C33. What the condition on the begin is for: the fake clientset ignores the version a watch is to
  start from, so a change between the list and the watch is lost. If the component builds of the
  namespace are others when the watch begins than they were at the list, then however long the informer
  goes on by itself, once its queue is empty its store holds those of the list, and not those of the
  clientset.
\<close>

theorem gap_change_lost:
  assumes "informer_begins sch hp ns tweak w listed watched (f, i)" "knows_lists sch"
    and "api_builds ns watched \<noteq> api_builds ns listed"
    and "(informer_step (unread w) (receive w))\<^sup>*\<^sup>* (f, i) (f', i')" "waits i'"
  shows "unread w f' = [] \<and> api_builds ns f' = api_builds ns watched
    \<and> stored_builds (cached (siIndexer i')) = api_builds ns listed
    \<and> stored_builds (cached (siIndexer i')) \<noteq> api_builds ns f'"
proof -
  have b: "watching sch hp ns w f" "unread w f = []" "aims (api_view ns listed) i"
    "api_view ns f = api_view ns watched"
    "keyed_objects (fkTracker listed)" "plain_objects (fkTracker listed)"
    "keyed_objects (fkTracker watched)" "plain_objects (fkTracker watched)"
    using informer_begins_aims [OF assms(1,2)] by simp_all
  have r: "f' = f" "aims (api_view ns listed) i'" using quiet_run [OF assms(4) b(2,3)] by simp_all
  then have "cached (siIndexer i') = api_view ns listed"
    using waits_target [OF _ assms(5)] by (simp add: aims_def)
  then have store: "stored_builds (cached (siIndexer i')) = api_builds ns listed"
    using view_builds(2) [OF b(5,6)] by simp
  have "api_builds ns f = stored_builds (api_view ns f)"
    using b(1) view_builds(2) [of f ns] by (simp add: watching_def)
  then have "api_builds ns f = api_builds ns watched"
    using view_builds(2) [OF b(7,8)] by (simp add: b(4))
  with r(1) b(2) store assms(3) show ?thesis by simp
qed

text \<open>A component build is created between the list and the watch of the informer above.\<close>

definition gap_create :: Fake where
  "gap_create = snd (the (fake_builds_Create ''ns1'' (build_in ''ns1'' ''b'') plain_write (the (snd begun))))"

definition gap_watch :: "(nat option \<times> api_error option) \<times> Fake option" where
  "gap_watch = run_state (watchFunc plain_informer emptyListOptions) (Some gap_create)"

definition gap_once :: informer where
  "gap_once = snd (the (processNext (snd (fst begun))))"

lemma gap_values:
  "\<not> Option.is_none (fake_builds_Create ''ns1'' (build_in ''ns1'' ''b'') plain_write (the (snd begun)))"
  "fst gap_watch = (Some 0, None)" "\<not> Option.is_none (snd gap_watch)"
  "\<not> Option.is_none (processNext (snd (fst begun)))" "waits gap_once"
  "objects_at (fkTracker gap_create) componentbuildsResource
     = [(NamespacedName ''ns1'' ''a'', build_in ''ns1'' ''a''), (NamespacedName ''ns1'' ''b'', build_in ''ns1'' ''b'')]"
  by code_simp+

lemma gap_begins:
  "informer_begins group_scheme plain_helpers ''ns1'' None 0 run0 gap_create
     (the (snd gap_watch), snd (fst begun))"
proof (rule informer_begins.intros)
  show "NewSimpleClientset group_scheme plain_helpers [BuildObject (build_in ''ns1'' ''a'')] = Some run0"
    unfolding run0_def by (rule some_the [OF run_answers(1)])
  show "plain_objects (fkTracker run0)" by (rule begun_plain)
  show "(api_call plain_helpers)\<^sup>*\<^sup>* run0 run0" by (rule rtranclp.rtrancl_refl)
  show "plain_informer =
      NewFilteredComponentBuildInformer (fake_ComponentBuilds plain_helpers) ''ns1'' 0 namespace_index None"
    by (rule plain_informer_def)
  show "ExtractFromListOptions plain_helpers (tweaked None emptyListOptions) = Some (NewSelector, '''', '''')"
    by code_simp
  show "run_state (reflector_list 0 (plain_informer\<lparr>running := informer_Run (running plain_informer)\<rparr>)
      emptyListOptions) (Some run0) = ((None, snd (fst begun)), Some (the (snd begun)))"
    unfolding begun_def [symmetric] some_the [OF begun_values(2), symmetric] begun_values(1) [symmetric] prod.collapse
    by (rule refl)
  have "fake_call plain_helpers (the (snd begun)) gap_create"
    unfolding gap_create_def by (rule call_Create [OF some_the_pair [OF gap_values(1)]])
  moreover have "plain_objects (fkTracker gap_create)"
    unfolding plain_objects_def current_def gap_values(6) by (simp add: plain_builds)
  ultimately show "(run_step (api_call plain_helpers) no_watch (\<lambda>f. f))\<^sup>*\<^sup>* (the (snd begun), snd (fst begun))
      (gap_create, snd (fst begun))"
    by (intro r_into_rtranclp step_others) (simp add: api_call_def)
  show "run_state (watchFunc plain_informer emptyListOptions) (Some gap_create)
      = ((Some 0, None), Some (the (snd gap_watch)))"
    unfolding some_the [OF gap_values(3), symmetric] gap_values(2) [symmetric] prod.collapse
    by (rule gap_watch_def [symmetric])
qed

theorem gap_change_lost_witness:
  "build_in ''ns1'' ''b'' \<in> api_builds ''ns1'' gap_create
   \<and> stored_builds (cached (siIndexer gap_once)) = api_builds ''ns1'' run0
   \<and> build_in ''ns1'' ''b'' \<notin> api_builds ''ns1'' run0"
proof -
  have b: "build_in ''ns1'' ''b'' \<in> api_builds ''ns1'' gap_create" "build_in ''ns1'' ''b'' \<notin> api_builds ''ns1'' run0"
    unfolding api_builds_def current_def gap_values(6) begun_objects(1)
    by (auto simp: ns_view_def build_in_def zeroComponentBuild_def empty_meta_def in_ns_def split: if_splits)
  have "(informer_step (unread 0) (receive 0))\<^sup>*\<^sup>* (the (snd gap_watch), snd (fst begun)) (the (snd gap_watch), gap_once)"
    unfolding gap_once_def by (rule r_into_rtranclp, rule step_process [OF some_the_pair [OF gap_values(4)]])
  from gap_change_lost [OF gap_begins run_values(3) _ this gap_values(5)] b show ?thesis by blast
qed

section \<open>The shared factory\<close>

text \<open>
  C37. Whatever is asked of a shared factory, in any order and any number of times: a type has one
  informer, which every request for the type returns; no informer is run twice; \<open>Start\<close> runs every
  informer requested so far that is not running, keeps the runs it had, and does nothing a second time.
\<close>

theorem informers_started_once:
  assumes "set opts \<subseteq> standard_options"
    and "factory_call\<^sup>*\<^sup>* (open_shop (NewSharedInformerFactoryWithOptions client resync opts)) w"
  shows "distinct (launched w) \<and> set (launched w) \<subseteq> ran (informer_at w)
    \<and> InformerFor ty g (snd (InformerFor ty f w)) = InformerFor ty f w
    \<and> set (launched (factory_Start n w)) = ran (informer_at w)
    \<and> (\<exists>more. launched (factory_Start n w) = launched w @ more)
    \<and> distinct (launched (factory_Start n w))
    \<and> factory_Start m (factory_Start n w) = factory_Start n w"
proof -
  have ok: "shop_ok w" by (rule factory_calls_ok [OF assms(2) started_fresh [OF assms(1)]])
  have "InformerFor ty g (snd (InformerFor ty f w)) = InformerFor ty f w"
    using InformerFor_again [of ty f w _ _ g, OF prod.collapse [symmetric] ok] by simp
  moreover have "distinct (launched w)" "set (launched w) \<subseteq> ran (informer_at w)"
    using ok by (auto simp: shop_ok_def ran_def simp del: map_of_eq_Some_iff)
  moreover have "shop_ok (factory_Start n w)" "\<exists>more. launched (factory_Start n w) = launched w @ more"
    using factory_Start_ok [OF ok, of n] by simp_all
  moreover from this have "distinct (launched (factory_Start n w))" by (simp add: shop_ok_def)
  ultimately show ?thesis
    using Start_launches_all [OF ok, of n] factory_Start_again [OF ok, of m n] by blast
qed

text \<open>A factory for one namespace that is asked for the informer by its resource, started and asked again.\<close>

definition small_shop :: "(Fake option, nat) shop" where
  "small_shop = open_shop (NewSharedInformerFactoryWithOptions (fake_ComponentBuilds plain_helpers) 30
     [WithNamespace ''ns1'', WithCustomResyncConfig [(ComponentBuildType, 60)]])"

definition asked_shop :: "(Fake option, nat) shop" where
  "asked_shop = snd (ForResource (WithResource SchemeGroupVersion ''componentbuilds'') small_shop)"

theorem informers_started_once_witness:
  "distinct (launched (factory_Start 0 asked_shop)) \<and> launched (factory_Start 0 asked_shop) = [0]
   \<and> factory_Start 5 (factory_Start 0 asked_shop) = factory_Start 0 asked_shop"
proof -
  have "set [WithNamespace ''ns1'', WithCustomResyncConfig [(ComponentBuildType, 60)]] \<subseteq> standard_options"
    by (simp add: standard_options.intros)
  moreover have "factory_call\<^sup>*\<^sup>* small_shop asked_shop"
    unfolding asked_shop_def by (rule r_into_rtranclp, rule call_ForResource, rule prod.collapse [symmetric])
  ultimately have "distinct (launched (factory_Start 0 asked_shop))
      \<and> factory_Start 5 (factory_Start 0 asked_shop) = factory_Start 0 asked_shop"
    unfolding small_shop_def using informers_started_once by blast
  moreover have "launched (factory_Start 0 asked_shop) = [0]" by code_simp
  ultimately show ?thesis by blast
qed

end
