(* ===== verification/Interfaces.thy ===== *)
theory Interfaces
  imports Clientset InformedLister
begin

text \<open>
  The Go interfaces the generated code declares, as records of their methods, and the structs that
  satisfy them: the clientset and the fake clientset of \<open>pkg/client/clientset/versioned\<close>, the listers of
  \<open>pkg/client/listers\<close> and the informers and the factory of \<open>pkg/client/informers\<close>. A method of a struct
  in an interface is the struct's own method, so a program that uses an interface runs on any of them.
\<close>

section \<open>Clientsets\<close>

record ('s, 'w) ComponentBuildsGetter =
  getter_ComponentBuilds :: "string \<Rightarrow> ('s, 'w) ComponentBuildInterface"

record ('s, 'r, 'w) ApheleiaV1alpha1Interface = "('s, 'w) ComponentBuildsGetter" +
  interface_RESTClient :: "('s, 'r, 'w) RESTClient option"

record ('s, 'r, 'w, 'd) Clientset_Interface =
  interface_Discovery :: "'d option"
  interface_ApheleiaV1alpha1 :: "('s, 'r, 'w) ApheleiaV1alpha1Interface"

definition group_interface ::
  "('s, 'r, 'w) ApheleiaV1alpha1Client \<Rightarrow> ('s, 'r, 'w) ApheleiaV1alpha1Interface" where
  "group_interface c =
     \<lparr>getter_ComponentBuilds = (\<lambda>ns. builds_interface (group_ComponentBuilds c ns)),
      interface_RESTClient = RESTClientOf (Some c)\<rparr>"

definition clientset_interface :: "('s, 'r, 'w, 'd) Clientset \<Rightarrow> ('s, 'r, 'w, 'd) Clientset_Interface" where
  "clientset_interface c =
     \<lparr>interface_Discovery = Discovery (Some c),
      interface_ApheleiaV1alpha1 = group_interface (ApheleiaV1alpha1 c)\<rparr>"

text \<open>
  The fake clientset. Its \<open>testing.Fake\<close> with the tracker is the state of the calls, which the group's
  client points to; its discovery client is the one of \<open>client-go\<close>.
\<close>

record 'd fakeClientset =
  fakeDiscovery :: 'd

definition fake_Discovery :: "'d fakeClientset \<Rightarrow> 'd" where
  "fake_Discovery c = fakeDiscovery c"

definition fake_group_interface :: "helpers \<Rightarrow> (Fake option, 'r, nat) ApheleiaV1alpha1Interface" where
  "fake_group_interface hp =
     \<lparr>getter_ComponentBuilds = fake_ApheleiaV1alpha1 hp, interface_RESTClient = fake_RESTClient\<rparr>"

definition fake_clientset_interface ::
  "helpers \<Rightarrow> 'd fakeClientset \<Rightarrow> (Fake option, 'r, nat, 'd) Clientset_Interface" where
  "fake_clientset_interface hp c =
     \<lparr>interface_Discovery = Some (fake_Discovery c), interface_ApheleiaV1alpha1 = fake_group_interface hp\<rparr>"

text \<open>What the informers call on a clientset.\<close>

definition informed :: "('s, 'r, 'w, 'd) Clientset_Interface \<Rightarrow> ('s, 'w) versioned_Interface" where
  "informed c = getter_ComponentBuilds (interface_ApheleiaV1alpha1 c)"

lemma informed_clientset:
  "cbiList (informed (clientset_interface c) ns) = builds_List (group_ComponentBuilds (ApheleiaV1alpha1 c) ns)"
  "cbiWatch (informed (clientset_interface c) ns) = builds_Watch (group_ComponentBuilds (ApheleiaV1alpha1 c) ns)"
  by (simp_all add: informed_def clientset_interface_def group_interface_def builds_interface_def)

lemma informed_fake: "informed (fake_clientset_interface hp d) = fake_ComponentBuilds hp"
  by (simp add: informed_def fake_clientset_interface_def fake_group_interface_def fake_ApheleiaV1alpha1_def)

section \<open>Listers\<close>

record 's ComponentBuildNamespaceLister =
  listing_namespace_List :: "nat \<Rightarrow> Selector \<Rightarrow> 's \<Rightarrow> (ComponentBuild list \<times> api_error option) option"
  listing_namespace_Get :: "string \<Rightarrow> 's \<Rightarrow> (api_error + ComponentBuild) option"

record 's ComponentBuildLister =
  listing_List :: "nat \<Rightarrow> Selector \<Rightarrow> 's \<Rightarrow> (ComponentBuild list \<times> api_error option) option"
  listing_ComponentBuilds :: "string \<Rightarrow> 's ComponentBuildNamespaceLister"

definition namespace_lister_interface ::
  "'s componentBuildNamespaceLister \<Rightarrow> 's ComponentBuildNamespaceLister" where
  "namespace_lister_interface l =
     \<lparr>listing_namespace_List = (\<lambda>n selector s. namespace_List n l s selector),
      listing_namespace_Get = (\<lambda>name s. namespace_Get l s name)\<rparr>"

definition lister_interface :: "'s componentBuildLister \<Rightarrow> 's ComponentBuildLister" where
  "lister_interface l =
     \<lparr>listing_List = (\<lambda>n selector s. lister_List n l s selector),
      listing_ComponentBuilds = (\<lambda>ns. namespace_lister_interface (lister_ComponentBuilds l ns))\<rparr>"

section \<open>Informers\<close>

record ('s, 'w) ComponentBuildInformer =
  informing_Informer :: "('s, 'w) shop \<Rightarrow> nat \<times> ('s, 'w) shop"
  informing_Lister :: "('s, 'w) shop \<Rightarrow> ('s, 'w) shop ComponentBuildLister \<times> ('s, 'w) shop"

record ('s, 'w) version_Interface =
  version_interface_ComponentBuilds :: "('s, 'w) ComponentBuildInformer"

record ('s, 'w) group_Interface =
  group_interface_V1alpha1 :: "('s, 'w) version_Interface"

definition builds_informer_interface :: "componentBuildInformer \<Rightarrow> ('s, 'w) ComponentBuildInformer" where
  "builds_informer_interface f =
     \<lparr>informing_Informer = builds_Informer f,
      informing_Lister = (\<lambda>w. case builds_Lister f w of (l, w') \<Rightarrow> (lister_interface l, w'))\<rparr>"

definition version_informers_interface :: "informer_version \<Rightarrow> ('s, 'w) version_Interface" where
  "version_informers_interface v =
     \<lparr>version_interface_ComponentBuilds = builds_informer_interface (version_ComponentBuilds v)\<rparr>"

definition group_informers_interface :: "informer_group \<Rightarrow> ('s, 'w) group_Interface" where
  "group_informers_interface g =
     \<lparr>group_interface_V1alpha1 = version_informers_interface (group_V1alpha1 g)\<rparr>"

record ('s, 'w) GenericInformer =
  generic_interface_Informer :: nat
  generic_interface_Lister :: "(('s, 'w) shop, build_ext) Indexer \<times> GroupResource"

definition generic_informer_interface :: "genericInformer \<Rightarrow> ('s, 'w) GenericInformer" where
  "generic_informer_interface g =
     \<lparr>generic_interface_Informer = generic_Informer g, generic_interface_Lister = generic_Lister g\<rparr>"

section \<open>The factory\<close>

record ('s, 'w) internal_SharedInformerFactory =
  factory_interface_Start :: "nat \<Rightarrow> ('s, 'w) shop \<Rightarrow> ('s, 'w) shop"
  factory_interface_InformerFor ::
    "GoType \<Rightarrow> ('s, 'w) NewInformerFunc \<Rightarrow> ('s, 'w) shop \<Rightarrow> nat \<times> ('s, 'w) shop"

record ('s, 'w) SharedInformerFactory = "('s, 'w) internal_SharedInformerFactory" +
  factory_interface_ForResource ::
    "GroupVersionResource \<Rightarrow> ('s, 'w) shop \<Rightarrow> (api_error + ('s, 'w) GenericInformer) \<times> ('s, 'w) shop"
  factory_interface_WaitForCacheSync :: "(nat \<Rightarrow> bool list) \<Rightarrow> ('s, 'w) shop \<Rightarrow> (GoType \<times> bool) list"
  factory_interface_Apheleia :: "('s, 'w) shop \<Rightarrow> ('s, 'w) group_Interface"

definition factory_interface :: "('s, 'w) SharedInformerFactory" where
  "factory_interface =
     \<lparr>factory_interface_Start = factory_Start, factory_interface_InformerFor = InformerFor,
      factory_interface_ForResource = (\<lambda>resource w. case ForResource resource w of (r, w') \<Rightarrow>
        (case r of Inl err \<Rightarrow> Inl err | Inr g \<Rightarrow> Inr (generic_informer_interface g), w')),
      factory_interface_WaitForCacheSync = factory_WaitForCacheSync,
      factory_interface_Apheleia = (\<lambda>w. group_informers_interface (factory_Apheleia w))\<rparr>"

text \<open>
  The two ways to the informer of component builds, by method and by resource, lead to one informer
  and leave the same factory; and they do so again in whatever order they are taken.
\<close>

abbreviation typed_builds :: "('s, 'w) shop \<Rightarrow> ('s, 'w) ComponentBuildInformer" where
  "typed_builds w \<equiv> version_interface_ComponentBuilds
     (group_interface_V1alpha1 (factory_interface_Apheleia factory_interface w))"

lemma typed_builds_Informer:
  "informing_Informer (typed_builds w) =
     builds_Informer (version_ComponentBuilds (group_V1alpha1 (factory_Apheleia w)))"
  by (simp add: factory_interface_def group_informers_interface_def version_informers_interface_def
      builds_informer_interface_def)

theorem typed_and_generic_access:
  "factory_interface_ForResource factory_interface (WithResource SchemeGroupVersion ''componentbuilds'') w =
     (case informing_Informer (typed_builds w) w of (h, w') \<Rightarrow>
        (Inr \<lparr>generic_interface_Informer = h,
              generic_interface_Lister = (GetIndexer h, GroupResource ''apheleia.io'' ''componentbuilds'')\<rparr>, w'))"
  by (simp add: typed_builds_Informer)
    (simp add: factory_interface_def ForResource_def generic_informer_interface_def generic_Informer_def
      generic_Lister_def WithResource_def SchemeGroupVersion_def split: prod.split)

end
