(* ===== verification/LabelLimits.thy ===== *)
theory LabelLimits
  imports HandlerSpec SelectorText Scenarios
begin

text \<open>
  Names as label values. The reconciler puts the name of a component build into the label of its
  notification pipeline and into the selector it looks for pipelines with. A name has up to 253
  characters and a label value 63: a server that validates labels, and a parser of the selector's text,
  refuse the longer ones. Shown is where the bound is, and what the handler does beyond it.
\<close>

section \<open>The bound\<close>

lemma split_on_hd: "hd (split_on c xs) \<noteq> [] \<Longrightarrow> hd xs = hd (hd (split_on c xs))"
  by (cases xs) (auto split: list.splits if_splits)

lemma split_on_last: "last (split_on c xs) \<noteq> [] \<Longrightarrow> last xs = last (last (split_on c xs))"
proof (induction xs)
  case (Cons x xs)
  have "split_on c ys \<noteq> []" for ys using split_on_parts by blast
  with Cons show ?case by (cases xs) (auto split: list.splits if_splits)
qed simp

lemma subdomain_chars:
  assumes "IsDNS1123Subdomain n" "c \<in> set n"
  shows "is_lower_alnum c \<or> c \<in> {CHR ''-'', CHR ''.''}"
proof (cases "c = CHR ''.''")
  case False
  with assms(2) split_on_parts [of "CHR ''.''" n] obtain l where
    "l \<in> set (split_on (CHR ''.'') n)" "c \<in> set l" by auto
  with assms(1) show ?thesis by (auto simp: IsDNS1123Subdomain_def IsDNS1123Label_def list_all_iff)
qed simp

text \<open>A name that the API server admits is a label value exactly up to 63 characters.\<close>

lemma subdomain_label_value:
  assumes "IsDNS1123Subdomain n" shows "IsValidLabelValue n \<longleftrightarrow> length n \<le> 63"
proof -
  let ?ls = "split_on (CHR ''.'') n"
  have ls: "?ls \<noteq> []" "\<forall>l \<in> set ?ls. IsDNS1123Label l"
    using split_on_parts [of "CHR ''.''" n] assms by (auto simp: IsDNS1123Subdomain_def list_all_iff)
  then have n: "n \<noteq> []" by (auto simp: IsDNS1123Label_def)
  have ends: "IsDNS1123Label (hd ?ls)" "IsDNS1123Label (last ?ls)" using ls by simp_all
  then have "hd n = hd (hd ?ls)" "last n = last (last ?ls)"
    using split_on_hd split_on_last by (auto simp: IsDNS1123Label_def)
  moreover note ends
  ultimately have "is_alnum (hd n)" "is_alnum (last n)" by (auto simp: IsDNS1123Label_def is_alnum_def)
  moreover have "list_all (\<lambda>c. is_alnum c \<or> c \<in> {CHR ''-'', CHR ''_'', CHR ''.''}) n"
    using subdomain_chars [OF assms] by (auto simp: list_all_iff is_alnum_def)
  ultimately show ?thesis using n by (auto simp: IsValidLabelValue_def qualifiedName_def)
qed

lemma NotifyPipelineLabel_key: "IsQualifiedName NotifyPipelineLabel"
  by code_simp

text \<open>
  The text of the selector the reconciler looks for notification pipelines with is one that a server
  can read exactly up to that length.
\<close>

lemma notify_selector_read:
  assumes "IsDNS1123Subdomain n" "length n \<le> 63"
  shows "Parse m (selector_String (SelectorFromSet [(NotifyPipelineLabel, n)])) =
    Inr (SelectorFromSet [(NotifyPipelineLabel, n)])"
proof -
  let ?r = "\<lparr>reqKey = NotifyPipelineLabel, operator = Equals, strValues = [n]\<rparr>"
  have "checked ?r" using assms NotifyPipelineLabel_key subdomain_label_value by (simp add: checked_iff)
  then show ?thesis using Parse_selector_String [of "[?r]" m] by (simp add: SelectorFromSet_def normal_def)
qed

lemma ordinary_word: "IsDNS1123Subdomain n \<Longrightarrow> word n"
  using subdomain_ordinary [of n] by (auto simp: word_def IsDNS1123Subdomain_def IsDNS1123Label_def)

lemma notify_selector_refused:
  assumes "IsDNS1123Subdomain n" "63 < length n"
  shows "isl (Parse m (selector_String (SelectorFromSet [(NotifyPipelineLabel, n)])))"
proof -
  let ?k = "NotifyPipelineLabel"
  let ?fin = "[(EndOfStringToken, '''')] :: ScannedItem list"
  have k: "word ?k" using NotifyPipelineLabel_key by (rule IsQualifiedName_word)
  have n: "word n" "\<not> IsValidLabelValue n" using assms subdomain_label_value ordinary_word by auto
  have "scan (n @ '''') = word_item n # scan ''''"
    using scan_word [OF n(1), of "''''"] by (simp add: ends_word_def)
  moreover have "scan (CHR ''='' # n) = (EqualsToken, ''='') # scan n"
    using word_ends_symbol [OF n(1), of "''''"] by (intro scan_symbol) auto
  moreover have "scan (?k @ CHR ''='' # n) = word_item ?k # scan (CHR ''='' # n)"
    using k by (intro scan_word) (auto simp: ends_word_def)
  ultimately have "scan (?k @ CHR ''='' # n) = word_item ?k # (EqualsToken, ''='') # word_item n # ?fin"
    by simp
  moreover have "selector_String (SelectorFromSet [(?k, n)]) = ?k @ CHR ''='' # n"
    by (simp add: selector_String_def SelectorFromSet_def requirement_String_def)
  moreover have "parseKeyAndInferOperator (word_item ?k # (EqualsToken, ''='') # word_item n # ?fin) =
      Inr ((?k, None), (EqualsToken, ''='') # word_item n # ?fin)"
    using k NotifyPipelineLabel_key by (simp add: parseKeyAndInferOperator_def consume_def)
  moreover obtain err where "checked_requirement ?k Equals [n] ?fin = Inl err"
    using n by (auto simp: checked_requirement_def NewRequirement_def Let_def)
  ultimately show ?thesis
    using k n by (simp add: Parse_def parseLoop.simps [of "[]"] parseRequirement_def parseOperator_def
        operatorOf_def parseExactValue_def consume_def)
qed

section \<open>A server that validates labels\<close>

text \<open>
  \<open>ValidateLabels\<close> of the vendored \<open>apimachinery/pkg/apis/meta/v1/validation/validation.go\<close>, as the
  predicate that it reports nothing, and a client whose server applies it to the pipeline runs it is
  to create.
\<close>

definition ValidateLabelName :: "string \<Rightarrow> bool" where
  "ValidateLabelName labelName = IsQualifiedName labelName"

definition ValidateLabels :: "string gomap \<Rightarrow> bool" where
  "ValidateLabels labels =
     list_all (\<lambda>(k, v). ValidateLabelName k \<and> IsValidLabelValue v) (gm_items labels)"

locale validating_client = reliable_client +
  assumes create_PipelineRun_validates:
    "\<not> ValidateLabels (Labels (metadata pr)) \<Longrightarrow>
       writes ab (create_PipelineRun cl pr) (\<lambda>c r c'. isl r \<and> c' = c)"

lemma long_name_label:
  "63 < length (obj_name cb) \<Longrightarrow> \<not> ValidateLabels (Labels (metadata (notifyPipelineRun env cb msg qty)))"
  by (auto simp: ValidateLabels_def gm_items_def IsValidLabelValue_def qualifiedName_def)

text \<open>New artifact builds and task runs do not change whether a notification is due.\<close>

lemma must_notify_only_new: "only_new env ns c0 c \<Longrightarrow> must_notify env c cb = must_notify env c0 cb"
  by (simp add: must_notify_def configured_def config_of_def result_ready_def outstanding_count_def
      phase_only_new notify_due_only_new only_new_frame)

definition notify_refused :: "cluster \<Rightarrow> api_error option \<Rightarrow> cluster \<Rightarrow> bool" where
  "notify_refused c r c' \<longleftrightarrow> r \<noteq> None \<and> c' = c"

context validating_client
begin

lemma notifyResult_refused:
  "writes ab (notifyResult env cl cb)
     (\<lambda>c r c'. 63 < length (obj_name cb) \<and> notify_due c cb \<longrightarrow> notify_refused c r c')"
proof (cases "63 < length (obj_name cb)")
  case True
  note refused = create_PipelineRun_validates [OF long_name_label, OF True, THEN writes_wp]
  show ?thesis
    unfolding notifyResult_def
    by (rule writes_from_triple, rule triple_pre,
        (rule wp refused notifierMessage_reads [THEN reads_wp]
            reads_conj [OF list_PipelineRun_law list_PipelineRun_honest, THEN reads_wp])+)
      (auto simp: notify_due_def list_unfinished_iff notify_refused_def isl_def split: sum.splits)
qed (rule writes_mono [OF notifyResult_writes], simp)

lemma finish_refused:
  "writes ab (finish env cl cb)
     (\<lambda>c r c'. 63 < length (obj_name cb) \<and> may_notify (cbStatus cb) \<and> notify_due c cb
        \<longrightarrow> notify_refused c (fst r) c')"
  unfolding finish_def
  by (rule writes_from_triple, rule triple_pre,
      (rule wp call_wp notifyResult_refused [THEN writes_wp])+)
    (auto simp: may_notify_def)

text \<open>The handler, when the notification that is due is refused: an error, and no status is stored.\<close>

lemma handler_refused:
  "writes ab (handleComponentBuildReceived env cl cb)
     (\<lambda>c r c'. 63 < length (obj_name cb) \<and> must_notify env c cb \<longrightarrow>
        snd r \<noteq> None \<and> only_new env (obj_ns cb) c c')"
proof (rule writes_from_triple)
  fix c0
  note loop = artifactLoop_exact [of env "obj_ns cb" c0 "{}", THEN triple_wp]
  show "triple ab (\<lambda>c. c = c0) (handleComponentBuildReceived env cl cb)
     (\<lambda>r c. 63 < length (obj_name cb) \<and> must_notify env c0 cb \<longrightarrow>
        snd r \<noteq> None \<and> only_new env (obj_ns cb) c0 c)"
    unfolding handleComponentBuildReceived_def
    by (rule triple_pre,
      (rule wp loop deployConfig_exact [THEN reads_wp] updateStatus_writes [THEN writes_wp]
          finish_refused [THEN writes_wp])+)
     (auto simp: must_notify_def configured_def notify_refused_def notify_due_only_new may_notify_ready)
qed

end

section \<open>A component build with a long name\<close>

text \<open>Any client in front of which labels are validated.\<close>

definition validating :: "'s client \<Rightarrow> 's client" where
  "validating cl = cl\<lparr>create_PipelineRun := (\<lambda>pr.
     if ValidateLabels (Labels (metadata pr)) then create_PipelineRun cl pr
     else State_Monad.return (Inl (OtherError ''metadata.labels: Invalid value'')))\<rparr>"

lemma writes_run: "writes ab m \<Psi> \<Longrightarrow> \<Psi> (ab s) (fst (run_state m s)) (ab (snd (run_state m s)))"
  by (cases "run_state m s") (auto simp: writes_def)

lemma only_new_trans:
  assumes "only_new env ns a b" "only_new env ns b c" shows "only_new env ns a c"
proof -
  from assms obtain abs trs abs' trs' where
    b: "b = a\<lparr>artifactBuilds := abs, taskRuns := trs\<rparr>" and c: "c = b\<lparr>artifactBuilds := abs', taskRuns := trs'\<rparr>"
    and "\<forall>k. abs k = artifactBuilds a k \<or> artifactBuilds a k = None \<and>
      (\<exists>i x. abs k = Some x \<and> accepted (newArtifactBuild env ns i) x \<and> k = obj_key x)"
    and "\<forall>k. abs' k = abs k \<or> abs k = None \<and>
      (\<exists>i x. abs' k = Some x \<and> accepted (newArtifactBuild env ns i) x \<and> k = obj_key x)"
    unfolding only_new_def by fastforce
  then have "\<forall>k. abs' k = artifactBuilds a k \<or> artifactBuilds a k = None \<and>
      (\<exists>i x. abs' k = Some x \<and> accepted (newArtifactBuild env ns i) x \<and> k = obj_key x)" by metis
  moreover have "c = a\<lparr>artifactBuilds := abs', taskRuns := trs'\<rparr>" using b c by simp
  ultimately show ?thesis unfolding only_new_def by blast
qed

lemma return_writes: "writes ab (State_Monad.return r) (\<lambda>c r' c'. r' = r \<and> c' = c)"
  by (rule writes_from_triple, rule triple_pre, rule wp) simp

context reliable_client
begin

lemma validating_create:
  "writes ab (create_PipelineRun (validating cl) pr)
     (\<lambda>c r c'. \<exists>m. c' = c\<lparr>pipelineRuns := m\<rparr> \<and> create_ok (pipelineRuns c) pr r m)"
  "\<not> ValidateLabels (Labels (metadata pr)) \<Longrightarrow>
     writes ab (create_PipelineRun (validating cl) pr) (\<lambda>c r c'. isl r \<and> c' = c)"
  using create_PipelineRun_law
  by (auto simp: validating_def create_ok_def intro!: writes_mono [OF return_writes]
      simp del: ex_simps) (rule exI, auto)

lemma validating_is_validating: "validating_client (validating cl) ab"
  by unfold_locales
    (fact validating_create | simp add: validating_def get_ArtifactBuild_law get_ComponentBuild_law
      get_TaskRun_law get_PipelineRun_law get_ConfigMap_law get_RebuiltArtifact_law
      get_DependencyBuild_law list_ComponentBuild_law list_TaskRun_law list_PipelineRun_law
      create_ArtifactBuild_law create_TaskRun_law update_DependencyBuild_law update_status_law Eventf_law
      range_choice_law get_ArtifactBuild_honest get_ComponentBuild_honest get_TaskRun_honest
      get_PipelineRun_honest get_ConfigMap_honest get_RebuiltArtifact_honest get_DependencyBuild_honest
      list_ComponentBuild_honest list_TaskRun_honest list_PipelineRun_honest)+

end

interpretation validated: validating_client "validating fake_client" fake_cluster
  by (rule fake.validating_is_validating)

text \<open>Calls of the handler for the same component build, as the queue repeats them after an error.\<close>

definition handled_times :: "env \<Rightarrow> 's client \<Rightarrow> ComponentBuild \<Rightarrow> nat \<Rightarrow> 's \<Rightarrow> 's" where
  "handled_times env cl cb n = ((\<lambda>s. snd (run_state (handleComponentBuildReceived env cl cb) s)) ^^ n)"

context validating_client
begin

lemma handler_run:
  assumes "63 < length (obj_name cb)" "must_notify env (ab s) cb"
  shows "snd (fst (run_state (handleComponentBuildReceived env cl cb) s)) \<noteq> None"
    "only_new env (obj_ns cb) (ab s) (ab (snd (run_state (handleComponentBuildReceived env cl cb) s)))"
  using writes_run [OF handler_refused [of env cb], of s] assms by simp_all

lemma retried:
  assumes "63 < length (obj_name cb)" "must_notify env (ab s) cb"
  shows "only_new env (obj_ns cb) (ab s) (ab (handled_times env cl cb n s))"
proof (induction n)
  case (Suc n)
  let ?s = "handled_times env cl cb n s"
  have "must_notify env (ab ?s) cb" using Suc assms(2) must_notify_only_new by blast
  then have "only_new env (obj_ns cb) (ab ?s) (ab (handled_times env cl cb (Suc n) s))"
    using handler_run(2) assms(1) by (simp add: handled_times_def)
  with Suc show ?case by (rule only_new_trans)
qed (simp add: handled_times_def)

end

text \<open>
  C31. Where labels are validated, a component build whose name has more than 63 characters is never
  reported: once a notification is due, every call of the handler, however often it is repeated, returns
  an error, and no status is stored and no notification created.
\<close>

theorem long_name_never_reported:
  assumes "validating_client cl ab" "63 < length (obj_name cb)" "must_notify env (ab s) cb"
  shows "snd (fst (run_state (handleComponentBuildReceived env cl cb) (handled_times env cl cb n s))) \<noteq> None
    \<and> componentBuilds (ab (handled_times env cl cb n s)) = componentBuilds (ab s)
    \<and> pipelineRuns (ab (handled_times env cl cb n s)) = pipelineRuns (ab s)"
proof -
  let ?s = "handled_times env cl cb n s"
  note new = validating_client.retried [OF assms, of n]
  then have "must_notify env (ab ?s) cb" using assms(3) must_notify_only_new by blast
  then show ?thesis
    using validating_client.handler_run(1) [OF assms(1,2)] new by (simp add: only_new_frame)
qed

text \<open>A component build of a name that the API server admits, whose only artifact has failed.\<close>

definition long_build :: ComponentBuild where
  "long_build =
     (let cb = test_componentBuild ''https://test.com/pr/1'' [''com.test:test:1.0'']
      in cb\<lparr>metadata := (metadata cb)\<lparr>Name := replicate 64 CHR ''a'', ResourceVersion := ''1''\<rparr>\<rparr>)"

definition long_tracker :: tracker where
  "long_tracker = test_tracker\<lparr>componentBuildObjs := [(obj_key long_build, long_build)],
     artifactBuildObjs :=
       [(test_key ''com.test.test.1.0'',
         \<lparr>metadata = (meta_of ''com.test.test.1.0'')\<lparr>ResourceVersion := ''2''\<rparr>,
          GAV = ''com.test:test:1.0'', abState = ArtifactBuildStateFailed\<rparr>)]\<rparr>"

lemma long_due: "must_notify test_env (fake_cluster long_tracker) long_build"
proof -
  have "configured (fake_cluster long_tracker) (obj_ns long_build)" by code_simp
  moreover have "result_ready test_env (fake_cluster long_tracker) long_build" by code_simp
  moreover have "pipelineRuns (fake_cluster long_tracker) = Map.empty"
    by (simp add: long_tracker_def test_tracker_def)
  moreover have "PRURL (cbSpec long_build) \<noteq> ''''" by code_simp
  ultimately show ?thesis by (simp add: must_notify_def notify_due_def selected_def)
qed

theorem long_name_never_reported_witness:
  "IsDNS1123Subdomain (obj_name long_build)
   \<and> snd (fst (run_state (handleComponentBuildReceived test_env (validating fake_client) long_build)
        (handled_times test_env (validating fake_client) long_build 3 long_tracker))) \<noteq> None"
proof -
  have "63 < length (obj_name long_build)" by code_simp
  from long_name_never_reported [OF validated.validating_client_axioms this long_due, of 3]
  have "snd (fst (run_state (handleComponentBuildReceived test_env (validating fake_client) long_build)
      (handled_times test_env (validating fake_client) long_build 3 long_tracker))) \<noteq> None" by blast
  moreover have "IsDNS1123Subdomain (obj_name long_build)" by code_simp
  ultimately show ?thesis by blast
qed

end
