(* ===== verification/WorkQueue.thy ===== *)
theory WorkQueue
  imports Prelude
begin

text \<open>
  The work queue between the events and the workers of a controller: the vendored
  \<open>k8s.io/client-go/util/workqueue\<close>. \<open>queue.go\<close> has the queue itself, in which an item that is added while
  it is worked on waits until that is done; \<open>delaying_queue.go\<close> adds items after a time, through a channel
  and a priority queue; \<open>rate_limiting_queue.go\<close> and \<open>default_rate_limiters.go\<close> choose the time. An
  operation under the lock is one step, metrics are left out. Times are nanoseconds.
\<close>

section \<open>The queue\<close>

record 'k workqueue =
  wqQueue :: "'k list"
  wqDirty :: "'k set"
  wqProcessing :: "'k set"
  wqShuttingDown :: bool
  wqDrain :: bool

definition wq_New :: "'k workqueue" where
  "wq_New = \<lparr>wqQueue = [], wqDirty = {}, wqProcessing = {}, wqShuttingDown = False, wqDrain = False\<rparr>"

definition wq_Add :: "'k \<Rightarrow> 'k workqueue \<Rightarrow> 'k workqueue" where
  "wq_Add item q =
     (if wqShuttingDown q then q
      else if item \<in> wqDirty q then q
      else (let q1 = q\<lparr>wqDirty := insert item (wqDirty q)\<rparr> in
            if item \<in> wqProcessing q1 then q1 else q1\<lparr>wqQueue := wqQueue q1 @ [item]\<rparr>))"

definition wq_Len :: "'k workqueue \<Rightarrow> nat" where
  "wq_Len q = length (wqQueue q)"

text \<open>\<open>Get\<close> has no answer while it waits for an item.\<close>

definition wq_Get :: "'k workqueue \<Rightarrow> (('k option \<times> bool) \<times> 'k workqueue) option" where
  "wq_Get q =
     (case wqQueue q of
        [] \<Rightarrow> (if \<not> wqShuttingDown q then None else Some ((None, True), q))
      | item # rest \<Rightarrow>
          Some ((Some item, False),
            q\<lparr>wqQueue := rest, wqProcessing := insert item (wqProcessing q), wqDirty := wqDirty q - {item}\<rparr>))"

definition wq_Done :: "'k \<Rightarrow> 'k workqueue \<Rightarrow> 'k workqueue" where
  "wq_Done item q =
     (let q1 = q\<lparr>wqProcessing := wqProcessing q - {item}\<rparr> in
      if item \<in> wqDirty q1 then q1\<lparr>wqQueue := wqQueue q1 @ [item]\<rparr> else q1)"

definition wq_setDrain :: "bool \<Rightarrow> 'k workqueue \<Rightarrow> 'k workqueue" where
  "wq_setDrain shouldDrain q = q\<lparr>wqDrain := shouldDrain\<rparr>"

definition wq_shutdown :: "'k workqueue \<Rightarrow> 'k workqueue" where
  "wq_shutdown q = q\<lparr>wqShuttingDown := True\<rparr>"

definition wq_ShutDown :: "'k workqueue \<Rightarrow> 'k workqueue" where
  "wq_ShutDown q = wq_shutdown (wq_setDrain False q)"

text \<open>
  What the comments at the fields of \<open>Type\<close> say: the queue holds, once each, the items that are dirty and
  not worked on.
\<close>

definition queue_ok :: "'k workqueue \<Rightarrow> bool" where
  "queue_ok q \<longleftrightarrow> distinct (wqQueue q) \<and> set (wqQueue q) = wqDirty q - wqProcessing q"

lemma wq_New_ok [simp]: "queue_ok wq_New"
  by (simp add: queue_ok_def wq_New_def)

lemma wq_Add_ok: "queue_ok q \<Longrightarrow> queue_ok (wq_Add item q)"
  by (auto simp: queue_ok_def wq_Add_def Let_def)

lemma wq_Add_fields [simp]:
  "wqProcessing (wq_Add item q) = wqProcessing q"
  "wqShuttingDown (wq_Add item q) = wqShuttingDown q"
  "wqDirty (wq_Add item q) = (if wqShuttingDown q then wqDirty q else insert item (wqDirty q))"
  by (auto simp: wq_Add_def Let_def)

lemma wq_Add_appends: "\<exists>zs. wqQueue (wq_Add item q) = wqQueue q @ zs"
  by (auto simp: wq_Add_def Let_def)

lemma wq_Get_item:
  assumes "wq_Get q = Some ((Some item, shutdown), q')"
  shows "wqQueue q = item # wqQueue q'" "wqProcessing q' = insert item (wqProcessing q)"
    "wqDirty q' = wqDirty q - {item}" "wqShuttingDown q' = wqShuttingDown q"
  using assms by (auto simp: wq_Get_def split: list.splits if_splits)

lemma wq_Get_ok:
  assumes "queue_ok q" "wq_Get q = Some ((Some item, shutdown), q')"
  shows "queue_ok q'" "item \<notin> wqProcessing q"
  using assms(1) unfolding queue_ok_def wq_Get_item [OF assms(2)] by auto

lemma wq_Done_ok: "queue_ok q \<Longrightarrow> item \<in> wqProcessing q \<Longrightarrow> queue_ok (wq_Done item q)"
  by (auto simp: queue_ok_def wq_Done_def Let_def)

lemma wq_Done_fields [simp]:
  "wqProcessing (wq_Done item q) = wqProcessing q - {item}"
  "wqShuttingDown (wq_Done item q) = wqShuttingDown q"
  "wqDirty (wq_Done item q) = wqDirty q"
  by (auto simp: wq_Done_def Let_def)

lemma wq_Done_appends: "\<exists>zs. wqQueue (wq_Done item q) = wqQueue q @ zs"
  by (auto simp: wq_Done_def Let_def)

section \<open>Adding later\<close>

record 'k waitFor =
  wfData :: 'k
  wfReadyAt :: int

text \<open>
  The channel of entries that wait to be added, and the entries the waiting loop has taken from it, in the
  order of their times. (The heap of the source leaves the order of equal times open.)
\<close>

record 'k delayingType =
  dtQueue :: "'k workqueue"
  dtWaitingForAdd :: "'k waitFor list"
  dtWaitingFor :: "'k waitFor list"

definition waitingForAddCapacity :: nat where
  "waitingForAddCapacity = 1000"

definition delayed_Add :: "'k \<Rightarrow> ('k, 'm) delayingType_scheme \<Rightarrow> ('k, 'm) delayingType_scheme" where
  "delayed_Add item q = q\<lparr>dtQueue := wq_Add item (dtQueue q)\<rparr>"

text \<open>\<open>AddAfter\<close> at the time \<open>now\<close>; it waits while the channel is full.\<close>

definition AddAfter ::
  "int \<Rightarrow> 'k \<Rightarrow> int \<Rightarrow> ('k, 'm) delayingType_scheme \<Rightarrow> ('k, 'm) delayingType_scheme option" where
  "AddAfter now item duration q =
     (if wqShuttingDown (dtQueue q) then Some q
      else if duration \<le> 0 then Some (delayed_Add item q)
      else if length (dtWaitingForAdd q) < waitingForAddCapacity
      then Some (q\<lparr>dtWaitingForAdd :=
             dtWaitingForAdd q @ [\<lparr>wfData = item, wfReadyAt = now + duration\<rparr>]\<rparr>)
      else None)"

text \<open>\<open>insert\<close> keeps one entry for an item, with the earlier time.\<close>

definition wait_insert :: "'k waitFor \<Rightarrow> 'k waitFor list \<Rightarrow> 'k waitFor list" where
  "wait_insert entry es =
     (case List.find (\<lambda>e. wfData e = wfData entry) es of
        Some existing \<Rightarrow>
          (if wfReadyAt existing > wfReadyAt entry
           then insort_key wfReadyAt (existing\<lparr>wfReadyAt := wfReadyAt entry\<rparr>) (remove1 existing es)
           else es)
      | None \<Rightarrow> insort_key wfReadyAt entry es)"

fun addReady :: "int \<Rightarrow> 'k waitFor list \<Rightarrow> 'k workqueue \<Rightarrow> 'k waitFor list \<times> 'k workqueue" where
  "addReady now [] q = ([], q)"
| "addReady now (entry # es) q =
     (if wfReadyAt entry > now then (entry # es, q) else addReady now es (wq_Add (wfData entry) q))"

text \<open>
  The two things a turn of \<open>waitingLoop\<close> does at the time \<open>now\<close>: add the entries that are ready, and take
  an entry from the channel.
\<close>

definition waiting_ready :: "int \<Rightarrow> ('k, 'm) delayingType_scheme \<Rightarrow> ('k, 'm) delayingType_scheme" where
  "waiting_ready now q =
     (if wqShuttingDown (dtQueue q) then q
      else case addReady now (dtWaitingFor q) (dtQueue q) of (es, wq) \<Rightarrow>
             q\<lparr>dtWaitingFor := es, dtQueue := wq\<rparr>)"

definition waiting_receive ::
  "int \<Rightarrow> ('k, 'm) delayingType_scheme \<Rightarrow> ('k, 'm) delayingType_scheme option" where
  "waiting_receive now q =
     (case dtWaitingForAdd q of
        [] \<Rightarrow> None
      | waitEntry # rest \<Rightarrow>
          Some (let q1 = q\<lparr>dtWaitingForAdd := rest\<rparr> in
                if wfReadyAt waitEntry > now
                then q1\<lparr>dtWaitingFor := wait_insert waitEntry (dtWaitingFor q1)\<rparr>
                else delayed_Add (wfData waitEntry) q1))"

definition waits :: "('k, 'm) delayingType_scheme \<Rightarrow> 'k set" where
  "waits q = wfData ` set (dtWaitingForAdd q) \<union> wfData ` set (dtWaitingFor q)"

text \<open>The items that will be worked on without a further event.\<close>

definition pending :: "('k, 'm) delayingType_scheme \<Rightarrow> 'k set" where
  "pending q = wqDirty (dtQueue q) \<union> waits q"

lemma wait_insert_data: "wfData ` set (wait_insert entry es) = insert (wfData entry) (wfData ` set es)"
proof (cases "List.find (\<lambda>e. wfData e = wfData entry) es")
  case None
  then show ?thesis by (simp add: wait_insert_def set_insort_key)
next
  case (Some e)
  then have e: "e \<in> set es" "wfData e = wfData entry" by (auto simp: find_Some_iff)
  have "insert e (set (remove1 e es)) = set es"
    using e(1) set_remove1_subset [of e es] in_set_remove1 [of _ e es] by blast
  then have "insert (wfData e) (wfData ` set (remove1 e es)) = wfData ` set es"
    by (metis image_insert)
  with Some e show ?thesis by (auto simp: wait_insert_def set_insort_key)
qed

lemma addReady_facts:
  assumes "addReady now es q = (es', q')"
  shows "queue_ok q \<Longrightarrow> queue_ok q'" "wqProcessing q' = wqProcessing q"
    "wqShuttingDown q' = wqShuttingDown q" "\<exists>zs. wqQueue q' = wqQueue q @ zs" "wqDirty q \<subseteq> wqDirty q'"
    "\<not> wqShuttingDown q \<Longrightarrow> wqDirty q' \<union> wfData ` set es' = wqDirty q \<union> wfData ` set es"
proof -
  show "queue_ok q \<Longrightarrow> queue_ok q'"
    using assms by (induction now es q rule: addReady.induct) (auto split: if_splits intro: wq_Add_ok)
  show "wqProcessing q' = wqProcessing q" "wqShuttingDown q' = wqShuttingDown q" "wqDirty q \<subseteq> wqDirty q'"
    using assms by (induction now es q rule: addReady.induct) (auto split: if_splits)
  show "\<exists>zs. wqQueue q' = wqQueue q @ zs"
    using assms
  proof (induction now es q rule: addReady.induct)
    case (2 now entry es q)
    then show ?case using wq_Add_appends [of "wfData entry" q] by (fastforce split: if_splits)
  qed simp
  show "\<not> wqShuttingDown q \<Longrightarrow> wqDirty q' \<union> wfData ` set es' = wqDirty q \<union> wfData ` set es"
    using assms by (induction now es q rule: addReady.induct) (auto split: if_splits)
qed

section \<open>The time of a retry\<close>

text \<open>
  \<open>ItemExponentialFailureRateLimiter\<close>. The product is a floating point number in the source; it is exact
  there for a base below \<open>2 ^ 53\<close>, or too large for the type of durations.
\<close>

definition item_When :: "int \<Rightarrow> int \<Rightarrow> ('k \<Rightarrow> nat) \<Rightarrow> 'k \<Rightarrow> int \<times> ('k \<Rightarrow> nat)" where
  "item_When baseDelay maxDelay failures item =
     (let exp = failures item;
          failures' = failures(item := failures item + 1);
          backoff = baseDelay * 2 ^ exp
      in if backoff > 2 ^ 63 - 1 then (maxDelay, failures')
         else if backoff > maxDelay then (maxDelay, failures')
         else (backoff, failures'))"

fun maxOf :: "int \<Rightarrow> int list \<Rightarrow> int" where
  "maxOf ret [] = ret"
| "maxOf ret (current # limits) = maxOf (if current > ret then current else ret) limits"

record 'k rateLimitingType = "'k delayingType" +
  rlFailures :: "'k \<Rightarrow> nat"

text \<open>
  \<open>DefaultControllerRateLimiter\<close>: from 5 milliseconds to 1000 seconds for an item, and a token bucket over
  all items, whose answer is the argument \<open>bucket\<close>.
\<close>

definition controller_When :: "int \<Rightarrow> ('k \<Rightarrow> nat) \<Rightarrow> 'k \<Rightarrow> int \<times> ('k \<Rightarrow> nat)" where
  "controller_When bucket failures item =
     (case item_When (5 * 10 ^ 6) (1000 * 10 ^ 9) failures item of (delay, failures') \<Rightarrow>
        (maxOf 0 [delay, bucket], failures'))"

definition AddRateLimited ::
  "int \<Rightarrow> int \<Rightarrow> 'k \<Rightarrow> 'k rateLimitingType \<Rightarrow> 'k rateLimitingType option" where
  "AddRateLimited bucket now item q =
     (case controller_When bucket (rlFailures q) item of (duration, failures') \<Rightarrow>
        AddAfter now item duration (q\<lparr>rlFailures := failures'\<rparr>))"

definition Forget :: "'k \<Rightarrow> 'k rateLimitingType \<Rightarrow> 'k rateLimitingType" where
  "Forget item q = q\<lparr>rlFailures := (rlFailures q)(item := 0)\<rparr>"

definition rate_limiting_New :: "'k rateLimitingType" where
  "rate_limiting_New =
     \<lparr>dtQueue = wq_New, dtWaitingForAdd = [], dtWaitingFor = [], rlFailures = (\<lambda>_. 0)\<rparr>"

lemma item_When_min:
  assumes "0 \<le> baseDelay" "maxDelay < 2 ^ 63"
  shows "fst (item_When baseDelay maxDelay failures item) = min maxDelay (baseDelay * 2 ^ failures item)"
  using assms by (auto simp: item_When_def Let_def min_def)

lemma maxOf_two: "0 \<le> d \<Longrightarrow> maxOf 0 [d, bucket] = max d (max 0 bucket)" for d :: int
  by (auto simp: max_def)

lemma retry_delay:
  "fst (controller_When bucket failures item)
     = max (min (1000 * 10 ^ 9) (5 * 10 ^ 6 * 2 ^ failures item)) (max 0 bucket)"
proof -
  define d :: int where "d = fst (item_When (5 * 10 ^ 6) (1000 * 10 ^ 9) failures item)"
  have d: "d = min (1000 * 10 ^ 9) (5 * 10 ^ 6 * 2 ^ failures item)"
    unfolding d_def by (rule item_When_min) simp_all
  then have "0 \<le> d" by simp
  then have "fst (controller_When bucket failures item) = max d (max 0 bucket)"
    by (simp only: controller_When_def case_prod_beta fst_conv d_def [symmetric] maxOf_two)
  then show ?thesis by (simp only: d)
qed

end
