(* ===== verification/ControllerLoop.thy ===== *)
theory ControllerLoop
  imports SystemSpec WorkQueue
begin

text \<open>
  How \<open>Reconcile\<close> gets to be called: the controller that \<open>SetupNewReconcilerWithManager\<close>
  (\<open>pkg/reconciler/componentbuild/controller.go\<close>) builds. The vendored controller-runtime turns an event of
  a watched object into requests (\<open>pkg/handler\<close>), which its workers take from the work queue
  (\<open>pkg/internal/controller/controller.go\<close>). A state holds the queue, the requests being worked on, and for
  the statements the starts so far and the requests that are owed a call: those with an event, or with a
  call that is to be repeated, since their last call began. Steps of the workers, of the waiting loop of the
  queue, of the events and of the rest of the world interleave. At most as many
  calls are under way as there are workers, and a call of \<open>Reconcile\<close> takes effect when it ends: what two
  calls that overlap do to each other is not in the model.
\<close>

section \<open>Operations\<close>

text \<open>\<open>NewUnmanaged\<close> of \<open>pkg/controller/controller.go\<close>; the program leaves the option at zero.\<close>

definition maxConcurrentReconciles :: "int \<Rightarrow> nat" where
  "maxConcurrentReconciles option = (if option \<le> 0 then 1 else nat option)"

text \<open>
  The requests of an event enter the queue once each. For an update the source does this for the old and
  for the new object, whose requests are the same; for the component builds themselves the handler of
  \<open>enqueue.go\<close> adds the one request. (A request there also has the name of a logical cluster, which is empty
  outside kcp.)
\<close>

fun mapAndEnqueue ::
  "'k list \<Rightarrow> 'k list \<Rightarrow> ('k, 'm) delayingType_scheme \<Rightarrow> ('k, 'm) delayingType_scheme" where
  "mapAndEnqueue [] reqs q = q"
| "mapAndEnqueue (req # rest) reqs q =
     (if req \<notin> set reqs then mapAndEnqueue rest (req # reqs) (delayed_Add req q)
      else mapAndEnqueue rest reqs q)"

definition enqueue_event :: "watched \<Rightarrow> NamespacedName rateLimitingType \<Rightarrow> NamespacedName rateLimitingType" where
  "enqueue_event x q = mapAndEnqueue (requestsFor x) [] q"

text \<open>\<open>reconcileHandler\<close> from the answer of \<open>Reconcile\<close> on, then the deferred \<open>Done\<close>.\<close>

definition reconcileHandler ::
  "int \<Rightarrow> int \<Rightarrow> 'k \<Rightarrow> Result \<times> api_error option \<Rightarrow> 'k rateLimitingType \<Rightarrow> 'k rateLimitingType option" where
  "reconcileHandler bucket now req res q =
     (let (result, err) = res in
      if err \<noteq> None then AddRateLimited bucket now req q
      else if RequeueAfter result > 0 then AddAfter now req (RequeueAfter result) (Forget req q)
      else if Requeue result then AddRateLimited bucket now req q
      else Some (Forget req q))"

definition finishWorkItem ::
  "int \<Rightarrow> int \<Rightarrow> 'k \<Rightarrow> Result \<times> api_error option \<Rightarrow> 'k rateLimitingType \<Rightarrow> 'k rateLimitingType option" where
  "finishWorkItem bucket now req res q =
     map_option (\<lambda>q'. q'\<lparr>dtQueue := wq_Done req (dtQueue q')\<rparr>) (reconcileHandler bucket now req res q)"

text \<open>A call that is to be repeated.\<close>

definition again :: "Result \<times> api_error option \<Rightarrow> bool" where
  "again res \<longleftrightarrow> snd res \<noteq> None \<or> RequeueAfter (fst res) > 0 \<or> Requeue (fst res)"

section \<open>States and steps\<close>

record 's control =
  ctApi :: 's
  ctQueue :: "NamespacedName rateLimitingType"
  ctBusy :: "NamespacedName list"
  ctStarts :: "NamespacedName list"
  ctOwed :: "NamespacedName set"

definition control_start :: "'s \<Rightarrow> 's control" where
  "control_start s =
     \<lparr>ctApi = s, ctQueue = rate_limiting_New, ctBusy = [], ctStarts = [], ctOwed = {}\<rparr>"

text \<open>
  The controller's own steps, with \<open>n\<close> workers: one begins with the first request of the queue, one ends
  its call, the waiting loop takes an entry from its channel or adds the entries that are ready.
\<close>

inductive own_step :: "env \<Rightarrow> 's client \<Rightarrow> nat \<Rightarrow> 's control \<Rightarrow> 's control \<Rightarrow> bool" for env cl n where
  begins: "length (ctBusy \<sigma>) < n \<Longrightarrow> wq_Get (dtQueue (ctQueue \<sigma>)) = Some ((Some req, False), wq) \<Longrightarrow>
    own_step env cl n \<sigma>
      (\<sigma>\<lparr>ctQueue := (ctQueue \<sigma>)\<lparr>dtQueue := wq\<rparr>, ctBusy := ctBusy \<sigma> @ [req],
         ctStarts := ctStarts \<sigma> @ [req], ctOwed := ctOwed \<sigma> - {req}\<rparr>)"
| ends: "req \<in> set (ctBusy \<sigma>) \<Longrightarrow> run_state (Reconcile env cl req) (ctApi \<sigma>) = (res, s) \<Longrightarrow>
    finishWorkItem bucket now req res (ctQueue \<sigma>) = Some q \<Longrightarrow>
    own_step env cl n \<sigma>
      (\<sigma>\<lparr>ctApi := s, ctQueue := q, ctBusy := remove1 req (ctBusy \<sigma>),
         ctOwed := (if again res then insert req (ctOwed \<sigma>) else ctOwed \<sigma>)\<rparr>)"
| receives: "waiting_receive now (ctQueue \<sigma>) = Some q \<Longrightarrow> own_step env cl n \<sigma> (\<sigma>\<lparr>ctQueue := q\<rparr>)"
| adds_ready: "own_step env cl n \<sigma> (\<sigma>\<lparr>ctQueue := waiting_ready now (ctQueue \<sigma>)\<rparr>)"

text \<open>The others: an event, a change of the world, the end of the program.\<close>

inductive control_step ::
  "env \<Rightarrow> 's client \<Rightarrow> ('s \<Rightarrow> 's \<Rightarrow> bool) \<Rightarrow> nat \<Rightarrow> 's control \<Rightarrow> 's control \<Rightarrow> bool"
  for env cl world n where
  own: "own_step env cl n \<sigma> \<sigma>' \<Longrightarrow> control_step env cl world n \<sigma> \<sigma>'"
| event: "control_step env cl world n \<sigma>
    (\<sigma>\<lparr>ctQueue := enqueue_event x (ctQueue \<sigma>), ctOwed := ctOwed \<sigma> \<union> set (requestsFor x)\<rparr>)"
| others: "world (ctApi \<sigma>) s \<Longrightarrow> control_step env cl world n \<sigma> (\<sigma>\<lparr>ctApi := s\<rparr>)"
| shutdown: "control_step env cl world n \<sigma>
    (\<sigma>\<lparr>ctQueue := (ctQueue \<sigma>)\<lparr>dtQueue := wq_ShutDown (dtQueue (ctQueue \<sigma>))\<rparr>\<rparr>)"

abbreviation control_runs ::
  "env \<Rightarrow> 's client \<Rightarrow> ('s \<Rightarrow> 's \<Rightarrow> bool) \<Rightarrow> nat \<Rightarrow> 's control \<Rightarrow> 's control \<Rightarrow> bool" where
  "control_runs env cl world n \<equiv> (control_step env cl world n)\<^sup>*\<^sup>*"

abbreviation work :: "'s control \<Rightarrow> NamespacedName workqueue" where
  "work \<sigma> \<equiv> dtQueue (ctQueue \<sigma>)"

section \<open>What the operations do to the queue\<close>

text \<open>
  An operation that may only add: the invariant holds on, what is worked on stays, the queue grows at its
  end, and while the queue is open exactly the items \<open>K\<close> become pending.
\<close>

definition enqueues ::
  "'k set \<Rightarrow> ('k, 'm) delayingType_scheme \<Rightarrow> ('k, 'm) delayingType_scheme \<Rightarrow> bool" where
  "enqueues K q q' \<longleftrightarrow>
     (queue_ok (dtQueue q) \<longrightarrow> queue_ok (dtQueue q'))
     \<and> wqProcessing (dtQueue q') = wqProcessing (dtQueue q)
     \<and> wqShuttingDown (dtQueue q') = wqShuttingDown (dtQueue q)
     \<and> (\<exists>zs. wqQueue (dtQueue q') = wqQueue (dtQueue q) @ zs)
     \<and> wqDirty (dtQueue q) \<subseteq> wqDirty (dtQueue q')
     \<and> (\<not> wqShuttingDown (dtQueue q) \<longrightarrow> pending q' = pending q \<union> K)"

lemma enqueues_refl: "enqueues {} q q"
  by (simp add: enqueues_def)

lemma enqueues_trans: "enqueues K q q' \<Longrightarrow> enqueues L q' q'' \<Longrightarrow> enqueues (K \<union> L) q q''"
  by (fastforce simp: enqueues_def)

lemma delayed_Add_enqueues: "enqueues {item} q (delayed_Add item q)"
  using wq_Add_appends [of item "dtQueue q"]
  by (auto simp: enqueues_def delayed_Add_def pending_def waits_def intro: wq_Add_ok)

lemma AddAfter_enqueues: "AddAfter now item duration q = Some q' \<Longrightarrow> enqueues {item} q q'"
  using delayed_Add_enqueues [of item q]
  by (auto simp: AddAfter_def enqueues_def pending_def waits_def split: if_splits)

lemma Forget_enqueues: "enqueues {} q (Forget item q)"
  by (simp add: enqueues_def Forget_def pending_def waits_def)

lemma AddRateLimited_enqueues: "AddRateLimited bucket now item q = Some q' \<Longrightarrow> enqueues {item} q q'"
  by (auto simp: AddRateLimited_def split: prod.splits dest!: AddAfter_enqueues)
    (simp add: enqueues_def pending_def waits_def)

lemma reconcileHandler_enqueues:
  assumes "reconcileHandler bucket now req res q = Some q'"
  shows "enqueues (if again res then {req} else {}) q q'"
proof (cases res)
  case (Pair result err)
  have "AddAfter now req d (Forget req q) = Some q' \<Longrightarrow> enqueues {req} q q'" for d
    using enqueues_trans [OF Forget_enqueues AddAfter_enqueues] by fastforce
  with assms Pair show ?thesis
    by (auto simp: reconcileHandler_def again_def Forget_enqueues split: if_splits
        intro: AddRateLimited_enqueues)
qed

lemma mapAndEnqueue_enqueues:
  "\<exists>K. set rest - set reqs \<subseteq> K \<and> K \<subseteq> set rest \<and> enqueues K q (mapAndEnqueue rest reqs q)"
proof (induction rest reqs q rule: mapAndEnqueue.induct)
  case (1 reqs q)
  then show ?case using enqueues_refl by auto
next
  case (2 req rest reqs q)
  show ?case
  proof (cases "req \<in> set reqs")
    case True
    with 2 obtain K where "set rest - set reqs \<subseteq> K" "K \<subseteq> set rest" "enqueues K q (mapAndEnqueue rest reqs q)"
      by auto
    with True show ?thesis by (intro exI [of _ K]) auto
  next
    case False
    with 2 obtain K where "set rest - set (req # reqs) \<subseteq> K" "K \<subseteq> set rest"
      "enqueues K (delayed_Add req q) (mapAndEnqueue rest (req # reqs) (delayed_Add req q))" by auto
    with False enqueues_trans [OF delayed_Add_enqueues] show ?thesis
      by (intro exI [of _ "{req} \<union> K"]) auto
  qed
qed

lemma enqueue_event_enqueues: "enqueues (set (requestsFor x)) q (enqueue_event x q)"
proof -
  obtain K where K: "set (requestsFor x) \<subseteq> K" "K \<subseteq> set (requestsFor x)"
    "enqueues K q (mapAndEnqueue (requestsFor x) [] q)"
    using mapAndEnqueue_enqueues [of "requestsFor x" "[]" q] by auto
  then have "K = set (requestsFor x)" by (intro subset_antisym)
  with K(3) show ?thesis by (simp add: enqueue_event_def)
qed

lemma waiting_receive_enqueues:
  assumes "waiting_receive now q = Some q'" shows "enqueues {} q q'"
proof -
  obtain e es where e: "dtWaitingForAdd q = e # es"
    using assms by (cases "dtWaitingForAdd q") (auto simp: waiting_receive_def)
  let ?q = "q\<lparr>dtWaitingForAdd := es\<rparr>"
  show ?thesis
  proof (cases "wfReadyAt e > now")
    case True
    with assms e have q': "q' = ?q\<lparr>dtWaitingFor := wait_insert e (dtWaitingFor q)\<rparr>"
      by (simp add: waiting_receive_def)
    have "pending q' = pending q" unfolding q' pending_def waits_def using e by (simp add: wait_insert_data)
    with q' show ?thesis by (simp add: enqueues_def)
  next
    case False
    with assms e have "q' = delayed_Add (wfData e) ?q" by (simp add: waiting_receive_def)
    with delayed_Add_enqueues [of "wfData e" ?q] e show ?thesis
      by (auto simp: enqueues_def pending_def waits_def)
  qed
qed

lemma waiting_ready_enqueues: "enqueues {} q (waiting_ready now q)"
proof -
  obtain es wq where r: "addReady now (dtWaitingFor q) (dtQueue q) = (es, wq)" by fastforce
  show ?thesis
    using addReady_facts [OF r] r
    by (auto simp: waiting_ready_def enqueues_def pending_def waits_def)
qed


text \<open>The end of a call.\<close>

lemma finishWorkItem_queue:
  assumes "finishWorkItem bucket now req res q = Some q'"
  shows "queue_ok (dtQueue q) \<Longrightarrow> req \<in> wqProcessing (dtQueue q) \<Longrightarrow> queue_ok (dtQueue q')"
    "wqProcessing (dtQueue q') = wqProcessing (dtQueue q) - {req}"
    "wqShuttingDown (dtQueue q') = wqShuttingDown (dtQueue q)"
    "\<exists>zs. wqQueue (dtQueue q') = wqQueue (dtQueue q) @ zs" "wqDirty (dtQueue q) \<subseteq> wqDirty (dtQueue q')"
    "\<not> wqShuttingDown (dtQueue q) \<Longrightarrow> pending q' = pending q \<union> (if again res then {req} else {})"
proof -
  obtain q1 where q1: "reconcileHandler bucket now req res q = Some q1"
    and q': "q' = q1\<lparr>dtQueue := wq_Done req (dtQueue q1)\<rparr>"
    using assms by (auto simp: finishWorkItem_def)
  note e = reconcileHandler_enqueues [OF q1, unfolded enqueues_def]
  show "queue_ok (dtQueue q) \<Longrightarrow> req \<in> wqProcessing (dtQueue q) \<Longrightarrow> queue_ok (dtQueue q')"
    using e by (simp add: q' wq_Done_ok)
  show "wqProcessing (dtQueue q') = wqProcessing (dtQueue q) - {req}"
    "wqShuttingDown (dtQueue q') = wqShuttingDown (dtQueue q)" "wqDirty (dtQueue q) \<subseteq> wqDirty (dtQueue q')"
    using e by (simp_all add: q')
  show "\<exists>zs. wqQueue (dtQueue q') = wqQueue (dtQueue q) @ zs"
    using e wq_Done_appends [of req "dtQueue q1"] by (auto simp: q')
  have "pending q' = pending q1" by (simp add: q' pending_def waits_def)
  then show "\<not> wqShuttingDown (dtQueue q) \<Longrightarrow> pending q' = pending q \<union> (if again res then {req} else {})"
    using e by simp
qed

text \<open>
  When the channel has room, a call can end; and the waiting loop can make room.
\<close>

lemma finishWorkItem_room:
  assumes "length (dtWaitingForAdd q) < waitingForAddCapacity"
  shows "\<exists>q'. finishWorkItem bucket now req res q = Some q'"
proof -
  have "reconcileHandler bucket now req res q \<noteq> None"
    using assms by (auto simp: reconcileHandler_def AddRateLimited_def AddAfter_def Forget_def split: prod.splits)
  then show ?thesis by (auto simp: finishWorkItem_def)
qed

section \<open>Invariants\<close>

definition control_ok :: "nat \<Rightarrow> 's control \<Rightarrow> bool" where
  "control_ok n \<sigma> \<longleftrightarrow> queue_ok (work \<sigma>)
     \<and> distinct (ctBusy \<sigma>) \<and> set (ctBusy \<sigma>) = wqProcessing (work \<sigma>) \<and> length (ctBusy \<sigma>) \<le> n
     \<and> (\<not> wqShuttingDown (work \<sigma>) \<longrightarrow> ctOwed \<sigma> \<subseteq> pending (ctQueue \<sigma>))"

text \<open>The requests begun so far and then those in the queue, which only ever grows at its end.\<close>

definition line :: "'s control \<Rightarrow> NamespacedName list" where
  "line \<sigma> = ctStarts \<sigma> @ wqQueue (work \<sigma>)"

lemma control_start_ok: "control_ok n (control_start s)"
  by (simp add: control_ok_def control_start_def rate_limiting_New_def wq_New_def queue_ok_def)

lemma enqueues_ok:
  assumes "control_ok n \<sigma>" "enqueues K (ctQueue \<sigma>) q"
  shows "control_ok n (\<sigma>\<lparr>ctQueue := q, ctOwed := ctOwed \<sigma> \<union> K\<rparr>)"
    "control_ok n (\<sigma>\<lparr>ctQueue := q\<rparr>)" "\<exists>zs. line (\<sigma>\<lparr>ctQueue := q\<rparr>) = line \<sigma> @ zs"
  using assms by (auto simp: control_ok_def enqueues_def line_def)

lemma own_step_ok:
  assumes "own_step env cl n \<sigma> \<sigma>'" "control_ok n \<sigma>"
  shows "control_ok n \<sigma>' \<and> (\<exists>zs. line \<sigma>' = line \<sigma> @ zs) \<and> wqShuttingDown (work \<sigma>') = wqShuttingDown (work \<sigma>)"
  using assms(1)
proof cases
  case (begins req wq)
  have ok: "queue_ok (work \<sigma>)" using assms(2) by (simp add: control_ok_def)
  note item = wq_Get_item [OF begins(3)] and get = wq_Get_ok [OF ok begins(3)]
  have "ctOwed \<sigma> - {req} \<subseteq> pending ((ctQueue \<sigma>)\<lparr>dtQueue := wq\<rparr>)" if "\<not> wqShuttingDown (work \<sigma>)"
    using assms(2) that by (auto simp: control_ok_def pending_def waits_def item)
  with begins assms(2) item get show ?thesis by (auto simp: control_ok_def line_def)
next
  case (ends req res s bucket now q)
  note q = finishWorkItem_queue [OF ends(4)]
  have "req \<in> wqProcessing (work \<sigma>)" using assms(2) ends(2) by (simp add: control_ok_def)
  then show ?thesis
    using ends assms(2) q by (auto simp: control_ok_def line_def length_remove1 set_remove1_eq)
next
  case (receives now q)
  with waiting_receive_enqueues enqueues_ok [OF assms(2)] show ?thesis
    by (metis (no_types, lifting) control.select_convs(2) control.surjective control.update_convs(2) enqueues_def)
next
  case (adds_ready now)
  with waiting_ready_enqueues enqueues_ok [OF assms(2)] show ?thesis
    by (metis (no_types, lifting) control.select_convs(2) control.surjective control.update_convs(2) enqueues_def)
qed


lemma control_step_ok:
  assumes "control_step env cl world n \<sigma> \<sigma>'" "control_ok n \<sigma>"
  shows "control_ok n \<sigma>' \<and> (\<exists>zs. line \<sigma>' = line \<sigma> @ zs)"
  using assms(1)
proof cases
  case own
  then show ?thesis using own_step_ok assms(2) by blast
next
  case (event x)
  note e = enqueues_ok [OF assms(2) enqueue_event_enqueues [of x]]
  with event show ?thesis by (simp add: line_def)
next
  case (others s)
  with assms(2) show ?thesis by (simp add: control_ok_def line_def)
next
  case shutdown
  with assms(2) show ?thesis
    by (simp add: control_ok_def line_def queue_ok_def wq_ShutDown_def wq_shutdown_def wq_setDrain_def)
qed

lemma control_runs_ok:
  assumes "control_runs env cl world n \<sigma> \<sigma>'" "control_ok n \<sigma>"
  shows "control_ok n \<sigma>' \<and> (\<exists>zs. line \<sigma>' = line \<sigma> @ zs)"
  using assms(1)
proof (induction rule: rtranclp_induct)
  case base
  then show ?case using assms(2) by simp
next
  case (step \<sigma>' \<sigma>'')
  then obtain zs where "line \<sigma>' = line \<sigma> @ zs" by blast
  with step control_step_ok [OF step(2)] show ?case by auto
qed

lemma control_reached_ok: "control_runs env cl world n (control_start s) \<sigma> \<Longrightarrow> control_ok n \<sigma>"
  by (rule control_runs_ok [OF _ control_start_ok, THEN conjunct1])

lemma own_steps_ok:
  assumes "(own_step env cl n)\<^sup>*\<^sup>* \<sigma> \<sigma>'" "control_ok n \<sigma>"
  shows "control_ok n \<sigma>' \<and> wqShuttingDown (work \<sigma>') = wqShuttingDown (work \<sigma>)"
  using assms(1)
proof (induction rule: rtranclp_induct)
  case (step \<sigma>' \<sigma>'')
  then show ?case using own_step_ok [OF step(2)] by simp
qed (use assms(2) in simp)

section \<open>The controller can always go on\<close>

text \<open>The waiting loop empties its channel.\<close>

lemma channel_empties:
  "\<exists>q. (own_step env cl n)\<^sup>*\<^sup>* \<sigma> (\<sigma>\<lparr>ctQueue := q\<rparr>) \<and> dtWaitingForAdd q = [] \<and> enqueues {} (ctQueue \<sigma>) q"
proof (induction "length (dtWaitingForAdd (ctQueue \<sigma>))" arbitrary: \<sigma>)
  case 0
  then show ?case using enqueues_refl by (intro exI [of _ "ctQueue \<sigma>"]) simp
next
  case (Suc m)
  then obtain e es where e: "dtWaitingForAdd (ctQueue \<sigma>) = e # es" by (cases "dtWaitingForAdd (ctQueue \<sigma>)") auto
  then obtain q where q: "waiting_receive 0 (ctQueue \<sigma>) = Some q" "dtWaitingForAdd q = es"
    by (auto simp: waiting_receive_def delayed_Add_def Let_def)
  let ?\<sigma> = "\<sigma>\<lparr>ctQueue := q\<rparr>"
  have "m = length (dtWaitingForAdd (ctQueue ?\<sigma>))" using Suc(2) e q(2) by simp
  from Suc(1) [OF this] obtain q' where q': "(own_step env cl n)\<^sup>*\<^sup>* ?\<sigma> (?\<sigma>\<lparr>ctQueue := q'\<rparr>)"
    "dtWaitingForAdd q' = []" "enqueues {} (ctQueue ?\<sigma>) q'" by blast
  have "own_step env cl n \<sigma> ?\<sigma>" using own_step.receives q(1) .
  then have "(own_step env cl n)\<^sup>*\<^sup>* \<sigma> (\<sigma>\<lparr>ctQueue := q'\<rparr>)" using q'(1) by (simp add: converse_rtranclp_into_rtranclp)
  moreover have "enqueues {} (ctQueue \<sigma>) q'"
    using enqueues_trans [OF waiting_receive_enqueues [OF q(1)]] q'(3) by fastforce
  ultimately show ?case using q'(2) by blast
qed

text \<open>A worker comes to its end.\<close>

lemma worker_ends:
  assumes "req \<in> set (ctBusy \<sigma>)" "control_ok n \<sigma>"
  shows "\<exists>\<sigma>'. (own_step env cl n)\<^sup>*\<^sup>* \<sigma> \<sigma>' \<and> ctBusy \<sigma>' = remove1 req (ctBusy \<sigma>)
    \<and> (\<exists>zs. wqQueue (work \<sigma>') = wqQueue (work \<sigma>) @ zs)
    \<and> wqDirty (work \<sigma>) \<subseteq> wqDirty (work \<sigma>')"
proof -
  obtain q where q: "(own_step env cl n)\<^sup>*\<^sup>* \<sigma> (\<sigma>\<lparr>ctQueue := q\<rparr>)" "dtWaitingForAdd q = []"
    "enqueues {} (ctQueue \<sigma>) q" using channel_empties by blast
  obtain res s where run: "run_state (Reconcile env cl req) (ctApi \<sigma>) = (res, s)" by fastforce
  have "\<exists>q'. finishWorkItem 0 0 req res q = Some q'"
    by (rule finishWorkItem_room) (simp add: q(2) waitingForAddCapacity_def)
  then obtain q' where q': "finishWorkItem 0 0 req res q = Some q'" ..
  let ?\<sigma> = "\<sigma>\<lparr>ctQueue := q, ctApi := s, ctQueue := q', ctBusy := remove1 req (ctBusy \<sigma>),
      ctOwed := (if again res then insert req (ctOwed \<sigma>) else ctOwed \<sigma>)\<rparr>"
  have "own_step env cl n (\<sigma>\<lparr>ctQueue := q\<rparr>) ?\<sigma>"
    using own_step.ends [of req "\<sigma>\<lparr>ctQueue := q\<rparr>" env cl res s 0 0 q' n] assms(1) run q'
    by (cases "again res") simp_all
  with q(1) have "(own_step env cl n)\<^sup>*\<^sup>* \<sigma> ?\<sigma>" by (rule rtranclp.rtrancl_into_rtrancl)
  moreover have "\<exists>zs. wqQueue (dtQueue q') = wqQueue (work \<sigma>) @ zs"
    using finishWorkItem_queue(4) [OF q'] q(3) by (auto simp: enqueues_def)
  moreover have "wqDirty (work \<sigma>) \<subseteq> wqDirty (dtQueue q')"
    using finishWorkItem_queue(5) [OF q'] q(3) by (auto simp: enqueues_def)
  ultimately show ?thesis by (intro exI [of _ ?\<sigma>]) simp
qed

lemma worker_free:
  assumes "control_ok n \<sigma>" "0 < n"
  shows "\<exists>\<sigma>'. (own_step env cl n)\<^sup>*\<^sup>* \<sigma> \<sigma>' \<and> length (ctBusy \<sigma>') < n
    \<and> (\<exists>zs. wqQueue (work \<sigma>') = wqQueue (work \<sigma>) @ zs)"
proof (cases "length (ctBusy \<sigma>) < n")
  case False
  then obtain req where "req \<in> set (ctBusy \<sigma>)" using assms(2) by (cases "ctBusy \<sigma>") auto
  from worker_ends [OF this assms(1)] obtain \<sigma>' where s: "(own_step env cl n)\<^sup>*\<^sup>* \<sigma> \<sigma>'"
    "ctBusy \<sigma>' = remove1 req (ctBusy \<sigma>)" "\<exists>zs. wqQueue (work \<sigma>') = wqQueue (work \<sigma>) @ zs" by blast
  have "length (ctBusy \<sigma>') < length (ctBusy \<sigma>)"
    using s(2) \<open>req \<in> set (ctBusy \<sigma>)\<close> length_pos_if_in_set [of req "ctBusy \<sigma>"] by (simp add: length_remove1)
  then have "length (ctBusy \<sigma>') < n" using assms(1) by (simp add: control_ok_def)
  with s show ?thesis by blast
qed auto

text \<open>Hence a request in the queue comes to be worked on, whatever the calls before it answer.\<close>

lemma queued_begins:
  assumes "control_ok n \<sigma>" "0 < n" "wqQueue (work \<sigma>) = xs @ k # ys"
  shows "\<exists>\<sigma>'. (own_step env cl n)\<^sup>*\<^sup>* \<sigma> \<sigma>' \<and> k \<in> set (ctBusy \<sigma>') \<and> k \<notin> ctOwed \<sigma>'"
  using assms(1,3)
proof (induction xs arbitrary: \<sigma> ys)
  case (Nil \<sigma> ys)
  obtain \<sigma>1 zs where one: "(own_step env cl n)\<^sup>*\<^sup>* \<sigma> \<sigma>1" "length (ctBusy \<sigma>1) < n"
    "wqQueue (work \<sigma>1) = wqQueue (work \<sigma>) @ zs" using worker_free [OF Nil(1) assms(2)] by blast
  then obtain wq where "wq_Get (work \<sigma>1) = Some ((Some k, False), wq)" using Nil(2) by (auto simp: wq_Get_def)
  note b = own_step.begins [OF one(2) this, of env cl]
  let ?\<sigma> = "\<sigma>1\<lparr>ctQueue := (ctQueue \<sigma>1)\<lparr>dtQueue := wq\<rparr>,
      ctBusy := ctBusy \<sigma>1 @ [k], ctStarts := ctStarts \<sigma>1 @ [k], ctOwed := ctOwed \<sigma>1 - {k}\<rparr>"
  have "(own_step env cl n)\<^sup>*\<^sup>* \<sigma> ?\<sigma>" using one(1) b by (rule rtranclp.rtrancl_into_rtrancl)
  moreover have "k \<in> set (ctBusy ?\<sigma>)" "k \<notin> ctOwed ?\<sigma>" by simp_all
  ultimately show ?case by blast
next
  case (Cons x xs \<sigma> ys)
  obtain \<sigma>1 zs where one: "(own_step env cl n)\<^sup>*\<^sup>* \<sigma> \<sigma>1" "length (ctBusy \<sigma>1) < n"
    "wqQueue (work \<sigma>1) = wqQueue (work \<sigma>) @ zs" using worker_free [OF Cons(2) assms(2)] by blast
  then obtain wq where wq: "wq_Get (work \<sigma>1) = Some ((Some x, False), wq)" "wqQueue wq = xs @ k # ys @ zs"
    using Cons(3) by (auto simp: wq_Get_def)
  note b = own_step.begins [OF one(2) wq(1), of env cl]
  let ?\<sigma> = "\<sigma>1\<lparr>ctQueue := (ctQueue \<sigma>1)\<lparr>dtQueue := wq\<rparr>,
      ctBusy := ctBusy \<sigma>1 @ [x], ctStarts := ctStarts \<sigma>1 @ [x], ctOwed := ctOwed \<sigma>1 - {x}\<rparr>"
  have two: "(own_step env cl n)\<^sup>*\<^sup>* \<sigma> ?\<sigma>" using one(1) b by (rule rtranclp.rtrancl_into_rtrancl)
  have "control_ok n ?\<sigma>" using own_steps_ok [OF two Cons(2)] by blast
  moreover have "wqQueue (work ?\<sigma>) = xs @ k # ys @ zs" using wq(2) by simp
  ultimately obtain \<sigma>' where "(own_step env cl n)\<^sup>*\<^sup>* ?\<sigma> \<sigma>'" "k \<in> set (ctBusy \<sigma>')" "k \<notin> ctOwed \<sigma>'"
    using Cons(1) by blast
  with two show ?case by (blast intro: rtranclp_trans)
qed

text \<open>A dirty request is in the queue, or enters it when the worker that has it comes to its end.\<close>

lemma dirty_begins:
  assumes "control_ok n \<sigma>" "0 < n" "k \<in> wqDirty (work \<sigma>)"
  shows "\<exists>\<sigma>'. (own_step env cl n)\<^sup>*\<^sup>* \<sigma> \<sigma>' \<and> k \<in> set (ctBusy \<sigma>') \<and> k \<notin> ctOwed \<sigma>'"
proof (cases "k \<in> wqProcessing (work \<sigma>)")
  case False
  then have "k \<in> set (wqQueue (work \<sigma>))" using assms by (simp add: control_ok_def queue_ok_def)
  then obtain xs ys where "wqQueue (work \<sigma>) = xs @ k # ys" by (meson split_list)
  then show ?thesis by (rule queued_begins [OF assms(1,2)])
next
  case True
  then have "k \<in> set (ctBusy \<sigma>)" using assms(1) by (simp add: control_ok_def)
  from worker_ends [OF this assms(1)] obtain \<sigma>' where s: "(own_step env cl n)\<^sup>*\<^sup>* \<sigma> \<sigma>'"
    "ctBusy \<sigma>' = remove1 k (ctBusy \<sigma>)" "wqDirty (work \<sigma>) \<subseteq> wqDirty (work \<sigma>')" by blast
  have ok: "control_ok n \<sigma>'" using own_steps_ok [OF s(1) assms(1)] by blast
  have "k \<notin> wqProcessing (work \<sigma>')"
    using ok assms(1) s(2) by (auto simp: control_ok_def set_remove1_eq)
  then have "k \<in> set (wqQueue (work \<sigma>'))" using ok assms(3) s(3) by (auto simp: control_ok_def queue_ok_def)
  then obtain xs ys where "wqQueue (work \<sigma>') = xs @ k # ys" by (meson split_list)
  from queued_begins [OF ok assms(2) this] s(1) show ?thesis by (blast intro: rtranclp_trans)
qed

text \<open>A request that waits for its time enters the queue when that has come.\<close>

lemma addReady_all: "\<forall>e \<in> set es. wfReadyAt e \<le> now \<Longrightarrow> fst (addReady now es q) = []"
  by (induction now es q rule: addReady.induct) auto

lemma pending_begins:
  assumes "control_ok n \<sigma>" "0 < n" "\<not> wqShuttingDown (work \<sigma>)" "k \<in> pending (ctQueue \<sigma>)"
  shows "\<exists>\<sigma>'. (own_step env cl n)\<^sup>*\<^sup>* \<sigma> \<sigma>' \<and> k \<in> set (ctBusy \<sigma>') \<and> k \<notin> ctOwed \<sigma>'"
proof -
  obtain q where q: "(own_step env cl n)\<^sup>*\<^sup>* \<sigma> (\<sigma>\<lparr>ctQueue := q\<rparr>)" "dtWaitingForAdd q = []"
    "enqueues {} (ctQueue \<sigma>) q" using channel_empties by blast
  define now where "now = Max (insert 0 (wfReadyAt ` set (dtWaitingFor q)))"
  have "\<forall>e \<in> set (dtWaitingFor q). wfReadyAt e \<le> now" by (simp add: now_def)
  then obtain wq where wq: "addReady now (dtWaitingFor q) (dtQueue q) = ([], wq)"
    using addReady_all by (metis prod.collapse)
  have open_q: "\<not> wqShuttingDown (dtQueue q)" using q(3) assms(3) by (simp add: enqueues_def)
  let ?\<sigma> = "\<sigma>\<lparr>ctQueue := waiting_ready now q\<rparr>"
  have "own_step env cl n (\<sigma>\<lparr>ctQueue := q\<rparr>) ?\<sigma>"
    using own_step.adds_ready [of env cl n "\<sigma>\<lparr>ctQueue := q\<rparr>" now] by simp
  with q(1) have s: "(own_step env cl n)\<^sup>*\<^sup>* \<sigma> ?\<sigma>" by (rule rtranclp.rtrancl_into_rtrancl)
  have "k \<in> pending (waiting_ready now q)"
    using q(3) waiting_ready_enqueues [of q now] open_q assms(3,4) by (simp add: enqueues_def)
  moreover have "waits (waiting_ready now q) = {}"
    using open_q wq q(2) by (simp add: waiting_ready_def waits_def)
  ultimately have "k \<in> wqDirty (work ?\<sigma>)" by (simp add: pending_def)
  with dirty_begins [OF own_steps_ok [OF s assms(1), THEN conjunct1] assms(2)] s show ?thesis
    by (blast intro: rtranclp_trans)
qed

end
