(* ===== verification/ControllerRuns.thy ===== *)
theory ControllerRuns
  imports ControllerLoop Scenarios
begin

text \<open>
  What the controller makes of the requests: properties of all the states it gets to from its start, under
  every interleaving of workers, events, the waiting loop and the rest of the world, and a run of the
  operator on the fake client that they are applied to.
\<close>

section \<open>A run\<close>

text \<open>Two component builds, the events for both, and one worker that takes them in turn.\<close>

definition queued_build :: "string \<Rightarrow> ComponentBuild" where
  "queued_build name =
     (test_componentBuild ''https://test.com/pr/1'' [''com.test:test:1.0''])\<lparr>metadata :=
        (meta_of name)\<lparr>ResourceVersion := ''1''\<rparr>\<rparr>"

definition queued_tracker :: tracker where
  "queued_tracker = test_tracker\<lparr>componentBuildObjs :=
     [(test_key ''a'', queued_build ''a''), (test_key ''b'', queued_build ''b'')]\<rparr>"

definition after_event :: "watched \<Rightarrow> 's control \<Rightarrow> 's control" where
  "after_event x \<sigma> =
     \<sigma>\<lparr>ctQueue := enqueue_event x (ctQueue \<sigma>), ctOwed := ctOwed \<sigma> \<union> set (requestsFor x)\<rparr>"

definition after_begin :: "'s control \<Rightarrow> 's control" where
  "after_begin \<sigma> =
     (let ((item, shut), wq) = the (wq_Get (work \<sigma>)); req = the item in
      \<sigma>\<lparr>ctQueue := (ctQueue \<sigma>)\<lparr>dtQueue := wq\<rparr>, ctBusy := ctBusy \<sigma> @ [req],
         ctStarts := ctStarts \<sigma> @ [req], ctOwed := ctOwed \<sigma> - {req}\<rparr>)"

definition after_end :: "NamespacedName \<Rightarrow> tracker control \<Rightarrow> tracker control" where
  "after_end req \<sigma> =
     (let (res, s) = run_state (Reconcile test_env fake_client req) (ctApi \<sigma>) in
      \<sigma>\<lparr>ctApi := s, ctQueue := the (finishWorkItem 0 0 req res (ctQueue \<sigma>)), ctBusy := remove1 req (ctBusy \<sigma>),
         ctOwed := (if again res then insert req (ctOwed \<sigma>) else ctOwed \<sigma>)\<rparr>)"

abbreviation quiet :: "tracker \<Rightarrow> tracker \<Rightarrow> bool" where
  "quiet \<equiv> \<lambda>_ _. False"

abbreviation test_runs :: "tracker control \<Rightarrow> tracker control \<Rightarrow> bool" where
  "test_runs \<equiv> control_runs test_env fake_client quiet (maxConcurrentReconciles 0)"

definition both_queued :: "tracker control" where
  "both_queued = after_event (WatchedComponentBuild (queued_build ''b''))
     (after_event (WatchedComponentBuild (queued_build ''a'')) (control_start queued_tracker))"

definition first_begun :: "tracker control" where
  "first_begun = after_begin both_queued"

definition first_ended :: "tracker control" where
  "first_ended = after_end (test_key ''a'') first_begun"

definition second_begun :: "tracker control" where
  "second_begun = after_begin first_ended"

lemma event_runs: "test_runs \<sigma> (after_event x \<sigma>)"
  unfolding after_event_def by (rule r_into_rtranclp, rule control_step.event)

lemma begin_runs:
  assumes "ctBusy \<sigma> = []" "wqQueue (work \<sigma>) \<noteq> []" shows "test_runs \<sigma> (after_begin \<sigma>)"
proof -
  obtain req rest where "wqQueue (work \<sigma>) = req # rest" using assms(2) by (cases "wqQueue (work \<sigma>)") auto
  then obtain wq where wq: "wq_Get (work \<sigma>) = Some ((Some req, False), wq)" by (auto simp: wq_Get_def)
  have "own_step test_env fake_client (maxConcurrentReconciles 0) \<sigma> (after_begin \<sigma>)"
    using own_step.begins [OF _ wq, of "maxConcurrentReconciles 0" test_env fake_client] assms(1) wq
    by (simp add: after_begin_def maxConcurrentReconciles_def)
  then show ?thesis by (intro r_into_rtranclp control_step.own)
qed

lemma end_runs:
  assumes "req \<in> set (ctBusy \<sigma>)" "dtWaitingForAdd (ctQueue \<sigma>) = []" shows "test_runs \<sigma> (after_end req \<sigma>)"
proof -
  obtain res s where run: "run_state (Reconcile test_env fake_client req) (ctApi \<sigma>) = (res, s)" by fastforce
  have "\<exists>q. finishWorkItem 0 0 req res (ctQueue \<sigma>) = Some q"
    by (rule finishWorkItem_room) (simp add: assms(2) waitingForAddCapacity_def)
  then obtain q where q: "finishWorkItem 0 0 req res (ctQueue \<sigma>) = Some q" ..
  have "own_step test_env fake_client (maxConcurrentReconciles 0) \<sigma> (after_end req \<sigma>)"
    using own_step.ends [OF assms(1) run q, of "maxConcurrentReconciles 0"] run q
    by (simp add: after_end_def cong: if_cong)
  then show ?thesis by (intro r_into_rtranclp control_step.own)
qed

lemma run_states:
  "map nnName (wqQueue (work both_queued)) = [''a'', ''b'']"
  "ctBusy both_queued = []" "\<not> wqShuttingDown (work both_queued)"
  "ctBusy first_begun = [test_key ''a'']" "dtWaitingForAdd (ctQueue first_begun) = []"
  "ctBusy first_ended = []" "map nnName (wqQueue (work first_ended)) = [''b'']"
  "ctStarts second_begun = [test_key ''a'', test_key ''b'']"
  by code_simp+


lemma first_runs: "test_runs (control_start queued_tracker) both_queued" "test_runs both_queued second_begun"
proof -
  show "test_runs (control_start queued_tracker) both_queued"
    unfolding both_queued_def by (rule rtranclp_trans [OF event_runs event_runs])
  have "test_runs both_queued first_begun"
    unfolding first_begun_def using run_states by (intro begin_runs) auto
  also have "test_runs first_begun first_ended"
    unfolding first_ended_def using run_states by (intro end_runs) auto
  also have "test_runs first_ended second_begun"
    unfolding second_begun_def using run_states by (intro begin_runs) auto
  finally show "test_runs both_queued second_begun" .
qed

lemma queued_initial: "initial (fake_cluster queued_tracker)"
  by (simp add: initial_def keyed_def queued_tracker_def test_tracker_def queued_build_def
      test_componentBuild_def meta_of_def test_key_def)

section \<open>No event is lost\<close>

text \<open>
  C35. While the controller is not shut down, a request that is owed a call of \<open>Reconcile\<close>, since an event
  for it arrived or its last call is to be repeated, is in the queue, or waits for its time, or enters the
  queue when the call under way for it ends. So when nothing waits and no worker is busy, the last call for
  every request began after its last event and returned no error. With several workers no two calls are
  for the same request.
\<close>

theorem no_request_lost:
  assumes "control_runs env cl world n (control_start s) \<sigma>" "\<not> wqShuttingDown (work \<sigma>)"
  shows "ctOwed \<sigma> \<subseteq> set (wqQueue (work \<sigma>)) \<union> waits (ctQueue \<sigma>) \<union> (wqDirty (work \<sigma>) \<inter> set (ctBusy \<sigma>))
    \<and> (wqQueue (work \<sigma>) = [] \<and> ctBusy \<sigma> = [] \<and> waits (ctQueue \<sigma>) = {} \<longrightarrow> ctOwed \<sigma> = {})
    \<and> distinct (ctBusy \<sigma>)"
proof -
  have ok: "control_ok n \<sigma>" using control_reached_ok [OF assms(1)] .
  then have owed: "ctOwed \<sigma> \<subseteq> set (wqQueue (work \<sigma>)) \<union> waits (ctQueue \<sigma>) \<union> (wqDirty (work \<sigma>) \<inter> set (ctBusy \<sigma>))"
    using assms(2) by (auto simp: control_ok_def queue_ok_def pending_def)
  moreover have "distinct (ctBusy \<sigma>)" using ok by (simp add: control_ok_def)
  ultimately show ?thesis by auto
qed

theorem no_request_lost_witness:
  "ctOwed both_queued = {test_key ''a'', test_key ''b''}
   \<and> ctOwed both_queued \<subseteq> set (wqQueue (work both_queued)) \<union> waits (ctQueue both_queued)
       \<union> (wqDirty (work both_queued) \<inter> set (ctBusy both_queued))"
proof
  show "ctOwed both_queued = {test_key ''a'', test_key ''b''}"
    by (auto simp: both_queued_def after_event_def control_start_def queued_build_def meta_of_def test_key_def)
  show "ctOwed both_queued \<subseteq> set (wqQueue (work both_queued)) \<union> waits (ctQueue both_queued)
      \<union> (wqDirty (work both_queued) \<inter> set (ctBusy both_queued))"
    using no_request_lost [OF first_runs(1) run_states(3)] by blast
qed

section \<open>In their order\<close>

text \<open>
  C32. Requests are worked on in the order of the queue, under every interleaving: the request at position
  \<open>i\<close> is exactly the one of the \<open>i\<close>-th start from now, counted from 0, so no later event and no repeated
  call overtakes it.
\<close>

theorem first_come_first_served:
  assumes "control_runs env cl world n (control_start s) \<sigma>" "control_runs env cl world n \<sigma> \<sigma>'"
    and "i < length (wqQueue (work \<sigma>))" "length (ctStarts \<sigma>) + i < length (ctStarts \<sigma>')"
  shows "ctStarts \<sigma>' ! (length (ctStarts \<sigma>) + i) = wqQueue (work \<sigma>) ! i"
proof -
  obtain zs where "line \<sigma>' = line \<sigma> @ zs"
    using control_runs_ok [OF assms(2) control_reached_ok [OF assms(1)]] by blast
  then have "line \<sigma>' ! (length (ctStarts \<sigma>) + i) = line \<sigma> ! (length (ctStarts \<sigma>) + i)"
    using assms(3) by (simp add: line_def nth_append)
  with assms(3,4) show ?thesis by (simp add: line_def nth_append)
qed

theorem first_come_first_served_witness:
  "ctStarts second_begun ! 1 = wqQueue (work both_queued) ! 1"
proof -
  have s: "ctStarts both_queued = []" "length (wqQueue (work both_queued)) = 2" by code_simp+
  then have "1 < length (wqQueue (work both_queued))"
    "length (ctStarts both_queued) + 1 < length (ctStarts second_begun)"
    using run_states(8) by simp_all
  from first_come_first_served [OF first_runs this] s show ?thesis by simp
qed

section \<open>Every request has its turn\<close>

text \<open>
  C25. From every state the controller gets to before it is shut down, its own steps, without a further
  event, lead to one where a request that was owed a call is being worked on, whatever the calls before it
  answer; what is owed to it is then done.
\<close>

theorem owed_request_served:
  assumes "control_runs env cl world n (control_start s) \<sigma>" "0 < n"
    and "\<not> wqShuttingDown (work \<sigma>)" "k \<in> ctOwed \<sigma>"
  shows "\<exists>\<sigma>'. (own_step env cl n)\<^sup>*\<^sup>* \<sigma> \<sigma>' \<and> k \<in> set (ctBusy \<sigma>') \<and> k \<notin> ctOwed \<sigma>'"
proof -
  have "control_ok n \<sigma>" using control_reached_ok [OF assms(1)] .
  moreover from this have "k \<in> pending (ctQueue \<sigma>)" using assms(3,4) by (auto simp: control_ok_def)
  ultimately show ?thesis using assms(2,3) by (intro pending_begins)
qed

theorem owed_request_served_witness:
  "\<exists>\<sigma>'. (own_step test_env fake_client (maxConcurrentReconciles 0))\<^sup>*\<^sup>* both_queued \<sigma>'
     \<and> test_key ''b'' \<in> set (ctBusy \<sigma>') \<and> test_key ''b'' \<notin> ctOwed \<sigma>'"
proof (rule owed_request_served [OF first_runs(1) _ run_states(3)])
  show "0 < maxConcurrentReconciles 0" by (simp add: maxConcurrentReconciles_def)
  show "test_key ''b'' \<in> ctOwed both_queued"
    by (simp add: both_queued_def after_event_def queued_build_def meta_of_def test_key_def)
qed

end
