(* ===== verification/Spec2Isabelle.thy ===== *)
theory Spec2Isabelle
  imports Liveness StatusTypes StaleReads Controller DeepCopy Interfaces LabelLimits
    ControllerRuns
begin

text \<open>
  A model of the Apheleia operator and the theorems that make it correct.

  \<^bold>\<open>The program.\<close> The operator watches four kinds of objects of a Kubernetes cluster: its own
  component builds, the artifact builds of the JVM build service, and the task runs and pipeline runs
  of Tekton. A component build names the artifacts of a component. For each the operator creates an
  artifact build; when that is built it starts a task run that deploys the artifact; when the task run
  has succeeded it marks the dependency build the artifact came from as deployed; and when every
  artifact is deployed or has failed it starts a pipeline run that posts the result to a pull request
  and records that it did. It keeps no state of its own: every call of \<open>Reconcile\<close> reads the objects
  it needs, and the status of the component build is derived from them.

  \<^bold>\<open>Foundations.\<close> \<open>Prelude\<close> has Go maps, the drawn iteration order, and assertions about stateful code
  (\<open>triple\<close>, \<open>reads\<close>, \<open>writes\<close>, \<open>keeps\<close>) with the rule collections \<open>wp\<close> and \<open>keeping\<close>; \<open>GoRuntime\<close> the
  functions of Go's standard library; \<open>ApiMeta\<close>, \<open>Labels\<close>, \<open>Scheme\<close> and \<open>OwnerRefs\<close> the vendored
  object model (\<open>k8s.io/apimachinery\<close>, \<open>knative.dev/pkg/apis\<close>, \<open>controllerutil\<close>) together with
  \<open>pkg/apis/apheleia/v1alpha1/register.go\<close> and \<open>pkg/apis/*.go\<close>; \<open>ApiTypes\<close> the resource types, with
  \<open>componentbuild_types.go\<close>.

  \<^bold>\<open>The interface.\<close> \<open>ClientSpec\<close> has the operations the reconciler calls on the cluster as a record
  \<open>client\<close> over any state, and their contract as the locales \<open>api_client\<close> (any call may fail, a
  NotFound answer is honest, a successful call has the documented effect, a failed write may have had
  it) and \<open>reliable_client\<close> (reads do not fail). The handlers are verified inside these locales.
  \<open>Tracker\<close> is the vendored fake client of the repository's tests and interprets both. Of the calls
  into other libraries, \<open>CreateABRName\<close> and \<open>ParseQuantity\<close> are fields of the record \<open>env\<close>.

  \<^bold>\<open>The reconciler\<close> (\<open>pkg/reconciler/componentbuild/componentbuild.go\<close>, \<open>controller.go\<close>).
  \<open>ArtifactSteps\<close> models \<open>getDependencyBuild\<close>, \<open>artifactState\<close> and \<open>deployArtifact\<close>; \<open>NotifySteps\<close>
  \<open>notifyResult\<close>; \<open>ComponentBuilds\<close> \<open>handleComponentBuildReceived\<close>, split at the phases its comments
  name; \<open>EventHandlers\<close> the handlers of the three other kinds; \<open>Reconciler\<close> \<open>Reconcile\<close> and the map
  functions. An error is a value, so that each early return is a branch; logging is left out.

  \<^bold>\<open>What is shown of it.\<close> \<open>StatusSpec\<close> defines the phase of an artifact and the expected status from
  the cluster alone; \<open>HandlerSpec\<close> shows that with reliable reads the handler stores exactly that status
  and notifies exactly when that is due. \<open>ReconcilerSpec\<close> has the abstract contract of the reconciler
  as a step relation on clusters (\<open>rstep\<close>): which artifact build, task run, pipeline run, mark or status
  may appear and under which condition. \<open>Refinement\<close> and \<open>ReconcileRefinement\<close> show that under any
  client every handler and \<open>Reconcile\<close> only perform such steps. \<open>SystemSpec\<close> adds users, build service
  and Tekton as further steps and proves the invariants of all reachable states: at most one deploy task
  in flight for a dependency build, at most one notification for a component build; \<open>StatusTypes\<close> has
  the statuses that can occur. \<open>EventSpec\<close> and
  \<open>FakeRuns\<close> have the behaviour of the event handlers and the runs on the fake client, \<open>Scenarios\<close> the
  creation test of the repository and a second scenario, by evaluation. \<open>FakeTotal\<close> shows that on the
  fake client, with enough unused names for the runs (\<open>spare\<close>), the handler of a component build returns
  no error; \<open>Liveness\<close> composes this with the work of build service and Tekton: a component build that
  is handled, built, deployed and handled again is complete or failed, and notified.

  \<^bold>\<open>How it is called.\<close> \<open>WorkQueue\<close> models the queue of requests (vendored \<open>client-go/util/workqueue\<close>) with
  its delayed additions and the times of retries; \<open>ControllerLoop\<close> the controller around \<open>Reconcile\<close> (vendored
  \<open>controller-runtime/pkg/internal/controller\<close>, \<open>pkg/handler\<close>) as a step relation of workers, waiting loop,
  events and the others; \<open>ControllerRuns\<close> shows of all its states that no request with an event or a failed
  call is lost, that requests are taken in their order and that each can have its turn. A call takes effect
  as a whole, so what two calls that overlap would do to each other is not in the model; the program runs
  one worker.

  \<^bold>\<open>Reading from caches.\<close> In the running program the client is the one of a controller-runtime manager,
  which writes to the API server and reads from the stores of informers. \<open>ManagerClient\<close> models it
  (vendored \<open>client/split.go\<close>, \<open>cache/informer_cache.go\<close>, \<open>cache/internal\<close>) over any API client, and the
  locale \<open>view_client\<close> has what \<open>deployArtifact\<close> needs of a client that reads a view of the cluster; a
  reliable client provides it for the cluster itself and the manager's client for what its stores show.
  \<open>StaleReads\<close> draws the consequences: decisions are made on the stores, and an artifact is deployed
  twice even when the stores have caught up at the start of every call.

  \<^bold>\<open>Selectors and their text.\<close> \<open>SelectorText\<close> models the printed form of a label selector, the lexer and the
  recursive-descent parser of the vendored \<open>labels/selector.go\<close>, and shows that reading a printed selector
  gives it back, up to the order in which the unstable sort leaves requirements of one key (a draw, as
  iteration orders are); the lexer ends since each token but the last takes a character, the parser since each
  requirement takes an item. \<open>LabelLimits\<close> applies this to the reconciler, which makes label values of the
  names of component builds: a name is a label value exactly up to 63 characters, and where the server
  validates labels (the locale \<open>validating_client\<close>) the handler of a longer one fails for ever.

  \<^bold>\<open>Starting\<close> (\<open>pkg/controller/controller.go\<close>, \<open>cmd/controller/main.go\<close>). \<open>Controller\<close> models
  \<open>NewManager\<close> and \<open>main\<close> from the options on. The fuel of the polling loop is the number of ticks that
  reach it (at most 60 for its interval and timeout); the loop ends for every number, by one call per
  tick and a last one.

  \<^bold>\<open>Deep copies\<close> (\<open>zz_generated.deepcopy.go\<close>, and the vendored functions of \<open>meta/v1\<close> it calls for the
  metadata). \<open>DeepCopy\<close> models the generated functions over one explicit memory of typed cells, in which
  slices, maps and pointers are references, since what they promise is that nothing is shared.

  \<^bold>\<open>The generated clients\<close> (\<open>pkg/client/clientset\<close>). \<open>ClientInterface\<close> has the request options and
  \<open>ComponentBuildInterface\<close> as a record of operations over any state; \<open>GoPath\<close> \<open>path.Join\<close>;
  \<open>RestClient\<close> the vendored request builder (\<open>k8s.io/client-go/rest\<close>) with its retries, whose loop ends
  since every further attempt is counted; \<open>Retries\<close> what the attempts of a request come to; \<open>TypedClient\<close>
  the nine methods of \<open>typed/apheleia/v1alpha1/componentbuild.go\<close> on it, and where their requests go;
  \<open>Clientset\<close> the constructors (\<open>clientset.go\<close>, \<open>apheleia_client.go\<close>) from a configuration on and the two
  generated \<open>register.go\<close>. One exchange over HTTP, the contexts of calls, the waits of the rate limiter, the
  encoding of objects and the parsing of the server's address are fields of a record there. \<open>FakeClientset\<close> models the fake of the same interface
  (\<open>clientset_generated.go\<close>, \<open>fake_componentbuild.go\<close>) on the vendored object tracker with its watchers;
  parsing field selectors and applying patches are arguments. What it shows is that every call makes
  one transition of the tracker, that watchers are sent exactly the changes of their namespace, and so
  that a list and the watch after it stay together.

  \<^bold>\<open>The generated informers and listers\<close> (\<open>pkg/client/informers\<close>, \<open>pkg/client/listers\<close>). \<open>ClientCache\<close>
  models the vendored indexed store with the invariant that its indices are right, \<open>Listers\<close> the lister
  of \<open>listers/apheleia/v1alpha1/componentbuild.go\<close> over the interface \<open>indexer_contract\<close>, which the
  store provides. \<open>DeltaFifo\<close> models the vendored queue of changes with the contents it leads the store
  to (\<open>mirror\<close>); \<open>SharedInformer\<close> the reflector and the process loop over it, their own steps
  (\<open>informer_step\<close>) and the interleaving of these with the steps of the API's users (\<open>run_step\<close>), and over
  the interface \<open>watched_api\<close> that the store ends up with what the API holds by the informer's own steps;
  its loop \<open>drain\<close> ends since each round shortens the queue. The reflector lists and watches once, by two
  calls with any calls of others between them: that it lists again after a watch has ended is not modelled.
  \<open>InformerFactory\<close> models \<open>factory.go\<close>, \<open>generic.go\<close> and the informer of component builds;
  \<open>InformedLister\<close> puts factory, informer, fake clientset and lister together: the lister is exact if no
  component build was changed between the list and the watch, and one that was is lost to it, since the
  fake clientset ignores the version the watch is to begin at. \<open>Interfaces\<close> has the Go
  interfaces the generated code declares, as records of methods, and the structs as instances of them.

  \<^bold>\<open>Assumptions.\<close> A call of \<open>Reconcile\<close> is one step between those of the others, and calls do not
  overlap each other. Outside \<open>ManagerClient\<close> and \<open>StaleReads\<close> a read sees the cluster as it is: the
  invariants on runs in flight, the exact status and liveness rest on it, and \<open>StaleReads\<close> shows what
  becomes of them when it fails. The iteration order of a map is any
  permutation, drawn at the loop. Lengths and counts are unbounded integers, since the counts are
  bounded by the length of a list in memory; resource versions are words of 64 bits.

  \<^bold>\<open>Not modelled.\<close> Logging, flag parsing, signals, the controller-runtime manager and the API server,
  which are arguments or a contract here; of the code under \<open>pkg/client\<close>, the transport, the codecs and
  the parsers it hands to, the back-off, the resource versions and the new lists of the reflector, the locks (an
  operation under a lock is one step) and the delivery of an informer's notifications to several
  handlers; \<open>pkg/dependencymagnet\<close>, which is only imports; the Java program of the same repository.

  The properties are numbered, here and in \<open>Liveness\<close>, \<open>StaleReads\<close>, \<open>SelectorText\<close>,
  \<open>LabelLimits\<close>, \<open>ControllerRuns\<close>, \<open>Clientset\<close>, \<open>FakeClientset\<close> and \<open>InformedLister\<close>; a property with
  hypotheses is followed by a theorem that applies it to a concrete run.
\<close>

section \<open>Settings for the witnesses\<close>

text \<open>The fake client with one component build, before anything has happened to it.\<close>

definition stored :: "ComponentBuild \<Rightarrow> ComponentBuild" where
  "stored = SetResourceVersion ''1''"

definition with_build :: "ComponentBuild \<Rightarrow> tracker" where
  "with_build cb = test_tracker\<lparr>componentBuildObjs := [(obj_key cb, stored cb)]\<rparr>"

definition new_build :: ComponentBuild where
  "new_build = test_componentBuild ''https://test.com/pr/1'' [''com.test:test:1.0'']"

definition start_tracker :: tracker where
  "start_tracker = with_build new_build"

lemma start_keyed: "keyed (fake_cluster start_tracker)"
  by (simp add: keyed_def start_tracker_def with_build_def new_build_def test_componentBuild_def
      test_tracker_def stored_def SetResourceVersion_def meta_of_def)

text \<open>A component build whose only artifact has failed.\<close>

definition failed_tracker :: tracker where
  "failed_tracker = start_tracker\<lparr>artifactBuildObjs :=
     [(test_key ''com.test.test.1.0'',
       \<lparr>metadata = (meta_of ''com.test.test.1.0'')\<lparr>ResourceVersion := ''2''\<rparr>,
        GAV = ''com.test:test:1.0'', abState = ArtifactBuildStateFailed\<rparr>)]\<rparr>"

lemma failed_keyed: "keyed (fake_cluster failed_tracker)"
  by (simp add: keyed_def failed_tracker_def start_tracker_def with_build_def new_build_def
      test_componentBuild_def test_tracker_def stored_def SetResourceVersion_def meta_of_def test_key_def)

lemma start_initial: "initial (fake_cluster start_tracker)"
  using start_keyed
  by (simp add: initial_def start_tracker_def with_build_def test_tracker_def)

text \<open>A first call of the handler on the stored component build, and what it leaves.\<close>

definition after_handling :: "tracker \<Rightarrow> tracker" where
  "after_handling t = snd (run_state (handleComponentBuildReceived test_env fake_client (stored new_build)) t)"

definition stored_again :: "tracker \<Rightarrow> ComponentBuild" where
  "stored_again t = the (map_of (componentBuildObjs (after_handling t)) (test_key ''test''))"

lemma run_no_error:
  "(case run_state m s of ((res, err), s') \<Rightarrow> res = emptyResult \<and> err = None) \<Longrightarrow>
     run_state m s = ((emptyResult, None), snd (run_state m s))"
  by (auto split: prod.splits)

lemma fake_is_client: "api_client fake_client fake_cluster"
  by (rule fake.api_client_axioms)

lemma fake_is_reliable: "reliable_client fake_client fake_cluster"
  by (rule fake.reliable_client_axioms)







section \<open>The reconciler as a whole\<close>

text \<open>
  C1. A call of \<open>Reconcile\<close> changes the cluster only by steps of the contract \<open>rstep\<close>, whichever
  calls of the client fail.
\<close>

theorem Reconcile_refines_contract:
  assumes "api_client cl ab" and "keyed (ab s)"
  shows "rsteps env (ab s) (ab (snd (run_state (Reconcile env cl request) s)))"
  using api_client.Reconcile_rsteps [OF assms(1) prod.collapse [symmetric] assms(2)] .

theorem Reconcile_refines_contract_witness:
  "rsteps test_env (fake_cluster start_tracker)
     (fake_cluster (snd (run_state (Reconcile test_env fake_client (test_key ''test'')) start_tracker)))"
  by (rule Reconcile_refines_contract [OF fake_is_client start_keyed])

text \<open>
  C2. In every reachable state of the system of reconciler, users, build service and Tekton, each
  dependency build has at most one deploy task in flight and each component build at most one
  notification; \<open>Reconcile\<close> leads from reachable states to reachable states.
\<close>

theorem Reconcile_single_flight:
  assumes "api_client cl ab" and "reachable env (ab s)"
  shows "let c' = ab (snd (run_state (Reconcile env cl request) s)) in
    reachable env c' \<and> single_deploys c' \<and> single_notifies c'"
proof -
  have "rsteps env (ab s) (ab (snd (run_state (Reconcile env cl request) s)))"
    using api_client.Reconcile_rsteps [OF assms(1) prod.collapse [symmetric]]
      reachable_invariant [OF assms(2)] by blast
  then have "reachable env (ab (snd (run_state (Reconcile env cl request) s)))"
    using assms(2) by (rule reachable_rsteps)
  then show ?thesis using reachable_invariant by (simp add: Let_def)
qed

theorem Reconcile_single_flight_witness:
  "let c' = fake_cluster (snd (run_state (Reconcile test_env fake_client (test_key ''test'')) start_tracker))
   in reachable test_env c' \<and> single_deploys c' \<and> single_notifies c'"
  by (rule Reconcile_single_flight [OF fake_is_client reachable.start [OF start_initial]])





text \<open>
  C5. Under any client, a component build that \<open>Reconcile\<close> newly reports as complete had all its
  artifacts built and deployed at a moment of the call, and one it newly reports as failed had at a
  moment of the call all its artifacts done or failed and one of them failed. (Nothing is claimed of
  a build newly reported as in progress: a read that fails can make the handler report that.)
\<close>

theorem reported_state_true:
  assumes "api_client cl ab" and "keyed (ab s)"
    and "componentBuilds (ab (snd (run_state (Reconcile env cl request) s))) k = Some cb'"
  shows "\<exists>cb. componentBuilds (ab s) k = Some cb \<and> cbSpec cb' = cbSpec cb
     \<and> (State (cbStatus cb') = ComponentBuildStateComplete
          \<and> State (cbStatus cb) \<noteq> ComponentBuildStateComplete \<longrightarrow>
        (\<exists>d. rsteps env (ab s) d \<and> rsteps env d (ab (snd (run_state (Reconcile env cl request) s)))
           \<and> (\<forall>i \<in> set (Artifacts (cbSpec cb)). Done (phase env d (nnNamespace k) i))))
     \<and> (State (cbStatus cb') = ComponentBuildStateFailed
          \<and> State (cbStatus cb) \<noteq> ComponentBuildStateFailed \<longrightarrow>
        (\<exists>d. rsteps env (ab s) d \<and> rsteps env d (ab (snd (run_state (Reconcile env cl request) s)))
           \<and> (\<forall>i \<in> set (Artifacts (cbSpec cb)).
                Done (phase env d (nnNamespace k) i) \<or> Failed (phase env d (nnNamespace k) i))
           \<and> (\<exists>i \<in> set (Artifacts (cbSpec cb)). Failed (phase env d (nnNamespace k) i))))"
proof -
  from rsteps_state [OF api_client.Reconcile_rsteps [OF assms(1) prod.collapse [symmetric] assms(2)]
      assms(2,3)] obtain cb where cb: "componentBuilds (ab s) k = Some cb" "cbSpec cb' = cbSpec cb"
    and j: "State (cbStatus cb') = State (cbStatus cb)
      \<or> (\<exists>d. rsteps env (ab s) d \<and> rsteps env d (ab (snd (run_state (Reconcile env cl request) s)))
           \<and> state_justified env d (nnNamespace k) (Artifacts (cbSpec cb)) (State (cbStatus cb')))"
    by blast
  from j show ?thesis
    by (intro exI [of _ cb] conjI impI cb)
      (use j in \<open>auto simp: state_justified_def settled_def\<close>)
qed

theorem reported_state_true_witness:
  "\<exists>d. rsteps test_env (fake_cluster failed_tracker) d
     \<and> Failed (phase test_env d ''default'' ''com.test:test:1.0'')"
proof -
  let ?t = "snd (run_state (Reconcile test_env fake_client (test_key ''test'')) failed_tracker)"
  have "map_option (\<lambda>cb. State (cbStatus cb)) (map_of (componentBuildObjs ?t) (test_key ''test''))
      = Some ComponentBuildStateFailed"
    by code_simp
  then obtain cb' where cb': "componentBuilds (fake_cluster ?t) (test_key ''test'') = Some cb'"
    "State (cbStatus cb') = ComponentBuildStateFailed" by auto
  have old: "componentBuilds (fake_cluster failed_tracker) (test_key ''test'') = Some (stored new_build)"
    by (simp add: failed_tracker_def start_tracker_def with_build_def test_key_def new_build_def
        test_componentBuild_def meta_of_def)
  have "State (cbStatus (stored new_build)) \<noteq> ComponentBuildStateFailed"
    "Artifacts (cbSpec (stored new_build)) = [''com.test:test:1.0'']"
    by code_simp+
  with reported_state_true [OF fake_is_client failed_keyed cb'(1)] old cb'(2) show ?thesis
    by (auto simp: test_key_def)
qed

text \<open>
  C6. With reliable reads, a call of the handler that returns no error has created a notification
  pipeline exactly when one was due: the result is final and not yet notified, the component build
  names a pull request and no notification is in flight. The message is one for the new status.
\<close>

theorem handler_notifies:
  assumes "reliable_client cl ab"
    and "snd (fst (run_state (handleComponentBuildReceived env cl cb) s)) = None"
  shows "if must_notify env (ab s) cb
    then notified env (cb\<lparr>cbStatus := expected_status env (ab s) cb\<rparr>) (ab s)
           (ab (snd (run_state (handleComponentBuildReceived env cl cb) s)))
    else pipelineRuns (ab (snd (run_state (handleComponentBuildReceived env cl cb) s)))
           = pipelineRuns (ab s)"
  using reliable_client.handleComponentBuildReceived_notifies [OF assms(1), of env cb] assms(2)
  by (auto simp: writes_def prod_eq_iff)

theorem handler_notifies_witness:
  "if must_notify test_env (fake_cluster failed_tracker) (stored new_build)
    then notified test_env
           ((stored new_build)\<lparr>cbStatus := expected_status test_env (fake_cluster failed_tracker) (stored new_build)\<rparr>)
           (fake_cluster failed_tracker)
           (fake_cluster (snd (run_state
             (handleComponentBuildReceived test_env fake_client (stored new_build)) failed_tracker)))
    else pipelineRuns (fake_cluster (snd (run_state
             (handleComponentBuildReceived test_env fake_client (stored new_build)) failed_tracker)))
           = pipelineRuns (fake_cluster failed_tracker)"
  by (rule handler_notifies [OF fake_is_reliable]) code_simp

lemma range_draws:
  "range (\<lambda>ns :: nat list. f (case ns of [] \<Rightarrow> 0 | n # _ \<Rightarrow> n)) = range f"
proof
  show "range f \<subseteq> range (\<lambda>ns. f (case ns of [] \<Rightarrow> 0 | n # _ \<Rightarrow> n))"
    by (intro image_subsetI) (rule image_eqI [of _ _ "[_]"], simp_all)
qed auto

text \<open>
  C7. The messages a result can be notified with, over all orders in which the Go runtime may iterate
  over the map of artifact states: for a failed component build one sentence that lists exactly the
  failed artifacts of its map, each once, in any order and no other; for a complete one the message
  that asks for a retest.
\<close>

theorem notification_messages:
  "range (\<lambda>ns. fst (run_state (notifierMessage fake_client cb) (t\<lparr>rangeOrders := ns\<rparr>)))
   = (if State (cbStatus cb) = ComponentBuildStateFailed
      then {''The following dependency builds have failed: '' @ Join gavs '', '' @ ''.'' |gavs.
              mset gavs = image_mset fst
                (filter_mset (\<lambda>e. Failed (snd e)) (mset (gm_items (ArtifactStates (cbStatus cb)))))}
      else if State (cbStatus cb) = ComponentBuildStateComplete
      then {''/retest Success all dependency builds have completed.''}
      else {''''})"
proof (cases "State (cbStatus cb) = ComponentBuildStateFailed")
  case True
  let ?es = "gm_items (ArtifactStates (cbStatus cb))"
  have run: "fst (run_state (notifierMessage fake_client cb) (t\<lparr>rangeOrders := ns\<rparr>))
      = failureMessage (collectFailed [] (pick_order (case ns of [] \<Rightarrow> 0 | n # _ \<Rightarrow> n) ?es))" for ns
    using True by (cases ns) (simp_all add: notifierMessage_def fake_range_def)
  have "range (\<lambda>ns. fst (run_state (notifierMessage fake_client cb) (t\<lparr>rangeOrders := ns\<rparr>)))
      = range (\<lambda>n. failureMessage (collectFailed [] (pick_order n ?es)))"
    unfolding run by (rule range_draws)
  also have "\<dots> = {failureMessage gavs |gavs. \<exists>n. collectFailed [] (pick_order n ?es) = gavs}"
    by blast
  also have "\<dots> = {failureMessage gavs |gavs. mset gavs
      = image_mset fst (filter_mset (\<lambda>e. Failed (snd e)) (mset ?es))}"
    unfolding collectFailed_orders by simp
  finally show ?thesis unfolding if_P [OF True] failureMessage_def .
next
  case False
  then show ?thesis
    by (cases "State (cbStatus cb) = ComponentBuildStateComplete")
      (auto simp: notifierMessage_def successMessage_def)
qed

theorem notification_messages_example:
  "''The following dependency builds have failed: b, a.'' \<in>
     range (\<lambda>ns. fst (run_state (notifierMessage fake_client (new_build\<lparr>cbStatus := test_status\<lparr>
       State := ComponentBuildStateFailed,
       ArtifactStates := Some
         [(''a'', \<lparr>ArtifactBuildName = ''x'', Built = False, Deployed = False, Failed = True\<rparr>),
          (''b'', \<lparr>ArtifactBuildName = ''y'', Built = False, Deployed = False, Failed = True\<rparr>)]\<rparr>\<rparr>))
       (start_tracker\<lparr>rangeOrders := ns\<rparr>)))"
  by (rule image_eqI [of _ _ "[1]"]) (code_simp, simp)

section \<open>Single artifacts\<close>

text \<open>
  C8. With reliable reads \<open>deployArtifact\<close> creates a task run exactly when one is due: the artifact's
  dependency build is known and not marked, and no deploy task for it is in flight.
\<close>

theorem deployArtifact_when_due:
  assumes "reliable_client cl ab"
    and "fst (run_state (deployArtifact env cl abr u ow d) s) = None"
  shows "(\<forall>db. deploy_due (ab s) abr db \<longrightarrow>
       (\<exists>x. created (taskRuns (ab s)) (deployTaskRun env abr db u ow d) x
          (taskRuns (ab (snd (run_state (deployArtifact env cl abr u ow d) s))))))
    \<and> ((\<nexists>db. deploy_due (ab s) abr db) \<longrightarrow>
       ab (snd (run_state (deployArtifact env cl abr u ow d) s)) = ab s)"
proof -
  have run: "run_state (deployArtifact env cl abr u ow d) s
      = (None, snd (run_state (deployArtifact env cl abr u ow d) s))"
    using assms(2) by (metis prod.collapse)
  from reliable_client.deployArtifact_exact [OF assms(1), of env abr u ow d, unfolded writes_def,
      rule_format, OF run]
  show ?thesis
    by (auto simp: deploy_due_def create_ok_def split: if_splits sum.splits)
qed

text \<open>A component build whose only artifact is built, and not deployed yet.\<close>

definition built_artifact :: ArtifactBuild where
  "built_artifact =
     \<lparr>metadata = (meta_of ''com.test.test.1.0'')\<lparr>ResourceVersion := ''2''\<rparr>,
      GAV = ''com.test:test:1.0'', abState = ArtifactBuildStateComplete\<rparr>"

definition built_dependency :: DependencyBuild where
  "built_dependency =
     \<lparr>metadata = (owned_by ArtifactBuildType (metadata built_artifact) (meta_of ''test-db''))
        \<lparr>ResourceVersion := ''1''\<rparr>, dbState = ''''\<rparr>"

definition rebuilt_artifact :: RebuiltArtifact where
  "rebuilt_artifact =
     \<lparr>metadata = (owned_by (GoType jvmbs_pkg ''DependencyBuild'') (metadata built_dependency)
          (meta_of ''com.test.test.1.0''))\<lparr>ResourceVersion := ''1''\<rparr>,
      raGAV = ''com.test:test:1.0'', raImage = ''test-image''\<rparr>"

definition built_tracker :: tracker where
  "built_tracker = start_tracker\<lparr>
     artifactBuildObjs := [(test_key ''com.test.test.1.0'', built_artifact)],
     dependencyBuildObjs := [(test_key ''test-db'', built_dependency)],
     rebuiltArtifactObjs := [(test_key ''com.test.test.1.0'', rebuilt_artifact)]\<rparr>"

lemma built_meta:
  "obj_key built_artifact = test_key ''com.test.test.1.0''" "obj_key built_dependency = test_key ''test-db''"
  by (code_simp, code_simp)

lemma built_keyed: "keyed (fake_cluster built_tracker)"
  using built_meta
  by (simp add: keyed_def built_tracker_def start_tracker_def with_build_def new_build_def
      test_componentBuild_def test_tracker_def stored_def SetResourceVersion_def meta_of_def test_key_def)

lemma built_due: "deploy_due (fake_cluster built_tracker) built_artifact built_dependency"
proof -
  have "dependency_of (fake_cluster built_tracker) built_artifact = Some built_dependency"
    "gm_get (Annotations (metadata built_dependency)) DeployedAnnotation = ''''"
    by (code_simp, code_simp)
  then show ?thesis
    by (simp add: deploy_due_def selected_def built_tracker_def start_tracker_def with_build_def
        test_tracker_def)
qed

theorem deployArtifact_when_due_witness:
  "\<exists>x. created (taskRuns (fake_cluster built_tracker))
      (deployTaskRun test_env built_artifact built_dependency ''r'' ''o'' ''d'') x
      (taskRuns (fake_cluster (snd (run_state
         (deployArtifact test_env fake_client built_artifact ''r'' ''o'' ''d'') built_tracker))))"
proof -
  have "fst (run_state (deployArtifact test_env fake_client built_artifact ''r'' ''o'' ''d'')
      built_tracker) = None"
    by code_simp
  from deployArtifact_when_due [OF fake_is_reliable this] show ?thesis using built_due by blast
qed

text \<open>
  C9. Under any client, a task run that appears during a call of \<open>Reconcile\<close> has its reason at a moment
  of the call: an artifact that is built, whose dependency build is not marked as deployed and had no
  deploy task in flight, in a namespace with a full configuration, whose values the run carries.
\<close>

theorem task_run_has_reason:
  assumes "api_client cl ab" and "keyed (ab s)" and "taskRuns (ab s) k = None"
    and "taskRuns (ab (snd (run_state (Reconcile env cl request) s))) k = Some x"
  shows "\<exists>d. rsteps env (ab s) d \<and> rsteps env d (ab (snd (run_state (Reconcile env cl request) s)))
      \<and> deploy_reason env d x"
  using rsteps_appears [where sel = taskRuns and R = "deploy_reason env",
      OF api_client.Reconcile_rsteps [OF assms(1) prod.collapse [symmetric] assms(2)] assms(4,3)]
    rstep_new_taskRun rstep_taskRuns_kept by blast

theorem task_run_has_reason_witness:
  "\<exists>d x. rsteps test_env (fake_cluster built_tracker) d \<and> deploy_reason test_env d x"
proof -
  let ?t = "snd (run_state (Reconcile test_env fake_client (test_key ''test'')) built_tracker)"
  let ?k = "test_key ''com.test.test.1.0-deploy-taskbcdfg''"
  have "map_of (taskRunObjs ?t) ?k \<noteq> None" by code_simp
  then obtain x where x: "taskRuns (fake_cluster ?t) ?k = Some x" by auto
  have "taskRuns (fake_cluster built_tracker) ?k = None"
    by (simp add: built_tracker_def start_tracker_def with_build_def test_tracker_def)
  from task_run_has_reason [OF fake_is_client built_keyed this x] show ?thesis by blast
qed

text \<open>
  C10. Under any client, a pipeline run that appears during a call of \<open>Reconcile\<close> has its reason at a
  moment of the call: a component build with a pull request whose artifacts are all settled, whose
  result is not marked as notified and had no notification in flight; its message fits the result.
\<close>

theorem pipeline_run_has_reason:
  assumes "api_client cl ab" and "keyed (ab s)" and "pipelineRuns (ab s) k = None"
    and "pipelineRuns (ab (snd (run_state (Reconcile env cl request) s))) k = Some x"
  shows "\<exists>d. rsteps env (ab s) d \<and> rsteps env d (ab (snd (run_state (Reconcile env cl request) s)))
      \<and> notify_reason env d x"
  using rsteps_appears [where sel = pipelineRuns and R = "notify_reason env",
      OF api_client.Reconcile_rsteps [OF assms(1) prod.collapse [symmetric] assms(2)] assms(4,3)]
    rstep_new_pipelineRun rstep_pipelineRuns_kept by blast

theorem pipeline_run_has_reason_witness:
  "\<exists>d x. rsteps test_env (fake_cluster failed_tracker) d \<and> notify_reason test_env d x"
proof -
  let ?t = "snd (run_state (Reconcile test_env fake_client (test_key ''test'')) failed_tracker)"
  let ?k = "test_key ''test-notify-pipelinebcdfg''"
  have "map_of (pipelineRunObjs ?t) ?k \<noteq> None" by code_simp
  then obtain x where x: "pipelineRuns (fake_cluster ?t) ?k = Some x" by auto
  have "pipelineRuns (fake_cluster failed_tracker) ?k = None"
    by (simp add: failed_tracker_def start_tracker_def with_build_def test_tracker_def)
  from pipeline_run_has_reason [OF fake_is_client failed_keyed this x] show ?thesis by blast
qed

text \<open>
  C11. Under any client, \<open>Reconcile\<close> leaves alone what is not its own: configuration and rebuilt
  artifacts, the specifications of component builds, and all artifact builds, task runs and pipeline
  runs there are; it creates no component build.
\<close>

theorem Reconcile_conserves:
  assumes "api_client cl ab" and "keyed (ab s)"
  shows "conserves (ab s) (ab (snd (run_state (Reconcile env cl request) s)))"
  using rsteps_conserves [OF api_client.Reconcile_rsteps [OF assms(1) prod.collapse [symmetric] assms(2)]
      assms(2)] .

theorem Reconcile_conserves_witness:
  "conserves (fake_cluster built_tracker)
     (fake_cluster (snd (run_state (Reconcile test_env fake_client (test_key ''test'')) built_tracker)))"
  by (rule Reconcile_conserves [OF fake_is_client built_keyed])

text \<open>
  C40. Under any client, \<open>Reconcile\<close> keeps every status well typed: no state and nothing outstanding,
  in progress with at least one artifact outstanding, or complete or failed with none.
\<close>

theorem statuses_typed:
  assumes "api_client cl ab" and "keyed (ab s)" and "typed_statuses (ab s)"
  shows "typed_statuses (ab (snd (run_state (Reconcile env cl request) s)))"
  using rsteps_typed [OF api_client.Reconcile_rsteps [OF assms(1) prod.collapse [symmetric] assms(2)]
      assms(3)] .

theorem statuses_typed_witness:
  "typed_statuses (fake_cluster (snd (run_state (Reconcile test_env fake_client (test_key ''test'')) start_tracker)))
   \<and> map_option (\<lambda>cb. (State (cbStatus cb), Outstanding (cbStatus cb)))
       (map_of (componentBuildObjs (snd (run_state (Reconcile test_env fake_client (test_key ''test'')) start_tracker)))
         (test_key ''test''))
     = Some (ComponentBuildStateInProgress, 1)"
proof
  have "typed_statuses (fake_cluster start_tracker)"
    by (simp add: typed_statuses_def typed_status_def start_tracker_def with_build_def new_build_def
        test_componentBuild_def test_tracker_def stored_def SetResourceVersion_def test_status_def)
  from statuses_typed [OF fake_is_client start_keyed this]
  show "typed_statuses (fake_cluster (snd (run_state (Reconcile test_env fake_client (test_key ''test'')) start_tracker)))" .
  show "map_option (\<lambda>cb. (State (cbStatus cb), Outstanding (cbStatus cb)))
       (map_of (componentBuildObjs (snd (run_state (Reconcile test_env fake_client (test_key ''test'')) start_tracker)))
         (test_key ''test''))
     = Some (ComponentBuildStateInProgress, 1)"
    by code_simp
qed



text \<open>
  C13. The handler's result is stable: handling the component build that a first call has stored
  again, with reliable reads and no error in either call, stores the same status.
\<close>

theorem handler_status_stable:
  assumes "reliable_client cl ab" and "componentBuilds (ab s) (obj_key cb) = Some cb"
    and "configured (ab s) (obj_ns cb)" and "DeletionTimestamp (metadata cb) = None"
    and "run_state (handleComponentBuildReceived env cl cb) s = ((res, None), s1)"
    and "componentBuilds (ab s1) (obj_key cb) = Some cb1" and "DeletionTimestamp (metadata cb1) = None"
    and "run_state (handleComponentBuildReceived env cl cb1) s1 = ((res1, None), s2)"
  shows "\<exists>cb2. componentBuilds (ab s2) (obj_key cb) = Some cb2 \<and> cbStatus cb2 = cbStatus cb1"
proof -
  have h1: "handled env cb (ab s) (ab s1)" and h2: "handled env cb1 (ab s1) (ab s2)"
    using reliable_client.handleComponentBuildReceived_exact [OF assms(1)] assms(5,8)
    by (force simp: writes_def)+
  have cb1: "obj_key cb1 = obj_key cb" "cbSpec cb1 = cbSpec cb"
    "cbStatus cb1 = expected_status env (ab s) cb"
    using h1 assms(2-4,6) by (auto simp: handled_def status_updated_def)
  have "configured (ab s1) (obj_ns cb1)"
    using h1 assms(3) cb1(1) by (simp add: handled_def configured_def config_of_def)
  with h2 cb1(1) assms(6,7) obtain cb2 where cb2: "componentBuilds (ab s2) (obj_key cb) = Some cb2"
    "cbStatus cb2 = expected_status env (ab s1) cb1"
    by (auto simp: handled_def status_updated_def)
  have "expected_status env (ab s1) cb1 = expected_status env (ab s) cb"
  proof (rule expected_status_again [OF _ _ cb1(2,3)])
    show "\<forall>ns i. phase env (ab s1) ns i = phase env (ab s) ns i"
      using h1 assms(3) by (simp add: handled_def)
    show "obj_ns cb1 = obj_ns cb" using cb1(1) by simp
  qed
  with cb2 cb1(3) show ?thesis by simp
qed

theorem handler_status_stable_witness:
  "\<exists>cb2. componentBuilds (fake_cluster (snd (run_state
        (handleComponentBuildReceived test_env fake_client (stored_again failed_tracker))
        (after_handling failed_tracker)))) (test_key ''test'') = Some cb2
     \<and> cbStatus cb2 = cbStatus (stored_again failed_tracker)"
proof -
  let ?m = "handleComponentBuildReceived test_env fake_client"
  let ?s = "stored new_build" and ?t1 = "after_handling failed_tracker" and ?s1 = "stored_again failed_tracker"
  have k: "obj_key ?s = test_key ''test''" by code_simp
  have st: "componentBuilds (fake_cluster failed_tracker) (obj_key ?s) = Some ?s"
    by (simp add: failed_tracker_def start_tracker_def with_build_def stored_def SetResourceVersion_def)
  have cfg: "configured (fake_cluster failed_tracker) (obj_ns ?s)" by code_simp
  have del: "DeletionTimestamp (metadata ?s) = None" "DeletionTimestamp (metadata ?s1) = None"
    by (code_simp, code_simp)
  have r1: "run_state (?m ?s) failed_tracker = ((emptyResult, None), ?t1)"
    unfolding after_handling_def by (rule run_no_error) code_simp
  have r2: "run_state (?m ?s1) ?t1 = ((emptyResult, None), snd (run_state (?m ?s1) ?t1))"
    by (rule run_no_error) code_simp
  have "map_of (componentBuildObjs ?t1) (test_key ''test'') \<noteq> None" by code_simp
  then have st1: "componentBuilds (fake_cluster ?t1) (obj_key ?s) = Some ?s1"
    by (auto simp: stored_again_def k)
  show ?thesis
    using handler_status_stable [OF fake_is_reliable st cfg del(1) r1 st1 del(2) r2] unfolding k .
qed

section \<open>Events\<close>

text \<open>
  C14. A deploy task the reconciler starts is attributed to its artifact build: whatever the server
  adds to the created object, \<open>handleTaskRunReceived\<close> finds the artifact build's name in its owner
  references, when the scheme knows the type.
\<close>

theorem deploy_task_attributed:
  assumes "GVKForObject ArtifactBuildType (scheme env) = Inr gvk" and "gvkKind gvk = ''ArtifactBuild''"
    and "accepted (deployTaskRun env abr db u ow d) x"
  shows "ownerOfKind ''artifactbuild'' ''artifactbuilds'' (OwnerReferences (metadata x)) = obj_name abr"
  using deployTaskRun_attributed [OF assms(1,2)] assms(3) by (auto simp: accepted_def)

theorem deploy_task_attributed_witness:
  "ownerOfKind ''artifactbuild'' ''artifactbuilds''
     (OwnerReferences (metadata (deployTaskRun test_env built_artifact built_dependency ''r'' ''o'' ''d'')))
   = ''com.test.test.1.0''"
proof -
  let ?x = "deployTaskRun test_env built_artifact built_dependency ''r'' ''o'' ''d''"
  have g: "GVKForObject ArtifactBuildType (scheme test_env)
      = Inr (GroupVersionKind ''jvmbuildservice.io'' ''v1alpha1'' ''ArtifactBuild'')"
    by code_simp
  have "accepted ?x ?x" unfolding accepted_def by (rule exI [of _ "metadata ?x"]) (simp add: built_artifact_def meta_of_def)
  from deploy_task_attributed [OF g _ this] show ?thesis by (simp add: built_artifact_def meta_of_def)
qed

text \<open>
  C15. The same for notifications, with the scheme the program builds: after the registration of its
  own group a notification pipeline is attributed to its component build.
\<close>

theorem notification_attributed:
  assumes "AddToScheme agv s = Some (scheme env)"
    and "map_of (typeToGVK s) ComponentBuildType = None"
    and "ComponentBuildType \<notin> set (unversionedTypes s)"
    and "\<And>x y. agv SchemeGroupVersion x = Some y \<Longrightarrow>
      map_of (typeToGVK y) ComponentBuildType = map_of (typeToGVK x) ComponentBuildType
      \<and> (ComponentBuildType \<in> set (unversionedTypes y) \<longrightarrow> ComponentBuildType \<in> set (unversionedTypes x))"
    and "accepted (notifyPipelineRun env cb msg qty) x"
  shows "notify_owner x = obj_name cb"
proof -
  have "GVKForObject ComponentBuildType (scheme env) = Inr (WithKind SchemeGroupVersion ''ComponentBuild'')"
    by (rule AddToScheme_kind [OF assms(1-4)])
  then have "ownerOfKind ''componentbuild'' ''componentbuilds''
      (OwnerReferences (metadata (notifyPipelineRun env cb msg qty))) = obj_name cb"
    by (rule notifyPipelineRun_attributed) (simp add: WithKind_def)
  then show ?thesis using assms(5) by (auto simp: accepted_def notify_owner_def)
qed

theorem notification_attributed_witness:
  "notify_owner (notifyPipelineRun test_env new_build ''message'' 1) = ''test''"
proof -
  let ?x = "notifyPipelineRun test_env new_build ''message'' 1"
  let ?s = "the (jvmbs_AddToScheme NewScheme)"
  have s: "AddToScheme (\<lambda>gv. Some) ?s = Some (scheme test_env)"
    "map_of (typeToGVK ?s) ComponentBuildType = None"
    "ComponentBuildType \<notin> set (unversionedTypes ?s)"
    by (code_simp, code_simp, code_simp)
  have "GenerateName (metadata ?x) \<noteq> ''''" by code_simp
  then have "accepted ?x ?x" unfolding accepted_def by (intro exI [of _ "metadata ?x"]) simp
  from notification_attributed [OF s _ this] show ?thesis
    by (simp add: new_build_def test_componentBuild_def meta_of_def)
qed

text \<open>
  C16. A request is for the component build of its name, else the artifact build, else the task run,
  else the pipeline run, else nothing: the handler that runs on the fake client is the first of these.
\<close>

theorem Reconcile_dispatch:
  "run_state (Reconcile env fake_client k) t =
     (case map_of (componentBuildObjs t) k of
        Some cb \<Rightarrow> run_state (handleComponentBuildReceived env fake_client cb) t
      | None \<Rightarrow>
     (case map_of (artifactBuildObjs t) k of
        Some abr \<Rightarrow> run_state (handleArtifactBuildReceived env fake_client abr) t
      | None \<Rightarrow>
     (case map_of (taskRunObjs t) k of
        Some tr \<Rightarrow> run_state (handleTaskRunReceived env fake_client tr) t
      | None \<Rightarrow>
     (case map_of (pipelineRunObjs t) k of
        Some pr \<Rightarrow> run_state (handlePipelineRunReceived env fake_client pr) t
      | None \<Rightarrow> ((emptyResult, None), t)))))"
  by (rule Reconcile_on_fake)

text \<open>
  C17. A finished deploy task that succeeded marks its dependency build as deployed: afterwards the
  stored dependency build is the old one with the annotation, under the next version, and no other
  dependency build has changed.
\<close>

theorem finished_deploy_marks:
  assumes "finished_deploy tr owner" and "IsTrue (trSucceeded tr)"
    and "map_of (artifactBuildObjs t) (NamespacedName (obj_ns tr) owner) = Some abr"
    and "dependency_of (fake_cluster t) abr = Some db"
    and "map_of (dependencyBuildObjs t) (obj_key db) = Some db" and "obj_name db \<noteq> ''''"
    and "ParseUint64 (ResourceVersion (metadata db)) = Some v" and "DeletionTimestamp (metadata db) = None"
  shows "map_of (dependencyBuildObjs (snd (run_state (handleTaskRunReceived env fake_client tr) t)))
           = (map_of (dependencyBuildObjs t))
               (obj_key db \<mapsto> SetResourceVersion (FormatUint (v + 1)) (markDeployed db))
    \<and> is_deployed (Some (markDeployed db))"
proof
  show "map_of (dependencyBuildObjs (snd (run_state (handleTaskRunReceived env fake_client tr) t)))
           = (map_of (dependencyBuildObjs t))
               (obj_key db \<mapsto> SetResourceVersion (FormatUint (v + 1)) (markDeployed db))"
    by (rule handleTaskRunReceived_marks [OF assms])
  show "is_deployed (Some (markDeployed db))"
    by (simp add: is_deployed_def markDeployed_def Let_def)
qed

text \<open>The finished deploy task of the built artifact.\<close>

definition deploy_run :: TaskRun where
  "deploy_run = complete_TaskRun
     (SetName ''deploy-1'' (deployTaskRun test_env built_artifact built_dependency ''r'' ''o'' ''d''))"

theorem finished_deploy_marks_witness:
  "map_of (dependencyBuildObjs (snd (run_state (handleTaskRunReceived test_env fake_client deploy_run) built_tracker)))
     (test_key ''test-db'') = Some (SetResourceVersion (FormatUint (1 + 1)) (markDeployed built_dependency))"
proof -
  have "finished_deploy deploy_run ''com.test.test.1.0''" "IsTrue (trSucceeded deploy_run)"
    "map_of (artifactBuildObjs built_tracker) (NamespacedName (obj_ns deploy_run) ''com.test.test.1.0'')
       = Some built_artifact"
    "dependency_of (fake_cluster built_tracker) built_artifact = Some built_dependency"
    "map_of (dependencyBuildObjs built_tracker) (obj_key built_dependency) = Some built_dependency"
    "obj_name built_dependency \<noteq> ''''"
    "ParseUint64 (ResourceVersion (metadata built_dependency)) = Some 1"
    "DeletionTimestamp (metadata built_dependency) = None"
    by (code_simp, code_simp, code_simp, code_simp, code_simp, code_simp, code_simp, code_simp)
  from finished_deploy_marks [OF this] show ?thesis using built_meta(2) by simp
qed

text \<open>
  C18. Under any client, a task run marks a dependency build only when it is finished, carries the
  label of a deploy task, has succeeded and names an owning artifact build.
\<close>

theorem marks_only_after_success:
  assumes "api_client cl ab"
    and "dependencyBuilds (ab (snd (run_state (handleTaskRunReceived env cl tr) s)))
      \<noteq> dependencyBuilds (ab s)"
  shows "trCompletionTime tr \<noteq> None \<and> gm_get (Labels (metadata tr)) DeployTaskLabel \<noteq> ''''
    \<and> IsTrue (trSucceeded tr)
    \<and> ownerOfKind ''artifactbuild'' ''artifactbuilds'' (OwnerReferences (metadata tr)) \<noteq> ''''"
  using api_client.handleTaskRunReceived_marks_only [OF assms] .

theorem marks_only_after_success_witness:
  "trCompletionTime deploy_run \<noteq> None \<and> gm_get (Labels (metadata deploy_run)) DeployTaskLabel \<noteq> ''''
    \<and> IsTrue (trSucceeded deploy_run)
    \<and> ownerOfKind ''artifactbuild'' ''artifactbuilds'' (OwnerReferences (metadata deploy_run)) \<noteq> ''''"
proof (rule marks_only_after_success [OF fake_is_client])
  let ?t = "snd (run_state (handleTaskRunReceived test_env fake_client deploy_run) built_tracker)"
  have "\<not> is_deployed (map_of (dependencyBuildObjs built_tracker) (test_key ''test-db''))"
    "is_deployed (map_of (dependencyBuildObjs ?t) (test_key ''test-db''))"
    by (code_simp, code_simp)
  then show "dependencyBuilds (fake_cluster ?t) \<noteq> dependencyBuilds (fake_cluster built_tracker)"
    by (metis cluster.select_convs(7) fake_cluster_def)
qed

text \<open>
  C19. With reliable reads, a finished notification without an error has found its component build.
  If it succeeded, nothing has changed but that build's flag; otherwise the build has been handled
  as by an event of its own.
\<close>

theorem finished_notification_exact:
  assumes "reliable_client cl ab" and "notification_finished pr"
    and "snd (fst (run_state (handlePipelineRunReceived env cl pr) s)) = None"
  shows "let c' = ab (snd (run_state (handlePipelineRunReceived env cl pr) s)) in
    \<exists>cb. componentBuilds (ab s) (NamespacedName (obj_ns pr) (notify_owner pr)) = Some cb \<and>
      (if IsTrue (prSucceeded pr)
       then \<exists>m. c' = (ab s)\<lparr>componentBuilds := m\<rparr> \<and> status_updated (componentBuilds (ab s))
              (cb\<lparr>cbStatus := (cbStatus cb)\<lparr>ResultNotified := True\<rparr>\<rparr>) m
       else handled env cb (ab s) c')"
  using reliable_client.handlePipelineRunReceived_exact [OF assms(1,2), of env] assms(3)
  by (auto simp: writes_def prod_eq_iff Let_def)

definition notify_run :: PipelineRun where
  "notify_run = finish_PipelineRun
     (SetName ''notify-1'' (notifyPipelineRun test_env new_build ''message'' 1))"

theorem finished_notification_exact_witness:
  "\<exists>m. fake_cluster (snd (run_state (handlePipelineRunReceived test_env fake_client notify_run) failed_tracker))
       = (fake_cluster failed_tracker)\<lparr>componentBuilds := m\<rparr>
     \<and> status_updated (componentBuilds (fake_cluster failed_tracker))
         ((stored new_build)\<lparr>cbStatus := (cbStatus (stored new_build))\<lparr>ResultNotified := True\<rparr>\<rparr>) m"
proof -
  have f: "notification_finished notify_run"
    "snd (fst (run_state (handlePipelineRunReceived test_env fake_client notify_run) failed_tracker)) = None"
    "IsTrue (prSucceeded notify_run)"
    "NamespacedName (obj_ns notify_run) (notify_owner notify_run) = test_key ''test''"
    by (code_simp, code_simp, code_simp, code_simp)
  have "componentBuilds (fake_cluster failed_tracker) (test_key ''test'') = Some (stored new_build)"
    by (simp add: failed_tracker_def start_tracker_def with_build_def test_key_def new_build_def
        test_componentBuild_def meta_of_def)
  then show ?thesis
    using finished_notification_exact [OF fake_is_reliable f(1,2)] unfolding f(4) by (simp add: f(3) Let_def)
qed

text \<open>
  C21. The success of a notification pipeline silences whatever result the component build has when
  it finishes, also one reached while the pipeline was running, since nothing is asked about what the
  pipeline reported: the build is marked as notified with its state as it is, and the next call of
  its handler without an error, with reliable reads, creates no pipeline run.
\<close>

theorem stale_notification_silences:
  assumes "reliable_client cl ab" and "keyed (ab s)"
    and "notification_finished pr" and "IsTrue (prSucceeded pr)"
    and "componentBuilds (ab s) (NamespacedName (obj_ns pr) (notify_owner pr)) = Some cb"
    and "run_state (handlePipelineRunReceived env cl pr) s = ((res, None), s1)"
    and "componentBuilds (ab s1) (obj_key cb) = Some cb1"
    and "run_state (handleComponentBuildReceived env cl cb1) s1 = ((res1, None), s2)"
  shows "ResultNotified (cbStatus cb1) \<and> State (cbStatus cb1) = State (cbStatus cb)
    \<and> pipelineRuns (ab s2) = pipelineRuns (ab s)"
proof -
  obtain m where m: "ab s1 = (ab s)\<lparr>componentBuilds := m\<rparr>"
    "status_updated (componentBuilds (ab s)) (cb\<lparr>cbStatus := (cbStatus cb)\<lparr>ResultNotified := True\<rparr>\<rparr>) m"
    using reliable_client.handlePipelineRunReceived_exact [OF assms(1,3), of env] assms(4-6)
    by (fastforce simp: writes_def)
  then have st: "cbStatus cb1 = (cbStatus cb)\<lparr>ResultNotified := True\<rparr>"
    using assms(7) by (auto simp: status_updated_def)
  then have "\<not> must_notify env (ab s1) cb1"
    by (simp add: must_notify_def result_ready_def)
  then have "pipelineRuns (ab s2) = pipelineRuns (ab s1)"
    using reliable_client.handleComponentBuildReceived_notifies [OF assms(1), of env cb1] assms(8)
    by (fastforce simp: writes_def)
  with st m(1) show ?thesis by simp
qed

text \<open>
  The pipeline that reported the failure of an artifact finishes when the artifact is built and
  deployed and the component build is complete.
\<close>

definition complete_build :: ComponentBuild where
  "complete_build = (stored new_build)\<lparr>cbStatus := test_status\<lparr>State := ComponentBuildStateComplete,
     ArtifactStates := Some [(''com.test:test:1.0'',
       \<lparr>ArtifactBuildName = ''com.test.test.1.0'', Built = True, Deployed = True, Failed = False\<rparr>)]\<rparr>\<rparr>"

definition complete_tracker :: tracker where
  "complete_tracker = built_tracker\<lparr>componentBuildObjs := [(test_key ''test'', complete_build)],
     dependencyBuildObjs := [(test_key ''test-db'', markDeployed built_dependency)]\<rparr>"

definition stale_run :: PipelineRun where
  "stale_run = finish_PipelineRun (SetName ''notify-1''
     (notifyPipelineRun test_env new_build (failureMessage [''com.test:test:1.0'']) 1))"

definition after_stale :: tracker where
  "after_stale = snd (run_state (handlePipelineRunReceived test_env fake_client stale_run) complete_tracker)"

definition silenced :: ComponentBuild where
  "silenced = the (map_of (componentBuildObjs after_stale) (test_key ''test''))"

lemma complete_keyed: "keyed (fake_cluster complete_tracker)"
proof -
  have "obj_key (markDeployed built_dependency) = test_key ''test-db''" "obj_key complete_build = test_key ''test''"
    by (code_simp, code_simp)
  then show ?thesis
    using built_keyed by (simp add: keyed_def complete_tracker_def)
qed

theorem stale_notification_silences_witness:
  "StringVal (prParams stale_run ! 2) = failureMessage [''com.test:test:1.0'']
   \<and> must_notify test_env (fake_cluster complete_tracker) complete_build
   \<and> ResultNotified (cbStatus silenced) \<and> State (cbStatus silenced) = ComponentBuildStateComplete
   \<and> pipelineRuns (fake_cluster (snd (run_state
         (handleComponentBuildReceived test_env fake_client silenced) after_stale)))
     = pipelineRuns (fake_cluster complete_tracker)"
proof -
  let ?s2 = "snd (run_state (handleComponentBuildReceived test_env fake_client silenced) after_stale)"
  have k: "obj_key complete_build = test_key ''test''"
    "NamespacedName (obj_ns stale_run) (notify_owner stale_run) = test_key ''test''"
    by (code_simp, code_simp)
  have pr: "notification_finished stale_run" "IsTrue (prSucceeded stale_run)"
    by (code_simp, code_simp)
  have cb: "componentBuilds (fake_cluster complete_tracker) (test_key ''test'') = Some complete_build"
    by (simp add: complete_tracker_def)
  have r1: "run_state (handlePipelineRunReceived test_env fake_client stale_run) complete_tracker
      = ((emptyResult, None), after_stale)"
    unfolding after_stale_def by (rule run_no_error) code_simp
  have "map_of (componentBuildObjs after_stale) (test_key ''test'') \<noteq> None" by code_simp
  then have cb1: "componentBuilds (fake_cluster after_stale) (obj_key complete_build) = Some silenced"
    by (auto simp: silenced_def k)
  have r2: "run_state (handleComponentBuildReceived test_env fake_client silenced) after_stale
      = ((emptyResult, None), ?s2)"
    by (rule run_no_error) code_simp
  have "configured (fake_cluster complete_tracker) (obj_ns complete_build)"
    "result_ready test_env (fake_cluster complete_tracker) complete_build"
    "PRURL (cbSpec complete_build) \<noteq> ''''" "pipelineRunObjs complete_tracker = []"
    by (code_simp, code_simp, code_simp, code_simp)
  then have "must_notify test_env (fake_cluster complete_tracker) complete_build"
    by (simp add: must_notify_def notify_due_def selected_def)
  moreover have "StringVal (prParams stale_run ! 2) = failureMessage [''com.test:test:1.0'']"
    "State (cbStatus complete_build) = ComponentBuildStateComplete"
    by (code_simp, code_simp)
  ultimately show ?thesis
    using stale_notification_silences [OF fake_is_reliable complete_keyed pr cb [folded k(2)] r1 cb1 r2]
    by simp
qed

section \<open>Starting the program\<close>

text \<open>
  C22. The selector that is to restrict the cache of task runs to deploy tasks restricts nothing: in
  the options of a manager that has started it is there, and every object passes it.
\<close>

theorem task_run_cache_unrestricted:
  assumes "NewManager ticks getCRD k j p agv mk setup options = Started (mgr, options')"
  shows "\<exists>sel. map_of (SelectorsByObject options') TaskRunKind = Some (Some sel)
    \<and> (\<forall>ls. SelectorMatches sel ls)"
  using NewManager_selectors [OF assms] .

text \<open>A start in which the CRD appears at the third look and all other calls succeed.\<close>

definition test_start :: "(unit \<times> Options) startup" where
  "test_start =
     NewManager 5 (\<lambda>n. if n < 2 then Some (OtherError ''no CRD'') else None) Inr
       (\<lambda>s. case jvmbs_AddToScheme s of None \<Rightarrow> Inl (OtherError ''registration'') | Some s' \<Rightarrow> Inr s')
       Inr (\<lambda>gv. Some) (\<lambda>opts. Inr ()) (\<lambda>_. None) (managerOptions defaultFlags)"

lemma test_start_started: "\<exists>opts. test_start = Started ((), opts)"
proof -
  have "case test_start of Started (mgr, opts) \<Rightarrow> True | _ \<Rightarrow> False" by code_simp
  then show ?thesis by (auto split: startup.splits)
qed

theorem task_run_cache_unrestricted_witness:
  "\<exists>opts sel. test_start = Started ((), opts)
    \<and> map_of (SelectorsByObject opts) TaskRunKind = Some (Some sel) \<and> (\<forall>ls. SelectorMatches sel ls)"
proof -
  from test_start_started obtain opts where opts: "test_start = Started ((), opts)" by blast
  from task_run_cache_unrestricted [OF this [unfolded test_start_def]] opts show ?thesis by blast
qed

text \<open>
  C23. A manager starts only after the CRD was seen, with a scheme on which the three libraries'
  registrations and the group's own have succeeded in their order, and with the caller's leader
  election.
\<close>

theorem manager_starts_after_crd:
  assumes "NewManager ticks getCRD k j p agv mk setup options = Started (mgr, options')"
  shows "(\<exists>i \<le> ticks + 1. getCRD i = None) \<and> mk options' = Inr mgr \<and> setup mgr = None
    \<and> (\<exists>s1 s2 s3. k NewScheme = Inr s1 \<and> j s1 = Inr s2 \<and> p s2 = Inr s3
         \<and> AddToScheme agv s3 = Some (optScheme options'))
    \<and> LeaderElectionID options' = LeaderElectionID options"
  using NewManager_started [OF assms] .

theorem manager_starts_after_crd_witness:
  "\<exists>i \<le> 5 + 1. (if i < (2::nat) then Some (OtherError ''no CRD'') else None) = None"
proof -
  from test_start_started obtain opts where "test_start = Started ((), opts)" by blast
  from manager_starts_after_crd [OF this [unfolded test_start_def]] show ?thesis by blast
qed

text \<open>
  C24. Waiting for the CRD ends: it takes at least one and at most two lookups more than there are
  ticks, and it succeeds exactly when one of these finds the CRD.
\<close>

theorem crd_polling_ends:
  "0 < snd (PollImmediate ticks (crdCondition getCRD))
   \<and> snd (PollImmediate ticks (crdCondition getCRD)) \<le> ticks + 2
   \<and> (fst (PollImmediate ticks (crdCondition getCRD)) = None \<longleftrightarrow> (\<exists>i \<le> ticks + 1. getCRD i = None))"
  using PollImmediate_calls [of ticks "crdCondition getCRD"] PollImmediate_crd by blast

theorem crd_polling_ends_witness:
  "fst (PollImmediate 3 (crdCondition (\<lambda>n. if n = 4 then None else Some (OtherError ''no CRD'')))) = None"
  using crd_polling_ends [of 3 "\<lambda>n. if n = 4 then None else Some (OtherError ''no CRD'')"] by auto

section \<open>The fake client\<close>

text \<open>
  The in-memory client of the tests keeps the contract the reconciler is verified against: its
  reads are exact, its lists complete, and its writes have the documented effect.
\<close>

theorem fake_client_keeps_contract: "reliable_client fake_client fake_cluster"
  by (rule fake.reliable_client_axioms)

text \<open>
  An update of a stored object goes through exactly when it carries the stored version: then the
  object is stored under the next version, modulo 2^64, which can be parsed again; under any other
  version it is rejected as a conflict.
\<close>

theorem update_needs_current_version:
  assumes "map_of objs (obj_key old) = Some old" and "obj_name old \<noteq> ''''"
    and "obj_key obj = obj_key old" and "ParseUint64 (ResourceVersion (metadata old)) = Some v"
    and "DeletionTimestamp (metadata obj) = None"
  shows "versioned_Update gr objs obj =
     (if ResourceVersion (metadata obj) = ResourceVersion (metadata old)
      then Inr (AList.update (obj_key old) (SetResourceVersion (FormatUint (v + 1)) obj) objs,
                SetResourceVersion (FormatUint (v + 1)) obj)
      else Inl (NewConflict gr (obj_name obj) (OtherError ''object was modified'')))
    \<and> ParseUint64 (ResourceVersion (metadata (SetResourceVersion (FormatUint (v + 1)) obj))) = Some (v + 1)"
proof
  show "versioned_Update gr objs obj =
     (if ResourceVersion (metadata obj) = ResourceVersion (metadata old)
      then Inr (AList.update (obj_key old) (SetResourceVersion (FormatUint (v + 1)) obj) objs,
                SetResourceVersion (FormatUint (v + 1)) obj)
      else Inl (NewConflict gr (obj_name obj) (OtherError ''object was modified'')))"
    using versioned_Update_current [OF assms(1-3) _ assms(4,5), of gr]
      versioned_Update_stale [of objs obj old gr] assms(1-3) by simp
  show "ParseUint64 (ResourceVersion (metadata (SetResourceVersion (FormatUint (v + 1)) obj))) = Some (v + 1)"
    by (simp add: SetResourceVersion_def ParseUint64_FormatUint)
qed

theorem update_needs_current_version_witness:
  "ParseUint64 (ResourceVersion (metadata (SetResourceVersion (FormatUint (18446744073709551615 + 1)) new_build)))
     = Some 0"
proof -
  let ?old = "SetResourceVersion (FormatUint 18446744073709551615) new_build"
  have n: "obj_name new_build = ''test''" "DeletionTimestamp (metadata new_build) = None"
    by (simp_all add: SetResourceVersion_def new_build_def test_componentBuild_def meta_of_def empty_meta_def)
  have m: "map_of [(obj_key ?old, ?old)] (obj_key ?old) = Some ?old" by simp
  have k: "obj_name ?old \<noteq> ''''" "obj_key new_build = obj_key ?old"
    by (simp_all add: n)
  have v: "ParseUint64 (ResourceVersion (metadata ?old)) = Some 18446744073709551615"
    by (simp add: SetResourceVersion_def ParseUint64_FormatUint)
  from update_needs_current_version [OF m k v n(2), THEN conjunct2] show ?thesis by simp
qed

text \<open>Versions survive printing and parsing.\<close>

theorem version_round_trip: "ParseUint64 (FormatUint w) = Some w"
  by (rule ParseUint64_FormatUint)

text \<open>
  A list is sorted by namespace and name and shows each matching object of the namespace exactly
  once.
\<close>

theorem fake_list_sorted_complete:
  "let xs = FilterWithLabels sel (filterByNamespace objs ns) in
     sorted (map (\<lambda>x. obj_key x) xs)
     \<and> (\<exists>ks. distinct ks \<and> xs = map (\<lambda>k. the (map_of objs k)) ks
          \<and> set ks = {k. \<exists>x. map_of objs k = Some x \<and> (ns = '''' \<or> obj_ns x = ns)
                          \<and> SelectorMatches sel (Labels (metadata x))})"
  using tracker_List_ok [of sel ns objs] fake_list_sorted [of sel objs ns]
  by (auto simp: list_ok_def selected_def Let_def)

text \<open>
  What a selector selects: one made from a set of labels and extended by requirements matches
  the objects that carry these labels with these values and meet the requirements, in whatever order
  the labels were given.
\<close>

theorem selector_selects:
  "SelectorMatches (Add n (SelectorFromSet kvs) reqs) ls \<longleftrightarrow>
     (\<forall>(k, v) \<in> set kvs. gm_lookup ls k = Some v) \<and> (\<forall>r \<in> set reqs. RequirementMatches r ls)"
  by (simp add: SelectorMatches_Add SelectorFromSet_matches)

theorem selector_selects_witness:
  "SelectorMatches (Add 0 (SelectorFromSet [(''a'', ''1'')]) []) (Some [(''b'', ''2''), (''a'', ''1'')])
   \<and> \<not> SelectorMatches (Add 0 (SelectorFromSet [(''a'', ''1'')]) []) (Some [(''a'', ''2'')])"
  unfolding selector_selects by simp

section \<open>The handler succeeds\<close>

text \<open>
  C29. On the in-memory client the handler of a component build succeeds whenever it can: if the stored
  object is the one handled, the deployment is configured, the names of the artifact builds are not
  empty and there are enough unused names for the runs, then it returns no error, stores exactly the
  status that the phases of the artifacts determine, under the next version, and leaves every artifact
  with an artifact build and every built one with nothing left to deploy now.
\<close>

theorem handler_succeeds:
  assumes "ready env t cb"
  shows "\<exists>t'. run_state (handleComponentBuildReceived env fake_client cb) t = ((emptyResult, None), t')
     \<and> componentBuilds (fake_cluster t')
         = (componentBuilds (fake_cluster t))(obj_key cb \<mapsto> restated env (fake_cluster t) cb)
     \<and> (\<forall>i \<in> set (Artifacts (cbSpec cb)). served env (obj_ns cb) (fake_cluster t') i)"
  by (rule handleComponentBuildReceived_total [OF assms])

theorem handler_succeeds_witness:
  "\<exists>t' cb'. run_state (handleComponentBuildReceived test_env fake_client (stored new_build)) start_tracker
       = ((emptyResult, None), t')
     \<and> componentBuilds (fake_cluster t') (test_key ''test'') = Some cb'
     \<and> ResourceVersion (metadata cb') = ''2'' \<and> Outstanding (cbStatus cb') = 1
     \<and> served test_env ''default'' (fake_cluster t') ''com.test:test:1.0''"
proof -
  have r: "ready test_env start_tracker (stored new_build)" by code_simp
  have k: "obj_key (stored new_build) = test_key ''test''" "obj_ns (stored new_build) = ''default''"
    "Artifacts (cbSpec (stored new_build)) = [''com.test:test:1.0'']" by code_simp+
  have n: "ResourceVersion (metadata (restated test_env (fake_cluster start_tracker) (stored new_build))) = ''2''"
    "Outstanding (cbStatus (restated test_env (fake_cluster start_tracker) (stored new_build))) = 1"
    by code_simp+
  from handler_succeeds [OF r] k n show ?thesis by auto
qed

section \<open>The API types\<close>

text \<open>
  C30. A deep copy of a component build has the contents of its original and shares no memory with it,
  neither in the specification and the status nor in the metadata (labels, annotations, owner
  references with their flags, finalizers, times, managed fields): whatever is written to the memory
  the one reaches leaves the other as it was.
\<close>

theorem deep_copy_independent:
  assumes "valid h" and "defined_in h x"
  shows "\<exists>h' y. run_state (ComponentBuild_DeepCopyObject (Some x)) h = (Some y, h')
     \<and> build_value h' y = build_value h x \<and> build_value h' x = build_value h x
     \<and> build_refs h' x \<inter> build_refs h' y = {}
     \<and> (\<forall>h''. overwrite (build_refs h' y) h' h'' \<longrightarrow> build_value h'' x = build_value h x)
     \<and> (\<forall>h''. overwrite (build_refs h' x) h' h'' \<longrightarrow> build_value h'' y = build_value h x)"
proof -
  from build.independent [OF assms(1) assms(2) [unfolded defined_in_def]] obtain h' y where
    run: "run_state (ComponentBuild_DeepCopyInto x) h = (y, h')" and
    i: "shValue build_shape h' y = shValue build_shape h x"
      "shValue build_shape h' x = shValue build_shape h x"
      "shRefs build_shape h' x \<inter> shRefs build_shape h' y = {}"
      "\<forall>h''. (\<forall>a. a \<notin> shRefs build_shape h' y \<longrightarrow> cells h'' a = cells h' a)
         \<longrightarrow> shValue build_shape h'' x = shValue build_shape h x"
      "\<forall>h''. (\<forall>a. a \<notin> shRefs build_shape h' x \<longrightarrow> cells h'' a = cells h' a)
         \<longrightarrow> shValue build_shape h'' y = shValue build_shape h x"
    by blast
  show ?thesis
    unfolding build_value_def build_refs_def overwrite_def
    by (intro exI [of _ h'] exI [of _ y] conjI i) (simp add: DeepCopyObject_run run)
qed

text \<open>
  A memory with one component build: its artifacts and states, a label, and an owner reference with
  the flag that says it controls the object.
\<close>

definition test_owner :: GoOwnerReference where
  "test_owner = zero_owner\<lparr>orName := ''owner'', orController := Some 4\<rparr>"

definition test_build :: GoComponentBuild where
  "test_build = zero_build\<lparr>goMeta := zero_meta\<lparr>omLabels := Some 2, omOwnerReferences := Some 3\<rparr>,
     goSpec := (goSpec zero_build)\<lparr>goArtifacts := Some 0\<rparr>,
     goStatus := (goStatus zero_build)\<lparr>goArtifactState := Some 1\<rparr>\<rparr>"

definition test_memory :: memory where
  "test_memory = \<lparr>cells = (\<lambda>_. None)(0 \<mapsto> StringArray [''com.test:test:1.0''], 1 \<mapsto> StateMap [],
     2 \<mapsto> StringMap [(''app'', ''test'')], 3 \<mapsto> OwnerArray [test_owner], 4 \<mapsto> BoolCell True,
     5 \<mapsto> BuildArray [test_build]), next_addr = 6, orders = []\<rparr>"

lemmas build_shapes =
  build_shape_def meta_shape_def spec_shape_def status_shape_def owner_shape_def struct_def both_def
  referred_def elements_def entries_def plain_def load_def cell_kinds

lemma test_memory_valid: "valid test_memory" "defined_in test_memory test_build"
  by (auto simp: test_memory_def valid_def split: if_splits)
    (simp add: defined_in_def build_shapes test_memory_def test_build_def zero_build_def zero_meta_def
      test_owner_def zero_owner_def)

theorem deep_copy_independent_witness:
  "\<exists>h' y. run_state (ComponentBuild_DeepCopyObject (Some test_build)) test_memory = (Some y, h')
     \<and> build_value h' y = build_value test_memory test_build \<and> 2 \<in> build_refs h' test_build
     \<and> 2 \<notin> build_refs h' y"
proof -
  have "2 \<in> build_refs h test_build" for h
    using build_refs_direct [of test_build h] by (simp add: test_build_def zero_build_def zero_meta_def)
  with deep_copy_independent [OF test_memory_valid] show ?thesis by blast
qed

text \<open>
  C34. The same for a list of component builds: the copy has a new array with a copy of every item, in
  order, and a new counter of the items that are left on the server, and shares no memory with the list
  it was made from.
\<close>

theorem deep_copy_list:
  assumes "valid h" and "list_defined_in h x"
  shows "\<exists>h' y. run_state (ComponentBuildList_DeepCopyObject (Some x)) h = (Some y, h')
     \<and> list_value h' y = list_value h x \<and> list_value h' x = list_value h x
     \<and> list_refs h' x \<inter> list_refs h' y = {}
     \<and> (\<forall>h''. overwrite (list_refs h' y) h' h'' \<longrightarrow> list_value h'' x = list_value h x)
     \<and> (\<forall>h''. overwrite (list_refs h' x) h' h'' \<longrightarrow> list_value h'' y = list_value h x)"
proof -
  from buildlist.independent [OF assms(1) assms(2) [unfolded list_defined_in_def]] obtain h' y where
    run: "run_state (ComponentBuildList_DeepCopyInto x) h = (y, h')" and
    i: "shValue list_shape h' y = shValue list_shape h x"
      "shValue list_shape h' x = shValue list_shape h x"
      "shRefs list_shape h' x \<inter> shRefs list_shape h' y = {}"
      "\<forall>h''. (\<forall>a. a \<notin> shRefs list_shape h' y \<longrightarrow> cells h'' a = cells h' a)
         \<longrightarrow> shValue list_shape h'' x = shValue list_shape h x"
      "\<forall>h''. (\<forall>a. a \<notin> shRefs list_shape h' x \<longrightarrow> cells h'' a = cells h' a)
         \<longrightarrow> shValue list_shape h'' y = shValue list_shape h x"
    by blast
  show ?thesis
    unfolding list_value_def list_refs_def overwrite_def
    by (intro exI [of _ h'] exI [of _ y] conjI i) (simp add: DeepCopyObject_run run)
qed

definition test_list :: GoComponentBuildList where
  "test_list = \<lparr>goListTypeMeta = \<lparr>tmKind = '''', tmAPIVersion = ''''\<rparr>, goListMeta =
     \<lparr>glSelfLink = '''', glResourceVersion = '''', glContinue = '''', glRemainingItemCount = None\<rparr>,
     goItems = Some 5\<rparr>"

theorem deep_copy_list_witness:
  "\<exists>h' y. run_state (ComponentBuildList_DeepCopyObject (Some test_list)) test_memory = (Some y, h')
     \<and> list_value h' y = list_value test_memory test_list \<and> 5 \<in> list_refs h' test_list
     \<and> 5 \<notin> list_refs h' y"
proof -
  have "list_defined_in test_memory test_list"
    using test_memory_valid(2)
    by (simp add: list_defined_in_def list_shape_def listmeta_shape_def test_list_def struct_def both_def
        referred_def elements_def test_memory_def load_def build_array_def defined_in_def)
  moreover have "5 \<in> list_refs h test_list" for h
    by (simp add: list_refs_def list_shape_def test_list_def struct_def both_def referred_def)
  ultimately show ?thesis using deep_copy_list [OF test_memory_valid(1), of test_list] by blast
qed

text \<open>
  Registering the types of a group makes each of them known under its kind, and registering them
  again changes nothing.
\<close>

theorem registration_idempotent:
  assumes "AddKnownTypes gv ts s = Some s'"
  shows "(\<forall>t \<in> set ts. registered_as (WithKind gv (goTypeName t)) t s') \<and> AddKnownTypes gv ts s' = Some s'"
  using AddKnownTypes_registers [OF assms] AddKnownTypes_idem [OF assms] by blast

theorem registration_idempotent_witness:
  "\<exists>s. registered_as (WithKind SchemeGroupVersion ''ComponentBuild'') ComponentBuildType s"
proof -
  have "AddKnownTypes SchemeGroupVersion [ComponentBuildType] NewScheme \<noteq> None" by code_simp
  then obtain s where "AddKnownTypes SchemeGroupVersion [ComponentBuildType] NewScheme = Some s" by blast
  from registration_idempotent [OF this] show ?thesis by (auto simp: ComponentBuildType_def)
qed

text \<open>
  Making an object the controller of another is idempotent: after a successful call the owned
  object's controller is the owner, and a second call changes nothing.
\<close>

theorem controller_reference_idempotent:
  assumes "SetControllerReference t own m sch = Inr m'" and "GVKForObject t sch = Inr gvk"
    and "CHR ''/'' \<notin> set (gvkGroup gvk)" and "CHR ''/'' \<notin> set (gvkVersion gvk)" and "gvkVersion gvk \<noteq> ''''"
  shows "SetControllerReference t own m' sch = Inr m'
    \<and> (\<exists>ref. GetControllerOf (OwnerReferences m') = Some ref \<and> OwnerName ref = Name own
        \<and> OwnerUID ref = UID own \<and> Kind ref = gvkKind gvk)"
  using SetControllerReference_again [OF assms] by blast

theorem controller_reference_idempotent_witness:
  "\<exists>m' ref. SetControllerReference ComponentBuildType (metadata new_build) m' test_scheme = Inr m'
    \<and> GetControllerOf (OwnerReferences m') = Some ref \<and> OwnerName ref = ''test''"
proof -
  have "\<not> isl (SetControllerReference ComponentBuildType (metadata new_build) (meta_of ''x'') test_scheme)"
    by code_simp
  then obtain m' where m': "SetControllerReference ComponentBuildType (metadata new_build) (meta_of ''x'') test_scheme
      = Inr m'" by (cases "SetControllerReference ComponentBuildType (metadata new_build) (meta_of ''x'') test_scheme") auto
  have g: "GVKForObject ComponentBuildType test_scheme
      = Inr (GroupVersionKind ''apheleia.io'' ''v1alpha1'' ''ComponentBuild'')" by code_simp
  from controller_reference_idempotent [OF m' g] show ?thesis
    by (auto simp: new_build_def test_componentBuild_def meta_of_def)
qed

text \<open>
  A finished deploy task without owners is reported by an event whose reason is the message's
  format and whose format is the namespace; nothing else happens.
\<close>

theorem ownerless_run_event:
  assumes "trCompletionTime tr \<noteq> None" and "gm_get (Labels (metadata tr)) DeployTaskLabel \<noteq> ''''"
    and "OwnerReferences (metadata tr) = []"
  shows "run_state (handleTaskRunReceived env fake_client tr) t =
     ((emptyResult, None),
      t\<lparr>events := events t @ [warning ''TaskRun'' (obj_key tr) ''taskrun missing onwerrefs %s:%s''
                                (obj_ns tr) [obj_name tr]]\<rparr>)"
  by (rule handleTaskRunReceived_no_owner [OF assms])

definition ownerless_run :: TaskRun where
  "ownerless_run = complete_TaskRun (empty_TaskRun\<lparr>metadata :=
     (meta_of ''run'')\<lparr>Labels := Some [(DeployTaskLabel, ''test-db'')]\<rparr>\<rparr>)"

theorem ownerless_run_event_witness:
  "map evMessageFmt (events (snd (run_state (handleTaskRunReceived test_env fake_client ownerless_run)
      test_tracker))) = [''default'']"
proof -
  have "trCompletionTime ownerless_run \<noteq> None" "gm_get (Labels (metadata ownerless_run)) DeployTaskLabel \<noteq> ''''"
    "OwnerReferences (metadata ownerless_run) = []"
    by (code_simp, code_simp, code_simp)
  from ownerless_run_event [OF this] show ?thesis
    by (simp add: warning_def test_tracker_def ownerless_run_def complete_TaskRun_def meta_of_def)
qed

end
